(* ===== verification/Prelude.thy ===== *)
theory Prelude
  imports Main "HOL-Library.Finite_Map" "HOL-Library.List_Lexorder" "HOL-Library.Char_ord"
    "HOL-Library.Word" "HOL-Library.Sublist"
begin

text \<open>
  Shared ground of the development: the type names used by every component, the
  errors that a Go call can end with, the two's complement arithmetic of Go's
  \<^verbatim>\<open>int\<close>, and the generic facts on finite maps, finite sets and sorted key lists that
  the component theories rely on.

  A Go string is a byte sequence, hence a \<^typ>\<open>string\<close>; Go compares strings
  byte by byte, which is the order of \<^verbatim>\<open>List_Lexorder\<close> over \<^verbatim>\<open>Char_ord\<close>.
  A Go map is a finite map.  A nil map and an empty map are not told apart: no
  modelled operation writes to a nil map.
  An instant (\<^verbatim>\<open>time.Time\<close>) is its number of nanoseconds since the Unix epoch.
\<close>

named_theorems store_simps \<open>defining equations of store operations\<close>
named_theorems go_eval \<open>equations that evaluate Go library functions\<close>

type_synonym time = int
type_synonym duration = int

subsection \<open>Errors\<close>

text \<open>
  The values a Go call returns in its error position.  \<^verbatim>\<open>ErrNotFound\<close>,
  \<^verbatim>\<open>ErrConflict\<close> and \<^verbatim>\<open>ErrInvalidArgument\<close> are the sentinel errors of
  package domain, \<^verbatim>\<open>API\<close> is a \<^verbatim>\<open>*domain.APIError\<close>, \<^verbatim>\<open>Plain\<close> is any other error
  (\<^verbatim>\<open>errors.New\<close>, \<^verbatim>\<open>fmt.Errorf\<close>, an error of a library), and \<^verbatim>\<open>Panic\<close> is a run-time
  panic: the call does not return.
\<close>

record APIError =
  Err_Code :: string
  Err_Message :: string
  Err_HTTPStatus :: int
  Err_Sender :: bool

datatype go_error =
    ErrNotFound
  | ErrConflict
  | ErrInvalidArgument
  | API APIError
  | Plain string
  | Panic string

type_synonym 'a res = "go_error + 'a"

fun is_err :: "'a res \<Rightarrow> bool" where
  "is_err (Inl e) = True"
| "is_err (Inr a) = False"

lemma is_err_iff: "is_err r \<longleftrightarrow> (\<exists>e. r = Inl e)"
  by (cases r) auto

subsection \<open>Machine integers\<close>

text \<open>\<^verbatim>\<open>int\<close> and \<^verbatim>\<open>time.Duration\<close> are 64 bit two's complement; arithmetic wraps.\<close>

definition wrap64 :: "int \<Rightarrow> int" where
  "wrap64 n = (n + 2 ^ 63) mod 2 ^ 64 - 2 ^ 63"

definition in_int64 :: "int \<Rightarrow> bool" where
  "in_int64 n \<longleftrightarrow> - (2 ^ 63) \<le> n \<and> n < 2 ^ 63"

lemma wrap64_id [simp]: "in_int64 n \<Longrightarrow> wrap64 n = n"
  by (simp add: wrap64_def in_int64_def)

lemma wrap64_in [simp]: "in_int64 (wrap64 n)"
  by (simp add: wrap64_def in_int64_def pos_mod_bound [of "2 ^ 64"] algebra_simps)

lemma in_int64_of_nat: "n < 2 ^ 63 \<Longrightarrow> in_int64 (int n)"
  unfolding in_int64_def by (simp flip: of_nat_power add: of_nat_less_numeral_power_cancel_iff)

subsection \<open>Finite maps\<close>

lemma fmlookup_fmfilter_Some [simp]:
  "fmlookup (fmfilter P m) k = Some v \<longleftrightarrow> P k \<and> fmlookup m k = Some v"
  by simp

lemma fmlookup_fmdrop_Some [simp]:
  "fmlookup (fmdrop k m) k' = Some v \<longleftrightarrow> k' \<noteq> k \<and> fmlookup m k' = Some v"
  by simp

lemma fmlookup_fmupd_Some:
  "fmlookup (fmupd k v m) k' = Some v' \<longleftrightarrow>
     (k' = k \<and> v' = v \<or> k' \<noteq> k \<and> fmlookup m k' = Some v')"
  by auto

text \<open>The entries whose value satisfies a predicate: what remains after a
  \<^verbatim>\<open>for k, v := range m { if drop(v) { delete(m, k) } }\<close> loop.\<close>

definition fmkeep :: "('v \<Rightarrow> bool) \<Rightarrow> ('k, 'v) fmap \<Rightarrow> ('k, 'v) fmap" where
  "fmkeep P m = fmfilter (\<lambda>k. case fmlookup m k of None \<Rightarrow> False | Some v \<Rightarrow> P v) m"

lemma fmlookup_fmkeep [simp]:
  "fmlookup (fmkeep P m) k =
     (case fmlookup m k of None \<Rightarrow> None | Some v \<Rightarrow> if P v then Some v else None)"
  by (auto simp: fmkeep_def split: option.splits)

lemma fmkeep_Some:
  "fmlookup (fmkeep P m) k = Some v \<longleftrightarrow> fmlookup m k = Some v \<and> P v"
  by (auto split: option.splits if_splits)

lemma fmdom_fmap_Some: "k |\<in>| fmdom m \<longleftrightarrow> (\<exists>v. fmlookup m k = Some v)"
  by (auto simp: fmlookup_dom_iff)

subsection \<open>Sorted keys\<close>

text \<open>\<^verbatim>\<open>keys\<close> of a Go map collected by \<^verbatim>\<open>range\<close> and passed to \<^verbatim>\<open>sort.Strings\<close>.\<close>

definition sorted_keys :: "('k::linorder, 'v) fmap \<Rightarrow> 'k list" where
  "sorted_keys m = sorted_list_of_fset (fmdom m)"

lemma set_sorted_keys [simp]: "set (sorted_keys m) = fset (fmdom m)"
  by (simp add: sorted_keys_def)

lemma in_sorted_keys: "k \<in> set (sorted_keys m) \<longleftrightarrow> fmlookup m k \<noteq> None"
  by (auto simp: fmlookup_dom_iff)

lemma sorted_sorted_keys [simp]: "sorted (sorted_keys m)"
  by (simp add: sorted_keys_def sorted_list_of_fset.rep_eq)

lemma distinct_sorted_keys [simp]: "distinct (sorted_keys m)"
  by (simp add: sorted_keys_def sorted_list_of_fset.rep_eq)

lemma sorted_keys_unique:
  assumes "sorted xs" "distinct xs" "set xs = fset (fmdom m)"
  shows "xs = sorted_keys m"
  using assms by (intro sorted_distinct_set_unique) auto

end
