(* ===== verification/Go_Strings.thy ===== *)
theory Go_Strings
  imports Prelude
begin

text \<open>
  The parts of the Go standard library the emulator calls on strings: package
  \<^verbatim>\<open>strings\<close> (trimming, prefixes, splitting, case folding), \<^verbatim>\<open>strconv\<close> (decimal
  integers), \<^verbatim>\<open>encoding/hex\<close> and the unpadded URL alphabet of \<^verbatim>\<open>encoding/base64\<close>.
  Encoders and decoders share the contract \<open>codec\<close>; each pair is an interpretation of
  it, so injectivity and the round trip are available under one name.

  Case folding is exact whenever one of the compared strings is ASCII (the two
  non-ASCII runes that fold to ASCII letters, U+212A and U+017F, are handled);
  two strings that differ in the case of other non-ASCII letters are kept apart.
\<close>

subsection \<open>The contract of an encoder and its decoder\<close>

locale codec =
  fixes enc :: "'a \<Rightarrow> 'b"
    and dec :: "'b \<Rightarrow> 'a option"
    and valid :: "'a \<Rightarrow> bool"
  assumes roundtrip: "valid x \<Longrightarrow> dec (enc x) = Some x"
begin

lemma enc_inj: "valid x \<Longrightarrow> valid y \<Longrightarrow> enc x = enc y \<Longrightarrow> x = y"
  by (metis option.inject roundtrip)

lemma enc_inj_on: "inj_on enc {x. valid x}"
  by (auto intro: inj_onI enc_inj)

lemma dec_enc_image: "valid x \<Longrightarrow> dec y = None \<Longrightarrow> y \<noteq> enc x"
  using roundtrip by fastforce

end

subsection \<open>Prefixes, suffixes, trimming\<close>

definition HasPrefix :: "string \<Rightarrow> string \<Rightarrow> bool" where
  "HasPrefix s p \<longleftrightarrow> take (length p) s = p"

definition HasSuffix :: "string \<Rightarrow> string \<Rightarrow> bool" where
  "HasSuffix s p \<longleftrightarrow> length p \<le> length s \<and> drop (length s - length p) s = p"

definition TrimPrefix :: "string \<Rightarrow> string \<Rightarrow> string" where
  "TrimPrefix s p = (if HasPrefix s p then drop (length p) s else s)"

definition TrimSuffix :: "string \<Rightarrow> string \<Rightarrow> string" where
  "TrimSuffix s p = (if HasSuffix s p then take (length s - length p) s else s)"

text \<open>\<^verbatim>\<open>strings.TrimRight(s, cutset)\<close> with a cutset of one ASCII character.\<close>

definition TrimRight :: "string \<Rightarrow> char \<Rightarrow> string" where
  "TrimRight s c = rev (dropWhile (\<lambda>x. x = c) (rev s))"

lemma HasPrefix_append [simp]: "HasPrefix (p @ s) p"
  by (simp add: HasPrefix_def)

lemma HasSuffix_append [simp]: "HasSuffix (s @ p) p"
  by (simp add: HasSuffix_def)

lemma HasPrefix_iff: "HasPrefix s p \<longleftrightarrow> (\<exists>r. s = p @ r)"
  unfolding HasPrefix_def by (metis append_eq_conv_conj append_take_drop_id)

lemma HasSuffix_iff: "HasSuffix s p \<longleftrightarrow> (\<exists>r. s = r @ p)"
  unfolding HasSuffix_def by (metis append_eq_append_conv append_take_drop_id diff_diff_cancel
    diff_is_0_eq diff_le_self drop0 length_append length_drop le_add2)

text \<open>
  The UTF-8 encodings of the runes for which \<^verbatim>\<open>unicode.IsSpace\<close> holds.
\<close>

definition space_encodings :: "string list" where
  "space_encodings =
    [[CHR 0x20], [CHR 0x09], [CHR 0x0A], [CHR 0x0B], [CHR 0x0C], [CHR 0x0D],
     [CHR 0xC2, CHR 0x85], [CHR 0xC2, CHR 0xA0], [CHR 0xE1, CHR 0x9A, CHR 0x80],
     [CHR 0xE2, CHR 0x80, CHR 0x80], [CHR 0xE2, CHR 0x80, CHR 0x81], [CHR 0xE2, CHR 0x80, CHR 0x82],
     [CHR 0xE2, CHR 0x80, CHR 0x83], [CHR 0xE2, CHR 0x80, CHR 0x84], [CHR 0xE2, CHR 0x80, CHR 0x85],
     [CHR 0xE2, CHR 0x80, CHR 0x86], [CHR 0xE2, CHR 0x80, CHR 0x87], [CHR 0xE2, CHR 0x80, CHR 0x88],
     [CHR 0xE2, CHR 0x80, CHR 0x89], [CHR 0xE2, CHR 0x80, CHR 0x8A], [CHR 0xE2, CHR 0x80, CHR 0xA8],
     [CHR 0xE2, CHR 0x80, CHR 0xA9], [CHR 0xE2, CHR 0x80, CHR 0xAF], [CHR 0xE2, CHR 0x81, CHR 0x9F],
     [CHR 0xE3, CHR 0x80, CHR 0x80]]"

fun strip_any :: "string list \<Rightarrow> string \<Rightarrow> string option" where
  "strip_any [] s = None"
| "strip_any (p # ps) s =
     (if p \<noteq> [] \<and> HasPrefix s p then Some (drop (length p) s) else strip_any ps s)"

lemma strip_any_shorter: "strip_any ps s = Some r \<Longrightarrow> length r < length s"
  by (induction ps) (auto simp: HasPrefix_iff split: if_splits)

function trim_left :: "string list \<Rightarrow> string \<Rightarrow> string" where
  "trim_left ps s = (case strip_any ps s of None \<Rightarrow> s | Some r \<Rightarrow> trim_left ps r)"
  by pat_completeness auto
termination
  by (relation "measure (\<lambda>(ps, s). length s)") (auto dest: strip_any_shorter)

declare trim_left.simps [simp del]

definition TrimSpace :: "string \<Rightarrow> string" where
  "TrimSpace s = rev (trim_left (map rev space_encodings) (rev (trim_left space_encodings s)))"

lemma trim_left_fixed: "strip_any ps s = None \<Longrightarrow> trim_left ps s = s"
  by (simp add: trim_left.simps)

lemma TrimSpace_Nil [simp]: "TrimSpace [] = []"
  by (simp add: TrimSpace_def space_encodings_def trim_left.simps HasPrefix_def)

subsection \<open>Splitting and joining\<close>

text \<open>\<^verbatim>\<open>strings.Cut\<close> at a one-byte separator.\<close>

fun Cut :: "char \<Rightarrow> string \<Rightarrow> (string \<times> string) option" where
  "Cut c [] = None"
| "Cut c (x # xs) = (if x = c then Some ([], xs) else map_option (\<lambda>(a, b). (x # a, b)) (Cut c xs))"

fun SplitN :: "char \<Rightarrow> nat \<Rightarrow> string \<Rightarrow> string list" where
  "SplitN c 0 s = []"
| "SplitN c (Suc 0) s = [s]"
| "SplitN c (Suc (Suc n)) s =
     (case Cut c s of None \<Rightarrow> [s] | Some (a, b) \<Rightarrow> a # SplitN c (Suc n) b)"

fun Split :: "char \<Rightarrow> string \<Rightarrow> string list" where
  "Split c [] = [[]]"
| "Split c (x # xs) =
     (if x = c then [] # Split c xs
      else (case Split c xs of [] \<Rightarrow> [[x]] | p # ps \<Rightarrow> (x # p) # ps))"

fun Join :: "string list \<Rightarrow> string \<Rightarrow> string" where
  "Join [] sep = []"
| "Join [x] sep = x"
| "Join (x # y # ys) sep = x @ sep @ Join (y # ys) sep"

lemma Cut_append [simp]: "c \<notin> set a \<Longrightarrow> Cut c (a @ c # b) = Some (a, b)"
  by (induction a) auto

lemma Cut_None_iff: "Cut c s = None \<longleftrightarrow> c \<notin> set s"
  by (induction s) auto

lemma Cut_Some_iff: "Cut c s = Some (a, b) \<longleftrightarrow> c \<notin> set a \<and> s = a @ c # b"
proof (induction s arbitrary: a)
  case (Cons x xs)
  then show ?case by (cases a) auto
qed auto

lemma Split_not_Nil [simp]: "Split c s \<noteq> []"
  by (induction s) (auto split: list.splits)

lemma Split_no_sep: "c \<notin> set s \<Longrightarrow> Split c s = [s]"
  by (induction s) auto

lemma Split_append_sep: "c \<notin> set a \<Longrightarrow> Split c (a @ c # b) = a # Split c b"
  by (induction a) auto

lemma Split_Join:
  assumes "xs \<noteq> []" "\<forall>x \<in> set xs. c \<notin> set x"
  shows "Split c (Join xs [c]) = xs"
  using assms
proof (induction xs "[c]" rule: Join.induct)
  case (3 x y ys)
  then show ?case by (simp add: Split_append_sep)
qed (auto simp: Split_no_sep)

subsection \<open>Letter case\<close>

definition lower_char :: "char \<Rightarrow> char" where
  "lower_char c = (let n = (of_char c :: nat) in if 65 \<le> n \<and> n \<le> 90 then char_of (n + 32) else c)"

definition upper_char :: "char \<Rightarrow> char" where
  "upper_char c = (let n = (of_char c :: nat) in if 97 \<le> n \<and> n \<le> 122 then char_of (n - 32) else c)"

definition ToLower :: "string \<Rightarrow> string" where
  "ToLower s = map lower_char s"

definition ToUpper :: "string \<Rightarrow> string" where
  "ToUpper s = map upper_char s"

text \<open>Fold a string to the representative that \<^verbatim>\<open>strings.EqualFold\<close> compares: the
  Kelvin sign (E2 84 AA) folds to k and the long s (C5 BF) to s.\<close>

fun fold_case :: "string \<Rightarrow> string" where
  "fold_case [] = []"
| "fold_case [x] = [lower_char x]"
| "fold_case [x, y] =
     (if x = CHR 0xC5 \<and> y = CHR 0xBF then ''s'' else [lower_char x, lower_char y])"
| "fold_case (x # y # z # s) =
     (if x = CHR 0xC5 \<and> y = CHR 0xBF then CHR ''s'' # fold_case (z # s)
      else if x = CHR 0xE2 \<and> y = CHR 0x84 \<and> z = CHR 0xAA then CHR ''k'' # fold_case s
      else lower_char x # fold_case (y # z # s))"

definition EqualFold :: "string \<Rightarrow> string \<Rightarrow> bool" where
  "EqualFold s t \<longleftrightarrow> fold_case s = fold_case t"

lemma EqualFold_refl [simp]: "EqualFold s s"
  by (simp add: EqualFold_def)

lemma EqualFold_sym: "EqualFold s t \<longleftrightarrow> EqualFold t s"
  by (auto simp: EqualFold_def)

subsection \<open>Digits\<close>

definition digit_alphabet :: string where
  "digit_alphabet = ''0123456789abcdefghijklmnopqrstuvwxyz''"

definition digit_char :: "nat \<Rightarrow> char" where
  "digit_char d = digit_alphabet ! d"

fun index_of :: "'a \<Rightarrow> 'a list \<Rightarrow> nat option" where
  "index_of x [] = None"
| "index_of x (y # ys) = (if x = y then Some 0 else map_option Suc (index_of x ys))"

lemma index_of_nth:
  "distinct xs \<Longrightarrow> i < length xs \<Longrightarrow> index_of (xs ! i) xs = Some i"
proof (induction xs arbitrary: i)
  case (Cons y ys)
  then show ?case by (cases i) (auto simp: nth_eq_iff_index_eq)
qed simp

lemma index_of_bound: "index_of x xs = Some i \<Longrightarrow> i < length xs \<and> xs ! i = x"
  by (induction xs arbitrary: i) (auto split: if_splits)

lemma index_of_None: "index_of x xs = None \<longleftrightarrow> x \<notin> set xs"
  by (induction xs) auto

definition digit_value :: "nat \<Rightarrow> char \<Rightarrow> nat option" where
  "digit_value b c =
     (case index_of (lower_char c) digit_alphabet of
        None \<Rightarrow> None
      | Some d \<Rightarrow> if d < b then Some d else None)"

text \<open>The digits of a natural number, most significant first, and their value.\<close>

fun digits_of :: "nat \<Rightarrow> nat \<Rightarrow> string" where
  "digits_of b n =
     (if b \<le> 1 \<or> n < b then [digit_char n] else digits_of b (n div b) @ [digit_char (n mod b)])"

declare digits_of.simps [simp del]

fun digits_value :: "nat \<Rightarrow> nat \<Rightarrow> string \<Rightarrow> nat option" where
  "digits_value b acc [] = Some acc"
| "digits_value b acc (c # cs) =
     (case digit_value b c of None \<Rightarrow> None | Some d \<Rightarrow> digits_value b (acc * b + d) cs)"

lemma length_digit_alphabet [simp]: "length digit_alphabet = 36"
  by (simp add: digit_alphabet_def)

lemma distinct_digit_alphabet: "distinct digit_alphabet"
  by (simp add: digit_alphabet_def)

lemma lower_digit_alphabet: "map lower_char digit_alphabet = digit_alphabet"
  by (simp add: digit_alphabet_def lower_char_def Let_def)

lemma lower_digit_char: "d < 36 \<Longrightarrow> lower_char (digit_char d) = digit_char d"
  by (metis digit_char_def length_digit_alphabet lower_digit_alphabet nth_map)

lemma digit_value_char: "d < b \<Longrightarrow> b \<le> 36 \<Longrightarrow> digit_value b (digit_char d) = Some d"
  by (simp add: digit_value_def lower_digit_char)
     (simp add: digit_char_def index_of_nth distinct_digit_alphabet)

lemma digits_value_append:
  "digits_value b acc (xs @ ys) =
     (case digits_value b acc xs of None \<Rightarrow> None | Some a \<Rightarrow> digits_value b a ys)"
  by (induction xs arbitrary: acc) (auto split: option.splits)

lemma digits_of_not_Nil [simp]: "digits_of b n \<noteq> []"
  by (subst digits_of.simps) simp

lemma digits_value_digits_of:
  assumes "2 \<le> b" "b \<le> 36"
  shows "digits_value b 0 (digits_of b n) = Some n"
  using assms
proof (induction b n rule: digits_of.induct)
  case (1 b n)
  show ?case
  proof (cases "n < b")
    case True
    with 1 show ?thesis by (simp add: digits_of.simps [of b n] digit_value_char)
  next
    case False
    with 1 have "digits_value b 0 (digits_of b (n div b)) = Some (n div b)" by simp
    with 1 False show ?thesis
      by (simp add: digits_of.simps [of b n] digits_value_append digit_value_char)
  qed
qed

lemma digit_char_in: "d < 36 \<Longrightarrow> digit_char d \<in> set digit_alphabet"
  by (simp add: digit_char_def)

lemma set_digits_of: "2 \<le> b \<Longrightarrow> b \<le> 36 \<Longrightarrow> set (digits_of b n) \<subseteq> set digit_alphabet"
proof (induction b n rule: digits_of.induct)
  case (1 b n)
  moreover have "n mod b < 36"
  proof -
    have "n mod b < b" using 1 by simp
    with 1 show ?thesis by linarith
  qed
  ultimately show ?case
    by (cases "n < b") (auto simp: digits_of.simps [of b n] intro!: digit_char_in)
qed

subsection \<open>strconv\<close>

definition Itoa :: "int \<Rightarrow> string" where
  "Itoa i = (if i < 0 then CHR ''-'' # digits_of 10 (nat (- i)) else digits_of 10 (nat i))"

definition Atoi :: "string \<Rightarrow> int option" where
  "Atoi s =
     (let (neg, ds) =
        (case s of [] \<Rightarrow> (False, [])
         | c # cs \<Rightarrow> if c = CHR ''-'' then (True, cs) else if c = CHR ''+'' then (False, cs) else (False, s))
      in if ds = [] then None
         else (case digits_value 10 0 ds of
                 None \<Rightarrow> None
               | Some n \<Rightarrow> (let i = (if neg then - int n else int n)
                          in if in_int64 i then Some i else None)))"

lemma digits_of_head:
  assumes "2 \<le> b" "b \<le> 36" "digits_of b n = c # cs"
  shows "c \<noteq> CHR ''-'' \<and> c \<noteq> CHR ''+''"
proof -
  have "c \<in> set digit_alphabet"
    using set_digits_of [OF assms(1,2), of n] assms(3) by auto
  moreover have "CHR ''-'' \<notin> set digit_alphabet" "CHR ''+'' \<notin> set digit_alphabet"
    by (simp_all add: digit_alphabet_def)
  ultimately show ?thesis by auto
qed

lemma Atoi_Itoa: "in_int64 i \<Longrightarrow> Atoi (Itoa i) = Some i"
  using digits_of_head [of 10 "nat i"] digits_value_digits_of [of 10 "nat i"]
    digits_value_digits_of [of 10 "nat (- i)"]
  by (auto simp: Atoi_def Itoa_def Let_def split: list.splits)

interpretation decimal: codec Itoa Atoi in_int64
  by unfold_locales (rule Atoi_Itoa)

subsection \<open>Hexadecimal\<close>

definition byte_value :: "char \<Rightarrow> nat" where
  "byte_value c = of_char c"

definition byte_of :: "nat \<Rightarrow> char" where
  "byte_of n = char_of n"

lemma byte_value_bound [simp]: "byte_value c < 256"
  by (simp add: byte_value_def of_char_of)

lemma byte_of_value [simp]: "byte_of (byte_value c) = c"
  by (simp add: byte_of_def byte_value_def)

lemma byte_value_of [simp]: "n < 256 \<Longrightarrow> byte_value (byte_of n) = n"
  by (simp add: byte_of_def byte_value_def)

text \<open>\<^verbatim>\<open>hex.EncodeToString\<close>, which is also what \<^verbatim>\<open>%x\<close> prints for a byte slice.\<close>

definition hex_encode :: "string \<Rightarrow> string" where
  "hex_encode bs =
     concat (map (\<lambda>c. [digit_char (byte_value c div 16), digit_char (byte_value c mod 16)]) bs)"

text \<open>\<^verbatim>\<open>fmt.Sprintf("%016x", n)\<close> for a signed integer.\<close>

definition pad_left :: "nat \<Rightarrow> string \<Rightarrow> string" where
  "pad_left w s = replicate (w - length s) (CHR ''0'') @ s"

definition format_016x :: "int \<Rightarrow> string" where
  "format_016x n =
     (if n < 0 then CHR ''-'' # pad_left 15 (digits_of 16 (nat (- n)))
      else pad_left 16 (digits_of 16 (nat n)))"

text \<open>\<^verbatim>\<open>big.Int.SetString(s, 16)\<close>; \<^verbatim>\<open>None\<close> where it reports failure.\<close>

definition parse_hex :: "string \<Rightarrow> int option" where
  "parse_hex s =
     (let (neg, ds) =
        (case s of [] \<Rightarrow> (False, [])
         | c # cs \<Rightarrow> if c = CHR ''-'' then (True, cs) else if c = CHR ''+'' then (False, cs) else (False, s))
      in if ds = [] then None
         else map_option (\<lambda>n. if neg then - int n else int n) (digits_value 16 0 ds))"

lemma length_hex_encode [simp]: "length (hex_encode bs) = 2 * length bs"
  by (induction bs) (simp_all add: hex_encode_def)

lemma digits_value_zeros: "digits_value 16 0 (replicate k (CHR ''0'') @ s) = digits_value 16 0 s"
proof (induction k)
  case (Suc k)
  have "digit_value 16 (CHR ''0'') = Some 0"
    using digit_value_char [of 0 16] by (simp add: digit_char_def digit_alphabet_def)
  with Suc show ?case by simp
qed simp

lemma pad_left_head:
  assumes "pad_left w (digits_of 16 n) = c # cs"
  shows "c \<noteq> CHR ''-'' \<and> c \<noteq> CHR ''+''"
proof (cases "w - length (digits_of 16 n)")
  case 0
  with assms show ?thesis using digits_of_head [of 16 n c cs] by (simp add: pad_left_def)
next
  case (Suc k)
  with assms show ?thesis by (auto simp: pad_left_def)
qed

lemma parse_hex_format: "parse_hex (format_016x n) = Some n"
proof -
  have v: "digits_value 16 0 (pad_left w (digits_of 16 m)) = Some m" for w m
    by (simp add: pad_left_def digits_value_zeros digits_value_digits_of)
  have ne: "pad_left w (digits_of 16 m) \<noteq> []" for w m
    by (simp add: pad_left_def)
  obtain c cs where p: "pad_left 16 (digits_of 16 (nat n)) = c # cs"
    using ne by (meson neq_Nil_conv)
  then have "digits_value 16 0 (c # cs) = Some (nat n)" using v by metis
  then show ?thesis
    using p v ne pad_left_head [OF p]
    by (auto simp: parse_hex_def format_016x_def Let_def simp del: digits_value.simps split: list.splits)
qed

interpretation hex64: codec format_016x parse_hex "\<lambda>_. True"
  by unfold_locales (rule parse_hex_format)

subsection \<open>Unpadded URL base64\<close>

definition b64_alphabet :: string where
  "b64_alphabet = ''ABCDEFGHIJKLMNOPQRSTUVWXYZabcdefghijklmnopqrstuvwxyz0123456789-_''"

definition b64_char :: "nat \<Rightarrow> char" where
  "b64_char d = b64_alphabet ! d"

fun b64_sextets :: "string \<Rightarrow> nat list" where
  "b64_sextets [] = []"
| "b64_sextets [a] = (let n = byte_value a in [n div 4, n mod 4 * 16])"
| "b64_sextets [a, b] =
     (let n = byte_value a * 256 + byte_value b in [n div 1024, n div 16 mod 64, n mod 16 * 4])"
| "b64_sextets (a # b # c # s) =
     (let n = byte_value a * 65536 + byte_value b * 256 + byte_value c in
        [n div 262144, n div 4096 mod 64, n div 64 mod 64, n mod 64] @ b64_sextets s)"

definition b64_encode :: "string \<Rightarrow> string" where
  "b64_encode s = map b64_char (b64_sextets s)"

text \<open>Decoding drops carriage returns and newlines, rejects any other character
  outside the alphabet and a group of a single character, and ignores the unused low bits
  of the last group.\<close>

fun b64_groups :: "nat list \<Rightarrow> string option" where
  "b64_groups [] = Some []"
| "b64_groups [p] = None"
| "b64_groups [p, q] = Some [byte_of (p * 4 + q div 16)]"
| "b64_groups [p, q, r] =
     (let n = p * 1024 + q * 16 + r div 4 in Some [byte_of (n div 256), byte_of (n mod 256)])"
| "b64_groups (p # q # r # t # xs) =
     (let n = p * 262144 + q * 4096 + r * 64 + t in
        map_option (\<lambda>rest. [byte_of (n div 65536), byte_of (n div 256 mod 256), byte_of (n mod 256)] @ rest)
          (b64_groups xs))"

fun b64_values :: "string \<Rightarrow> nat list option" where
  "b64_values [] = Some []"
| "b64_values (c # cs) =
     (if c = CHR 0x0A \<or> c = CHR 0x0D then b64_values cs
      else case index_of c b64_alphabet of
             None \<Rightarrow> None
           | Some v \<Rightarrow> map_option (\<lambda>vs. v # vs) (b64_values cs))"

definition b64_decode :: "string \<Rightarrow> string option" where
  "b64_decode s = Option.bind (b64_values s) b64_groups"

lemma length_b64_alphabet [simp]: "length b64_alphabet = 64"
  by (simp add: b64_alphabet_def)

lemma distinct_b64_alphabet: "distinct b64_alphabet"
  by (simp add: b64_alphabet_def)

lemma b64_char_plain:
  assumes "d < 64"
  shows "b64_char d \<noteq> CHR 0x0A \<and> b64_char d \<noteq> CHR 0x0D"
proof -
  have "b64_char d \<in> set b64_alphabet" using assms by (simp add: b64_char_def)
  moreover have "CHR 0x0A \<notin> set b64_alphabet" "CHR 0x0D \<notin> set b64_alphabet"
    by (simp_all add: b64_alphabet_def)
  ultimately show ?thesis by auto
qed

lemma b64_values_map: "\<forall>d \<in> set vs. d < 64 \<Longrightarrow> b64_values (map b64_char vs) = Some vs"
proof (induction vs)
  case (Cons d vs)
  with b64_char_plain [of d] show ?case
    by (simp add: b64_char_def index_of_nth distinct_b64_alphabet)
qed simp

lemma b64_sextets_bound: "d \<in> set (b64_sextets s) \<Longrightarrow> d < 64"
proof (induction s rule: b64_sextets.induct)
  case (2 a)
  have "byte_value a div 4 < 64" "byte_value a mod 4 * 16 < 64"
    using byte_value_bound [of a] by linarith+
  with 2 show ?case by (auto simp: Let_def)
next
  case (3 a b)
  let ?n = "byte_value a * 256 + byte_value b"
  have "?n div 1024 < 64" "?n mod 16 * 4 < 64"
    using byte_value_bound [of a] byte_value_bound [of b] by linarith+
  with 3 show ?case by (auto simp: Let_def)
next
  case (4 a b c s)
  let ?n = "byte_value a * 65536 + byte_value b * 256 + byte_value c"
  have "?n div 262144 < 64"
    using byte_value_bound [of a] byte_value_bound [of b] byte_value_bound [of c] by linarith
  with 4 show ?case by (auto simp: Let_def)
qed simp

lemma div_mod_step: "(n::nat) div (a * b) * b + n div a mod b = n div a"
  by (simp add: div_mult2_eq mult.commute)

lemma split_bytes:
  assumes "a < 256" "b < 256" "c < (256::nat)"
  shows "(a * 65536 + b * 256 + c) div 65536 = a \<and>
    (a * 65536 + b * 256 + c) div 256 mod 256 = b \<and> (a * 65536 + b * 256 + c) mod 256 = c"
proof -
  have e: "a * 65536 + b * 256 + c = c + (a * 256 + b) * 256" by simp
  have "(c + (a * 256 + b) * 256) div 256 = a * 256 + b" using assms by simp
  moreover have "(c + (a * 256 + b) * 256) mod 256 = c" using assms by (simp only: mod_mult_self1 mod_less)
  ultimately show ?thesis unfolding e using assms by simp
qed

lemma recombine3: "(n::nat) div 1024 * 1024 + n div 16 mod 64 * 16 + n mod 16 * 4 div 4 = n"
proof -
  have "n div 1024 * 64 + n div 16 mod 64 = n div 16" using div_mod_step [of n 16 64] by simp
  moreover have "n div 16 * 16 + n mod 16 = n" by simp
  moreover have "n mod 16 * 4 div 4 = n mod 16" by simp
  ultimately show ?thesis by linarith
qed

lemma recombine4:
  "(n::nat) div 262144 * 262144 + n div 4096 mod 64 * 4096 + n div 64 mod 64 * 64 + n mod 64 = n"
proof -
  have "n div 262144 * 64 + n div 4096 mod 64 = n div 4096" using div_mod_step [of n 4096 64] by simp
  moreover have "n div 4096 * 64 + n div 64 mod 64 = n div 64" using div_mod_step [of n 64 64] by simp
  moreover have "n div 64 * 64 + n mod 64 = n" by simp
  ultimately show ?thesis by linarith
qed

lemma b64_groups_sextets: "b64_groups (b64_sextets s) = Some s"
proof (induction s rule: b64_sextets.induct)
  case (2 a)
  have "byte_value a div 4 * 4 + byte_value a mod 4 * 16 div 16 = byte_value a" by simp
  then show ?case by (simp only: b64_sextets.simps b64_groups.simps Let_def byte_of_value)
next
  case (3 a b)
  let ?n = "byte_value a * 256 + byte_value b"
  note recombine3 [of ?n]
  moreover have "?n div 256 = byte_value a" "?n mod 256 = byte_value b"
    using byte_value_bound [of b] by simp_all
  ultimately show ?case
    by (simp only: b64_sextets.simps b64_groups.simps Let_def byte_of_value)
next
  case (4 a b c s)
  let ?n = "byte_value a * 65536 + byte_value b * 256 + byte_value c"
  note recombine4 [of ?n]
  moreover have "?n div 65536 = byte_value a" "?n div 256 mod 256 = byte_value b" "?n mod 256 = byte_value c"
    using split_bytes [OF byte_value_bound byte_value_bound byte_value_bound, of a b c] by blast+
  ultimately show ?case using 4
    by (simp only: b64_sextets.simps b64_groups.simps Let_def byte_of_value append.simps option.map)
qed simp

lemma b64_decode_encode: "b64_decode (b64_encode s) = Some s"
  by (simp add: b64_decode_def b64_encode_def b64_values_map b64_sextets_bound b64_groups_sextets)

interpretation base64: codec b64_encode b64_decode "\<lambda>_. True"
  by unfold_locales (rule b64_decode_encode)

subsection \<open>Strings that trimming leaves alone\<close>

text \<open>Printable ASCII other than the blank.\<close>

definition plain_char :: "char \<Rightarrow> bool" where
  "plain_char c \<longleftrightarrow> 0x21 \<le> byte_value c \<and> byte_value c < 0x80"

lemma strip_any_head:
  assumes "\<forall>p \<in> set ps. p = [] \<or> hd p \<noteq> c"
  shows "strip_any ps (c # cs) = None"
  using assms by (induction ps) (auto simp: HasPrefix_iff Cons_eq_append_conv)

lemma space_encodings_heads:
  "plain_char c \<Longrightarrow> \<forall>p \<in> set space_encodings. p = [] \<or> hd p \<noteq> c"
  "plain_char c \<Longrightarrow> \<forall>p \<in> set (map rev space_encodings). p = [] \<or> hd p \<noteq> c"
  by (auto simp: space_encodings_def plain_char_def byte_value_def)

lemma TrimSpace_plain:
  assumes "s \<noteq> []" "plain_char (hd s)" "plain_char (last s)"
  shows "TrimSpace s = s"
proof -
  obtain c cs where s: "s = c # cs" using assms(1) by (cases s) auto
  then have l: "trim_left space_encodings s = s"
    using assms(2) by (simp add: trim_left_fixed strip_any_head space_encodings_heads)
  obtain d ds where r: "rev s = d # ds" using assms(1) by (cases "rev s") auto
  then have "d = last s" by (metis assms(1) hd_rev list.sel(1))
  then have "trim_left (map rev space_encodings) (rev s) = rev s"
    unfolding r using assms(3) by (intro trim_left_fixed strip_any_head space_encodings_heads) simp
  with l show ?thesis by (simp add: TrimSpace_def)
qed

lemma plain_b64_char: "d < 64 \<Longrightarrow> plain_char (b64_char d)"
proof -
  assume "d < 64"
  then have "b64_char d \<in> set b64_alphabet" by (simp add: b64_char_def)
  moreover have "list_all plain_char b64_alphabet"
    by (simp add: b64_alphabet_def plain_char_def byte_value_def)
  ultimately show ?thesis by (simp add: list_all_iff)
qed

lemma plain_b64_encode: "c \<in> set (b64_encode s) \<Longrightarrow> plain_char c"
  by (auto simp: b64_encode_def intro: plain_b64_char b64_sextets_bound)

lemma b64_encode_Nil_iff [simp]: "b64_encode s = [] \<longleftrightarrow> s = []"
proof
  assume "b64_encode s = []"
  then have "b64_decode (b64_encode s) = Some []" by (simp add: b64_decode_def)
  then show "s = []" by (simp add: b64_decode_encode)
qed (simp add: b64_encode_def)

lemma TrimSpace_b64: "s \<noteq> [] \<Longrightarrow> TrimSpace (b64_encode s) \<noteq> []"
  using TrimSpace_plain [of "b64_encode s"] plain_b64_encode [of _ s] by simp

end
