(* ===== verification/Go_Float.thy ===== *)
theory Go_Float
  imports Go_Strings Complex_Main
begin

text \<open>
  Go's \<^verbatim>\<open>float64\<close> on the finite values the emulator computes with: a float is the rational
  number it denotes, and every operation rounds its exact result to the nearest
  representable value, ties to even (\<^verbatim>\<open>round64\<close>).  Decimal literals are read exactly and
  then rounded, as \<^verbatim>\<open>strconv.ParseFloat\<close> does.  Results of at least \<open>2 ^ 1024\<close> do not
  occur in the arithmetic that is modelled; a literal that large is an error.
\<close>

fun nat_log2 :: "nat \<Rightarrow> nat" where
  "nat_log2 n = (if n < 2 then 0 else Suc (nat_log2 (n div 2)))"

declare nat_log2.simps [simp del]

definition pow2 :: "int \<Rightarrow> rat" where
  "pow2 e = (if e \<ge> 0 then 2 ^ nat e else 1 / 2 ^ nat (- e))"

text \<open>The binary exponent of a positive rational.\<close>

definition exponent :: "rat \<Rightarrow> int" where
  "exponent x =
     (let (p, q) = quotient_of x; e = int (nat_log2 (nat p)) - int (nat_log2 (nat q))
      in if pow2 e \<le> x then e else e - 1)"

definition round_half_even :: "rat \<Rightarrow> int" where
  "round_half_even x =
     (let f = \<lfloor>x\<rfloor>; d = x - of_int f
      in if d < 1 / 2 then f else if d > 1 / 2 then f + 1 else if even f then f else f + 1)"

definition ulp :: "rat \<Rightarrow> rat" where
  "ulp x = pow2 (max (exponent x) (- 1022) - 52)"

definition round64 :: "rat \<Rightarrow> rat" where
  "round64 x =
     (if x = 0 then 0
      else if x > 0 then of_int (round_half_even (x / ulp x)) * ulp x
      else - (of_int (round_half_even (- x / ulp (- x))) * ulp (- x)))"

definition fadd :: "rat \<Rightarrow> rat \<Rightarrow> rat" where "fadd x y = round64 (x + y)"
definition fsub :: "rat \<Rightarrow> rat \<Rightarrow> rat" where "fsub x y = round64 (x - y)"
definition fmul :: "rat \<Rightarrow> rat \<Rightarrow> rat" where "fmul x y = round64 (x * y)"
definition fdiv :: "rat \<Rightarrow> rat \<Rightarrow> rat" where "fdiv x y = round64 (x / y)"
definition float_of_int :: "int \<Rightarrow> rat" where "float_of_int n = round64 (of_int n)"

text \<open>\<^verbatim>\<open>int(x)\<close> truncates towards zero; out of the range of int64 the language leaves the
  result to the processor, and amd64 gives the least int64.\<close>

definition int_of_float :: "rat \<Rightarrow> int" where
  "int_of_float x =
     (let n = if x < 0 then \<lceil>x\<rceil> else \<lfloor>x\<rfloor> in if in_int64 n then n else - (2 ^ 63))"

subsection \<open>Powers of two and exponents\<close>

lemma pow2_pos [simp]: "0 < pow2 e"
  by (simp add: pow2_def)

lemma pow2_nonzero [simp]: "pow2 e \<noteq> 0"
  using pow2_pos [of e] by linarith

lemma pow2_powi: "pow2 e = 2 powi e"
  by (auto simp: pow2_def power_int_def inverse_eq_divide power_divide)

lemma pow2_add: "pow2 (a + b) = pow2 a * pow2 b"
  by (simp add: pow2_powi power_int_add)

lemma pow2_mono: "a \<le> b \<Longrightarrow> pow2 a \<le> pow2 b"
  by (simp add: pow2_powi power_int_increasing)

lemma pow2_less_iff: "pow2 a < pow2 b \<longleftrightarrow> a < b"
  by (metis linorder_not_le order_less_imp_le pow2_mono pow2_powi power_int_strict_increasing
      less_le_not_le one_less_numeral_iff semiring_norm(76))

lemma pow2_nat: "pow2 (int n) = 2 ^ n"
  by (simp add: pow2_def)

lemma pow2_one [simp]: "pow2 1 = 2" "pow2 (- 1) = 1 / 2" "pow2 0 = 1"
  by (simp_all add: pow2_def)

lemma nat_log2_bounds: "0 < n \<Longrightarrow> 2 ^ nat_log2 n \<le> n \<and> n < 2 ^ Suc (nat_log2 n)"
proof (induction n rule: nat_log2.induct)
  case (1 n)
  show ?case
  proof (cases "n < 2")
    case True
    with 1 show ?thesis by (simp add: nat_log2.simps)
  next
    case False
    with 1 have "2 ^ nat_log2 (n div 2) \<le> n div 2" "n div 2 < 2 ^ Suc (nat_log2 (n div 2))" by simp_all
    moreover from calculation have "2 * 2 ^ nat_log2 (n div 2) \<le> n" "n < 2 * (2 * 2 ^ nat_log2 (n div 2))"
      by auto
    ultimately show ?thesis using False by (simp add: nat_log2.simps [of n])
  qed
qed

lemma exponent_bounds:
  assumes "0 < x"
  shows "pow2 (exponent x) \<le> x \<and> x < pow2 (exponent x + 1)"
proof -
  obtain p q where pq: "quotient_of x = (p, q)" by (cases "quotient_of x")
  then have x: "x = of_int p / of_int q" and q: "0 < q"
    by (rule quotient_of_div, rule quotient_of_denom_pos)
  with assms have p: "0 < p" by (simp add: zero_less_divide_iff)
  define a b where "a = nat_log2 (nat p)" and "b = nat_log2 (nat q)"
  have "2 ^ a \<le> nat p" "nat p < 2 ^ Suc a" using nat_log2_bounds [of "nat p"] p by (simp_all add: a_def)
  then have pa: "(2::int) ^ a \<le> p" "p < 2 ^ Suc a" using p by (simp_all add: nat_le_iff le_nat_iff nat_less_iff)
  have "2 ^ b \<le> nat q" "nat q < 2 ^ Suc b" using nat_log2_bounds [of "nat q"] q by (simp_all add: b_def)
  then have qb: "(2::int) ^ b \<le> q" "q < 2 ^ Suc b" using q by (simp_all add: nat_le_iff le_nat_iff nat_less_iff)
  have P: "(2::rat) ^ a \<le> of_int p" "of_int p < (2::rat) ^ Suc a"
    using pa by (metis of_int_le_iff of_int_power of_int_numeral, metis of_int_less_iff of_int_power of_int_numeral)
  have Q: "(2::rat) ^ b \<le> of_int q" "of_int q < (2::rat) ^ Suc b"
    using qb by (metis of_int_le_iff of_int_power of_int_numeral, metis of_int_less_iff of_int_power of_int_numeral)
  let ?e = "int a - int b"
  have e: "pow2 (?e + k) = 2 ^ a * pow2 k / 2 ^ b" for k
    by (simp add: pow2_powi power_int_add power_int_diff)
  have up: "x < pow2 (?e + 1)"
  proof -
    have "x < 2 ^ Suc a / 2 ^ b"
      unfolding x using P Q q p by (intro frac_less) (auto simp: zero_less_power)
    then show ?thesis by (simp add: e [of 1] mult.commute)
  qed
  have lo: "pow2 (?e - 1) \<le> x"
  proof -
    have "2 ^ a / 2 ^ Suc b \<le> x"
      unfolding x using P Q q p by (intro frac_le) auto
    then show ?thesis using e [of "- 1"] by (simp add: mult.commute)
  qed
  show ?thesis using up lo pq by (simp add: exponent_def a_def b_def Let_def)
qed

lemma ulp_pos [simp]: "0 < ulp x"
  by (simp add: ulp_def)

lemma ulp_nonneg [simp]: "0 \<le> ulp x" "ulp x \<noteq> 0"
  using ulp_pos [of x] by linarith+

lemma exponent_less:
  assumes "0 < x" "x < pow2 e"
  shows "exponent x < e"
  using exponent_bounds [OF assms(1)] assms(2) pow2_less_iff by (meson le_less_trans)

text \<open>Below \<open>2 ^ 52\<close> every multiple of one half is a multiple of the unit in the last place.\<close>

lemma half_unit:
  assumes "0 < x" "x < pow2 52"
  obtains k :: nat where "1 / 2 = of_int (2 ^ k) * ulp x"
proof -
  let ?e = "max (exponent x) (- 1022) - 52"
  have "?e \<le> - 1" using exponent_less [OF assms] by simp
  then obtain k where k: "- 1 = int k + ?e" by (metis add.commute diff_add_cancel zle_iff_zadd)
  have "1 / 2 = pow2 (int k) * pow2 ?e"
    unfolding pow2_add [symmetric] k [symmetric] by simp
  then show ?thesis using that [of k] by (simp add: pow2_nat ulp_def)
qed

subsection \<open>Rounding\<close>

lemma round_half_even_le: "x \<le> of_int m \<Longrightarrow> round_half_even x \<le> m"
proof -
  assume x: "x \<le> of_int m"
  show ?thesis
  proof (cases "x = of_int m")
    case False
    with x have "\<lfloor>x\<rfloor> < m" by (simp add: floor_less_iff)
    then show ?thesis by (simp add: round_half_even_def Let_def)
  qed (simp add: round_half_even_def)
qed

lemma round_half_even_ge: "of_int m \<le> x \<Longrightarrow> m \<le> round_half_even x"
proof -
  assume "of_int m \<le> x"
  then have "m \<le> \<lfloor>x\<rfloor>" by (simp add: le_floor_iff)
  then show ?thesis by (simp add: round_half_even_def Let_def)
qed

lemma round_half_even_upper: "of_int (round_half_even x) \<le> x + 1 / 2"
  by (simp add: round_half_even_def Let_def) linarith

lemma round64_zero [simp]: "round64 0 = 0"
  by (simp add: round64_def)

lemma round64_le_half:
  assumes "0 \<le> x" "x \<le> of_int h / 2" "x < pow2 52"
  shows "round64 x \<le> of_int h / 2"
proof (cases "x = 0")
  case False
  with assms have x: "0 < x" by simp
  obtain k where k: "1 / 2 = of_int (2 ^ k) * ulp x" using half_unit [OF x assms(3)] .
  have h: "of_int h / 2 = of_int (h * 2 ^ k) * ulp x" using k by (simp add: field_simps)
  with assms(2) have "x / ulp x \<le> of_int (h * 2 ^ k)" by (simp add: pos_divide_le_eq)
  then have "round_half_even (x / ulp x) \<le> h * 2 ^ k" by (rule round_half_even_le)
  then have "of_int (round_half_even (x / ulp x)) \<le> (of_int (h * 2 ^ k) :: rat)" by (simp only: of_int_le_iff)
  then have "of_int (round_half_even (x / ulp x)) * ulp x \<le> of_int h / 2"
    unfolding h by (intro mult_right_mono) (auto intro: less_imp_le)
  with x show ?thesis by (simp add: round64_def)
qed (use assms in simp)

lemma round64_ge_half:
  assumes "0 \<le> x" "of_int h / 2 \<le> x" "x < pow2 52"
  shows "of_int h / 2 \<le> round64 x"
proof (cases "x = 0")
  case False
  with assms have x: "0 < x" by simp
  obtain k where k: "1 / 2 = of_int (2 ^ k) * ulp x" using half_unit [OF x assms(3)] .
  have h: "of_int h / 2 = of_int (h * 2 ^ k) * ulp x" using k by (simp add: field_simps)
  with assms(2) have "of_int (h * 2 ^ k) \<le> x / ulp x" by (simp add: pos_le_divide_eq)
  then have "h * 2 ^ k \<le> round_half_even (x / ulp x)" by (rule round_half_even_ge)
  then have "(of_int (h * 2 ^ k) :: rat) \<le> of_int (round_half_even (x / ulp x))" by (simp only: of_int_le_iff)
  then have "of_int h / 2 \<le> of_int (round_half_even (x / ulp x)) * ulp x"
    unfolding h by (intro mult_right_mono) (auto intro: less_imp_le)
  with x show ?thesis by (simp add: round64_def)
qed (use assms in simp)

lemma round64_of_int:
  assumes "0 \<le> n" "n < 2 ^ 52"
  shows "round64 (of_int n) = of_int n"
proof -
  have n: "of_int n < pow2 52" using assms(2) by (simp add: pow2_def)
  have "round64 (of_int n) \<le> of_int (2 * n) / 2" "of_int (2 * n) / 2 \<le> round64 (of_int n)"
    using assms(1) n by (intro round64_le_half round64_ge_half; simp)+
  then show ?thesis by simp
qed

lemma round64_nonneg: "0 \<le> x \<Longrightarrow> 0 \<le> round64 x"
  using round_half_even_ge [of 0 "x / ulp x"]
  by (simp add: round64_def)

lemma round64_relative:
  assumes "1 / 2 ^ 20 \<le> x"
  shows "round64 x \<le> x + x / 2 ^ 53"
proof -
  have x: "0 < x" using assms by (rule less_le_trans [rotated]) simp
  have "pow2 (- 20) \<le> x" using assms by (simp add: pow2_def)
  then have "- 20 < exponent x + 1"
    using exponent_bounds [OF x] pow2_less_iff by (meson le_less_trans)
  then have "ulp x = pow2 (exponent x) / 2 ^ 52"
    by (simp add: ulp_def max_def pow2_powi power_int_diff)
  then have u: "ulp x \<le> x / 2 ^ 52" using exponent_bounds [OF x] by (simp add: divide_right_mono)
  have "round64 x \<le> (x / ulp x + 1 / 2) * ulp x"
    using x round_half_even_upper [of "x / ulp x"]
    by (simp add: round64_def mult_right_mono less_imp_le)
  also have "\<dots> = x + ulp x / 2" by (simp add: field_simps)
  finally show ?thesis using u by simp
qed

lemma int_of_float_of_int [simp]: "in_int64 n \<Longrightarrow> int_of_float (of_int n) = n"
  by (simp add: int_of_float_def)

lemma int_of_float_floor:
  assumes "0 \<le> x" "x < 2 ^ 63"
  shows "int_of_float x = \<lfloor>x\<rfloor>"
  using assms by (simp add: int_of_float_def Let_def in_int64_def floor_less_iff)

end
