(* ===== verification/Go_JSON.thy ===== *)
theory Go_JSON
  imports Go_Float
begin

text \<open>
  The part of Go's \<^verbatim>\<open>encoding/json\<close> that the emulator relies on.

  A parsed document is a tree in which strings keep their raw body (the bytes between the
  quotes) and numbers their literal, so that a \<^verbatim>\<open>json.RawMessage\<close> is a tree as well: the
  package never looks at the white space inside it.  \<^verbatim>\<open>parse_json\<close> accepts what the
  package's scanner accepts, including its nesting limit; \<^verbatim>\<open>quote\<close> and \<^verbatim>\<open>unquote\<close> are
  its string encoder (HTML escaping on) and decoder; \<^verbatim>\<open>any\<close> is what decoding into an
  \<^verbatim>\<open>any\<close> yields.  The parser recurses on fuel; \<open>parse_value_fuel\<close> shows that the fuel
  \<^verbatim>\<open>parse_json\<close> gives it never decides the result.

  The main theorem of the theory is that printing and parsing are inverse on well-formed
  trees (\<open>parse_print\<close>).
\<close>

datatype json =
    JNull
  | JBool bool
  | JNum string
  | JStr string
  | JArr "json list"
  | JObj "(string \<times> json) list"

subsection \<open>Scanner\<close>

abbreviation dquote :: char where "dquote \<equiv> CHR 0x22"
abbreviation backslash :: char where "backslash \<equiv> CHR 0x5C"

definition is_ws :: "char \<Rightarrow> bool" where
  "is_ws c \<longleftrightarrow> c = CHR '' '' \<or> c = CHR 0x09 \<or> c = CHR 0x0A \<or> c = CHR 0x0D"

definition skip_ws :: "string \<Rightarrow> string" where
  "skip_ws s = dropWhile is_ws s"

definition is_digit :: "char \<Rightarrow> bool" where
  "is_digit c \<longleftrightarrow> 48 \<le> byte_value c \<and> byte_value c \<le> 57"

definition is_hex :: "char \<Rightarrow> bool" where
  "is_hex c \<longleftrightarrow> digit_value 16 c \<noteq> None"

text \<open>The rest of a string literal after its opening quote: its body and what follows it.\<close>

fun scan_str :: "string \<Rightarrow> (string \<times> string) option" where
  "scan_str [] = None"
| "scan_str (c # s) =
     (if c = dquote then Some ([], s)
      else if c = backslash then
        (case s of
           [] \<Rightarrow> None
         | e # t \<Rightarrow>
             if e \<in> set ''bfnrt/'' \<or> e = backslash \<or> e = dquote
             then map_option (\<lambda>(b, r). (c # e # b, r)) (scan_str t)
             else if e = CHR ''u'' then
               (case t of
                  h1 # h2 # h3 # h4 # u \<Rightarrow>
                    if is_hex h1 \<and> is_hex h2 \<and> is_hex h3 \<and> is_hex h4
                    then map_option (\<lambda>(b, r). (c # e # h1 # h2 # h3 # h4 # b, r)) (scan_str u)
                    else None
                | _ \<Rightarrow> None)
             else None)
      else if byte_value c < 32 then None
      else map_option (\<lambda>(b, r). (c # b, r)) (scan_str s))"

definition scan_sign :: "string \<Rightarrow> string \<times> string" where
  "scan_sign s = (case s of c # r \<Rightarrow> if c = CHR ''-'' then ([c], r) else ([], s) | [] \<Rightarrow> ([], s))"

definition scan_int :: "string \<Rightarrow> (string \<times> string) option" where
  "scan_int s =
     (case s of
        [] \<Rightarrow> None
      | c # r \<Rightarrow>
          if c = CHR ''0'' then Some ([c], r)
          else if is_digit c then Some (takeWhile is_digit s, dropWhile is_digit s)
          else None)"

definition scan_digits :: "string \<Rightarrow> (string \<times> string) option" where
  "scan_digits s =
     (if takeWhile is_digit s = [] then None else Some (takeWhile is_digit s, dropWhile is_digit s))"

definition scan_frac :: "string \<Rightarrow> (string \<times> string) option" where
  "scan_frac s =
     (case s of
        c # r \<Rightarrow> if c = CHR ''.'' then map_option (\<lambda>(ds, t). (c # ds, t)) (scan_digits r) else Some ([], s)
      | [] \<Rightarrow> Some ([], s))"

definition scan_exp :: "string \<Rightarrow> (string \<times> string) option" where
  "scan_exp s =
     (case s of
        c # r \<Rightarrow>
          if c = CHR ''e'' \<or> c = CHR ''E'' then
            (case r of
               sg # r' \<Rightarrow>
                 if sg = CHR ''+'' \<or> sg = CHR ''-''
                 then map_option (\<lambda>(ds, t). (c # sg # ds, t)) (scan_digits r')
                 else map_option (\<lambda>(ds, t). (c # ds, t)) (scan_digits r)
             | [] \<Rightarrow> None)
          else Some ([], s)
      | [] \<Rightarrow> Some ([], s))"

definition scan_number :: "string \<Rightarrow> (string \<times> string) option" where
  "scan_number s =
     (case scan_sign s of (sg, s1) \<Rightarrow>
        (case scan_int s1 of
           None \<Rightarrow> None
         | Some (ip, s2) \<Rightarrow>
             (case scan_frac s2 of
                None \<Rightarrow> None
              | Some (fp, s3) \<Rightarrow>
                  (case scan_exp s3 of
                     None \<Rightarrow> None
                   | Some (ep, s4) \<Rightarrow> Some (sg @ ip @ fp @ ep, s4)))))"

subsection \<open>Parser\<close>

definition maxNestingDepth :: nat where
  "maxNestingDepth = 10000"

definition expect :: "string \<Rightarrow> 'a \<Rightarrow> string \<Rightarrow> ('a \<times> string) option" where
  "expect lit v s = (if HasPrefix s lit then Some (v, drop (length lit) s) else None)"

fun parse_value :: "nat \<Rightarrow> nat \<Rightarrow> string \<Rightarrow> (json \<times> string) option"
and parse_elems :: "nat \<Rightarrow> nat \<Rightarrow> string \<Rightarrow> (json list \<times> string) option"
and parse_members :: "nat \<Rightarrow> nat \<Rightarrow> string \<Rightarrow> ((string \<times> json) list \<times> string) option"
where
  "parse_value 0 d s = None"
| "parse_value (Suc f) d s =
     (case skip_ws s of
        [] \<Rightarrow> None
      | c # r \<Rightarrow>
          if c = dquote then map_option (\<lambda>(b, t). (JStr b, t)) (scan_str r)
          else if c = CHR ''['' then
            (if maxNestingDepth \<le> d then None
             else case skip_ws r of
                    [] \<Rightarrow> None
                  | x # r' \<Rightarrow>
                      if x = CHR '']'' then Some (JArr [], r')
                      else map_option (\<lambda>(vs, t). (JArr vs, t)) (parse_elems f (Suc d) r))
          else if c = CHR ''{'' then
            (if maxNestingDepth \<le> d then None
             else case skip_ws r of
                    [] \<Rightarrow> None
                  | x # r' \<Rightarrow>
                      if x = CHR ''}'' then Some (JObj [], r')
                      else map_option (\<lambda>(ms, t). (JObj ms, t)) (parse_members f (Suc d) r))
          else if c = CHR ''n'' then expect ''ull'' JNull r
          else if c = CHR ''t'' then expect ''rue'' (JBool True) r
          else if c = CHR ''f'' then expect ''alse'' (JBool False) r
          else map_option (\<lambda>(n, t). (JNum n, t)) (scan_number (c # r)))"
| "parse_elems 0 d s = None"
| "parse_elems (Suc f) d s =
     (case parse_value f d s of
        None \<Rightarrow> None
      | Some (v, t) \<Rightarrow>
          (case skip_ws t of
             [] \<Rightarrow> None
           | c # r \<Rightarrow>
               if c = CHR '']'' then Some ([v], r)
               else if c = CHR '','' then map_option (\<lambda>(vs, u). (v # vs, u)) (parse_elems f d r)
               else None))"
| "parse_members 0 d s = None"
| "parse_members (Suc f) d s =
     (case skip_ws s of
        [] \<Rightarrow> None
      | q # s1 \<Rightarrow>
          if q \<noteq> dquote then None
          else (case scan_str s1 of
                  None \<Rightarrow> None
                | Some (k, s2) \<Rightarrow>
                    (case skip_ws s2 of
                       [] \<Rightarrow> None
                     | col # s3 \<Rightarrow>
                         if col \<noteq> CHR '':'' then None
                         else (case parse_value f d s3 of
                                 None \<Rightarrow> None
                               | Some (v, t) \<Rightarrow>
                                   (case skip_ws t of
                                      [] \<Rightarrow> None
                                    | c # r \<Rightarrow>
                                        if c = CHR ''}'' then Some ([(k, v)], r)
                                        else if c = CHR '',''
                                        then map_option (\<lambda>(ms, u). ((k, v) # ms, u)) (parse_members f d r)
                                        else None)))))"

definition parse_json :: "string \<Rightarrow> json option" where
  "parse_json s =
     (case parse_value (2 * length s + 2) 0 s of
        None \<Rightarrow> None
      | Some (v, t) \<Rightarrow> if skip_ws t = [] then Some v else None)"

text \<open>\<^verbatim>\<open>json.Valid\<close>.\<close>

definition Valid :: "string \<Rightarrow> bool" where
  "Valid s \<longleftrightarrow> parse_json s \<noteq> None"

subsection \<open>Printer\<close>

fun print_json :: "json \<Rightarrow> string" where
  "print_json JNull = ''null''"
| "print_json (JBool b) = (if b then ''true'' else ''false'')"
| "print_json (JNum n) = n"
| "print_json (JStr b) = dquote # b @ [dquote]"
| "print_json (JArr vs) = ''['' @ Join (map print_json vs) '','' @ '']''"
| "print_json (JObj ms) =
     ''{'' @ Join (map (\<lambda>(k, v). dquote # k @ [dquote] @ '':'' @ print_json v) ms) '','' @ ''}''"

subsection \<open>Consumption and fuel\<close>

lemma skip_ws_length: "length (skip_ws s) \<le> length s"
  by (simp add: skip_ws_def length_dropWhile_le)

lemma skip_ws_Cons_length: "skip_ws s = c # r \<Longrightarrow> length r < length s"
  using skip_ws_length [of s] by simp

lemma scan_str_length: "scan_str s = Some (b, r) \<Longrightarrow> length r < length s"
proof (induction s arbitrary: b r rule: scan_str.induct)
  case (2 c s)
  show ?case
  proof (cases "c = dquote \<or> c \<noteq> backslash")
    case True
    with 2 show ?thesis by (auto simp: less_SucI split: if_splits)
  next
    case False
    with 2(4) obtain e t where s: "s = e # t" by (auto split: list.splits)
    show ?thesis
    proof (cases "e \<in> set ''bfnrt/'' \<or> e = backslash \<or> e = dquote")
      case True
      with False 2(4) s obtain b' where "scan_str t = Some (b', r)" by auto
      then show ?thesis using 2(1) False s True by fastforce
    next
      case nob: False
      with False 2(4) s obtain h1 h2 h3 h4 u b' where t: "e = CHR ''u''" "t = h1 # h2 # h3 # h4 # u"
        "is_hex h1 \<and> is_hex h2 \<and> is_hex h3 \<and> is_hex h4" "scan_str u = Some (b', r)"
        by (auto split: list.splits if_splits)
      then show ?thesis using 2(2) [OF _ _ s _ t(1)] False nob s by fastforce
    qed
  qed
qed simp

lemma scan_digits_length: "scan_digits s = Some (b, r) \<Longrightarrow> length r < length s"
proof -
  assume "scan_digits s = Some (b, r)"
  then have "takeWhile is_digit s \<noteq> []" "r = dropWhile is_digit s"
    by (auto simp: scan_digits_def split: if_splits)
  then show ?thesis
    by (metis add_less_same_cancel2 add.commute length_append length_greater_0_conv takeWhile_dropWhile_id
        less_add_same_cancel1)
qed

lemma scan_int_length: "scan_int s = Some (b, r) \<Longrightarrow> length r < length s"
  by (auto simp: scan_int_def length_dropWhile_le le_imp_less_Suc split: list.splits if_splits)

lemma scan_frac_length: "scan_frac s = Some (b, r) \<Longrightarrow> length r \<le> length s"
  by (auto simp: scan_frac_def split: list.splits if_splits dest!: scan_digits_length)

lemma scan_exp_length: "scan_exp s = Some (b, r) \<Longrightarrow> length r \<le> length s"
  by (auto simp: scan_exp_def split: list.splits if_splits dest!: scan_digits_length)

lemma scan_number_length: "scan_number s = Some (b, r) \<Longrightarrow> length r < length s"
proof -
  assume "scan_number s = Some (b, r)"
  then obtain sg s1 ip s2 fp s3 ep where "scan_sign s = (sg, s1)" "scan_int s1 = Some (ip, s2)"
    "scan_frac s2 = Some (fp, s3)" "scan_exp s3 = Some (ep, r)"
    by (auto simp: scan_number_def split: prod.splits option.splits)
  moreover from this(1) have "length s1 \<le> length s"
    by (auto simp: scan_sign_def split: list.splits if_splits)
  ultimately show ?thesis
    using scan_int_length scan_frac_length scan_exp_length by fastforce
qed

lemma expect_length: "expect lit v s = Some (x, r) \<Longrightarrow> length r \<le> length s"
  by (auto simp: expect_def split: if_splits)

lemma parse_length_all:
  "(\<forall>d s v t. parse_value f d s = Some (v, t) \<longrightarrow> length t < length s) \<and>
   (\<forall>d s vs t. parse_elems f d s = Some (vs, t) \<longrightarrow> length t < length s) \<and>
   (\<forall>d s ms t. parse_members f d s = Some (ms, t) \<longrightarrow> length t < length s)"
proof (induction f)
  case (Suc f)
  then have v: "parse_value f d s = Some (v, t) \<Longrightarrow> length t < length s"
    and e: "parse_elems f d s = Some (vs, t) \<Longrightarrow> length t < length s"
    and m: "parse_members f d s = Some (ms, t) \<Longrightarrow> length t < length s" for d s t v vs ms by blast+
  note ls = v e m scan_str_length skip_ws_Cons_length expect_length scan_number_length
  have "length t < length s" if "parse_value (Suc f) d s = Some (v, t)" for d s v t
    using that skip_ws_length [of s]
    by (auto split: list.splits if_splits dest!: ls)
  moreover have "length t < length s" if "parse_elems (Suc f) d s = Some (vs, t)" for d s vs t
    using that by (auto split: list.splits if_splits option.splits dest!: ls)
  moreover have "length t < length s" if "parse_members (Suc f) d s = Some (ms, t)" for d s ms t
    using that by (auto split: list.splits if_splits option.splits dest!: ls)
  ultimately show ?case by blast
qed simp

lemma parse_length:
  "parse_value f d s = Some (v, t) \<Longrightarrow> length t < length s"
  "parse_elems f d s = Some (vs, t) \<Longrightarrow> length t < length s"
  "parse_members f d s = Some (ms, t) \<Longrightarrow> length t < length s"
  using parse_length_all by blast+

text \<open>Fuel of twice the length of the input is enough: any more gives the same result.\<close>

lemma parse_fuel_all:
  "(\<forall>d s x g. parse_value f d s = Some x \<longrightarrow> 2 * length s < g \<longrightarrow> parse_value g d s = Some x) \<and>
   (\<forall>d s x g. parse_elems f d s = Some x \<longrightarrow> 2 * length s + 1 < g \<longrightarrow> parse_elems g d s = Some x) \<and>
   (\<forall>d s x g. parse_members f d s = Some x \<longrightarrow> 2 * length s + 1 < g \<longrightarrow> parse_members g d s = Some x)"
proof (induction f)
  case (Suc f)
  then have v: "parse_value f d s = Some x \<Longrightarrow> 2 * length s < g \<Longrightarrow> parse_value g d s = Some x"
    and e: "parse_elems f d s = Some x' \<Longrightarrow> 2 * length s + 1 < g \<Longrightarrow> parse_elems g d s = Some x'"
    and m: "parse_members f d s = Some x'' \<Longrightarrow> 2 * length s + 1 < g \<Longrightarrow> parse_members g d s = Some x''"
    for d s x x' x'' g by blast+
  have "parse_value g d s = Some x" if p: "parse_value (Suc f) d s = Some x" and g: "2 * length s < g" for d s x g
  proof -
    obtain g' where g': "g = Suc g'" using g by (cases g) auto
    obtain c r where s: "skip_ws s = c # r" using p by (auto split: list.splits)
    have "2 * length r + 1 < g'" using skip_ws_Cons_length [OF s] g g' by simp
    then have "parse_elems f (Suc d) r = Some y \<Longrightarrow> parse_elems g' (Suc d) r = Some y"
      "parse_members f (Suc d) r = Some z \<Longrightarrow> parse_members g' (Suc d) r = Some z" for y z
      using e m by blast+
    then show ?thesis using p s unfolding g' by (auto split: list.splits if_splits)
  qed
  moreover have "parse_elems g d s = Some x" if p: "parse_elems (Suc f) d s = Some x" and g: "2 * length s + 1 < g" for d s x g
  proof -
    obtain g' where g': "g = Suc g'" using g by (cases g) auto
    obtain w t where w: "parse_value f d s = Some (w, t)" using p by (auto split: option.splits)
    then have pv: "parse_value g' d s = Some (w, t)" by (rule v) (use g g' in simp)
    obtain c r where t: "skip_ws t = c # r" using p w by (auto split: list.splits)
    have "2 * length r + 1 < g'"
      using parse_length(1) [OF w] skip_ws_Cons_length [OF t] g g' by simp
    then have "parse_elems f d r = Some y \<Longrightarrow> parse_elems g' d r = Some y" for y using e by blast
    then show ?thesis using p w pv t unfolding g' by (auto split: if_splits)
  qed
  moreover have "parse_members g d s = Some x" if p: "parse_members (Suc f) d s = Some x" and g: "2 * length s + 1 < g" for d s x g
  proof -
    obtain g' where g': "g = Suc g'" using g by (cases g) auto
    obtain s1 where s1: "skip_ws s = dquote # s1" using p by (auto split: list.splits if_splits)
    obtain k s2 where s2: "scan_str s1 = Some (k, s2)" using p s1 by (auto split: option.splits)
    obtain s3 where s3: "skip_ws s2 = CHR '':'' # s3" using p s1 s2 by (auto split: list.splits if_splits)
    obtain w t where w: "parse_value f d s3 = Some (w, t)" using p s1 s2 s3 by (auto split: option.splits)
    obtain c r where t: "skip_ws t = c # r" using p s1 s2 s3 w by (auto split: list.splits)
    have l: "length s3 < length s" "length r < length s3"
      using skip_ws_Cons_length [OF s1] scan_str_length [OF s2] skip_ws_Cons_length [OF s3]
        parse_length(1) [OF w] skip_ws_Cons_length [OF t] by simp_all
    then have pv: "parse_value g' d s3 = Some (w, t)" by (intro v [OF w]) (use g g' in simp)
    have "2 * length r + 1 < g'" using l g g' by simp
    then have "parse_members f d r = Some y \<Longrightarrow> parse_members g' d r = Some y" for y using m by blast
    moreover have E: "parse_members (Suc h) d s =
        (case parse_value h d s3 of
           None \<Rightarrow> None
         | Some (v, t) \<Rightarrow>
             (case skip_ws t of
                [] \<Rightarrow> None
              | c # r \<Rightarrow>
                  if c = CHR ''}'' then Some ([(k, v)], r)
                  else if c = CHR '','' then map_option (\<lambda>(ms, u). ((k, v) # ms, u)) (parse_members h d r)
                  else None))" for h
      by (simp add: s1 s2 s3)
    have "parse_members (Suc f) d s = parse_members (Suc g') d s"
      using p calculation unfolding E w pv by (auto simp: t split: if_splits)
    ultimately show ?thesis using p g' by simp
  qed
  ultimately show ?case by blast
qed simp

lemma parse_value_fuel:
  assumes "parse_value f d s = Some x" "2 * length s < g"
  shows "parse_value g d s = Some x"
  using parse_fuel_all assms by blast

lemma parse_json_iff:
  "parse_json s = Some v \<longleftrightarrow> (\<exists>f t. parse_value f 0 s = Some (v, t) \<and> skip_ws t = [])" (is "?l \<longleftrightarrow> ?r")
proof
  assume ?l
  then obtain t where "parse_value (2 * length s + 2) 0 s = Some (v, t)" "skip_ws t = []"
    by (auto simp: parse_json_def split: option.splits if_splits simp del: parse_value.simps)
  then show ?r by blast
next
  assume ?r
  then obtain f t where "parse_value f 0 s = Some (v, t)" "skip_ws t = []" by blast
  from this(1) have "parse_value (2 * length s + 2) 0 s = Some (v, t)" by (rule parse_value_fuel) simp
  with \<open>skip_ws t = []\<close> show ?l by (simp add: parse_json_def del: parse_value.simps)
qed

subsection \<open>Printing and parsing\<close>

definition wf_body :: "string \<Rightarrow> bool" where
  "wf_body b \<longleftrightarrow> scan_str (b @ [dquote]) = Some (b, [])"

definition wf_num :: "string \<Rightarrow> bool" where
  "wf_num n \<longleftrightarrow> scan_number n = Some (n, [])"

fun wf_json :: "nat \<Rightarrow> json \<Rightarrow> bool" where
  "wf_json d JNull = True"
| "wf_json d (JBool b) = True"
| "wf_json d (JNum n) = wf_num n"
| "wf_json d (JStr b) = wf_body b"
| "wf_json d (JArr vs) = (d < maxNestingDepth \<and> (\<forall>v \<in> set vs. wf_json (Suc d) v))"
| "wf_json d (JObj ms) = (d < maxNestingDepth \<and> (\<forall>(k, v) \<in> set ms. wf_body k \<and> wf_json (Suc d) v))"

definition num_end :: "string \<Rightarrow> bool" where
  "num_end r \<longleftrightarrow> (case r of [] \<Rightarrow> True | c # _ \<Rightarrow> \<not> is_digit c \<and> c \<notin> set ''.eE'')"

lemma scan_str_append: "scan_str s = Some (b, t) \<Longrightarrow> scan_str (s @ r) = Some (b, t @ r)"
proof (induction s arbitrary: b t rule: scan_str.induct)
  case (2 c s)
  show ?case
  proof (cases "c = dquote \<or> c \<noteq> backslash")
    case True
    with 2 show ?thesis by (auto split: if_splits)
  next
    case False
    with 2(4) obtain e u where s: "s = e # u" by (auto split: list.splits)
    show ?thesis
    proof (cases "e \<in> set ''bfnrt/'' \<or> e = backslash \<or> e = dquote")
      case True
      with False 2(4) s obtain b' where "scan_str u = Some (b', t)" "b = c # e # b'" by auto
      then show ?thesis using 2(1) [of e u b' t] False s True by auto
    next
      case nob: False
      with False 2(4) s obtain h1 h2 h3 h4 w b' where t: "e = CHR ''u''" "u = h1 # h2 # h3 # h4 # w"
        "is_hex h1 \<and> is_hex h2 \<and> is_hex h3 \<and> is_hex h4" "scan_str w = Some (b', t)"
        "b = c # e # h1 # h2 # h3 # h4 # b'"
        by (auto split: list.splits if_splits)
      then show ?thesis using 2(2) [OF _ _ s _ t(1) t(2)] False nob s by auto
    qed
  qed
qed simp

lemma scan_body: "wf_body b \<Longrightarrow> scan_str (b @ dquote # r) = Some (b, r)"
  using scan_str_append [of "b @ [dquote]" b "[]" r] by (simp add: wf_body_def)

lemma takeWhile_end:
  assumes "num_end r"
  shows "takeWhile is_digit (s @ r) = takeWhile is_digit s" "dropWhile is_digit (s @ r) = dropWhile is_digit s @ r"
proof -
  have r: "takeWhile is_digit r = []" "dropWhile is_digit r = r"
    using assms by (auto simp: num_end_def split: list.splits)
  show "takeWhile is_digit (s @ r) = takeWhile is_digit s"
    using r by (induction s) auto
  show "dropWhile is_digit (s @ r) = dropWhile is_digit s @ r"
    using r by (induction s) auto
qed

lemma scan_digits_append:
  "scan_digits s = Some (b, t) \<Longrightarrow> num_end r \<Longrightarrow> scan_digits (s @ r) = Some (b, t @ r)"
  by (auto simp: scan_digits_def takeWhile_end split: if_splits)

lemma scan_int_append:
  "scan_int s = Some (b, t) \<Longrightarrow> num_end r \<Longrightarrow> scan_int (s @ r) = Some (b, t @ r)"
  using takeWhile_end [of r s] by (auto simp: scan_int_def split: list.splits if_splits)

lemma num_end_scan: "num_end r \<Longrightarrow> scan_frac r = Some ([], r) \<and> scan_exp r = Some ([], r)"
  by (auto simp: num_end_def scan_frac_def scan_exp_def split: list.splits)

lemma scan_frac_append:
  "scan_frac s = Some (b, t) \<Longrightarrow> num_end r \<Longrightarrow> scan_frac (s @ r) = Some (b, t @ r)"
  by (cases s) (auto simp: num_end_scan, auto simp: scan_frac_def scan_digits_append split: if_splits)

lemma scan_exp_append:
  assumes "scan_exp s = Some (b, t)" "num_end r"
  shows "scan_exp (s @ r) = Some (b, t @ r)"
proof (cases s)
  case Nil
  with assms show ?thesis using num_end_scan [OF assms(2)] by (simp add: scan_exp_def)
next
  case (Cons c u)
  show ?thesis
  proof (cases u)
    case Nil
    with Cons assms show ?thesis by (auto simp: scan_exp_def split: if_splits list.splits)
  next
    case (Cons x w)
    have d: "scan_digits y = Some (ds, t) \<Longrightarrow> scan_digits (y @ r) = Some (ds, t @ r)" for y ds
      using assms(2) by (rule scan_digits_append [rotated])
    show ?thesis using assms(1) \<open>s = c # u\<close> Cons d [of w] d [of u]
      by (auto simp: scan_exp_def split: if_splits)
  qed
qed

lemma scan_number_end:
  assumes "wf_num n" "num_end r"
  shows "scan_number (n @ r) = Some (n, r)"
proof -
  obtain sg s1 ip s2 fp s3 ep where h: "scan_sign n = (sg, s1)" "scan_int s1 = Some (ip, s2)"
    "scan_frac s2 = Some (fp, s3)" "scan_exp s3 = Some (ep, [])" "n = sg @ ip @ fp @ ep"
    using assms(1) by (auto simp: wf_num_def scan_number_def split: prod.splits option.splits)
  have "s1 \<noteq> []" using h(2) by (auto simp: scan_int_def)
  then have "scan_sign (n @ r) = (sg, s1 @ r)"
    using h(1) by (auto simp: scan_sign_def split: list.splits if_splits)
  then show ?thesis
    using h scan_int_append [OF h(2) assms(2)] scan_frac_append [OF h(3) assms(2)]
      scan_exp_append [OF h(4) assms(2)] by (simp add: scan_number_def)
qed

lemma wf_num_head:
  assumes "wf_num n"
  obtains c t where "n = c # t" "c = CHR ''-'' \<or> is_digit c"
proof -
  have "is_digit (CHR ''0'')" by (simp add: is_digit_def byte_value_def)
  with assms that show ?thesis
    by (cases n) (auto simp: wf_num_def scan_number_def scan_sign_def scan_int_def
        split: if_splits option.splits list.splits prod.splits)
qed

lemma print_head:
  assumes "wf_json d v"
  obtains c t where "print_json v = c # t" "\<not> is_ws c" "c \<noteq> CHR '']''" "c \<noteq> CHR ''}''"
proof (cases v)
  case (JNum n)
  with assms obtain c t where "n = c # t" "c = CHR ''-'' \<or> is_digit c" by (auto elim: wf_num_head)
  moreover have "\<not> is_ws c \<and> c \<noteq> CHR '']'' \<and> c \<noteq> CHR ''}''" if "c = CHR ''-'' \<or> is_digit c" for c
    using that by (auto simp: is_ws_def is_digit_def byte_value_def)
  ultimately show ?thesis using JNum that by simp
next
  case (JBool b)
  with that show ?thesis by (cases b) (auto simp: is_ws_def)
qed (use that in \<open>auto simp: is_ws_def\<close>)

lemma skip_ws_head: "\<not> is_ws c \<Longrightarrow> skip_ws (c # t) = c # t"
  by (simp add: skip_ws_def)

lemma skip_ws_print: "wf_json d v \<Longrightarrow> skip_ws (print_json v @ r) = print_json v @ r"
  by (erule print_head) (simp add: skip_ws_head)

lemma parse_elems_print:
  assumes "vs \<noteq> []"
    "\<And>v r. v \<in> set vs \<Longrightarrow> num_end r \<Longrightarrow> \<exists>f. parse_value f d (print_json v @ r) = Some (v, r)"
  shows "\<exists>f. parse_elems f d (Join (map print_json vs) '','' @ CHR '']'' # r) = Some (vs, r)"
  using assms
proof (induction vs)
  case (Cons v vs)
  let ?tail = "if vs = [] then CHR '']'' # r else CHR '','' # Join (map print_json vs) '','' @ CHR '']'' # r"
  let ?s = "print_json v @ ?tail"
  have s: "Join (map print_json (v # vs)) '','' @ CHR '']'' # r = ?s" by (cases vs) simp_all
  have ne: "num_end ?tail" by (simp add: num_end_def is_digit_def byte_value_def)
  obtain f1 where "parse_value f1 d ?s = Some (v, ?tail)" using Cons.prems(2) [OF _ ne] by auto
  moreover define g where "g = 2 * length ?s + 2"
  ultimately have f1: "parse_value g d ?s = Some (v, ?tail)" by (elim parse_value_fuel) simp
  show ?case
  proof (cases "vs = []")
    case True
    then have "parse_elems (Suc g) d ?s = Some ([v], r)"
      using f1 by (simp add: skip_ws_head is_ws_def del: parse_value.simps)
    then show ?thesis unfolding s using True by blast
  next
    case False
    let ?u = "Join (map print_json vs) '','' @ CHR '']'' # r"
    obtain f2 where f2: "parse_elems f2 d ?u = Some (vs, r)" using Cons False by auto
    have "2 * length ?u + 1 < g" using False by (simp add: g_def)
    with f2 have "parse_elems g d ?u = Some (vs, r)" using parse_fuel_all by blast
    then have "parse_elems (Suc g) d ?s = Some (v # vs, r)"
      using f1 False by (simp add: skip_ws_head is_ws_def del: parse_value.simps)
    then show ?thesis unfolding s by blast
  qed
qed simp

definition print_member :: "string \<times> json \<Rightarrow> string" where
  "print_member m = (case m of (k, v) \<Rightarrow> dquote # k @ [dquote] @ '':'' @ print_json v)"

lemma parse_members_print:
  assumes "ms \<noteq> []" "\<And>k v. (k, v) \<in> set ms \<Longrightarrow> wf_body k"
    "\<And>k v r. (k, v) \<in> set ms \<Longrightarrow> num_end r \<Longrightarrow> \<exists>f. parse_value f d (print_json v @ r) = Some (v, r)"
  shows "\<exists>f. parse_members f d (Join (map print_member ms) '','' @ CHR ''}'' # r) = Some (ms, r)"
  using assms
proof (induction ms)
  case (Cons m ms)
  obtain k v where m: "m = (k, v)" by (cases m)
  let ?tail = "if ms = [] then CHR ''}'' # r else CHR '','' # Join (map print_member ms) '','' @ CHR ''}'' # r"
  let ?s3 = "print_json v @ ?tail"
  let ?s = "dquote # k @ dquote # CHR '':'' # ?s3"
  have s: "Join (map print_member (m # ms)) '','' @ CHR ''}'' # r = ?s"
    by (cases ms) (simp_all add: m print_member_def)
  have ne: "num_end ?tail" by (simp add: num_end_def is_digit_def byte_value_def)
  obtain f1 where "parse_value f1 d ?s3 = Some (v, ?tail)" using Cons.prems(3) [OF _ ne] m by auto
  moreover define g where "g = 2 * length ?s + 2"
  ultimately have f1: "parse_value g d ?s3 = Some (v, ?tail)" by (elim parse_value_fuel) simp
  have k: "scan_str (k @ dquote # CHR '':'' # ?s3) = Some (k, CHR '':'' # ?s3)"
    by (rule scan_body) (rule Cons.prems(2) [of k v], simp add: m)
  show ?case
  proof (cases "ms = []")
    case True
    then have "parse_members (Suc g) d ?s = Some ([m], r)"
      using f1 k by (simp add: skip_ws_head is_ws_def m del: parse_value.simps scan_str.simps)
    then show ?thesis unfolding s using True by blast
  next
    case False
    let ?u = "Join (map print_member ms) '','' @ CHR ''}'' # r"
    have "\<exists>f. parse_members f d ?u = Some (ms, r)"
      by (rule Cons.IH [OF False])
        (rule Cons.prems(2), erule list.set_intros(2), rule Cons.prems(3), erule list.set_intros(2))
    then obtain f2 where f2: "parse_members f2 d ?u = Some (ms, r)" by blast
    have "2 * length ?u + 1 < g" using False by (simp add: g_def)
    with f2 have "parse_members g d ?u = Some (ms, r)" using parse_fuel_all by blast
    then have "parse_members (Suc g) d ?s = Some (m # ms, r)"
      using f1 k False by (simp add: skip_ws_head is_ws_def m del: parse_value.simps scan_str.simps)
    then show ?thesis unfolding s by blast
  qed
qed simp

lemma print_json_members: "print_json (JObj ms) = ''{'' @ Join (map print_member ms) '','' @ ''}''"
  by (simp add: print_member_def [abs_def])

lemma parse_value_print:
  "wf_json d v \<Longrightarrow> num_end r \<Longrightarrow> \<exists>f. parse_value f d (print_json v @ r) = Some (v, r)"
proof (induction v arbitrary: d r)
  case (JBool b)
  then show ?case by (intro exI [of _ 1]) (cases b; simp add: skip_ws_head is_ws_def expect_def HasPrefix_def)
next
  case JNull
  show ?case by (intro exI [of _ 1]) (simp add: skip_ws_head is_ws_def expect_def HasPrefix_def)
next
  case (JNum n)
  then obtain c t where n: "n = c # t" "c = CHR ''-'' \<or> is_digit c" by (auto elim: wf_num_head)
  then have c: "\<not> is_ws c" "c \<notin> set ''[{ntf''" "c \<noteq> dquote"
    by (auto simp: is_ws_def is_digit_def byte_value_def)
  have "scan_number (n @ r) = Some (n, r)" using JNum by (intro scan_number_end) simp_all
  with n(1) c have "parse_value 1 d (n @ r) = Some (JNum n, r)" by (simp add: skip_ws_head)
  then show ?case by (auto simp del: parse_value.simps)
next
  case (JStr b)
  then have "parse_value 1 d (dquote # b @ dquote # r) = Some (JStr b, r)"
    by (simp add: skip_ws_head is_ws_def scan_body del: scan_str.simps)
  then show ?case by (auto simp del: parse_value.simps)
next
  case (JArr vs)
  show ?case
  proof (cases "vs = []")
    case True
    have "parse_value 1 d (''[]'' @ r) = Some (JArr [], r)"
      using JArr.prems by (simp add: skip_ws_head is_ws_def)
    then show ?thesis using True by (auto simp del: parse_value.simps)
  next
    case False
    let ?u = "Join (map print_json vs) '','' @ CHR '']'' # r"
    obtain f where f: "parse_elems f (Suc d) ?u = Some (vs, r)"
      using parse_elems_print [OF False, of "Suc d" r] JArr by auto
    obtain w ws where vs: "vs = w # ws" using False by (cases vs) auto
    then obtain c t where "print_json w = c # t" "\<not> is_ws c" "c \<noteq> CHR '']''"
      using JArr.prems by (auto elim: print_head)
    then have "\<exists>t'. skip_ws ?u = c # t'" "c \<noteq> CHR '']''" unfolding vs by (cases ws; simp add: skip_ws_head)+
    then obtain t' where "skip_ws ?u = c # t'" "c \<noteq> CHR '']''" by blast
    then have "parse_value (Suc f) d (CHR ''['' # ?u) = Some (JArr vs, r)"
      using f JArr.prems by (simp add: skip_ws_head is_ws_def)
    then show ?thesis by (auto simp del: parse_value.simps)
  qed
next
  case (JObj ms)
  show ?case
  proof (cases "ms = []")
    case True
    have "parse_value 1 d (''{}'' @ r) = Some (JObj [], r)"
      using JObj.prems by (simp add: skip_ws_head is_ws_def)
    then show ?thesis using True by (auto simp del: parse_value.simps)
  next
    case False
    let ?u = "Join (map print_member ms) '','' @ CHR ''}'' # r"
    have "\<exists>f. parse_members f (Suc d) ?u = Some (ms, r)"
    proof (rule parse_members_print [OF False])
      show "wf_body k" if "(k, v) \<in> set ms" for k v using that JObj.prems by auto
      show "\<exists>f. parse_value f (Suc d) (print_json v @ r') = Some (v, r')"
        if "(k, v) \<in> set ms" "num_end r'" for k v r'
        using that JObj.prems by (intro JObj.IH [of "(k, v)" v]) auto
    qed
    then obtain f where f: "parse_members f (Suc d) ?u = Some (ms, r)" by blast
    obtain w ws where ms: "ms = w # ws" using False by (cases ms) auto
    have "\<exists>t'. skip_ws ?u = dquote # t'"
      unfolding ms by (cases ws; cases w; simp add: skip_ws_head is_ws_def print_member_def)
    then obtain t' where "skip_ws ?u = dquote # t'" by blast
    then have "parse_value (Suc f) d (CHR ''{'' # ?u) = Some (JObj ms, r)"
      using f JObj.prems by (simp add: skip_ws_head is_ws_def)
    then show ?thesis unfolding print_json_members by (auto simp del: parse_value.simps)
  qed
qed

text \<open>Printing a well-formed tree and parsing the result gives the tree back.\<close>

lemma parse_print: "wf_json 0 v \<Longrightarrow> parse_json (print_json v) = Some v"
proof -
  assume "wf_json 0 v"
  then obtain f where "parse_value f 0 (print_json v) = Some (v, [])"
    using parse_value_print [of 0 v "[]"] by (auto simp: num_end_def simp del: parse_value.simps)
  moreover have "skip_ws [] = []" by (simp add: skip_ws_def)
  ultimately show ?thesis unfolding parse_json_iff by blast
qed

subsection \<open>Strings\<close>

text \<open>Length of the UTF-8 sequence at the head of a byte string, 0 when it is not valid.\<close>

definition in_bytes :: "nat \<Rightarrow> nat \<Rightarrow> char \<Rightarrow> bool" where
  "in_bytes lo hi c \<longleftrightarrow> lo \<le> byte_value c \<and> byte_value c \<le> hi"

definition utf8_width :: "string \<Rightarrow> nat" where
  "utf8_width s =
     (case s of
        [] \<Rightarrow> 0
      | b0 # r \<Rightarrow>
          let n = byte_value b0;
              cont = (\<lambda>i lo hi. i < length r \<and> in_bytes lo hi (r ! i)) in
          if n < 0x80 then 1
          else if 0xC2 \<le> n \<and> n \<le> 0xDF then (if cont 0 0x80 0xBF then 2 else 0)
          else if 0xE0 \<le> n \<and> n \<le> 0xEF then
            (if cont 0 (if n = 0xE0 then 0xA0 else 0x80) (if n = 0xED then 0x9F else 0xBF) \<and> cont 1 0x80 0xBF
             then 3 else 0)
          else if 0xF0 \<le> n \<and> n \<le> 0xF4 then
            (if cont 0 (if n = 0xF0 then 0x90 else 0x80) (if n = 0xF4 then 0x8F else 0xBF) \<and>
                cont 1 0x80 0xBF \<and> cont 2 0x80 0xBF
             then 4 else 0)
          else 0)"

text \<open>An ASCII byte inside a string literal, HTML escaping on.\<close>

definition hex4 :: "nat \<Rightarrow> string" where
  "hex4 n = [digit_char (n div 4096 mod 16), digit_char (n div 256 mod 16), digit_char (n div 16 mod 16),
             digit_char (n mod 16)]"

definition quote_ascii :: "char \<Rightarrow> string" where
  "quote_ascii c =
     (let n = byte_value c in
      if c = dquote \<or> c = backslash then [backslash, c]
      else if n = 8 then [backslash, CHR ''b'']
      else if n = 12 then [backslash, CHR ''f'']
      else if n = 10 then [backslash, CHR ''n'']
      else if n = 13 then [backslash, CHR ''r'']
      else if n = 9 then [backslash, CHR ''t'']
      else if n < 32 \<or> c \<in> set ''<>&'' then backslash # CHR ''u'' # hex4 n
      else [c])"

definition line_separators :: "string list" where
  "line_separators = [[CHR 0xE2, CHR 0x80, CHR 0xA8], [CHR 0xE2, CHR 0x80, CHR 0xA9]]"

function quote :: "string \<Rightarrow> string" where
  "quote [] = []"
| "quote (c # s) =
     (if byte_value c < 0x80 then quote_ascii c @ quote s
      else if utf8_width (c # s) = 0 then backslash # CHR ''u'' # ''fffd'' @ quote s
      else if HasPrefix (c # s) (line_separators ! 0) then backslash # CHR ''u'' # ''2028'' @ quote (drop 2 s)
      else if HasPrefix (c # s) (line_separators ! 1) then backslash # CHR ''u'' # ''2029'' @ quote (drop 2 s)
      else take (utf8_width (c # s)) (c # s) @ quote (drop (utf8_width (c # s)) (c # s)))"
  by pat_completeness auto
termination
  by (relation "measure length") (auto simp: le_imp_less_Suc)

declare quote.simps [simp del]

definition encode_rune :: "nat \<Rightarrow> string" where
  "encode_rune n =
     (if n < 0x80 then [byte_of n]
      else if n < 0x800 then [byte_of (0xC0 + n div 64), byte_of (0x80 + n mod 64)]
      else if n < 0x10000 then
        [byte_of (0xE0 + n div 4096), byte_of (0x80 + n div 64 mod 64), byte_of (0x80 + n mod 64)]
      else [byte_of (0xF0 + n div 262144), byte_of (0x80 + n div 4096 mod 64),
            byte_of (0x80 + n div 64 mod 64), byte_of (0x80 + n mod 64)])"

definition rune_error :: string where
  "rune_error = [CHR 0xEF, CHR 0xBF, CHR 0xBD]"

text \<open>The four hexadecimal digits after a backslash and a u, if they are next.\<close>

definition getu4 :: "string \<Rightarrow> nat option" where
  "getu4 s = (case s of
       b # u # h # h' # h'' # h''' # _ \<Rightarrow>
         if b = backslash \<and> u = CHR ''u'' then digits_value 16 0 [h, h', h'', h'''] else None
     | _ \<Rightarrow> None)"

definition escape_value :: "char \<Rightarrow> char" where
  "escape_value e =
     (if e = CHR ''b'' then CHR 0x08 else if e = CHR ''f'' then CHR 0x0C
      else if e = CHR ''n'' then CHR 0x0A else if e = CHR ''r'' then CHR 0x0D
      else if e = CHR ''t'' then CHR 0x09 else e)"

function unquote :: "string \<Rightarrow> string" where
  "unquote [] = []"
| "unquote (c # s) =
     (if c = backslash then
        (case getu4 (c # s) of
           Some rr \<Rightarrow>
             if 0xD800 \<le> rr \<and> rr < 0xE000 then
               (case getu4 (drop 5 s) of
                  Some rr1 \<Rightarrow>
                    if rr < 0xDC00 \<and> 0xDC00 \<le> rr1 \<and> rr1 < 0xE000
                    then encode_rune (0x10000 + (rr - 0xD800) * 1024 + (rr1 - 0xDC00)) @ unquote (drop 11 s)
                    else rune_error @ unquote (drop 5 s)
                | None \<Rightarrow> rune_error @ unquote (drop 5 s))
             else encode_rune rr @ unquote (drop 5 s)
         | None \<Rightarrow> (case s of [] \<Rightarrow> [] | e # t \<Rightarrow> escape_value e # unquote t))
      else if byte_value c < 0x80 then c # unquote s
      else if utf8_width (c # s) = 0 then rune_error @ unquote s
      else take (utf8_width (c # s)) (c # s) @ unquote (drop (utf8_width (c # s)) (c # s)))"
  by pat_completeness auto
termination
  by (relation "measure length") (auto simp: le_imp_less_Suc)

declare unquote.simps [simp del]

text \<open>What re-encoding a raw value does to the body of each of its strings.\<close>

function escape_html :: "string \<Rightarrow> string" where
  "escape_html [] = []"
| "escape_html (c # s) =
     (if c \<in> set ''<>&'' then backslash # CHR ''u'' # hex4 (byte_value c) @ escape_html s
      else if HasPrefix (c # s) (line_separators ! 0) then backslash # CHR ''u'' # ''2028'' @ escape_html (drop 2 s)
      else if HasPrefix (c # s) (line_separators ! 1) then backslash # CHR ''u'' # ''2029'' @ escape_html (drop 2 s)
      else c # escape_html s)"
  by pat_completeness auto
termination
  by (relation "measure length") (auto simp: le_imp_less_Suc)

declare escape_html.simps [simp del]

fun compact_json :: "json \<Rightarrow> json" where
  "compact_json JNull = JNull"
| "compact_json (JBool b) = JBool b"
| "compact_json (JNum n) = JNum n"
| "compact_json (JStr b) = JStr (escape_html b)"
| "compact_json (JArr vs) = JArr (map compact_json vs)"
| "compact_json (JObj ms) = JObj (map (\<lambda>(k, v). (escape_html k, compact_json v)) ms)"

lemma scan_plain:
  assumes "c \<noteq> dquote" "c \<noteq> backslash" "32 \<le> byte_value c"
  shows "scan_str (c # t) = map_option (\<lambda>(b, r). (c # b, r)) (scan_str t)"
  using assms by (simp add: not_less [symmetric])

lemma scan_high:
  assumes "\<forall>c \<in> set p. 128 \<le> byte_value c"
  shows "scan_str (p @ t) = map_option (\<lambda>(b, r). (p @ b, r)) (scan_str t)"
  using assms
proof (induction p)
  case Nil
  show ?case by (cases "scan_str t") auto
next
  case (Cons c p)
  then have "c \<noteq> dquote" "c \<noteq> backslash" "32 \<le> byte_value c" by (auto simp: byte_value_def)
  with Cons show ?case by (simp add: scan_plain option.map_comp o_def case_prod_unfold del: scan_str.simps)
qed

lemma is_hex_digit_char: "d < 16 \<Longrightarrow> is_hex (digit_char d)"
  by (simp add: is_hex_def digit_value_char)

lemma scan_hex4:
  "scan_str (backslash # CHR ''u'' # hex4 n @ t) =
     map_option (\<lambda>(b, r). (backslash # CHR ''u'' # hex4 n @ b, r)) (scan_str t)"
  by (simp add: hex4_def is_hex_digit_char)

lemma scan_quote_ascii:
  assumes "byte_value c < 128"
  shows "scan_str (quote_ascii c @ t) = map_option (\<lambda>(b, r). (quote_ascii c @ b, r)) (scan_str t)"
proof (cases "c = dquote \<or> c = backslash \<or> byte_value c \<in> {8, 12, 10, 13, 9}")
  case True
  then show ?thesis by (auto simp: quote_ascii_def Let_def)
next
  case False
  show ?thesis
  proof (cases "byte_value c < 32 \<or> c \<in> set ''<>&''")
    case True
    with False have "quote_ascii c = backslash # CHR ''u'' # hex4 (byte_value c)"
      by (simp add: quote_ascii_def Let_def)
    then show ?thesis by (simp add: scan_hex4 del: scan_str.simps)
  next
    case plain: False
    with False have "quote_ascii c = [c]" by (simp add: quote_ascii_def Let_def)
    with False plain show ?thesis by (simp add: scan_plain del: scan_str.simps)
  qed
qed

lemma utf8_high_cases:
  assumes "128 \<le> byte_value c" "utf8_width (c # s) \<noteq> 0"
  obtains x t where "s = x # t" "utf8_width (c # s) = 2" "in_bytes 128 191 x"
      "\<And>u. utf8_width (c # x # u) = 2"
  | x y t where "s = x # y # t" "utf8_width (c # s) = 3" "in_bytes 128 191 x" "in_bytes 128 191 y"
      "\<And>u. utf8_width (c # x # y # u) = 3"
  | x y z t where "s = x # y # z # t" "utf8_width (c # s) = 4" "in_bytes 128 191 x" "in_bytes 128 191 y"
      "in_bytes 128 191 z" "\<And>u. utf8_width (c # x # y # z # u) = 4"
proof -
  let ?n = "byte_value c"
  consider "0xC2 \<le> ?n" "?n \<le> 0xDF" | "0xE0 \<le> ?n" "?n \<le> 0xEF" | "0xF0 \<le> ?n" "?n \<le> 0xF4"
    using assms by (auto simp: utf8_width_def Let_def split: if_splits)
  then show thesis
  proof cases
    case 1
    with assms obtain x t where "s = x # t" by (cases s) (auto simp: utf8_width_def Let_def)
    then show ?thesis
      by (intro that(1) [of x t]; use 1 assms in \<open>auto simp: utf8_width_def Let_def in_bytes_def split: if_splits\<close>)
  next
    case 2
    with assms obtain x y t where s: "s = x # y # t"
      by (cases s; cases "tl s") (auto simp: utf8_width_def Let_def split: if_splits)
    have "in_bytes (if ?n = 0xE0 then 0xA0 else 0x80) (if ?n = 0xED then 0x9F else 0xBF) x" "in_bytes 0x80 0xBF y"
      using 2 assms s by (auto simp: utf8_width_def Let_def split: if_splits)
    with 2 s show ?thesis
      by (intro that(2) [of x y t]) (auto simp: utf8_width_def Let_def in_bytes_def split: if_splits)
  next
    case 3
    with assms obtain x y z t where s: "s = x # y # z # t"
      by (cases s; cases "tl s"; cases "tl (tl s)") (auto simp: utf8_width_def Let_def split: if_splits)
    have "in_bytes (if ?n = 0xF0 then 0x90 else 0x80) (if ?n = 0xF4 then 0x8F else 0xBF) x"
      "in_bytes 0x80 0xBF y" "in_bytes 0x80 0xBF z"
      using 3 assms s by (auto simp: utf8_width_def Let_def split: if_splits)
    with 3 s show ?thesis
      by (intro that(3) [of x y z t]) (auto simp: utf8_width_def Let_def in_bytes_def numeral_2_eq_2 split: if_splits)
  qed
qed

lemma wf_quote_append: "scan_str (quote s @ dquote # r) = Some (quote s, r)"
proof (induction s rule: quote.induct)
  case (2 c s)
  have hx: "is_hex (CHR ''f'')" "is_hex (CHR ''d'')" "is_hex (CHR ''2'')" "is_hex (CHR ''0'')"
      "is_hex (CHR ''8'')" "is_hex (CHR ''9'')"
    by code_simp+
  show ?case
  proof (cases "byte_value c < 0x80")
    case True
    then show ?thesis using 2(1) by (simp add: quote.simps scan_quote_ascii del: scan_str.simps)
  next
    case hi: False
    show ?thesis
    proof (cases "utf8_width (c # s) = 0")
      case True
      with hi show ?thesis using 2(2) hx by (simp add: quote.simps)
    next
      case w: False
      have "\<forall>x \<in> set (take (utf8_width (c # s)) (c # s)). 128 \<le> byte_value x"
        by (rule utf8_high_cases [of c s]) (use hi w in \<open>auto simp: take_Cons' in_bytes_def\<close>)
      with hi w 2(3-5) hx show ?thesis by (auto simp: quote.simps scan_high)
    qed
  qed
qed (simp add: quote.simps)

lemma wf_body_quote: "wf_body (quote s)"
  using wf_quote_append [of s "[]"] by (simp add: wf_body_def)

function valid_utf8 :: "string \<Rightarrow> bool" where
  "valid_utf8 [] = True"
| "valid_utf8 (c # s) =
     (if utf8_width (c # s) = 0 then False else valid_utf8 (drop (utf8_width (c # s)) (c # s)))"
  by pat_completeness auto
termination
  by (relation "measure length") auto

declare valid_utf8.simps(2) [simp del]

lemma valid_utf8_Cons:
  "valid_utf8 (c # s) \<longleftrightarrow> utf8_width (c # s) \<noteq> 0 \<and> valid_utf8 (drop (utf8_width (c # s)) (c # s))"
  by (simp add: valid_utf8.simps(2) [of c s])

lemma byte_value_inject: "byte_value a = byte_value b \<longleftrightarrow> a = b"
  by (metis byte_of_value)

lemma utf8_width_ascii: "byte_value c < 128 \<Longrightarrow> utf8_width (c # s) = 1"
  by (simp add: utf8_width_def)

lemma valid_utf8_ascii: "\<forall>c \<in> set s. byte_value c < 128 \<Longrightarrow> valid_utf8 s"
  by (induction s) (simp_all add: valid_utf8_Cons utf8_width_ascii)

lemma getu4_hex4:
  assumes "n < 65536"
  shows "getu4 (backslash # CHR ''u'' # hex4 n @ t) = Some n"
proof -
  have "n div 4096 < 16" using assms by (simp add: less_mult_imp_div_less)
  moreover have "n div 4096 * 16 + n div 256 mod 16 = n div 256" "n div 256 * 16 + n div 16 mod 16 = n div 16"
    using div_mod_step [of n 256 16] div_mod_step [of n 16 16] by simp_all
  moreover have "n div 16 * 16 + n mod 16 = n" by simp
  ultimately have "((n div 4096 mod 16 * 16 + n div 256 mod 16) * 16 + n div 16 mod 16) * 16 + n mod 16 = n"
    by (simp only: mod_less)
  moreover have "digits_value 16 0 (hex4 n) =
      Some (((n div 4096 mod 16 * 16 + n div 256 mod 16) * 16 + n div 16 mod 16) * 16 + n mod 16)"
    unfolding hex4_def digits_value.simps
    by (simp only: digit_value_char mod_less_divisor option.case mult_0 add_0_left zero_less_numeral order.refl
        numeral_le_iff semiring_norm)
  ultimately have "digits_value 16 0 (hex4 n) = Some n" by (simp only:)
  then show ?thesis by (simp add: getu4_def hex4_def del: digits_value.simps)
qed

lemma getu4_escape: "e \<noteq> CHR ''u'' \<Longrightarrow> getu4 (backslash # e # t) = None"
  by (auto simp: getu4_def split: list.splits)

lemma unquote_hex4:
  assumes "n < 0xD800"
  shows "unquote (backslash # CHR ''u'' # hex4 n @ t) = encode_rune n @ unquote t"
  using getu4_hex4 [of n t] assms by (simp add: unquote.simps hex4_def)

lemma unquote_escape:
  "e \<noteq> CHR ''u'' \<Longrightarrow> unquote (backslash # e # t) = escape_value e # unquote t"
  by (simp add: unquote.simps(2) [of backslash] getu4_escape)

lemma unquote_quote_ascii:
  assumes "byte_value c < 128"
  shows "unquote (quote_ascii c @ t) = c # unquote t"
proof (cases "c = dquote \<or> c = backslash \<or> byte_value c \<in> {8, 12, 10, 13, 9}")
  case True
  have "byte_value (CHR 0x08) = 8" "byte_value (CHR 0x0C) = 12" "byte_value (CHR 0x0A) = 10"
    "byte_value (CHR 0x0D) = 13" "byte_value (CHR 0x09) = 9" by (simp_all add: byte_value_def)
  with True have "c \<in> {dquote, backslash, CHR 0x08, CHR 0x0C, CHR 0x0A, CHR 0x0D, CHR 0x09}"
    by (auto simp flip: byte_value_inject)
  then obtain e where "quote_ascii c = [backslash, e]" "e \<noteq> CHR ''u''" "escape_value e = c"
    by (elim insertE emptyE) (auto simp: quote_ascii_def escape_value_def byte_value_def)
  then show ?thesis by (simp add: unquote_escape)
next
  case False
  show ?thesis
  proof (cases "byte_value c < 32 \<or> c \<in> set ''<>&''")
    case True
    with False have "quote_ascii c = backslash # CHR ''u'' # hex4 (byte_value c)"
      by (simp add: quote_ascii_def Let_def)
    then show ?thesis using unquote_hex4 [of "byte_value c" t] assms by (simp add: encode_rune_def)
  next
    case plain: False
    with False have "quote_ascii c = [c]" by (simp add: quote_ascii_def Let_def)
    with False assms show ?thesis by (simp add: unquote.simps)
  qed
qed

lemma unquote_high:
  assumes "128 \<le> byte_value c" "utf8_width (c # s) = w" "w \<noteq> 0"
  shows "unquote (take w (c # s) @ t) = take w (c # s) @ unquote t"
proof -
  have c: "c \<noteq> backslash" "\<not> byte_value c < 128" using assms(1) by (auto simp: byte_value_def)
  show ?thesis
    by (rule utf8_high_cases [of c s]) (use assms c in \<open>auto simp: unquote.simps(2) [of c] take_Cons'\<close>)
qed

lemma encode_separators:
  "encode_rune 0x2028 = line_separators ! 0" "encode_rune 0x2029 = line_separators ! 1"
  using byte_of_value [of "CHR 0xE2"] byte_of_value [of "CHR 0x80"] byte_of_value [of "CHR 0xA8"]
    byte_of_value [of "CHR 0xA9"]
  by (simp_all add: encode_rune_def line_separators_def byte_value_def)

lemma hex4_separators: "''2028'' = hex4 0x2028" "''2029'' = hex4 0x2029"
  by (simp_all add: hex4_def digit_char_def digit_alphabet_def)

text \<open>The decoder inverts the encoder on valid UTF-8.\<close>

lemma unquote_quote: "valid_utf8 s \<Longrightarrow> unquote (quote s) = s"
proof (induction s rule: quote.induct)
  case (2 c s)
  then have v: "utf8_width (c # s) \<noteq> 0" "valid_utf8 (drop (utf8_width (c # s)) (c # s))"
    by (simp_all add: valid_utf8_Cons)
  show ?case
  proof (cases "byte_value c < 0x80")
    case True
    then show ?thesis using 2(1) v by (simp add: quote.simps unquote_quote_ascii utf8_width_ascii)
  next
    case hi: False
    show ?thesis
    proof (cases "HasPrefix (c # s) (line_separators ! 0) \<or> HasPrefix (c # s) (line_separators ! 1)")
      case True
      then obtain x t where s: "c = CHR 0xE2" "s = CHR 0x80 # x # t" "x = CHR 0xA8 \<or> x = CHR 0xA9"
        by (auto simp: line_separators_def HasPrefix_iff)
      then have w: "utf8_width (c # s) = 3"
        by (auto simp: utf8_width_def in_bytes_def byte_value_def)
      with v s have "valid_utf8 (drop 2 s)" by simp
      then have IH: "unquote (quote (drop 2 s)) = drop 2 s"
        using 2(3,4) hi v(1) True by blast
      have "quote (c # s) = backslash # CHR ''u'' # hex4 (if x = CHR 0xA8 then 0x2028 else 0x2029) @ quote (drop 2 s)"
        by (subst quote.simps(2)) (use hi v(1) s in \<open>auto simp: line_separators_def HasPrefix_def hex4_separators\<close>)
      then show ?thesis
        using s IH by (auto simp: unquote_hex4 encode_separators) (simp_all add: line_separators_def)
    next
      case False
      then have "unquote (quote (drop (utf8_width (c # s)) (c # s))) = drop (utf8_width (c # s)) (c # s)"
        using 2(5) hi v by blast
      with False hi v(1) show ?thesis by (simp add: quote.simps(2) [of c] unquote_high del: take_Suc_Cons)
    qed
  qed
qed (simp_all add: quote.simps unquote.simps)

subsection \<open>HTML escaping of raw values\<close>

lemma escape_html_plain:
  "c \<notin> set ''<>&'' \<Longrightarrow> c \<noteq> CHR 0xE2 \<Longrightarrow> escape_html (c # s) = c # escape_html s"
  by (subst escape_html.simps(2)) (auto simp: HasPrefix_def line_separators_def)

lemma escape_html_ascii: "\<forall>c \<in> set p. c \<notin> set ''<>&'' \<and> c \<noteq> CHR 0xE2 \<Longrightarrow> escape_html (p @ t) = p @ escape_html t"
  by (induction p) (simp_all add: escape_html_plain)

lemma digit_char_plain: "d < 16 \<Longrightarrow> digit_char d \<notin> set ''<>&'' \<and> digit_char d \<noteq> CHR 0xE2"
  using digit_char_in [of d] by (auto simp: digit_alphabet_def)

lemma escape_html_quote_ascii:
  assumes "byte_value c < 128"
  shows "escape_html (quote_ascii c @ t) = quote_ascii c @ escape_html t"
proof -
  have "c \<noteq> CHR 0xE2" using assms by (auto simp: byte_value_def)
  then have "\<forall>x \<in> set (quote_ascii c). x \<notin> set ''<>&'' \<and> x \<noteq> CHR 0xE2"
    using digit_char_plain by (auto simp: quote_ascii_def Let_def hex4_def)
  then show ?thesis by (rule escape_html_ascii)
qed

lemma escape_html_high:
  assumes "128 \<le> byte_value c" "utf8_width (c # s) = w" "w \<noteq> 0"
    "\<not> HasPrefix (c # s) (line_separators ! 0)" "\<not> HasPrefix (c # s) (line_separators ! 1)"
  shows "escape_html (take w (c # s) @ t) = take w (c # s) @ escape_html t"
proof -
  have c: "c \<notin> set ''<>&''" using assms(1) by (auto simp: byte_value_def)
  have cont: "in_bytes 128 191 x \<Longrightarrow> x \<notin> set ''<>&'' \<and> x \<noteq> CHR 0xE2" for x
    by (auto simp: in_bytes_def byte_value_def)
  have e2: "c = CHR 0xE2 \<Longrightarrow> byte_value c = 226" by (simp add: byte_value_def)
  show ?thesis
  proof (rule utf8_high_cases [of c s])
    show "128 \<le> byte_value c" "utf8_width (c # s) \<noteq> 0" using assms by simp_all
  next
    fix x u assume h: "s = x # u" "utf8_width (c # s) = 2" "in_bytes 128 191 x" "\<And>u. utf8_width (c # x # u) = 2"
    have "c \<noteq> CHR 0xE2" using h(2) e2 by (auto simp: utf8_width_def Let_def split: if_splits list.splits)
    then show ?thesis using h cont [of x] c assms(2) by (simp add: escape_html_plain take_Cons')
  next
    fix x y u assume h: "s = x # y # u" "utf8_width (c # s) = 3" "in_bytes 128 191 x" "in_bytes 128 191 y"
    have "escape_html (c # x # y # t) = c # escape_html (x # y # t)"
      by (subst escape_html.simps(2)) (use assms(4,5) c h(1) in \<open>auto simp: HasPrefix_def line_separators_def\<close>)
    then show ?thesis using h cont [of x] cont [of y] assms(2) by (simp add: escape_html_plain take_Cons')
  next
    fix x y z u assume h: "s = x # y # z # u" "utf8_width (c # s) = 4" "in_bytes 128 191 x" "in_bytes 128 191 y"
      "in_bytes 128 191 z"
    have "c \<noteq> CHR 0xE2" using h(2) e2 by (auto simp: utf8_width_def Let_def split: if_splits list.splits)
    then show ?thesis using h cont [of x] cont [of y] cont [of z] c assms(2)
      by (simp add: escape_html_plain take_Cons')
  qed
qed

lemma escape_html_quote: "escape_html (quote s) = quote s"
proof (induction s rule: quote.induct)
  case (2 c s)
  have seps: "escape_html (backslash # CHR ''u'' # ''2028'' @ t) = backslash # CHR ''u'' # ''2028'' @ escape_html t"
      "escape_html (backslash # CHR ''u'' # ''2029'' @ t) = backslash # CHR ''u'' # ''2029'' @ escape_html t"
      "escape_html (backslash # CHR ''u'' # ''fffd'' @ t) = backslash # CHR ''u'' # ''fffd'' @ escape_html t" for t
    by (simp_all add: escape_html_plain)
  show ?case
    using 2 by (subst (1 2) quote.simps(2))
      (simp add: escape_html_quote_ascii seps escape_html_high del: append_Cons take_Suc_Cons drop_Suc_Cons)
qed (simp add: quote.simps escape_html.simps)


lemma is_hex_plain: "is_hex h \<Longrightarrow> h \<notin> set ''<>&'' \<and> h \<noteq> CHR 0xE2 \<and> h \<noteq> dquote"
proof -
  have "\<not> is_hex (CHR ''<'') \<and> \<not> is_hex (CHR ''>'') \<and> \<not> is_hex (CHR ''&'') \<and> \<not> is_hex (CHR 0xE2) \<and> \<not> is_hex dquote"
    by code_simp
  then show "is_hex h \<Longrightarrow> ?thesis" by auto
qed

lemma wf_body_plain:
  assumes "wf_body (c # s)" "c \<noteq> backslash"
  shows "wf_body s \<and> c \<noteq> dquote \<and> 32 \<le> byte_value c"
  using assms by (auto simp: wf_body_def not_less split: if_splits)

lemma wf_body_escape:
  assumes "wf_body (backslash # s)"
  shows "(\<exists>e t. s = e # t \<and> (e \<in> set ''bfnrt/'' \<or> e = backslash \<or> e = dquote) \<and> wf_body t) \<or>
    (\<exists>h1 h2 h3 h4 t. s = CHR ''u'' # h1 # h2 # h3 # h4 # t \<and> is_hex h1 \<and> is_hex h2 \<and> is_hex h3 \<and> is_hex h4 \<and> wf_body t)"
proof -
  have dq: "\<not> is_hex dquote" by code_simp
  obtain e t where s: "s = e # t" using assms by (cases s) (auto simp: wf_body_def)
  show ?thesis
  proof (cases "e \<in> set ''bfnrt/'' \<or> e = backslash \<or> e = dquote")
    case True
    with assms s have "wf_body t" by (auto simp: wf_body_def)
    with True s show ?thesis by blast
  next
    case False
    with assms s obtain h1 h2 h3 h4 u where "e = CHR ''u''" and u: "t @ [dquote] = h1 # h2 # h3 # h4 # u"
      and h: "is_hex h1" "is_hex h2" "is_hex h3" "is_hex h4"
      by (auto simp: wf_body_def split: if_splits list.splits)
    moreover from u h dq obtain t' where t': "t = h1 # h2 # h3 # h4 # t'" "u = t' @ [dquote]"
      by (auto simp: Cons_eq_append_conv append_eq_Cons_conv)
    moreover have "wf_body t'" using assms False s h calculation(1) t' by (auto simp: wf_body_def)
    ultimately show ?thesis using s h by simp
  qed
qed

lemma wf_body_scan: "wf_body b \<longleftrightarrow> (\<forall>r. scan_str (b @ dquote # r) = Some (b, r))"
  using scan_body by (auto simp: wf_body_def)

lemma wf_body_simps:
  "wf_body t \<Longrightarrow> c \<noteq> dquote \<Longrightarrow> c \<noteq> backslash \<Longrightarrow> 32 \<le> byte_value c \<Longrightarrow> wf_body (c # t)"
  "wf_body t \<Longrightarrow> e \<in> set ''bfnrt/'' \<or> e = backslash \<or> e = dquote \<Longrightarrow> wf_body (backslash # e # t)"
  "wf_body t \<Longrightarrow> is_hex h1 \<Longrightarrow> is_hex h2 \<Longrightarrow> is_hex h3 \<Longrightarrow> is_hex h4 \<Longrightarrow>
     wf_body (backslash # CHR ''u'' # h1 # h2 # h3 # h4 # t)"
  by (auto simp: wf_body_def)

lemma wf_body_hex4: "wf_body t \<Longrightarrow> wf_body (backslash # CHR ''u'' # hex4 n @ t)"
  by (simp add: hex4_def wf_body_simps(3) is_hex_digit_char)

lemma wf_escape_html: "wf_body b \<Longrightarrow> wf_body (escape_html b)"
proof (induction b rule: measure_induct_rule [where f = length])
  case (less b)
  show ?case
  proof (cases b)
    case Nil
    then show ?thesis by (simp add: escape_html.simps wf_body_def)
  next
    case (Cons c s)
    show ?thesis
    proof (cases "c = backslash")
      case True
      then have "wf_body (backslash # s)" using less.prems Cons by simp
      from wf_body_escape [OF this] show ?thesis
      proof
        assume "\<exists>e t. s = e # t \<and> (e \<in> set ''bfnrt/'' \<or> e = backslash \<or> e = dquote) \<and> wf_body t"
        then obtain e t where s: "s = e # t" and e: "e \<in> set ''bfnrt/'' \<or> e = backslash \<or> e = dquote" and t: "wf_body t"
          by blast
        have "escape_html b = backslash # e # escape_html t"
          using Cons True s e by (auto simp: escape_html_plain)
        moreover have "wf_body (escape_html t)" using t s Cons by (intro less.IH) simp_all
        ultimately show ?thesis using e by (simp only: wf_body_simps(2))
      next
        assume "\<exists>h1 h2 h3 h4 t. s = CHR ''u'' # h1 # h2 # h3 # h4 # t \<and>
          is_hex h1 \<and> is_hex h2 \<and> is_hex h3 \<and> is_hex h4 \<and> wf_body t"
        then obtain h1 h2 h3 h4 t where s: "s = CHR ''u'' # h1 # h2 # h3 # h4 # t"
          and h: "is_hex h1" "is_hex h2" "is_hex h3" "is_hex h4" and t: "wf_body t" by (elim exE conjE) simp
        have "escape_html b = backslash # CHR ''u'' # h1 # h2 # h3 # h4 # escape_html t"
          using Cons True s h [THEN is_hex_plain] by (simp add: escape_html_plain)
        moreover have "wf_body (escape_html t)" using t s Cons by (intro less.IH) simp_all
        ultimately show ?thesis using h by (simp only: wf_body_simps(3))
      qed
    next
      case False
      then have p: "wf_body s" "c \<noteq> dquote" "32 \<le> byte_value c"
        using wf_body_plain [of c s] less.prems Cons by auto
      then have IH: "wf_body (escape_html s)" using less.IH [of s] Cons by simp
      have sep: "wf_body (escape_html (drop 2 s))" if pre: "HasPrefix (c # s) (line_separators ! i)" "i = 0 \<or> i = 1" for i
      proof -
        obtain x t where s: "s = CHR 0x80 # x # t" "x \<noteq> backslash"
          using pre by (auto simp: line_separators_def HasPrefix_iff)
        then have "wf_body t" using p(1) wf_body_plain [of "CHR 0x80" "x # t"] wf_body_plain [of x t] by auto
        then show ?thesis using less.IH [of t] s Cons by simp
      qed
      show ?thesis unfolding Cons
        by (subst escape_html.simps(2))
          (use IH sep [of 0] sep [of 1] p False in \<open>auto simp: wf_body_hex4 hex4_separators wf_body_simps(1)\<close>)
    qed
  qed
qed

lemma wf_compact: "wf_json d v \<Longrightarrow> wf_json d (compact_json v)"
  by (induction v arbitrary: d) (auto simp: wf_escape_html)

subsection \<open>Parsed values are well-formed\<close>

lemma scan_str_wf: "scan_str s = Some (b, r) \<Longrightarrow> wf_body b"
proof (induction s arbitrary: b r rule: scan_str.induct)
  case (2 c s)
  show ?case
  proof (cases "c = dquote \<or> c \<noteq> backslash")
    case True
    with 2 show ?thesis
      by (auto simp: wf_body_simps(1) not_less split: if_splits) (simp add: wf_body_def)
  next
    case False
    with 2(4) obtain e u where s: "s = e # u" by (auto split: list.splits)
    show ?thesis
    proof (cases "e \<in> set ''bfnrt/'' \<or> e = backslash \<or> e = dquote")
      case True
      with False 2(4) s obtain b' where b': "scan_str u = Some (b', r)" "b = backslash # e # b'" by auto
      then have "wf_body b'" using 2(1) [of e u b' r] False s True by auto
      with True b'(2) show ?thesis by (simp only: wf_body_simps(2))
    next
      case nob: False
      with False 2(4) s obtain h1 h2 h3 h4 w b' where t: "e = CHR ''u''" "u = h1 # h2 # h3 # h4 # w"
        and h: "is_hex h1" "is_hex h2" "is_hex h3" "is_hex h4" and w: "scan_str w = Some (b', r)"
        and b: "b = backslash # CHR ''u'' # h1 # h2 # h3 # h4 # b'"
        by (auto split: list.splits if_splits)
      have "wf_body b'" using 2(2) [OF _ _ s _ t(1) t(2)] False nob h w by auto
      with h b show ?thesis by (simp only: wf_body_simps(3))
    qed
  qed
qed simp

definition digit_end :: "string \<Rightarrow> bool" where
  "digit_end r \<longleftrightarrow> (case r of [] \<Rightarrow> True | c # _ \<Rightarrow> \<not> is_digit c)"

lemma takeWhile_digits:
  "digit_end x \<Longrightarrow> takeWhile is_digit (takeWhile is_digit s @ x) = takeWhile is_digit s"
  "digit_end x \<Longrightarrow> dropWhile is_digit (takeWhile is_digit s @ x) = x"
  by (induction s) (auto simp: digit_end_def split: list.splits)

lemma scan_digits_wf: "scan_digits s = Some (b, t) \<Longrightarrow> digit_end x \<Longrightarrow> scan_digits (b @ x) = Some (b, x)"
  by (auto simp: scan_digits_def takeWhile_digits split: if_splits)

lemma scan_int_wf: "scan_int s = Some (b, t) \<Longrightarrow> digit_end x \<Longrightarrow> scan_int (b @ x) = Some (b, x)"
  using takeWhile_digits [of x s]
  by (auto simp: scan_int_def split: list.splits if_splits)

lemma scan_exp_wf:
  assumes "scan_exp s = Some (b, t)"
  shows "scan_exp b = Some (b, []) \<and> digit_end b \<and> (case b of [] \<Rightarrow> True | c # _ \<Rightarrow> c \<noteq> CHR ''.'')"
proof -
  have d: "scan_digits y = Some (ds, t') \<Longrightarrow> scan_digits ds = Some (ds, [])" for y ds t'
    using scan_digits_wf [of y ds t' "[]"] by (simp add: digit_end_def)
  have nodig: "\<not> is_digit (CHR ''e'')" "\<not> is_digit (CHR ''E'')" by (simp_all add: is_digit_def byte_value_def)
  have nosign: "scan_digits y = Some (ds, t') \<Longrightarrow> \<exists>a u. ds = a # u \<and> a \<noteq> CHR ''+'' \<and> a \<noteq> CHR ''-''" for y ds t'
    by (cases ds; cases y) (auto simp: scan_digits_def is_digit_def byte_value_def split: if_splits)
  show ?thesis
    using assms
    by (auto simp: scan_exp_def digit_end_def nodig split: list.splits if_splits dest: d nosign)
qed

lemma scan_frac_wf:
  assumes "scan_frac s = Some (b, t)" "digit_end x" "case x of [] \<Rightarrow> True | c # _ \<Rightarrow> c \<noteq> CHR ''.''"
  shows "scan_frac (b @ x) = Some (b, x) \<and> digit_end (b @ x)"
proof (cases "b = []")
  case True
  with assms(2,3) show ?thesis by (auto simp: scan_frac_def split: list.splits)
next
  case False
  with assms(1) obtain r ds where b: "b = CHR ''.'' # ds" "scan_digits r = Some (ds, t)"
    by (auto simp: scan_frac_def split: list.splits if_splits)
  have "\<not> is_digit (CHR ''.'')" by (simp add: is_digit_def byte_value_def)
  with b scan_digits_wf [OF b(2) assms(2)] show ?thesis by (simp add: scan_frac_def digit_end_def)
qed

lemma scan_number_wf:
  assumes "scan_number s = Some (n, t)"
  shows "wf_num n"
proof -
  obtain sg s1 ip s2 fp s3 ep where h: "scan_sign s = (sg, s1)" "scan_int s1 = Some (ip, s2)"
    "scan_frac s2 = Some (fp, s3)" "scan_exp s3 = Some (ep, t)" "n = sg @ ip @ fp @ ep"
    using assms by (auto simp: scan_number_def split: prod.splits option.splits)
  note e = scan_exp_wf [OF h(4)]
  have f: "scan_frac (fp @ ep) = Some (fp, ep)" "digit_end (fp @ ep)"
    using scan_frac_wf [OF h(3), of ep] e by auto
  have i: "scan_int (ip @ fp @ ep) = Some (ip, fp @ ep)" using scan_int_wf [OF h(2) f(2)] .
  then obtain a w where a: "ip @ fp @ ep = a # w" "a = CHR ''0'' \<or> is_digit a"
    by (cases "ip @ fp @ ep") (auto simp: scan_int_def split: if_splits)
  then have "a \<noteq> CHR ''-''" by (auto simp: is_digit_def byte_value_def)
  then have "scan_sign n = (sg, ip @ fp @ ep)"
    using h(1,5) a by (auto simp: scan_sign_def split: list.splits if_splits)
  with i f e h(5) show ?thesis by (simp add: wf_num_def scan_number_def)
qed

lemma parse_wf_all:
  "(\<forall>d s v t. parse_value f d s = Some (v, t) \<longrightarrow> wf_json d v) \<and>
   (\<forall>d s vs t. parse_elems f d s = Some (vs, t) \<longrightarrow> (\<forall>v \<in> set vs. wf_json d v)) \<and>
   (\<forall>d s ms t. parse_members f d s = Some (ms, t) \<longrightarrow> (\<forall>(k, v) \<in> set ms. wf_body k \<and> wf_json d v))"
proof (induction f)
  case (Suc f)
  then have v: "parse_value f d s = Some (v, t) \<Longrightarrow> wf_json d v"
    and e: "parse_elems f d s = Some (vs, t) \<Longrightarrow> \<forall>v \<in> set vs. wf_json d v"
    and m: "parse_members f d s = Some (ms, t) \<Longrightarrow> \<forall>(k, v) \<in> set ms. wf_body k \<and> wf_json d v"
    for d s t v vs ms by blast+
  have "wf_json d v" if "parse_value (Suc f) d s = Some (v, t)" for d s v t
    using that
    by (auto simp: expect_def split: list.splits if_splits dest: scan_str_wf scan_number_wf e m)
  moreover have "\<forall>v \<in> set vs. wf_json d v" if "parse_elems (Suc f) d s = Some (vs, t)" for d s vs t
    using that by (auto split: list.splits if_splits option.splits dest!: v e)
  moreover have "\<forall>(k, v) \<in> set ms. wf_body k \<and> wf_json d v" if "parse_members (Suc f) d s = Some (ms, t)" for d s ms t
    using that by (fastforce split: list.splits if_splits option.splits dest!: v m scan_str_wf)
  ultimately show ?case by blast
qed simp

lemma parse_json_wf: "parse_json s = Some v \<Longrightarrow> wf_json 0 v"
  using parse_wf_all unfolding parse_json_iff by blast

lemma wf_json_shallow: "wf_json d v \<Longrightarrow> e \<le> d \<Longrightarrow> wf_json e v"
  by (induction v arbitrary: d e) (fastforce)+

subsection \<open>Numbers\<close>

text \<open>The value of a number literal, and the sign of a zero.\<close>

definition nat_of_digits :: "string \<Rightarrow> nat" where
  "nat_of_digits ds = (case digits_value 10 0 ds of None \<Rightarrow> 0 | Some n \<Rightarrow> n)"

definition literal_value :: "string \<Rightarrow> rat" where
  "literal_value lit =
     (let (sg, s1) = scan_sign lit;
          ip = takeWhile is_digit s1; s2 = dropWhile is_digit s1;
          (fp, s3) = (case s2 of c # r \<Rightarrow> if c = CHR ''.'' then (takeWhile is_digit r, dropWhile is_digit r) else ([], s2)
                      | [] \<Rightarrow> ([], []));
          m = of_nat (nat_of_digits (ip @ fp)) / 10 ^ length fp;
          x = (case s3 of
                 [] \<Rightarrow> m
               | _ # r \<Rightarrow>
                   (case r of
                      c # r' \<Rightarrow> if c = CHR ''-'' then m / 10 ^ nat_of_digits r'
                               else if c = CHR ''+'' then m * 10 ^ nat_of_digits r'
                               else m * 10 ^ nat_of_digits r
                    | [] \<Rightarrow> m))
      in if sg = [] then x else - x)"

text \<open>\<^verbatim>\<open>strconv.ParseFloat\<close> on a literal: the nearest float, an error beyond the largest one.\<close>

definition ParseFloat :: "string \<Rightarrow> rat option" where
  "ParseFloat lit =
     (let x = round64 (literal_value lit) in if abs x < 2 ^ 1024 then Some x else None)"

text \<open>
  The shortest decimal that reads back as the float \<open>x > 0\<close>: its digits as a number and the
  decimal exponent of their last digit; of two candidates of the same length the nearer one.
\<close>

definition scale10 :: "int \<Rightarrow> rat" where
  "scale10 e = (if e \<ge> 0 then 10 ^ nat e else 1 / 10 ^ nat (- e))"

definition decimal_exponent :: "rat \<Rightarrow> int" where
  "decimal_exponent x =
     (let k = \<lfloor>of_int (exponent x) * 30103 / 100000 :: rat\<rfloor>
      in if scale10 (k + 1) \<le> x then k + 1 else if scale10 k \<le> x then k else k - 1)"

definition decimal_candidate :: "rat \<Rightarrow> nat \<Rightarrow> (nat \<times> int) option" where
  "decimal_candidate x n =
     (let e = decimal_exponent x - int n + 1; q = x / scale10 e;
          lo = \<lfloor>q\<rfloor>; hi = \<lceil>q\<rceil>;
          ok = (\<lambda>d. round64 (of_int d * scale10 e) = x)
      in if ok lo \<and> (\<not> ok hi \<or> q - of_int lo \<le> of_int hi - q) then Some (nat lo, e)
         else if ok hi then Some (nat hi, e) else None)"

fun shortest_from :: "rat \<Rightarrow> nat \<Rightarrow> nat \<Rightarrow> nat \<times> int" where
  "shortest_from x n 0 = (nat \<lfloor>x\<rfloor>, 0)"
| "shortest_from x n (Suc k) =
     (case decimal_candidate x n of Some r \<Rightarrow> r | None \<Rightarrow> shortest_from x (Suc n) k)"

fun strip_zeros :: "nat \<Rightarrow> nat \<Rightarrow> int \<Rightarrow> nat \<times> int" where
  "strip_zeros 0 d e = (d, e)"
| "strip_zeros (Suc k) d e = (if d \<noteq> 0 \<and> d mod 10 = 0 then strip_zeros k (d div 10) (e + 1) else (d, e))"

text \<open>\<^verbatim>\<open>encoding/json\<close> prints plain decimals between \<open>1e-6\<close> and \<open>1e21\<close>, else an exponent.\<close>

definition format_digits :: "nat \<Rightarrow> int \<Rightarrow> string" where
  "format_digits d e =
     (let ds = digits_of 10 d; point = int (length ds) + e in
      if - 6 < point \<and> point \<le> 21 then
        (if e \<ge> 0 then ds @ replicate (nat e) (CHR ''0'')
         else if point > 0 then take (nat point) ds @ ''.'' @ drop (nat point) ds
         else ''0.'' @ replicate (nat (- point)) (CHR ''0'') @ ds)
      else
        (case ds of
           [] \<Rightarrow> []
         | c # r \<Rightarrow> [c] @ (if r = [] then [] else ''.'' @ r) @ ''e'' @
                     (if point - 1 < 0 then ''-'' else ''+'') @ digits_of 10 (nat (abs (point - 1)))))"

definition format_float :: "string \<Rightarrow> string" where
  "format_float lit =
     (let x = round64 (literal_value lit); sg = fst (scan_sign lit) in
      if x = 0 then sg @ ''0''
      else case shortest_from (abs x) 1 17 of (d, e) \<Rightarrow>
             (case strip_zeros 17 d e of (d', e') \<Rightarrow> sg @ format_digits d' e'))"

subsection \<open>Decoding\<close>

text \<open>What decoding into an \<^verbatim>\<open>any\<close> yields; a map is the list of its entries.\<close>

datatype any =
    ANil
  | ABool bool
  | ANum string
  | AStr string
  | AArr "any list"
  | AMap "(string \<times> any) list"

fun upsert :: "string \<Rightarrow> 'v \<Rightarrow> (string \<times> 'v) list \<Rightarrow> (string \<times> 'v) list" where
  "upsert k v [] = [(k, v)]"
| "upsert k v ((k', v') # m) = (if k = k' then (k, v) # m else (k', v') # upsert k v m)"

fun all_some :: "'a option list \<Rightarrow> 'a list option" where
  "all_some [] = Some []"
| "all_some (x # xs) = (case x of None \<Rightarrow> None | Some v \<Rightarrow> map_option (Cons v) (all_some xs))"

fun to_any :: "json \<Rightarrow> any option" where
  "to_any JNull = Some ANil"
| "to_any (JBool b) = Some (ABool b)"
| "to_any (JNum n) = (if ParseFloat n = None then None else Some (ANum n))"
| "to_any (JStr b) = Some (AStr (unquote b))"
| "to_any (JArr vs) = map_option AArr (all_some (map to_any vs))"
| "to_any (JObj ms) =
     map_option (\<lambda>vs. AMap (fold (\<lambda>(k, v). upsert k v) (zip (map (\<lambda>m. unquote (fst m)) ms) vs) []))
       (all_some (map (\<lambda>m. to_any (snd m)) ms))"

text \<open>Decoding into a field that already holds a value; \<^verbatim>\<open>null\<close> leaves it as it is.  \<^verbatim>\<open>None\<close>
  is a type error.\<close>

definition decode_string :: "json \<Rightarrow> string \<Rightarrow> string option" where
  "decode_string j cur = (case j of JStr b \<Rightarrow> Some (unquote b) | JNull \<Rightarrow> Some cur | _ \<Rightarrow> None)"

definition decode_int :: "json \<Rightarrow> int \<Rightarrow> int option" where
  "decode_int j cur = (case j of JNum n \<Rightarrow> Atoi n | JNull \<Rightarrow> Some cur | _ \<Rightarrow> None)"

definition decode_bool :: "json \<Rightarrow> bool \<Rightarrow> bool option" where
  "decode_bool j cur = (case j of JBool b \<Rightarrow> Some b | JNull \<Rightarrow> Some cur | _ \<Rightarrow> None)"

text \<open>\<^verbatim>\<open>map[string]any\<close>; the outer \<^verbatim>\<open>None\<close> is a type error, the inner one a nil map.\<close>

definition decode_any_map :: "json \<Rightarrow> (string \<times> any) list option option" where
  "decode_any_map j =
     (case j of
        JNull \<Rightarrow> Some None
      | JObj _ \<Rightarrow> (case to_any j of Some (AMap m) \<Rightarrow> Some (Some m) | _ \<Rightarrow> None)
      | _ \<Rightarrow> None)"

text \<open>The field of a struct that a member name selects: the exact name, else the first that
  agrees up to letter case.\<close>

definition match_field :: "string list \<Rightarrow> string \<Rightarrow> string option" where
  "match_field flds key =
     (if key \<in> set flds then Some key
      else case filter (EqualFold key) flds of [] \<Rightarrow> None | f # _ \<Rightarrow> Some f)"

text \<open>A struct is decoded member by member into its current value; unknown members are skipped.\<close>

fun decode_members ::
    "string list \<Rightarrow> (string \<Rightarrow> json \<Rightarrow> 'a \<Rightarrow> 'a option) \<Rightarrow> (string \<times> json) list \<Rightarrow> 'a \<Rightarrow> 'a option" where
  "decode_members flds dec [] cur = Some cur"
| "decode_members flds dec ((k, j) # ms) cur =
     (case (case match_field flds (unquote k) of None \<Rightarrow> Some cur | Some f \<Rightarrow> dec f j cur) of
        None \<Rightarrow> None
      | Some cur' \<Rightarrow> decode_members flds dec ms cur')"

definition decode_struct ::
    "string list \<Rightarrow> (string \<Rightarrow> json \<Rightarrow> 'a \<Rightarrow> 'a option) \<Rightarrow> json \<Rightarrow> 'a \<Rightarrow> 'a option" where
  "decode_struct flds dec j cur =
     (case j of JObj ms \<Rightarrow> decode_members flds dec ms cur | JNull \<Rightarrow> Some cur | _ \<Rightarrow> None)"

subsection \<open>Encoding\<close>

definition json_string :: "string \<Rightarrow> json" where
  "json_string s = JStr (quote s)"

definition json_object :: "(string \<times> json) list \<Rightarrow> json" where
  "json_object ms = JObj (map (\<lambda>(k, v). (quote k, v)) ms)"

definition json_int :: "int \<Rightarrow> json" where
  "json_int n = JNum (Itoa n)"

fun of_any :: "any \<Rightarrow> json" where
  "of_any ANil = JNull"
| "of_any (ABool b) = JBool b"
| "of_any (ANum n) = JNum (format_float n)"
| "of_any (AStr s) = json_string s"
| "of_any (AArr vs) = JArr (map of_any vs)"
| "of_any (AMap ms) = json_object (sort_key fst (map (\<lambda>(k, v). (k, of_any v)) ms))"

text \<open>\<^verbatim>\<open>json.Unmarshal\<close> into a zero value.  The text of the package's errors is not modelled.\<close>

definition unmarshal :: "(json \<Rightarrow> 'a \<Rightarrow> 'a option) \<Rightarrow> string \<Rightarrow> 'a \<Rightarrow> 'a res" where
  "unmarshal dec raw zero =
     (case parse_json raw of
        None \<Rightarrow> Inl (Plain ''invalid JSON'')
      | Some j \<Rightarrow> (case dec j zero of None \<Rightarrow> Inl (Plain ''cannot unmarshal'') | Some v \<Rightarrow> Inr v))"

subsection \<open>Decoding what was encoded\<close>

lemma unquote_quote_ascii_str: "\<forall>c \<in> set s. byte_value c < 128 \<Longrightarrow> unquote (quote s) = s"
  by (simp add: unquote_quote valid_utf8_ascii)

lemma digits_of_is_digit: "c \<in> set (digits_of 10 n) \<Longrightarrow> is_digit c"
proof (induction n rule: less_induct)
  case (less n)
  have d: "d < 10 \<Longrightarrow> is_digit (digit_char d)" for d
    by (auto simp: is_digit_def digit_char_def digit_alphabet_def byte_value_def less_Suc_eq numeral_eq_Suc)
  show ?case
  proof (cases "n < 10")
    case True
    with less.prems d [of n] show ?thesis by (simp add: digits_of.simps)
  next
    case False
    with less.prems less.IH [of "n div 10"] d [of "n mod 10"] show ?thesis
      by (subst (asm) digits_of.simps) auto
  qed
qed

lemma digits_of_leading: "0 < n \<Longrightarrow> \<exists>c cs. digits_of 10 n = c # cs \<and> c \<noteq> CHR ''0''"
proof (induction n rule: less_induct)
  case (less n)
  show ?case
  proof (cases "n < 10")
    case True
    have "digit_char n \<noteq> CHR ''0''"
    proof
      assume "digit_char n = CHR ''0''"
      then have "digit_char n = digit_char 0" by (simp add: digit_char_def digit_alphabet_def)
      then show False using digit_value_char [of n 10] digit_value_char [of 0 10] True less.prems by simp
    qed
    with True show ?thesis by (simp add: digits_of.simps)
  next
    case False
    then have "0 < n div 10" "n div 10 < n" by (simp_all add: div_greater_zero_iff)
    then obtain c cs where "digits_of 10 (n div 10) = c # cs" "c \<noteq> CHR ''0''" using less.IH by blast
    with False show ?thesis by (subst digits_of.simps) simp
  qed
qed

lemma scan_int_digits: "scan_int (digits_of 10 n) = Some (digits_of 10 n, [])"
proof (cases "n = 0")
  case True
  then show ?thesis by (simp add: digits_of.simps scan_int_def digit_char_def digit_alphabet_def)
next
  case False
  then obtain c cs where c: "digits_of 10 n = c # cs" "c \<noteq> CHR ''0''" using digits_of_leading by blast
  have "takeWhile is_digit (digits_of 10 n) = digits_of 10 n" "dropWhile is_digit (digits_of 10 n) = []"
    using digits_of_is_digit by auto
  with c digits_of_is_digit [of c n] show ?thesis by (simp add: scan_int_def)
qed

lemma wf_num_Itoa: "wf_num (Itoa i)"
proof -
  have "scan_sign (Itoa i) = (if i < 0 then (''-'', digits_of 10 (nat (- i))) else ([], digits_of 10 (nat i)))"
    using digits_of_head [of 10 "nat i"] by (auto simp: Itoa_def scan_sign_def split: list.splits)
  then show ?thesis
    by (simp add: wf_num_def scan_number_def scan_int_digits scan_frac_def scan_exp_def) (simp add: Itoa_def)
qed

lemma wf_json_int [simp]: "wf_json d (json_int i)"
  by (simp add: json_int_def wf_num_Itoa)

lemma wf_json_string [simp]: "wf_json d (json_string s)"
  by (simp add: json_string_def wf_body_quote)

lemma wf_json_object [simp]:
  "wf_json d (json_object ms) \<longleftrightarrow> d < maxNestingDepth \<and> (\<forall>(k, v) \<in> set ms. wf_json (Suc d) v)"
  by (auto simp: json_object_def wf_body_quote)

lemma decode_int_json [simp]: "in_int64 i \<Longrightarrow> decode_int (json_int i) cur = Some i"
  by (simp add: decode_int_def json_int_def Atoi_Itoa)

lemma decode_string_json [simp]: "valid_utf8 s \<Longrightarrow> decode_string (json_string s) cur = Some s"
  by (simp add: decode_string_def json_string_def unquote_quote)

lemma match_field_exact: "k \<in> set flds \<Longrightarrow> match_field flds k = Some k"
  by (simp add: match_field_def)

text \<open>Decoding the members of an encoded struct applies the field decoders one after the other.\<close>

lemma decode_struct_object:
  "decode_struct flds dec (json_object ms) cur =
     decode_members flds dec (map (\<lambda>(k, v). (quote k, v)) ms) cur"
  by (simp add: decode_struct_def json_object_def)

lemma decode_members_quote:
  assumes "k \<in> set flds" "\<forall>c \<in> set k. byte_value c < 128"
  shows "decode_members flds dec ((quote k, j) # ms) cur =
    (case dec k j cur of None \<Rightarrow> None | Some cur' \<Rightarrow> decode_members flds dec ms cur')"
  using assms by (simp add: unquote_quote_ascii_str match_field_exact)

lemma decode_struct_inv:
  assumes "decode_struct flds dec j cur = Some out" "I cur"
    "\<And>f j c c'. dec f j c = Some c' \<Longrightarrow> I c \<Longrightarrow> I c'"
  shows "I out"
proof -
  have "decode_members flds dec ms cur = Some out \<Longrightarrow> I cur \<Longrightarrow> I out" for ms cur
    using assms(3) by (induction ms arbitrary: cur) (fastforce split: option.splits)+
  with assms(1,2) show ?thesis by (auto simp: decode_struct_def split: json.splits)
qed

lemma decode_int_in: "decode_int j cur = Some i \<Longrightarrow> in_int64 cur \<Longrightarrow> in_int64 i"
  by (auto simp: decode_int_def Atoi_def Let_def split: json.splits option.splits if_splits prod.splits)

lemma unmarshal_Inr: "unmarshal dec raw z = Inr v \<Longrightarrow> \<exists>j. parse_json raw = Some j \<and> dec j z = Some v"
  by (auto simp: unmarshal_def split: option.splits)

subsection \<open>Dynamic values\<close>

lemma upsert_new: "k \<notin> fst ` set m \<Longrightarrow> upsert k v m = m @ [(k, v)]"
  by (induction m) auto

lemma fold_upsert_distinct:
  "distinct (map fst m' @ map fst m) \<Longrightarrow> fold (\<lambda>(k, v). upsert k v) m m' = m' @ m"
proof (induction m arbitrary: m')
  case (Cons e m)
  then have "fst e \<notin> fst ` set m'" by auto
  with Cons show ?case by (cases e) (simp add: upsert_new)
qed simp

lemma sorted_wrt_less_distinct: "sorted_wrt (<) (xs :: string list) \<Longrightarrow> distinct xs"
  by (induction xs) auto

lemma sort_key_sorted: "sorted_wrt (<) (map f xs) \<Longrightarrow> sort_key f xs = xs"
  by (rule sort_key_id_if_sorted) (metis strict_sorted_iff)

lemma all_some_map_Some [simp]: "all_some (map Some xs) = Some xs"
  by (induction xs) auto

text \<open>A value without numbers is read back after it was written, and the string members of an
  object keep their text.\<close>

fun no_num :: "any \<Rightarrow> bool" where
  "no_num (ANum n) = False"
| "no_num (AArr vs) = (\<forall>v \<in> set vs. no_num v)"
| "no_num (AMap ms) = (\<forall>m \<in> set ms. no_num (snd m))"
| "no_num v = True"

lemma all_some_defined: "(\<forall>x \<in> set xs. x \<noteq> None) \<Longrightarrow> all_some xs = Some (map the xs)"
  by (induction xs) auto

lemma to_any_of_any_defined: "no_num v \<Longrightarrow> to_any (of_any v) \<noteq> None"
proof (induction v rule: no_num.induct)
  case (2 vs)
  then show ?case using all_some_defined [of "map to_any (map of_any vs)"] by auto
next
  case (3 ms)
  let ?ms = "map (\<lambda>(k, v). (quote k, v)) (sort_key fst (map (\<lambda>(k, v). (k, of_any v)) ms))"
  have "\<forall>m \<in> set ?ms. to_any (snd m) \<noteq> None" using 3 by fastforce
  then have "all_some (map (\<lambda>m. to_any (snd m)) ?ms) \<noteq> None"
    by (subst all_some_defined) auto
  then show ?case by (auto simp: json_object_def)
qed (simp_all add: json_string_def)

lemma map_of_sort_key:
  assumes "distinct (map fst ms)"
  shows "map_of (sort_key fst ms) = map_of ms"
proof -
  have "distinct (map fst (sort_key fst ms))" using assms by (simp add: distinct_map)
  then show ?thesis using assms by (simp add: map_of_inject_set)
qed

lemma of_any_members:
  assumes "distinct (map fst es)" "\<forall>e \<in> set es. valid_utf8 (fst e) \<and> no_num (snd e)"
  shows "\<exists>m. to_any (of_any (AMap es)) = Some (AMap m) \<and>
    (\<forall>k s. map_of es k = Some (AStr s) \<and> valid_utf8 s \<longrightarrow> map_of m k = Some (AStr s))"
proof -
  define es' where "es' = sort_key fst (map (\<lambda>(k, v). (k, of_any v)) es)"
  let ?ms = "map (\<lambda>(k, v). (quote k, v)) es'"
  let ?m = "map (\<lambda>(k, j). (k, the (to_any j))) es'"
  have set_es': "set es' = (\<lambda>(k, v). (k, of_any v)) ` set es" by (simp add: es'_def)
  have keys: "map (\<lambda>m. unquote (fst m)) ?ms = map fst es'"
    using assms(2) by (auto simp: set_es' unquote_quote)
  have "\<forall>x \<in> set (map (\<lambda>m. to_any (snd m)) ?ms). x \<noteq> None"
    using assms(2) to_any_of_any_defined by (fastforce simp: set_es')
  then have vals: "all_some (map (\<lambda>m. to_any (snd m)) ?ms) = Some (map (\<lambda>(k, j). the (to_any j)) es')"
    by (simp add: all_some_defined case_prod_unfold)
  have fst: "map fst (map (\<lambda>(k, v). (k, of_any v)) es) = map fst es" by (simp add: case_prod_unfold)
  have "distinct (map fst (map (\<lambda>(k, v). (k, of_any v)) es))" using assms(1) by (simp only: fst)
  then have d: "distinct (map fst es')" unfolding es'_def by (simp only: distinct_map distinct_sort set_sort)
  have zip: "zip (map fst es') (map (\<lambda>(k, j). the (to_any j)) es') = ?m"
    by (induction es') auto
  have "fold (\<lambda>(k, v). upsert k v) ?m [] = ?m"
    using fold_upsert_distinct [of "[]" ?m] d by (simp add: case_prod_unfold o_def)
  then have "to_any (JObj ?ms) = Some (AMap ?m)" unfolding to_any.simps keys vals by (simp add: zip)
  moreover have "of_any (AMap es) = JObj ?ms" by (simp add: es'_def json_object_def)
  ultimately have "to_any (of_any (AMap es)) = Some (AMap ?m)" by (simp only:)
  moreover have "map_of ?m k = Some (AStr s)" if "map_of es k = Some (AStr s)" "valid_utf8 s" for k s
  proof -
    have "map_of es' = map_of (map (\<lambda>(k, v). (k, of_any v)) es)"
      unfolding es'_def by (rule map_of_sort_key) (simp only: fst assms(1))
    then have "map_of es' k = Some (of_any (AStr s))" using that(1) by (simp add: map_of_map)
    then have "map_of ?m k = Some (the (to_any (of_any (AStr s))))" by (simp add: map_of_map)
    with that(2) show ?thesis by (simp add: json_string_def unquote_quote)
  qed
  ultimately show ?thesis by blast
qed

lemma wf_of_any_flat:
  assumes "\<forall>e \<in> set es. wf_json 1 (of_any (snd e))"
  shows "wf_json 0 (of_any (AMap es))"
  using assms by (auto simp: maxNestingDepth_def)

end
