(* ===== verification/Go_XML.thy ===== *)
theory Go_XML
  imports Go_JSON
begin

text \<open>
  What the API server uses of \<^verbatim>\<open>encoding/xml\<close>: the escaping of text and the marshalling of the result structs,
  whose elements come in the order of their fields.  Text that XML can carry is read back unchanged, and no text
  closes or opens an element.
\<close>

subsection \<open>Text\<close>

definition xml_ascii :: "char \<Rightarrow> string" where
  "xml_ascii c =
     (if c = CHR 0x22 then ''&#34;''
      else if c = CHR 0x27 then ''&#39;''
      else if c = CHR ''&'' then ''&amp;''
      else if c = CHR ''<'' then ''&lt;''
      else if c = CHR ''>'' then ''&gt;''
      else if c = CHR 0x09 then ''&#x9;''
      else if c = CHR 0x0A then ''&#xA;''
      else if c = CHR 0x0D then ''&#xD;''
      else if byte_value c < 0x20 then rune_error else [c])"

text \<open>U+FFFE and U+FFFF are not characters of XML.\<close>

definition non_characters :: "string list" where
  "non_characters = [[CHR 0xEF, CHR 0xBF, CHR 0xBE], [CHR 0xEF, CHR 0xBF, CHR 0xBF]]"

function xml_escape :: "string \<Rightarrow> string" where
  "xml_escape [] = []"
| "xml_escape (c # s) =
     (if byte_value c < 0x80 then xml_ascii c @ xml_escape s
      else if utf8_width (c # s) = 0 then rune_error @ xml_escape s
      else if HasPrefix (c # s) (non_characters ! 0) \<or> HasPrefix (c # s) (non_characters ! 1)
      then rune_error @ xml_escape (drop 2 s)
      else take (utf8_width (c # s)) (c # s) @ xml_escape (drop (utf8_width (c # s)) (c # s)))"
  by pat_completeness auto
termination
  by (relation "measure length") (auto simp: le_imp_less_Suc)

declare xml_escape.simps(2) [simp del]

subsection \<open>Elements\<close>

datatype xml = Elem string "xml list" | Text string

fun print_xml :: "xml \<Rightarrow> string" where
  "print_xml (Text s) = xml_escape s"
| "print_xml (Elem tag kids) = ''<'' @ tag @ ''>'' @ concat (map print_xml kids) @ ''</'' @ tag @ ''>''"

definition text_elem :: "string \<Rightarrow> string \<Rightarrow> xml" where
  "text_elem tag s = Elem tag [Text s]"

text \<open>A field with \<^verbatim>\<open>omitempty\<close>.\<close>

definition opt_elem :: "string \<Rightarrow> string \<Rightarrow> xml list" where
  "opt_elem tag s = (if s = [] then [] else [text_elem tag s])"

text \<open>A slice under \<^verbatim>\<open>parent>member\<close>: the parent is written even for an empty slice.\<close>

definition member_list :: "string \<Rightarrow> xml list list \<Rightarrow> xml" where
  "member_list parent ms = Elem parent (map (Elem ''member'') ms)"

subsection \<open>Reading\<close>

definition entities :: "(string \<times> char) list" where
  "entities = [(''&#34;'', CHR 0x22), (''&#39;'', CHR 0x27), (''&amp;'', CHR ''&''), (''&lt;'', CHR ''<''), (''&gt;'', CHR ''>''),
     (''&#x9;'', CHR 0x09), (''&#xA;'', CHR 0x0A), (''&#xD;'', CHR 0x0D)]"

fun strip_entity :: "(string \<times> char) list \<Rightarrow> string \<Rightarrow> (char \<times> string) option" where
  "strip_entity [] s = None"
| "strip_entity ((e, c) # es) s = (if e \<noteq> [] \<and> HasPrefix s e then Some (c, drop (length e) s) else strip_entity es s)"

lemma strip_entity_shorter: "strip_entity es s = Some (c, r) \<Longrightarrow> length r < length s"
  by (induction es s rule: strip_entity.induct) (auto simp: HasPrefix_iff split: if_splits)

function xml_unescape :: "string \<Rightarrow> string" where
  "xml_unescape [] = []"
| "xml_unescape (c # s) =
     (case strip_entity entities (c # s) of
        Some (x, r) \<Rightarrow> x # xml_unescape r
      | None \<Rightarrow> c # xml_unescape s)"
  by pat_completeness auto
termination
  by (relation "measure length") (auto dest: strip_entity_shorter)

declare xml_unescape.simps(2) [simp del]

text \<open>The byte strings that XML text can carry: UTF-8 without control characters and non-characters.\<close>

function xml_text :: "string \<Rightarrow> bool" where
  "xml_text [] = True"
| "xml_text (c # s) =
     (if byte_value c < 0x80 then (0x20 \<le> byte_value c \<or> c \<in> {CHR 0x09, CHR 0x0A, CHR 0x0D}) \<and> xml_text s
      else if utf8_width (c # s) = 0 \<or> HasPrefix (c # s) (non_characters ! 0) \<or> HasPrefix (c # s) (non_characters ! 1) then False
      else xml_text (drop (utf8_width (c # s)) (c # s)))"
  by pat_completeness auto
termination
  by (relation "measure length") (auto simp: le_imp_less_Suc)

declare xml_text.simps(2) [simp del]

lemma strip_plain: "c \<noteq> CHR ''&'' \<Longrightarrow> xml_unescape (c # s) = c # xml_unescape s"
  by (simp add: xml_unescape.simps entities_def HasPrefix_def)

lemma unescape_ascii:
  assumes "0x20 \<le> byte_value c \<or> c \<in> {CHR 0x09, CHR 0x0A, CHR 0x0D}"
  shows "xml_unescape (xml_ascii c @ s) = c # xml_unescape s"
  using assms by (auto simp: xml_ascii_def xml_unescape.simps entities_def HasPrefix_def)

lemma unescape_high: "\<forall>c \<in> set p. c \<noteq> CHR ''&'' \<Longrightarrow> xml_unescape (p @ s) = p @ xml_unescape s"
  by (induction p) (simp_all add: strip_plain)

text \<open>The bytes of a sequence of two or more bytes are not ASCII.\<close>

lemma utf8_bytes_high:
  assumes "\<not> byte_value c < 0x80" "x \<in> set (take (utf8_width (c # s)) (c # s))"
  shows "0x80 \<le> byte_value x"
proof (cases "utf8_width (c # s) = 0")
  case False
  have "128 \<le> byte_value c" using assms(1) by simp
  with assms show ?thesis by (elim utf8_high_cases [OF _ False]) (auto simp: in_bytes_def)
qed (use assms(2) in simp)

lemma xml_roundtrip: "xml_text s \<Longrightarrow> xml_unescape (xml_escape s) = s"
proof (induction s rule: xml_text.induct)
  case (2 c s)
  show ?case
  proof (cases "byte_value c < 0x80")
    case True
    with 2 show ?thesis by (simp add: xml_text.simps xml_escape.simps unescape_ascii)
  next
    case False
    let ?p = "take (utf8_width (c # s)) (c # s)"
    have "\<forall>x \<in> set ?p. x \<noteq> CHR ''&''" using utf8_bytes_high [OF False] by (fastforce simp: byte_value_def)
    then have "xml_unescape (?p @ t) = ?p @ xml_unescape t" for t by (rule unescape_high)
    with False 2 show ?thesis by (auto simp: xml_text.simps xml_escape.simps split: if_splits)
  qed
qed simp

text \<open>Text never contains the start or the end of a tag.\<close>

lemma escape_no_tags: "x \<in> set (xml_escape s) \<Longrightarrow> x \<noteq> CHR ''<'' \<and> x \<noteq> CHR ''>''"
proof (induction s rule: xml_escape.induct)
  case (2 c s)
  have err: "\<forall>x \<in> set rune_error. x \<noteq> CHR ''<'' \<and> x \<noteq> CHR ''>''" by (simp add: rune_error_def)
  show ?case
  proof (cases "byte_value c < 0x80")
    case True
    have "\<forall>x \<in> set (xml_ascii c). x \<noteq> CHR ''<'' \<and> x \<noteq> CHR ''>''" by (simp add: xml_ascii_def rune_error_def)
    with True 2 show ?thesis by (auto simp: xml_escape.simps)
  next
    case False
    have "\<forall>x \<in> set (take (utf8_width (c # s)) (c # s)). x \<noteq> CHR ''<'' \<and> x \<noteq> CHR ''>''"
      using utf8_bytes_high [OF False] by (fastforce simp: byte_value_def)
    with False err 2 show ?thesis by (auto simp: xml_escape.simps split: if_splits)
  qed
qed simp

subsection \<open>Roots\<close>

text \<open>\<^verbatim>\<open>bytes.IndexByte\<close>, \<^verbatim>\<open>bytes.LastIndexByte\<close>.\<close>

definition LastIndexByte :: "char \<Rightarrow> string \<Rightarrow> nat option" where
  "LastIndexByte c s = map_option (\<lambda>i. length s - 1 - i) (index_of c (rev s))"

definition stripXMLRoot :: "string \<Rightarrow> string" where
  "stripXMLRoot body =
     (case (index_of (CHR ''>'') body, LastIndexByte (CHR ''<'') body) of
        (Some start, Some end) \<Rightarrow> if end > start then take (end - (start + 1)) (drop (start + 1) body) else body
      | _ \<Rightarrow> body)"

lemma index_of_append: "x \<notin> set p \<Longrightarrow> index_of x (p @ x # s) = Some (length p)"
  by (induction p) auto

lemma strip_root:
  assumes "CHR ''>'' \<notin> set tag" "CHR ''<'' \<notin> set tag"
  shows "stripXMLRoot (print_xml (Elem tag kids)) = concat (map print_xml kids)"
proof -
  let ?k = "concat (map print_xml kids)"
  have b: "print_xml (Elem tag kids) = (''<'' @ tag) @ CHR ''>'' # ?k @ ''</'' @ tag @ ''>''" by simp
  have 1: "index_of (CHR ''>'') (print_xml (Elem tag kids)) = Some (length tag + 1)"
    unfolding b using assms(1) by (subst index_of_append) auto
  have "rev (print_xml (Elem tag kids)) = (''>'' @ rev tag @ ''/'') @ CHR ''<'' # rev ?k @ CHR ''>'' # rev tag @ ''<''" by simp
  then have "index_of (CHR ''<'') (rev (print_xml (Elem tag kids))) = Some (length tag + 2)"
    using assms(2) index_of_append [of "CHR ''<''" "''>'' @ rev tag @ ''/''"] by simp
  then have 2: "LastIndexByte (CHR ''<'') (print_xml (Elem tag kids)) = Some (length tag + 2 + length ?k)"
    by (simp add: LastIndexByte_def)
  show ?thesis unfolding stripXMLRoot_def 1 2 by (simp add: b [simplified])
qed

end
