(* ===== verification/Util.thy ===== *)
theory Util
  imports Go_Strings
begin

text \<open>
  Package \<^verbatim>\<open>internal/util\<close>: Amazon resource names (\<^verbatim>\<open>arns.go\<close>) and identifiers
  (\<^verbatim>\<open>ids.go\<close>).  The random source of \<^verbatim>\<open>ids.go\<close> is an argument: the bytes
  \<^verbatim>\<open>crypto/rand\<close> delivered.
\<close>

unbundle bit_operations_syntax

subsection \<open>Resource names\<close>

record ARN =
  ARN_Partition :: string
  ARN_Service :: string
  ARN_Region :: string
  ARN_AccountID :: string
  ARN_Resource :: string

definition ParseARN :: "string \<Rightarrow> ARN res" where
  "ParseARN v =
     (case SplitN (CHR '':'') 6 v of
        [p0, p1, p2, p3, p4, p5] \<Rightarrow>
          if p0 \<noteq> ''arn'' then Inl (Plain ''invalid ARN'')
          else Inr \<lparr>ARN_Partition = p1, ARN_Service = p2, ARN_Region = p3,
                    ARN_AccountID = p4, ARN_Resource = p5\<rparr>
      | _ \<Rightarrow> Inl (Plain ''invalid ARN''))"

definition FormatARN :: "string \<Rightarrow> string \<Rightarrow> string \<Rightarrow> string \<Rightarrow> string" where
  "FormatARN service region accountID resource =
     ''arn:aws:'' @ service @ '':'' @ region @ '':'' @ accountID @ '':'' @ resource"

definition TopicResourceName :: "string \<Rightarrow> string res" where
  "TopicResourceName topicARN =
     (case ParseARN topicARN of Inl e \<Rightarrow> Inl e | Inr arn \<Rightarrow> Inr (ARN_Resource arn))"

definition name_char :: "char \<Rightarrow> bool" where
  "name_char c \<longleftrightarrow>
     (let n = byte_value c in
        (65 \<le> n \<and> n \<le> 90) \<or> (97 \<le> n \<and> n \<le> 122) \<or> (48 \<le> n \<and> n \<le> 57) \<or>
        c = CHR ''_'' \<or> c = CHR ''-'')"

text \<open>\<^verbatim>\<open>^[A-Za-z0-9_-]{1,256}(\.fifo)?$\<close>: the character class has no dot, so the optional
  group matches exactly when the name ends in \<^verbatim>\<open>.fifo\<close>.\<close>

definition topicNamePattern :: "string \<Rightarrow> bool" where
  "topicNamePattern name \<longleftrightarrow>
     (let base = TrimSuffix name ''.fifo'' in
        1 \<le> length base \<and> length base \<le> 256 \<and> list_all name_char base)"

definition ValidateTopicName :: "string \<Rightarrow> bool \<Rightarrow> unit res" where
  "ValidateTopicName name fifo =
     (if \<not> topicNamePattern name then Inl (Plain ''invalid topic name'')
      else if fifo \<and> \<not> HasSuffix name ''.fifo''
      then Inl (Plain ''FIFO topic names must end with .fifo'')
      else if \<not> fifo \<and> HasSuffix name ''.fifo''
      then Inl (Plain ''non-FIFO topics must not end with .fifo'')
      else Inr ())"

definition ValidateFIFOIdentifier :: "string \<Rightarrow> string \<Rightarrow> unit res" where
  "ValidateFIFOIdentifier v field =
     (if v = [] then Inl (Plain (field @ '' is required''))
      else if length v > 128 then Inl (Plain (field @ '' exceeds maximum length''))
      else Inr ())"

lemma ParseARN_FormatARN:
  assumes "CHR '':'' \<notin> set service" "CHR '':'' \<notin> set region" "CHR '':'' \<notin> set accountID"
  shows "ParseARN (FormatARN service region accountID resource) =
    Inr \<lparr>ARN_Partition = ''aws'', ARN_Service = service, ARN_Region = region,
         ARN_AccountID = accountID, ARN_Resource = resource\<rparr>"
proof -
  have "SplitN (CHR '':'') 6 (FormatARN service region accountID resource) =
    [''arn'', ''aws'', service, region, accountID, resource]"
    using assms by (simp add: FormatARN_def numeral_eq_Suc)
  then show ?thesis by (simp add: ParseARN_def)
qed

lemma FormatARN_inj [simp]:
  "FormatARN s r a x = FormatARN s r a y \<longleftrightarrow> x = y"
  by (simp add: FormatARN_def)

lemma ValidateTopicName_fifo_iff:
  assumes "ValidateTopicName name fifo = Inr ()"
  shows "HasSuffix name ''.fifo'' \<longleftrightarrow> fifo"
  using assms by (auto simp: ValidateTopicName_def split: if_splits)

lemma name_char_not_colon: "name_char c \<Longrightarrow> c \<noteq> CHR '':''"
  by (auto simp: name_char_def Let_def byte_value_def)

lemma TrimSuffix_cases: "HasSuffix s p \<Longrightarrow> s = TrimSuffix s p @ p"
  by (auto simp: TrimSuffix_def HasSuffix_iff)

lemma topicNamePattern_no_colon:
  assumes "topicNamePattern name"
  shows "CHR '':'' \<notin> set name"
proof (cases "HasSuffix name ''.fifo''")
  case True
  from assms have "list_all name_char (TrimSuffix name ''.fifo'')"
    by (simp add: topicNamePattern_def Let_def)
  then have "CHR '':'' \<notin> set (TrimSuffix name ''.fifo'' @ ''.fifo'')"
    using name_char_not_colon by (auto simp: list_all_iff)
  with TrimSuffix_cases [OF True] show ?thesis by simp
next
  case False
  with assms show ?thesis
    using name_char_not_colon by (auto simp: topicNamePattern_def TrimSuffix_def list_all_iff)
qed

subsection \<open>Random identifiers\<close>

definition mask_byte :: "8 word \<Rightarrow> 8 word \<Rightarrow> char \<Rightarrow> char" where
  "mask_byte m bits c = byte_of (unat ((word_of_nat (byte_value c) AND m) OR bits))"

text \<open>\<^verbatim>\<open>UUID\<close> on the 16 bytes \<^verbatim>\<open>rand.Read\<close> delivered.\<close>

definition uuid_bytes :: "string \<Rightarrow> string" where
  "uuid_bytes b = b[6 := mask_byte 0x0f 0x40 (b ! 6), 8 := mask_byte 0x3f 0x80 (b ! 8)]"

definition UUID :: "string \<Rightarrow> string" where
  "UUID raw =
     (let b = uuid_bytes raw in
        hex_encode (take 4 b) @ ''-'' @ hex_encode (take 2 (drop 4 b)) @ ''-'' @
        hex_encode (take 2 (drop 6 b)) @ ''-'' @ hex_encode (take 2 (drop 8 b)) @ ''-'' @
        hex_encode (take 6 (drop 10 b)))"

text \<open>\<^verbatim>\<open>RandomHex(n)\<close> on the \<open>(n + 1) div 2\<close> bytes \<^verbatim>\<open>rand.Read\<close> delivered.\<close>

definition RandomHex :: "int \<Rightarrow> string \<Rightarrow> string" where
  "RandomHex n raw = (if n \<le> 0 then [] else take (nat n) (hex_encode raw))"

lemma length_uuid_bytes [simp]: "length (uuid_bytes b) = length b"
  by (simp add: uuid_bytes_def)

lemma length_UUID: "length raw = 16 \<Longrightarrow> length (UUID raw) = 36"
  by (simp add: UUID_def Let_def)

lemma length_RandomHex:
  "0 \<le> n \<Longrightarrow> int (length raw) = (n + 1) div 2 \<Longrightarrow> int (length (RandomHex n raw)) = n"
  by (auto simp: RandomHex_def min_def)

lemma set_hex_encode: "set (hex_encode bs) \<subseteq> set digit_alphabet"
proof
  fix c assume "c \<in> set (hex_encode bs)"
  then obtain x where "c = digit_char (byte_value x div 16) \<or> c = digit_char (byte_value x mod 16)"
    by (auto simp: hex_encode_def)
  moreover have "byte_value x div 16 < 36" "byte_value x mod 16 < 36"
    using byte_value_bound [of x] by linarith+
  ultimately show "c \<in> set digit_alphabet" by (auto intro: digit_char_in)
qed

lemma UUID_no_colon: "CHR '':'' \<notin> set (UUID raw)"
proof -
  have "CHR '':'' \<notin> set (hex_encode bs)" for bs
    using set_hex_encode [of bs] by (auto simp: digit_alphabet_def)
  then show ?thesis by (simp add: UUID_def Let_def)
qed

lemma unat_byte_bound: "unat (x :: 8 word) < 256"
  using unsigned_less [of x, where ?'a = nat] by simp

lemma mask_byte_value:
  "byte_value (mask_byte m bits c) = unat ((word_of_nat (byte_value c) AND m) OR bits)"
  by (simp add: mask_byte_def unat_byte_bound)

lemma drop_version: "drop_bit 4 ((w AND 0x0f) OR 0x40) = (4 :: 8 word)"
  by (rule bit_word_eqI) (auto simp: bit_simps less_Suc_eq numeral_eq_Suc)

lemma drop_variant: "drop_bit 6 ((w AND 0x3f) OR 0x80) = (2 :: 8 word)"
  by (rule bit_word_eqI) (auto simp: bit_simps less_Suc_eq numeral_eq_Suc)

lemma unat_div_power: "unat (x :: 8 word) div 2 ^ n = unat (drop_bit n x)"
  by (subst unat_drop_bit_eq) (rule drop_bit_eq_div [symmetric])

lemma mask_byte_version: "byte_value (mask_byte 0x0f 0x40 c) div 16 = 4"
  using unat_div_power [of "(word_of_nat (byte_value c) AND 0x0f) OR 0x40" 4]
  by (simp only: mask_byte_value drop_version) simp

lemma mask_byte_variant: "byte_value (mask_byte 0x3f 0x80 c) div 16 \<in> {8, 9, 10, 11}"
proof -
  let ?v = "byte_value (mask_byte 0x3f 0x80 c)"
  have "?v div 64 = 2"
    using unat_div_power [of "(word_of_nat (byte_value c) AND 0x3f) OR 0x80" 6]
    by (simp only: mask_byte_value drop_variant) simp
  then have "8 \<le> ?v div 16" "?v div 16 \<le> 11" by linarith+
  then show ?thesis by auto
qed

lemma hex_encode_Cons:
  "hex_encode (c # cs) =
     digit_char (byte_value c div 16) # digit_char (byte_value c mod 16) # hex_encode cs"
  by (simp add: hex_encode_def)

text \<open>A fixed-length list spelled out, so that positions in the printed identifier compute.\<close>

lemma length_16_exhaust:
  assumes "length xs = 16"
  obtains x0 x1 x2 x3 x4 x5 x6 x7 x8 x9 xa xb xc xd xe xf
  where "xs = [x0, x1, x2, x3, x4, x5, x6, x7, x8, x9, xa, xb, xc, xd, xe, xf]"
  using assms by (auto simp: numeral_eq_Suc length_Suc_conv)

lemma UUID_layout:
  assumes "length raw = 16"
  shows "UUID raw ! 8 = CHR ''-'' \<and> UUID raw ! 13 = CHR ''-'' \<and> UUID raw ! 18 = CHR ''-'' \<and>
    UUID raw ! 23 = CHR ''-'' \<and> UUID raw ! 14 = CHR ''4'' \<and> UUID raw ! 19 \<in> set ''89ab''"
proof -
  obtain x0 x1 x2 x3 x4 x5 x6 x7 x8 x9 xa xb xc xd xe xf
    where raw: "raw = [x0, x1, x2, x3, x4, x5, x6, x7, x8, x9, xa, xb, xc, xd, xe, xf]"
    by (rule length_16_exhaust [OF assms])
  have "digit_char (byte_value (mask_byte 0x3f 0x80 x8) div 16) \<in> set ''89ab''"
    using mask_byte_variant [of x8] by (auto simp: digit_char_def digit_alphabet_def)
  then show ?thesis
    by (simp add: raw UUID_def uuid_bytes_def Let_def hex_encode_Cons hex_encode_def [of "[]"]
        mask_byte_version digit_char_def [of 4] digit_alphabet_def)
qed

subsection \<open>What the package guarantees\<close>

text \<open>C14: an ARN built by \<^verbatim>\<open>FormatARN\<close> from parts that hold no colon is parsed back into these
  parts by \<^verbatim>\<open>ParseARN\<close>; the resource may hold colons (a subscription ARN does).\<close>

theorem arn_roundtrip:
  assumes "CHR '':'' \<notin> set service" "CHR '':'' \<notin> set region" "CHR '':'' \<notin> set accountID"
  shows "ParseARN (FormatARN service region accountID resource) =
    Inr \<lparr>ARN_Partition = ''aws'', ARN_Service = service, ARN_Region = region,
         ARN_AccountID = accountID, ARN_Resource = resource\<rparr> \<and>
    TopicResourceName (FormatARN service region accountID resource) = Inr resource"
  using ParseARN_FormatARN [OF assms, of resource] by (simp add: TopicResourceName_def)

theorem arn_roundtrip_witness:
  "TopicResourceName (FormatARN ''sns'' ''us-east-1'' ''000000000000'' ''t:x'') = Inr ''t:x''"
  using arn_roundtrip [of "''sns''" "''us-east-1''" "''000000000000''" "''t:x''"] by simp

text \<open>Every identifier made by \<^verbatim>\<open>UUID\<close> is 36 bytes long, hyphenated at the positions of a
  version 4 UUID with version and variant digits set, and holds no colon, so that it is a single
  component of an ARN.\<close>

theorem uuid_well_formed:
  assumes "length raw = 16"
  shows "length (UUID raw) = 36 \<and> UUID raw ! 8 = CHR ''-'' \<and> UUID raw ! 13 = CHR ''-'' \<and>
    UUID raw ! 18 = CHR ''-'' \<and> UUID raw ! 23 = CHR ''-'' \<and> UUID raw ! 14 = CHR ''4'' \<and>
    UUID raw ! 19 \<in> set ''89ab'' \<and> CHR '':'' \<notin> set (UUID raw)"
  using length_UUID [OF assms] UUID_layout [OF assms] UUID_no_colon [of raw] by blast

theorem uuid_well_formed_witness: "length (UUID (replicate 16 (CHR ''x''))) = 36"
  using uuid_well_formed [of "replicate 16 (CHR ''x'')"] by simp

end
