(* ===== verification/Domain.thy ===== *)
theory Domain
  imports Util Go_JSON
begin

text \<open>
  Package \<^verbatim>\<open>internal/domain\<close> (\<^verbatim>\<open>types.go\<close>): the data every other component exchanges,
  the constructors of API errors, the attribute maps shown to clients and the FIFO
  sequence numbers.  Pointers to records that the code copies before sharing them
  (\<^verbatim>\<open>CopyTopic\<close> and its siblings) are values here; a pointer that may be nil is an
  \<^verbatim>\<open>option\<close>.
\<close>

subsection \<open>Constants and errors\<close>

definition ProtocolSQS :: string where "ProtocolSQS = ''sqs''"
definition ProtocolHTTP :: string where "ProtocolHTTP = ''http''"
definition ProtocolHTTPS :: string where "ProtocolHTTPS = ''https''"
definition FilterScopeMessageAttributes :: string where
  "FilterScopeMessageAttributes = ''MessageAttributes''"
definition FilterScopeMessageBody :: string where "FilterScopeMessageBody = ''MessageBody''"
definition FifoThroughputTopic :: string where "FifoThroughputTopic = ''Topic''"
definition FifoThroughputMessageGroup :: string where
  "FifoThroughputMessageGroup = ''MessageGroup''"

lemmas domain_constants [go_eval] =
  ProtocolSQS_def ProtocolHTTP_def ProtocolHTTPS_def FilterScopeMessageAttributes_def
  FilterScopeMessageBody_def FifoThroughputTopic_def FifoThroughputMessageGroup_def

definition mkAPIError :: "string \<Rightarrow> int \<Rightarrow> string \<Rightarrow> go_error" where
  "mkAPIError code status msg =
     API \<lparr>Err_Code = code, Err_Message = msg, Err_HTTPStatus = status, Err_Sender = True\<rparr>"

definition NewInvalidParameter :: "string \<Rightarrow> go_error" where
  "NewInvalidParameter msg = mkAPIError ''InvalidParameter'' 400 msg"
definition NewParameterValueInvalid :: "string \<Rightarrow> go_error" where
  "NewParameterValueInvalid msg = mkAPIError ''ParameterValueInvalid'' 400 msg"
definition NewNotFound :: "string \<Rightarrow> go_error" where
  "NewNotFound msg = mkAPIError ''NotFound'' 404 msg"
definition NewAuthorization :: "string \<Rightarrow> go_error" where
  "NewAuthorization msg = mkAPIError ''AuthorizationError'' 403 msg"
definition NewValidation :: "string \<Rightarrow> go_error" where
  "NewValidation msg = mkAPIError ''Validation'' 400 msg"

lemmas api_errors [go_eval] =
  NewInvalidParameter_def NewParameterValueInvalid_def NewNotFound_def NewAuthorization_def
  NewValidation_def mkAPIError_def

text \<open>\<^verbatim>\<open>err.Error()\<close>.\<close>

fun error_text :: "go_error \<Rightarrow> string" where
  "error_text ErrNotFound = ''not found''"
| "error_text ErrConflict = ''conflict''"
| "error_text ErrInvalidArgument = ''invalid argument''"
| "error_text (API e) = Err_Message e"
| "error_text (Plain s) = s"
| "error_text (Panic s) = s"

record Identity =
  Id_AccountID :: string
  Id_Principal :: string

subsection \<open>Topics\<close>

record SequenceState =
  Seq_Prefix :: string
  Seq_Counter :: "64 word"

record DedupRecord =
  Dedup_MessageID :: string
  Dedup_SequenceNumber :: string
  Dedup_ExpiresAt :: time

record TopicAttributes =
  TA_DeliveryPolicy :: string
  TA_Policy :: string
  TA_DisplayName :: string
  TA_SignatureVersion :: string
  TA_TracingConfig :: string
  TA_ArchivePolicy :: string
  TA_FifoTopic :: bool
  TA_ContentBasedDeduplication :: bool
  TA_FifoThroughputScope :: string
  TA_Unsupported :: "(string, string) fmap"

record Topic =
  Topic_ARN :: string
  Topic_Name :: string
  Topic_Owner :: string
  Topic_Region :: string
  Topic_CreatedAt :: time
  Topic_UpdatedAt :: time
  Topic_Attributes :: TopicAttributes
  Topic_Tags :: "(string, string) fmap"
  Topic_Subscriptions :: "string fset"
  Topic_GroupSequences :: "(string, SequenceState) fmap"
  Topic_DedupRecords :: "(string, DedupRecord) fmap"
  Topic_ConfirmedCount :: int
  Topic_DeletedCount :: int
  Topic_PendingCount :: int

definition boolString :: "bool \<Rightarrow> string" where
  "boolString v = (if v then ''true'' else ''false'')"

definition defaultString :: "string \<Rightarrow> string \<Rightarrow> string" where
  "defaultString v fallback = (if TrimSpace v = [] then fallback else v)"

definition TopicAttributeMap :: "TopicAttributes \<Rightarrow> (string, string) fmap" where
  "TopicAttributeMap a =
     fmap_of_list
       [(''DisplayName'', TA_DisplayName a), (''Policy'', TA_Policy a),
        (''DeliveryPolicy'', TA_DeliveryPolicy a), (''SignatureVersion'', TA_SignatureVersion a),
        (''TracingConfig'', TA_TracingConfig a), (''ArchivePolicy'', TA_ArchivePolicy a),
        (''FifoTopic'', boolString (TA_FifoTopic a)),
        (''ContentBasedDeduplication'', boolString (TA_ContentBasedDeduplication a)),
        (''FifoThroughputScope'', TA_FifoThroughputScope a)]
     ++\<^sub>f TA_Unsupported a"

subsection \<open>Subscriptions and confirmation tokens\<close>

record SubscriptionAttributes =
  SA_DeliveryPolicy :: string
  SA_FilterPolicy :: string
  SA_FilterPolicyScope :: string
  SA_RawMessageDelivery :: bool
  SA_RedrivePolicy :: string
  SA_EffectiveDeliveryPolicy :: string

record Subscription =
  Sub_ARN :: string
  Sub_TopicARN :: string
  Sub_Owner :: string
  Sub_Protocol :: string
  Sub_Endpoint :: string
  Sub_CreatedAt :: time
  Sub_UpdatedAt :: time
  Sub_Confirmed :: bool
  Sub_PendingConfirmation :: bool
  Sub_ConfirmationWasAuthenticated :: bool
  Sub_AuthenticateOnUnsubscribe :: bool
  Sub_Attributes :: SubscriptionAttributes

definition SubscriptionAttributeMap ::
    "SubscriptionAttributes \<Rightarrow> Subscription \<Rightarrow> (string, string) fmap" where
  "SubscriptionAttributeMap a sub =
     fmap_of_list
       [(''DeliveryPolicy'', SA_DeliveryPolicy a), (''FilterPolicy'', SA_FilterPolicy a),
        (''FilterPolicyScope'', defaultString (SA_FilterPolicyScope a) FilterScopeMessageAttributes),
        (''RawMessageDelivery'', boolString (SA_RawMessageDelivery a)),
        (''RedrivePolicy'', SA_RedrivePolicy a),
        (''EffectiveDeliveryPolicy'', SA_EffectiveDeliveryPolicy a),
        (''PendingConfirmation'', boolString (Sub_PendingConfirmation sub)),
        (''ConfirmationWasAuthenticated'', boolString (Sub_ConfirmationWasAuthenticated sub)),
        (''Owner'', Sub_Owner sub), (''TopicArn'', Sub_TopicARN sub),
        (''Endpoint'', Sub_Endpoint sub), (''Protocol'', Sub_Protocol sub),
        (''SubscriptionArn'', Sub_ARN sub)]"

record ConfirmationToken =
  Tok_Token :: string
  Tok_SubscriptionARN :: string
  Tok_TopicARN :: string
  Tok_Endpoint :: string
  Tok_Protocol :: string
  Tok_ExpiresAt :: time
  Tok_AuthenticateOnUnsubscribe :: bool
  Tok_Kind :: string
  Tok_Restore :: "Subscription option"

record SigningMaterial =
  Sig_PrivateKeyPEM :: string
  Sig_CertPEM :: string
  Sig_CreatedAt :: time

subsection \<open>Messages and delivery jobs\<close>

record MessageAttributeValue =
  MA_DataType :: string
  MA_StringValue :: string
  MA_BinaryValue :: "string option"

text \<open>The bytes of a slice; a nil slice has none.\<close>

definition bytes_of :: "string option \<Rightarrow> string" where
  "bytes_of b = (case b of None \<Rightarrow> [] | Some s \<Rightarrow> s)"

text \<open>Appending to a nil slice copies the bytes, and yields nil when there are none.\<close>

definition DeepCopy :: "MessageAttributeValue \<Rightarrow> MessageAttributeValue" where
  "DeepCopy m =
     (if MA_BinaryValue m \<noteq> None
      then m\<lparr>MA_BinaryValue := (if bytes_of (MA_BinaryValue m) = [] then None else MA_BinaryValue m)\<rparr>
      else m)"

definition MessageAttributeString :: "MessageAttributeValue \<Rightarrow> string" where
  "MessageAttributeString m =
     (if MA_StringValue m \<noteq> [] then MA_StringValue m
      else if length (bytes_of (MA_BinaryValue m)) > 0 then bytes_of (MA_BinaryValue m)
      else [])"

text \<open>
  The entries of a map whose iteration order can be observed: the list is the order in
  which \<^verbatim>\<open>range\<close> visits the (distinct) keys, which Go leaves open.
\<close>

type_synonym 'v ranged = "(string \<times> 'v) list"

definition cloneMessageAttributes :: "MessageAttributeValue ranged \<Rightarrow> MessageAttributeValue ranged" where
  "cloneMessageAttributes src = map (\<lambda>(k, v). (k, DeepCopy v)) src"

lemma DeepCopy_idem [simp]: "DeepCopy (DeepCopy m) = DeepCopy m"
  by (simp add: DeepCopy_def bytes_of_def)

lemma clone_idem [simp]: "cloneMessageAttributes (cloneMessageAttributes src) = cloneMessageAttributes src"
  by (simp add: cloneMessageAttributes_def case_prod_beta)

record PublishInput =
  PI_TopicARN :: string
  PI_Message :: string
  PI_Subject :: string
  PI_MessageStructure :: string
  PI_MessageAttributes :: "MessageAttributeValue ranged"
  PI_MessageGroupID :: string
  PI_MessageDeduplicationID :: string

record PublishOutput =
  PO_MessageID :: string
  PO_SequenceNumber :: string
  PO_Deduplicated :: bool

record PublishBatchEntry =
  BE_ID :: string
  BE_Message :: string
  BE_Subject :: string
  BE_MessageStructure :: string
  BE_MessageAttributes :: "MessageAttributeValue ranged"
  BE_MessageGroupID :: string
  BE_MessageDeduplicationID :: string

record PublishBatchFailure =
  BF_ID :: string
  BF_Code :: string
  BF_Message :: string
  BF_SenderFault :: bool

record BatchDeliveryResult =
  BR_ID :: string
  BR_MessageID :: string
  BR_SequenceNumber :: string

record DeliveryAttempt =
  Att_Subscription :: Subscription
  Att_Topic :: Topic
  Att_MessageID :: string
  Att_Subject :: string
  Att_Message :: string
  Att_ProtocolMessage :: string
  Att_Timestamp :: time
  Att_Type :: string
  Att_Token :: string
  Att_SubscribeURL :: string
  Att_UnsubscribeURL :: string
  Att_SignatureVersion :: string
  Att_Signature :: string
  Att_SigningCertURL :: string
  Att_MessageAttributes :: "MessageAttributeValue ranged"
  Att_GroupID :: string
  Att_DeduplicationID :: string
  Att_SequenceNumber :: string
  Att_Headers :: "(string, string) fmap"

record DeliveryJobPayload =
  Pay_Type :: string
  Pay_TopicARN :: string
  Pay_TopicOwner :: string
  Pay_SubscriptionARN :: string
  Pay_Protocol :: string
  Pay_Endpoint :: string
  Pay_MessageID :: string
  Pay_Subject :: string
  Pay_Message :: string
  Pay_ProtocolMessage :: string
  Pay_Timestamp :: time
  Pay_Token :: string
  Pay_SubscribeURL :: string
  Pay_UnsubscribeURL :: string
  Pay_SignatureVersion :: string
  Pay_Signature :: string
  Pay_SigningCertURL :: string
  Pay_MessageAttributes :: "MessageAttributeValue ranged"
  Pay_GroupID :: string
  Pay_DeduplicationID :: string
  Pay_SequenceNumber :: string
  Pay_Headers :: "(string, string) fmap"

record DeliveryJob =
  Job_ID :: string
  Job_Kind :: string
  Job_Payload :: DeliveryJobPayload
  Job_EffectiveDeliveryJSON :: string
  Job_RawMessageDelivery :: bool
  Job_RedrivePolicy :: string
  Job_AttemptCount :: int
  Job_NextAttemptAt :: time
  Job_LastError :: string
  Job_CreatedAt :: time
  Job_UpdatedAt :: time

record DeliveryResult =
  DR_Success :: bool
  DR_Retryable :: bool
  DR_StatusCode :: int
  DR_ErrorMessage :: string

definition CopyDeliveryJobPayload :: "DeliveryJobPayload \<Rightarrow> DeliveryJobPayload" where
  "CopyDeliveryJobPayload src =
     src\<lparr>Pay_MessageAttributes := cloneMessageAttributes (Pay_MessageAttributes src)\<rparr>"

record RedrivePolicy =
  RDP_DeadLetterTargetArn :: string

definition decode_redrive :: "json \<Rightarrow> RedrivePolicy \<Rightarrow> RedrivePolicy option" where
  "decode_redrive =
     decode_struct [''deadLetterTargetArn'']
       (\<lambda>f j p. map_option (\<lambda>v. p\<lparr>RDP_DeadLetterTargetArn := v\<rparr>) (decode_string j (RDP_DeadLetterTargetArn p)))"

definition ParseRedrivePolicy :: "string \<Rightarrow> RedrivePolicy res" where
  "ParseRedrivePolicy raw =
     (if TrimSpace raw = [] then Inr \<lparr>RDP_DeadLetterTargetArn = []\<rparr>
      else unmarshal decode_redrive raw \<lparr>RDP_DeadLetterTargetArn = []\<rparr>)"

subsection \<open>Sequence numbers\<close>

text \<open>
  \<^verbatim>\<open>NextSequence\<close>; \<open>unixNano\<close> is what \<^verbatim>\<open>time.Now().UnixNano()\<close> returns.  A prefix
  that is not a hexadecimal number cannot arise from this function; the result of
  \<^verbatim>\<open>SetString\<close> is then unspecified, and the model reads it as zero.
\<close>

definition sequence_value :: "SequenceState \<Rightarrow> int" where
  "sequence_value st =
     (case parse_hex (Seq_Prefix st) of None \<Rightarrow> 0 | Some p \<Rightarrow> p) * 2 ^ 64 + uint (Seq_Counter st)"

definition NextSequence :: "int \<Rightarrow> SequenceState \<Rightarrow> SequenceState \<times> string" where
  "NextSequence unixNano state =
     (let state = (if Seq_Prefix state = [] then state\<lparr>Seq_Prefix := format_016x unixNano\<rparr> else state);
          state = state\<lparr>Seq_Counter := Seq_Counter state + 1\<rparr>
      in (state, Itoa (sequence_value state)))"

lemma format_016x_not_Nil [simp]: "format_016x n \<noteq> []"
  by (simp add: format_016x_def pad_left_def)

lemma NextSequence_prefix [simp]: "Seq_Prefix (fst (NextSequence n st)) \<noteq> []"
  by (simp add: NextSequence_def Let_def)

lemma NextSequence_number: "snd (NextSequence n st) = Itoa (sequence_value (fst (NextSequence n st)))"
  by (simp add: NextSequence_def Let_def)

lemma NextSequence_keeps_prefix:
  "Seq_Prefix st \<noteq> [] \<Longrightarrow> Seq_Prefix (fst (NextSequence n st)) = Seq_Prefix st"
  by (simp add: NextSequence_def Let_def)

lemma NextSequence_counter: "Seq_Counter (fst (NextSequence n st)) = Seq_Counter st + 1"
  by (simp add: NextSequence_def Let_def)

lemma uint_plus_1:
  fixes x :: "64 word"
  assumes "x \<noteq> - 1"
  shows "uint (x + 1) = uint x + 1"
proof -
  have "1 + x \<noteq> 0" using assms by (metis add_eq_0_iff)
  then have "unat (1 + x) = Suc (unat x)" by (rule unatSuc)
  then have "int (unat (x + 1)) = int (unat x) + 1" by (simp add: add.commute)
  then show ?thesis by simp
qed

lemma sequence_value_step:
  assumes "Seq_Prefix st \<noteq> []" "Seq_Counter st \<noteq> - 1"
  shows "sequence_value (fst (NextSequence n st)) = sequence_value st + 1"
  using assms
  by (simp add: sequence_value_def NextSequence_keeps_prefix NextSequence_counter uint_plus_1)

subsection \<open>What the package guarantees\<close>

fun sequence_run :: "(nat \<Rightarrow> int) \<Rightarrow> nat \<Rightarrow> SequenceState \<Rightarrow> SequenceState" where
  "sequence_run clock 0 st = st"
| "sequence_run clock (Suc n) st = fst (NextSequence (clock n) (sequence_run clock n st))"

lemma sequence_run_counter: "Seq_Counter (sequence_run clock n st) = Seq_Counter st + of_nat n"
  by (induction n) (simp_all add: NextSequence_counter)

lemma sequence_run_value:
  assumes "Seq_Prefix st \<noteq> []" "unat (Seq_Counter st) + n < 2 ^ 64"
  shows "sequence_value (sequence_run clock n st) = sequence_value st + int n"
  using assms(2)
proof (induction n)
  case (Suc n)
  have p: "Seq_Prefix (sequence_run clock m st) \<noteq> []" for m
    using assms(1) by (cases m) simp_all
  have "Seq_Counter (sequence_run clock n st) \<noteq> - 1"
  proof
    assume "Seq_Counter (sequence_run clock n st) = - 1"
    then have "of_nat (unat (Seq_Counter st) + Suc n) = (0 :: 64 word)"
      by (simp add: sequence_run_counter)
    then have "2 ^ 64 dvd unat (Seq_Counter st) + Suc n" unfolding word_of_nat_eq_0_iff by simp
    with Suc.prems show False by (auto dest: dvd_imp_le)
  qed
  with p Suc show ?case by (simp add: sequence_value_step)
qed simp

text \<open>C13: once a message group has its prefix (from its first call on), its successive sequence
  numbers are consecutive integers, printed in decimal, whatever the clock reads, as long as the
  64 bit counter does not wrap; so they strictly increase.\<close>

theorem sequence_numbers_increase:
  assumes "Seq_Prefix st \<noteq> []" "i < j" "unat (Seq_Counter st) + j < 2 ^ 64"
  shows "snd (NextSequence (clock i) (sequence_run clock i st)) = Itoa (sequence_value st + int i + 1) \<and>
    sequence_value (sequence_run clock i st) < sequence_value (sequence_run clock j st)"
proof -
  have "sequence_value (sequence_run clock n st) = sequence_value st + int n" if "n \<le> j" for n
    using that assms(3) by (intro sequence_run_value [OF assms(1)]) simp
  from this [of i] this [of "Suc i"] this [of j] assms(2) show ?thesis
    by (simp add: NextSequence_number add.commute add.left_commute)
qed

theorem sequence_numbers_increase_witness:
  "let st = \<lparr>Seq_Prefix = ''17a'', Seq_Counter = 4\<rparr> in
     snd (NextSequence 7 (sequence_run (\<lambda>_. 7) 1 st)) = Itoa (2 + sequence_value st)"
  using sequence_numbers_increase [of "\<lparr>Seq_Prefix = ''17a'', Seq_Counter = 4\<rparr>" 1 2 "\<lambda>_. 7"]
  by (simp add: Let_def del: sequence_run.simps)

subsection \<open>Concrete records\<close>

text \<open>A topic and one of its subscriptions, on which theorems are instantiated.\<close>

definition sample_topic :: Topic where
  "sample_topic =
     \<lparr>Topic_ARN = ''arn:aws:sns:us-east-1:1:t'', Topic_Name = ''t'', Topic_Owner = ''1'',
      Topic_Region = ''us-east-1'', Topic_CreatedAt = 0, Topic_UpdatedAt = 0,
      Topic_Attributes =
        \<lparr>TA_DeliveryPolicy = [], TA_Policy = [], TA_DisplayName = [], TA_SignatureVersion = ''1'',
         TA_TracingConfig = ''PassThrough'', TA_ArchivePolicy = [], TA_FifoTopic = False,
         TA_ContentBasedDeduplication = False, TA_FifoThroughputScope = FifoThroughputTopic,
         TA_Unsupported = fmempty\<rparr>,
      Topic_Tags = fmempty, Topic_Subscriptions = {||}, Topic_GroupSequences = fmempty,
      Topic_DedupRecords = fmempty, Topic_ConfirmedCount = 0, Topic_DeletedCount = 0,
      Topic_PendingCount = 0\<rparr>"

definition sample_sub :: Subscription where
  "sample_sub =
     \<lparr>Sub_ARN = ''arn:aws:sns:us-east-1:1:t:u'', Sub_TopicARN = ''arn:aws:sns:us-east-1:1:t'',
      Sub_Owner = ''1'', Sub_Protocol = ProtocolSQS, Sub_Endpoint = ''arn:aws:sqs:us-east-1:1:q'',
      Sub_CreatedAt = 0, Sub_UpdatedAt = 0, Sub_Confirmed = True, Sub_PendingConfirmation = False,
      Sub_ConfirmationWasAuthenticated = False, Sub_AuthenticateOnUnsubscribe = False,
      Sub_Attributes =
        \<lparr>SA_DeliveryPolicy = [], SA_FilterPolicy = [],
         SA_FilterPolicyScope = FilterScopeMessageAttributes, SA_RawMessageDelivery = False,
         SA_RedrivePolicy = [], SA_EffectiveDeliveryPolicy = []\<rparr>\<rparr>"

end
