(* ===== verification/Go_URL.thy ===== *)
theory Go_URL
  imports Go_Strings
begin

text \<open>
  What the emulator uses of \<^verbatim>\<open>net/url\<close>: escaping of query components, \<^verbatim>\<open>url.Values\<close> with
  \<^verbatim>\<open>Encode\<close> and \<^verbatim>\<open>ParseQuery\<close>, and \<^verbatim>\<open>strings.Index\<close>.  The form that one side encodes is the
  form that the other side reads, for values of any bytes.
\<close>

subsection \<open>Escaping\<close>

definition unreserved :: "char \<Rightarrow> bool" where
  "unreserved c \<longleftrightarrow>
     (let n = byte_value c in
      97 \<le> n \<and> n \<le> 122 \<or> 65 \<le> n \<and> n \<le> 90 \<or> 48 \<le> n \<and> n \<le> 57 \<or> c \<in> set ''-_.~'')"

definition upper_hex :: "nat \<Rightarrow> char" where
  "upper_hex d = upper_char (digit_char d)"

definition escape_byte :: "char \<Rightarrow> string" where
  "escape_byte c =
     (if unreserved c then [c]
      else if c = CHR '' '' then ''+''
      else [CHR ''%'', upper_hex (byte_value c div 16), upper_hex (byte_value c mod 16)])"

definition QueryEscape :: "string \<Rightarrow> string" where
  "QueryEscape s = concat (map escape_byte s)"

fun QueryUnescape :: "string \<Rightarrow> string option" where
  "QueryUnescape [] = Some []"
| "QueryUnescape (c # s) =
     (if c = CHR ''%'' then
        (case s of
           a # b # r \<Rightarrow>
             (case (digit_value 16 a, digit_value 16 b) of
                (Some x, Some y) \<Rightarrow> map_option ((#) (byte_of (16 * x + y))) (QueryUnescape r)
              | _ \<Rightarrow> None)
         | _ \<Rightarrow> None)
      else if c = CHR ''+'' then map_option ((#) (CHR '' '')) (QueryUnescape s)
      else map_option ((#) c) (QueryUnescape s))"

lemma hex_chars: "map upper_hex [0..<16] = ''0123456789ABCDEF''"
  by code_simp

lemma upper_hex_value:
  assumes "d < 16"
  shows "digit_value 16 (upper_hex d) = Some d"
proof -
  have "map (\<lambda>c. lower_char (upper_char c)) digit_alphabet ! d = digit_alphabet ! d"
    by (rule arg_cong [where f = "\<lambda>l. l ! d"])
      (simp add: digit_alphabet_def lower_char_def upper_char_def Let_def char_of_eq_iff)
  then have "lower_char (upper_hex d) = digit_char d"
    unfolding upper_hex_def digit_char_def using assms by (simp add: nth_map)
  then show ?thesis using digit_value_char [of d 16] assms by (simp add: digit_value_def lower_digit_char)
qed

lemma upper_hex_plain: "d < 16 \<Longrightarrow> upper_hex d \<in> set ''0123456789ABCDEF''"
  by (metis (no_types, lifting) atLeast_upt hex_chars image_eqI lessThan_iff list.set_map)

lemma unescape_escape_byte: "QueryUnescape (escape_byte c @ s) = map_option ((#) c) (QueryUnescape s)"
proof -
  have "16 * (byte_value c div 16) + byte_value c mod 16 = byte_value c" by simp
  moreover have "byte_value c div 16 < 16" by (rule less_mult_imp_div_less) simp
  moreover have "\<not> unreserved (CHR ''%'')" "\<not> unreserved (CHR ''+'')" by code_simp+
  ultimately show ?thesis
    by (auto simp: escape_byte_def upper_hex_value)
qed

lemma unescape_escape: "QueryUnescape (QueryEscape s) = Some s"
proof (induction s)
  case (Cons c s)
  then show ?case by (simp add: QueryEscape_def unescape_escape_byte)
qed (simp add: QueryEscape_def)

interpretation query: codec QueryEscape QueryUnescape "\<lambda>_. True"
  by unfold_locales (rule unescape_escape)

lemma upper_hex_unreserved: "d < 16 \<Longrightarrow> unreserved (upper_hex d)"
proof -
  have "\<forall>x \<in> set ''0123456789ABCDEF''. unreserved x" by code_simp
  then show "d < 16 \<Longrightarrow> unreserved (upper_hex d)" using upper_hex_plain by blast
qed

lemma escape_byte_chars: "x \<in> set (escape_byte c) \<Longrightarrow> unreserved x \<or> x = CHR ''%'' \<or> x = CHR ''+''"
proof -
  have "unreserved (upper_hex (byte_value c div 16))" "unreserved (upper_hex (byte_value c mod 16))"
    by (rule upper_hex_unreserved, rule less_mult_imp_div_less, simp) (simp add: upper_hex_unreserved)
  then show "x \<in> set (escape_byte c) \<Longrightarrow> unreserved x \<or> x = CHR ''%'' \<or> x = CHR ''+''"
    by (auto simp: escape_byte_def split: if_splits)
qed

lemma escape_chars: "x \<in> set (QueryEscape s) \<Longrightarrow> unreserved x \<or> x = CHR ''%'' \<or> x = CHR ''+''"
  by (auto simp: QueryEscape_def dest: escape_byte_chars)

lemma escape_separators:
  "CHR ''&'' \<notin> set (QueryEscape s)" "CHR ''='' \<notin> set (QueryEscape s)" "CHR '';'' \<notin> set (QueryEscape s)"
proof -
  have "\<not> unreserved (CHR ''&'')" "\<not> unreserved (CHR ''='')" "\<not> unreserved (CHR '';'')" by code_simp+
  then show "CHR ''&'' \<notin> set (QueryEscape s)" "CHR ''='' \<notin> set (QueryEscape s)" "CHR '';'' \<notin> set (QueryEscape s)"
    using escape_chars by fastforce+
qed

subsection \<open>Values\<close>

type_synonym url_values = "(string, string list) fmap"

definition values_of :: "url_values \<Rightarrow> string \<Rightarrow> string list" where
  "values_of v k = (case fmlookup v k of None \<Rightarrow> [] | Some vs \<Rightarrow> vs)"

definition Values_Get :: "url_values \<Rightarrow> string \<Rightarrow> string" where
  "Values_Get v k = (case values_of v k of [] \<Rightarrow> [] | x # _ \<Rightarrow> x)"

definition Values_Set :: "url_values \<Rightarrow> string \<Rightarrow> string \<Rightarrow> url_values" where
  "Values_Set v k x = fmupd k [x] v"

definition encode_pair :: "string \<times> string \<Rightarrow> string" where
  "encode_pair p = QueryEscape (fst p) @ ''='' @ QueryEscape (snd p)"

text \<open>The pairs of a form in the order of \<^verbatim>\<open>Encode\<close>: by key, the values of a key in their order.\<close>

definition value_pairs :: "url_values \<Rightarrow> (string \<times> string) list" where
  "value_pairs v = concat (map (\<lambda>k. map (Pair k) (values_of v k)) (sorted_keys v))"

definition Values_Encode :: "url_values \<Rightarrow> string" where
  "Values_Encode v = Join (map encode_pair (value_pairs v)) ''&''"

definition Values_Add :: "string \<times> string \<Rightarrow> url_values \<Rightarrow> url_values" where
  "Values_Add p m = fmupd (fst p) (values_of m (fst p) @ [snd p]) m"

definition first_error :: "go_error option \<Rightarrow> go_error \<Rightarrow> go_error option" where
  "first_error e e' = (if e = None then Some e' else e)"

text \<open>\<^verbatim>\<open>ParseQuery\<close> keeps what it could read beside the error, which \<^verbatim>\<open>URL.Query\<close> drops.\<close>

fun parse_parts :: "string list \<Rightarrow> url_values \<Rightarrow> go_error option \<Rightarrow> url_values \<times> go_error option" where
  "parse_parts [] m e = (m, e)"
| "parse_parts (part # parts) m e =
     (if CHR '';'' \<in> set part then parse_parts parts m (Some (Plain ''invalid semicolon separator in query''))
      else if part = [] then parse_parts parts m e
      else
        let (k, x) = (case Cut (CHR ''='') part of None \<Rightarrow> (part, []) | Some p \<Rightarrow> p)
        in case QueryUnescape k of
             None \<Rightarrow> parse_parts parts m (first_error e (Plain ''invalid URL escape''))
           | Some k' \<Rightarrow>
               (case QueryUnescape x of
                  None \<Rightarrow> parse_parts parts m (first_error e (Plain ''invalid URL escape''))
                | Some x' \<Rightarrow> parse_parts parts (Values_Add (k', x') m) e))"

definition max_params :: nat where
  "max_params = 10000"

definition ParseQuery :: "string \<Rightarrow> url_values \<times> go_error option" where
  "ParseQuery q =
     (let parts = Split (CHR ''&'') q in
      if length parts > max_params then (fmempty, Some (Plain ''number of URL query parameters exceeded limit''))
      else parse_parts parts fmempty None)"

lemma parse_pair: "parse_parts (encode_pair p # parts) m e = parse_parts parts (Values_Add p m) e"
proof -
  have "CHR '';'' \<notin> set (encode_pair p)" "encode_pair p \<noteq> []"
    "Cut (CHR ''='') (encode_pair p) = Some (QueryEscape (fst p), QueryEscape (snd p))"
    by (auto simp: encode_pair_def escape_separators)
  then show ?thesis by (simp add: unescape_escape)
qed

lemma parse_pairs: "parse_parts (map encode_pair ps) m e = (fold Values_Add ps m, e)"
  by (induction ps arbitrary: m) (simp_all add: parse_pair del: parse_parts.simps(2))

lemma values_of_add: "values_of (Values_Add p m) k = (if fst p = k then values_of m k @ [snd p] else values_of m k)"
  by (simp add: Values_Add_def values_of_def)

lemma values_of_fold:
  "values_of (fold Values_Add ps m) k = values_of m k @ map snd (filter (\<lambda>p. fst p = k) ps)"
  by (induction ps arbitrary: m) (auto simp: values_of_add)

lemma dom_fold: "fmdom (fold Values_Add ps m) = fmdom m |\<union>| fset_of_list (map fst ps)"
  by (induction ps arbitrary: m) (auto simp: Values_Add_def)

lemma filter_pairs: "filter (\<lambda>p. fst p = k) (value_pairs v) = map (Pair k) (values_of v k)"
proof -
  have "filter (\<lambda>p. fst p = k) (concat (map (\<lambda>k. map (Pair k) (values_of v k)) ks)) =
      (if k \<in> set ks then map (Pair k) (values_of v k) else [])" if "distinct ks" for ks
    using that
  proof (induction ks)
    case (Cons a ks)
    then show ?case by (cases "a = k") (auto simp: filter_map o_def)
  qed simp
  moreover have "k \<notin> set (sorted_keys v) \<Longrightarrow> values_of v k = []"
    by (simp add: values_of_def fmdom_notD)
  ultimately show ?thesis unfolding value_pairs_def by fastforce
qed

text \<open>A form as Go programs build it: no key without a value.\<close>

definition form_ok :: "url_values \<Rightarrow> bool" where
  "form_ok v \<longleftrightarrow> (\<forall>k. fmlookup v k \<noteq> Some []) \<and> length (value_pairs v) \<le> max_params"

lemma fold_value_pairs:
  assumes "form_ok v"
  shows "fold Values_Add (value_pairs v) fmempty = v"
proof (rule fmap_ext)
  fix k
  let ?w = "fold Values_Add (value_pairs v) fmempty"
  have vals: "values_of ?w k = values_of v k"
    unfolding values_of_fold filter_pairs by (simp add: values_of_def o_def)
  have none: "fmlookup ?w k \<noteq> Some []"
  proof
    assume w: "fmlookup ?w k = Some []"
    then have "k |\<in>| fmdom ?w" by (rule fmdomI)
    then have "k \<in> fst ` set (value_pairs v)" unfolding dom_fold by (auto simp: fset_of_list_elem)
    then have "filter (\<lambda>p. fst p = k) (value_pairs v) \<noteq> []" by (auto simp: filter_empty_conv)
    then have "values_of v k \<noteq> []" by (simp add: filter_pairs)
    then show False using vals w by (simp add: values_of_def)
  qed
  show "fmlookup ?w k = fmlookup v k"
    using vals none assms by (auto simp: values_of_def form_ok_def split: option.splits)
qed

lemma parse_encode:
  assumes "form_ok v"
  shows "ParseQuery (Values_Encode v) = (v, None)"
proof (cases "value_pairs v = []")
  case True
  then have "v = fmempty" using fold_value_pairs [OF assms] by simp
  then show ?thesis using True by (simp add: ParseQuery_def Values_Encode_def max_params_def)
next
  case False
  have "\<forall>x \<in> set (map encode_pair (value_pairs v)). CHR ''&'' \<notin> set x"
    by (auto simp: encode_pair_def escape_separators)
  then have "Split (CHR ''&'') (Values_Encode v) = map encode_pair (value_pairs v)"
    unfolding Values_Encode_def by (intro Split_Join) (simp_all add: False)
  then show ?thesis using assms by (simp add: ParseQuery_def parse_pairs fold_value_pairs form_ok_def)
qed

subsection \<open>Substrings\<close>

text \<open>\<^verbatim>\<open>strings.Index\<close>: where a substring first occurs.\<close>

fun Index :: "string \<Rightarrow> string \<Rightarrow> nat option" where
  "Index [] sub = (if sub = [] then Some 0 else None)"
| "Index (c # s) sub = (if HasPrefix (c # s) sub then Some 0 else map_option Suc (Index s sub))"

lemma Index_take: "Index s sub = Some i \<Longrightarrow> take (length sub) (drop i s) = sub"
  by (induction s arbitrary: i) (auto simp: HasPrefix_def split: if_splits)

lemma HasPrefix_length: "HasPrefix s p \<Longrightarrow> length p \<le> length s"
  by (metis HasPrefix_def length_take min.cobounded1)

lemma Index_bound: "Index s sub = Some i \<Longrightarrow> i + length sub \<le> length s"
  by (induction s arbitrary: i) (auto dest: HasPrefix_length split: if_splits)

lemma Index_nth:
  assumes "Index s sub = Some i" "k < length sub"
  shows "s ! (i + k) = sub ! k"
proof -
  have "sub ! k = take (length sub) (drop i s) ! k" by (simp add: Index_take [OF assms(1)])
  also have "\<dots> = s ! (i + k)" using Index_bound [OF assms(1)] assms(2) by simp
  finally show ?thesis by simp
qed

text \<open>Text without the first character of a substring is passed over.\<close>

lemma Index_text:
  assumes "c \<notin> set t"
  shows "Index (t @ c # s) (c # p) = map_option ((+) (length t)) (Index (c # s) (c # p))"
  using assms
proof (induction t)
  case Nil
  then show ?case by (cases "Index (c # s) (c # p)") auto
next
  case (Cons x t)
  then have "\<not> HasPrefix ((x # t) @ c # s) (c # p)" by (auto simp: HasPrefix_def)
  with Cons show ?case by (simp add: option.map_comp o_def)
qed

end
