(* ===== verification/Go_Crypto.thy ===== *)
theory Go_Crypto
  imports Go_Strings
begin

text \<open>
  What the emulator uses of Go's \<^verbatim>\<open>crypto/sha1\<close>, \<^verbatim>\<open>crypto/sha256\<close> and
  \<^verbatim>\<open>encoding/base64\<close> (standard alphabet): the digests that deduplication and signing
  hash messages with, and the encoding of signatures and binary attributes.
\<close>

unbundle bit_operations_syntax

subsection \<open>SHA-256\<close>

type_synonym word32 = "32 word"

definition rotr :: "nat \<Rightarrow> word32 \<Rightarrow> word32" where
  "rotr n x = (drop_bit n x) OR (push_bit (32 - n) x)"

text \<open>The round constants are the leading 32 fractional bits of the cube roots of the first 64 primes, and
  the initial state those of the square roots of the first 8, in decimal.\<close>

definition sha_k :: "word32 list" where
  "sha_k =
    [1116352408, 1899447441, 3049323471, 3921009573, 961987163, 1508970993, 2453635748, 2870763221,
     3624381080, 310598401, 607225278, 1426881987, 1925078388, 2162078206, 2614888103, 3248222580,
     3835390401, 4022224774, 264347078, 604807628, 770255983, 1249150122, 1555081692, 1996064986,
     2554220882, 2821834349, 2952996808, 3210313671, 3336571891, 3584528711, 113926993, 338241895,
     666307205, 773529912, 1294757372, 1396182291, 1695183700, 1986661051, 2177026350, 2456956037,
     2730485921, 2820302411, 3259730800, 3345764771, 3516065817, 3600352804, 4094571909, 275423344,
     430227734, 506948616, 659060556, 883997877, 958139571, 1322822218, 1537002063, 1747873779,
     1955562222, 2024104815, 2227730452, 2361852424, 2428436474, 2756734187, 3204031479, 3329325298]"

definition sha_init :: "word32 list" where
  "sha_init =
    [1779033703, 3144134277, 1013904242, 2773480762, 1359893119, 2600822924, 528734635, 1541459225]"

definition be_bytes :: "nat \<Rightarrow> nat \<Rightarrow> string" where
  "be_bytes n v = map (\<lambda>i. byte_of (v div 256 ^ (n - 1 - i) mod 256)) [0..<n]"

definition sha_pad :: "string \<Rightarrow> string" where
  "sha_pad s =
     s @ [byte_of 128] @ replicate ((119 - length s mod 64) mod 64) (byte_of 0) @ be_bytes 8 (8 * length s)"

fun words_of :: "string \<Rightarrow> word32 list" where
  "words_of (a # b # c # d # r) =
     word_of_nat (((byte_value a * 256 + byte_value b) * 256 + byte_value c) * 256 + byte_value d) # words_of r"
| "words_of _ = []"

text \<open>The message schedule, newest word first.\<close>

fun sha_schedule :: "nat \<Rightarrow> word32 list \<Rightarrow> word32 list" where
  "sha_schedule 0 ws = ws"
| "sha_schedule (Suc n) ws =
     (let w15 = ws ! 14; w2 = ws ! 1;
          s0 = rotr 7 w15 XOR rotr 18 w15 XOR drop_bit 3 w15;
          s1 = rotr 17 w2 XOR rotr 19 w2 XOR drop_bit 10 w2
      in sha_schedule n ((ws ! 15 + s0 + ws ! 6 + s1) # ws))"

fun sha_rounds :: "(word32 \<times> word32) list \<Rightarrow> word32 list \<Rightarrow> word32 list" where
  "sha_rounds ((k, w) # kws) [a, b, c, d, e, f, g, h] =
     (let s1 = rotr 6 e XOR rotr 11 e XOR rotr 25 e;
          ch = (e AND f) XOR (NOT e AND g);
          t1 = h + s1 + ch + k + w;
          s0 = rotr 2 a XOR rotr 13 a XOR rotr 22 a;
          maj = (a AND b) XOR (a AND c) XOR (b AND c);
          t2 = s0 + maj
      in sha_rounds kws [t1 + t2, a, b, c, d + t1, e, f, g])"
| "sha_rounds _ st = st"

fun sha_blocks :: "nat \<Rightarrow> string \<Rightarrow> word32 list \<Rightarrow> word32 list" where
  "sha_blocks 0 s st = st"
| "sha_blocks (Suc n) s st =
     (let ws = rev (sha_schedule 48 (rev (words_of (take 64 s))));
          st' = sha_rounds (zip sha_k ws) st
      in sha_blocks n (drop 64 s) (map2 (+) st st'))"

definition sha256 :: "string \<Rightarrow> string" where
  "sha256 s =
     (let p = sha_pad s
      in concat (map (\<lambda>w. be_bytes 4 (unat w)) (sha_blocks (length p div 64) p sha_init)))"

text \<open>\<^verbatim>\<open>fmt.Sprintf("%x", sha256.Sum256([]byte(s)))\<close>.\<close>

definition sha256_hex :: "string \<Rightarrow> string" where
  "sha256_hex s = hex_encode (sha256 s)"

subsection \<open>SHA-1\<close>

definition rotl :: "nat \<Rightarrow> word32 \<Rightarrow> word32" where
  "rotl n x = rotr (32 - n) x"

definition sha1_init :: "word32 list" where
  "sha1_init =
    [1732584193, 4023233417, 2562383102, 271733878, 3285377520]"

fun sha1_schedule :: "nat \<Rightarrow> word32 list \<Rightarrow> word32 list" where
  "sha1_schedule 0 ws = ws"
| "sha1_schedule (Suc n) ws =
     sha1_schedule n (rotl 1 (ws ! 2 XOR ws ! 7 XOR ws ! 13 XOR ws ! 15) # ws)"

definition sha1_fk :: "nat \<Rightarrow> word32 \<Rightarrow> word32 \<Rightarrow> word32 \<Rightarrow> word32" where
  "sha1_fk i b c d =
     (if i < 20 then ((b AND c) OR (NOT b AND d)) + 0x5a827999
      else if i < 40 then (b XOR c XOR d) + 0x6ed9eba1
      else if i < 60 then ((b AND c) OR (b AND d) OR (c AND d)) + 0x8f1bbcdc
      else (b XOR c XOR d) + 0xca62c1d6)"

fun sha1_rounds :: "(nat \<times> word32) list \<Rightarrow> word32 list \<Rightarrow> word32 list" where
  "sha1_rounds ((i, w) # iws) [a, b, c, d, e] =
     sha1_rounds iws [rotl 5 a + sha1_fk i b c d + e + w, a, rotl 30 b, c, d]"
| "sha1_rounds _ st = st"

fun sha1_blocks :: "nat \<Rightarrow> string \<Rightarrow> word32 list \<Rightarrow> word32 list" where
  "sha1_blocks 0 s st = st"
| "sha1_blocks (Suc n) s st =
     (let ws = rev (sha1_schedule 64 (rev (words_of (take 64 s))));
          st' = sha1_rounds (zip [0..<80] ws) st
      in sha1_blocks n (drop 64 s) (map2 (+) st st'))"

definition sha1 :: "string \<Rightarrow> string" where
  "sha1 s =
     (let p = sha_pad s
      in concat (map (\<lambda>w. be_bytes 4 (unat w)) (sha1_blocks (length p div 64) p sha1_init)))"

subsection \<open>Padded base64\<close>

text \<open>\<^verbatim>\<open>base64.StdEncoding.EncodeToString\<close>.\<close>

definition b64_std_char :: "nat \<Rightarrow> char" where
  "b64_std_char d = (if d = 62 then CHR ''+'' else if d = 63 then CHR ''/'' else b64_char d)"

definition b64_std_encode :: "string \<Rightarrow> string" where
  "b64_std_encode s =
     map b64_std_char (b64_sextets s) @ replicate ((3 - length s mod 3) mod 3) (CHR ''='')"

definition b64_std_value :: "char \<Rightarrow> nat option" where
  "b64_std_value c =
     (if c = CHR ''+'' then Some 62 else if c = CHR ''/'' then Some 63
      else if c = CHR ''-'' \<or> c = CHR ''_'' then None else index_of c b64_alphabet)"

text \<open>\<^verbatim>\<open>base64.StdEncoding.DecodeString\<close>, as \<^verbatim>\<open>encoding/json\<close> uses it: any fault is an error.\<close>

fun b64_std_groups :: "string \<Rightarrow> string option" where
  "b64_std_groups [] = Some []"
| "b64_std_groups (a # b # c # d # s) =
     (case (b64_std_value a, b64_std_value b, b64_std_value c, b64_std_value d) of
        (Some p, Some q, Some r, Some t) \<Rightarrow>
          (let n = p * 262144 + q * 4096 + r * 64 + t in
             map_option (\<lambda>rest. [byte_of (n div 65536), byte_of (n div 256 mod 256), byte_of (n mod 256)] @ rest)
               (b64_std_groups s))
      | (Some p, Some q, Some r, None) \<Rightarrow>
          if d = CHR ''='' \<and> s = []
          then (let n = p * 1024 + q * 16 + r div 4 in Some [byte_of (n div 256), byte_of (n mod 256)]) else None
      | (Some p, Some q, None, _) \<Rightarrow>
          if c = CHR ''='' \<and> d = CHR ''='' \<and> s = [] then Some [byte_of (p * 4 + q div 16)] else None
      | _ \<Rightarrow> None)"
| "b64_std_groups s = None"

definition b64_std_decode :: "string \<Rightarrow> string option" where
  "b64_std_decode s = b64_std_groups (filter (\<lambda>c. c \<noteq> CHR 0x0A \<and> c \<noteq> CHR 0x0D) s)"

lemma b64_std_value_char: "d < 64 \<Longrightarrow> b64_std_value (b64_std_char d) = Some d \<and> b64_std_char d \<noteq> CHR 0x0A \<and> b64_std_char d \<noteq> CHR 0x0D"
proof -
  have "\<forall>d < 64. b64_std_value (b64_std_char d) = Some d \<and> b64_std_char d \<noteq> CHR 0x0A \<and> b64_std_char d \<noteq> CHR 0x0D" by code_simp
  then show "d < 64 \<Longrightarrow> ?thesis" by blast
qed

lemma b64_std_value_pad: "b64_std_value (CHR ''='') = None"
  by code_simp

lemma b64_std_encode_step:
  "b64_std_encode (a # b # c # s) = map b64_std_char (take 4 (b64_sextets (a # b # c # s))) @ b64_std_encode s"
  by (simp add: b64_std_encode_def Let_def mod_Suc)

lemma b64_std_groups_encode: "b64_std_groups (b64_std_encode s) = Some s"
proof (induction s rule: b64_sextets.induct)
  case 1
  show ?case by (simp add: b64_std_encode_def)
next
  case (2 a)
  have "byte_value a div 4 < 64" "byte_value a mod 4 * 16 < 64" using byte_value_bound [of a] by linarith+
  moreover have "byte_value a div 4 * 4 + byte_value a mod 4 * 16 div 16 = byte_value a" by simp
  ultimately show ?case by (simp add: b64_std_encode_def Let_def b64_std_value_char b64_std_value_pad numeral_2_eq_2 byte_of_value)
next
  case (3 a b)
  let ?n = "byte_value a * 256 + byte_value b"
  have v: "?n div 1024 < 64" "?n div 16 mod 64 < 64" "?n mod 16 * 4 < 64"
    using byte_value_bound [of a] byte_value_bound [of b] by linarith+
  have "b64_std_encode [a, b] = [b64_std_char (?n div 1024), b64_std_char (?n div 16 mod 64), b64_std_char (?n mod 16 * 4), CHR ''='']"
    by (simp add: b64_std_encode_def Let_def)
  moreover note recombine3 [of ?n]
  moreover have "?n div 256 = byte_value a" "?n mod 256 = byte_value b" using byte_value_bound [of b] by simp_all
  ultimately show ?case
    by (simp only: b64_std_groups.simps v [THEN b64_std_value_char, THEN conjunct1] b64_std_value_pad prod.case option.case
        Let_def byte_of_value simp_thms if_True)
next
  case (4 a b c s)
  let ?n = "byte_value a * 65536 + byte_value b * 256 + byte_value c"
  have v: "?n div 262144 < 64" "?n div 4096 mod 64 < 64" "?n div 64 mod 64 < 64" "?n mod 64 < 64"
    using byte_value_bound [of a] byte_value_bound [of b] byte_value_bound [of c] by linarith+
  have "b64_std_encode (a # b # c # s) =
      b64_std_char (?n div 262144) # b64_std_char (?n div 4096 mod 64) # b64_std_char (?n div 64 mod 64) # b64_std_char (?n mod 64) #
      b64_std_encode s"
    unfolding b64_std_encode_step by (simp add: Let_def)
  moreover note recombine4 [of ?n]
  moreover have "?n div 65536 = byte_value a" "?n div 256 mod 256 = byte_value b" "?n mod 256 = byte_value c"
    using split_bytes [OF byte_value_bound byte_value_bound byte_value_bound, of a b c] by blast+
  ultimately show ?case using 4
    by (simp only: b64_std_groups.simps v [THEN b64_std_value_char, THEN conjunct1] prod.case option.case Let_def byte_of_value
        option.map append.simps)
qed

lemma b64_std_decode_encode: "b64_std_decode (b64_std_encode s) = Some s"
proof -
  have "c \<noteq> CHR 0x0A \<and> c \<noteq> CHR 0x0D" if "c \<in> set (b64_std_encode s)" for c
    using that b64_sextets_bound b64_std_value_char by (auto simp: b64_std_encode_def)
  then have "filter (\<lambda>c. c \<noteq> CHR 0x0A \<and> c \<noteq> CHR 0x0D) (b64_std_encode s) = b64_std_encode s" by (intro filter_True) blast
  then show ?thesis by (simp add: b64_std_decode_def b64_std_groups_encode)
qed

interpretation std_base64: codec b64_std_encode b64_std_decode "\<lambda>_. True"
  by unfold_locales (rule b64_std_decode_encode)

end
