(* ===== verification/Go_Time.thy ===== *)
theory Go_Time
  imports Go_Strings
begin

text \<open>
  What the emulator uses of Go's \<^verbatim>\<open>time\<close>: the layout \<^verbatim>\<open>2006-01-02T15:04:05.000Z\<close>
  applied to a UTC instant (\<^verbatim>\<open>DefaultTimestamp\<close> of \<^verbatim>\<open>internal/domain/types.go\<close>), and the layout
  \<^verbatim>\<open>RFC3339Nano\<close>, formatted and parsed: every instant of the years 0 to 9999 is read back from its text.
\<close>

subsection \<open>Calendar\<close>

text \<open>Year, month and day of a day count from 1970-01-01 (proleptic Gregorian calendar).\<close>

definition civil_of_days :: "int \<Rightarrow> int \<times> int \<times> int" where
  "civil_of_days days =
     (let z = days + 719468;
          era = z div 146097;
          doe = z - era * 146097;
          yoe = (doe - doe div 1460 + doe div 36524 - doe div 146096) div 365;
          y = yoe + era * 400;
          doy = doe - (365 * yoe + yoe div 4 - yoe div 100);
          mp = (5 * doy + 2) div 153;
          d = doy - (153 * mp + 2) div 5 + 1;
          m = (if mp < 10 then mp + 3 else mp - 9)
      in (if m \<le> 2 then y + 1 else y, m, d))"

definition pad_int :: "nat \<Rightarrow> int \<Rightarrow> string" where
  "pad_int width n = (if n < 0 then CHR ''-'' # pad_left width (Itoa (- n)) else pad_left width (Itoa n))"

text \<open>\<^verbatim>\<open>DefaultTimestamp\<close>; fractions of a millisecond are cut off.\<close>

definition DefaultTimestamp :: "time \<Rightarrow> string" where
  "DefaultTimestamp t =
     (let secs = t div 1000000000; ms = t mod 1000000000 div 1000000;
          (y, m, d) = civil_of_days (secs div 86400); tod = secs mod 86400
      in pad_int 4 y @ ''-'' @ pad_int 2 m @ ''-'' @ pad_int 2 d @ ''T'' @
         pad_int 2 (tod div 3600) @ '':'' @ pad_int 2 (tod div 60 mod 60) @ '':'' @ pad_int 2 (tod mod 60) @
         ''.'' @ pad_int 3 ms @ ''Z'')"

subsection \<open>Reading dates and times\<close>

definition days_in_month :: "int \<Rightarrow> int \<Rightarrow> int" where
  "days_in_month y m =
     (if m = 2 then (if y mod 4 = 0 \<and> (y mod 100 \<noteq> 0 \<or> y mod 400 = 0) then 29 else 28)
      else if m \<in> {4, 6, 9, 11} then 30 else 31)"

definition days_of_civil :: "int \<Rightarrow> int \<Rightarrow> int \<Rightarrow> int" where
  "days_of_civil y m d =
     (let y = (if m \<le> 2 then y - 1 else y);
          era = y div 400;
          yoe = y - era * 400;
          doy = (153 * (if m > 2 then m - 3 else m + 9) + 2) div 5 + d - 1;
          doe = yoe * 365 + yoe div 4 - yoe div 100 + doy
      in era * 146097 + doe - 719468)"

definition dec_digit :: "char \<Rightarrow> bool" where
  "dec_digit c \<longleftrightarrow> 48 \<le> byte_value c \<and> byte_value c \<le> 57"

fun take_num :: "nat \<Rightarrow> int \<Rightarrow> string \<Rightarrow> (int \<times> string) option" where
  "take_num 0 acc s = Some (acc, s)"
| "take_num (Suc n) acc s =
     (case s of
        c # r \<Rightarrow> if dec_digit c then take_num n (acc * 10 + int (byte_value c) - 48) r else None
      | [] \<Rightarrow> None)"

text \<open>A fraction of a second; digits beyond the ninth are ignored.\<close>

definition take_fraction :: "string \<Rightarrow> int \<times> string" where
  "take_fraction s =
     (case s of
        c # d # r \<Rightarrow>
          if (c = CHR ''.'' \<or> c = CHR '','') \<and> dec_digit d
          then let ds = takeWhile dec_digit (d # r);
                   ds9 = take 9 ds
               in (case take_num (length ds9) 0 ds9 of
                     Some (n, _) \<Rightarrow> n * 10 ^ (9 - length ds9)
                   | None \<Rightarrow> 0, dropWhile dec_digit (d # r))
          else (0, s)
      | _ \<Rightarrow> (0, s))"

text \<open>\<^verbatim>\<open>time.Parse(time.RFC3339Nano, value)\<close>, and with \<open>strict\<close> the \<^verbatim>\<open>UnmarshalJSON\<close> of a time, which
  insists on two digits for the hour, a period before the fraction and an offset below 24 hours.\<close>

definition take_literal :: "char \<Rightarrow> string \<Rightarrow> string option" where
  "take_literal c s = (case s of x # r \<Rightarrow> if x = c then Some r else None | [] \<Rightarrow> None)"

definition take_hour :: "bool \<Rightarrow> string \<Rightarrow> (int \<times> string) option" where
  "take_hour strict s =
     (case take_num 2 0 s of
        Some x \<Rightarrow> Some x
      | None \<Rightarrow> if strict then None else take_num 1 0 s)"

definition take_zone :: "bool \<Rightarrow> string \<Rightarrow> int option" where
  "take_zone strict s =
     (if s = ''Z'' then Some 0
      else case s of
        c # r \<Rightarrow>
          if c \<noteq> CHR ''+'' \<and> c \<noteq> CHR ''-'' then None
          else Option.bind (take_num 2 0 r) (\<lambda>(h, r).
               Option.bind (take_literal (CHR '':'') r) (\<lambda>r.
               Option.bind (take_num 2 0 r) (\<lambda>(m, r).
               if r \<noteq> [] \<or> (if strict then h \<ge> 24 \<or> m \<ge> 60 else h > 24 \<or> m > 60) then None
               else Some ((if c = CHR ''-'' then - 1 else 1) * (h * 3600 + m * 60)))))
      | [] \<Rightarrow> None)"

definition parse_rfc3339 :: "bool \<Rightarrow> string \<Rightarrow> time option" where
  "parse_rfc3339 strict s =
     Option.bind (take_num 4 0 s) (\<lambda>(y, s).
     Option.bind (take_literal (CHR ''-'') s) (\<lambda>s.
     Option.bind (take_num 2 0 s) (\<lambda>(m, s).
     if m < 1 \<or> 12 < m then None else
     Option.bind (take_literal (CHR ''-'') s) (\<lambda>s.
     Option.bind (take_num 2 0 s) (\<lambda>(d, s).
     Option.bind (take_literal (CHR ''T'') s) (\<lambda>s.
     Option.bind (take_hour strict s) (\<lambda>(h, s).
     if 24 \<le> h then None else
     Option.bind (take_literal (CHR '':'') s) (\<lambda>s.
     Option.bind (take_num 2 0 s) (\<lambda>(mi, s).
     if 60 \<le> mi then None else
     Option.bind (take_literal (CHR '':'') s) (\<lambda>s.
     Option.bind (take_num 2 0 s) (\<lambda>(sec, s).
     if 60 \<le> sec then None else
     if strict \<and> HasPrefix s '','' then None else
     case take_fraction s of (ns, s) \<Rightarrow>
     Option.bind (take_zone strict s) (\<lambda>offset.
     if d < 1 \<or> d > days_in_month y m then None
     else Some ((days_of_civil y m d * 86400 + h * 3600 + mi * 60 + sec - offset) * 1000000000 + ns)))))))))))))"

text \<open>\<^verbatim>\<open>t.UTC().Format(time.RFC3339Nano)\<close>: the fraction has no trailing zeros and is left out when it is zero.\<close>

definition fraction_text :: "int \<Rightarrow> string" where
  "fraction_text ns =
     (if ns = 0 then [] else ''.'' @ rev (dropWhile (\<lambda>c. c = CHR ''0'') (rev (pad_int 9 ns))))"

definition format_rfc3339 :: "time \<Rightarrow> string" where
  "format_rfc3339 t =
     (let secs = t div 1000000000; (y, m, d) = civil_of_days (secs div 86400); tod = secs mod 86400
      in pad_int 4 y @ ''-'' @ pad_int 2 m @ ''-'' @ pad_int 2 d @ ''T'' @
         pad_int 2 (tod div 3600) @ '':'' @ pad_int 2 (tod div 60 mod 60) @ '':'' @ pad_int 2 (tod mod 60) @
         fraction_text (t mod 1000000000) @ ''Z'')"

subsection \<open>Instants are read back\<close>

definition num_step :: "char \<Rightarrow> int \<Rightarrow> int" where
  "num_step c acc = acc * 10 + int (byte_value c) - 48"

lemma take_num_digits:
  "list_all dec_digit s \<Longrightarrow> take_num (length s) acc (s @ r) = Some (fold num_step s acc, r)"
  by (induction s arbitrary: acc) (simp_all add: num_step_def)

lemma digit_char_byte: "d < 10 \<Longrightarrow> byte_value (digit_char d) = 48 + d"
proof -
  have "\<forall>d < 10. byte_value (digit_char d) = 48 + d" by code_simp
  then show "d < 10 \<Longrightarrow> byte_value (digit_char d) = 48 + d" by blast
qed

lemma digits_of_decimal:
  "list_all dec_digit (digits_of 10 n) \<and> fold num_step (digits_of 10 n) 0 = int n"
proof (induction "10 :: nat" n rule: digits_of.induct)
  case (1 n)
  show ?case
  proof (cases "n < 10")
    case True
    then show ?thesis by (simp add: digits_of.simps [of 10 n] digit_char_byte dec_digit_def num_step_def)
  next
    case False
    have "n mod 10 < 10" by simp
    note b = digit_char_byte [OF this]
    have n: "int (n div 10) * 10 + int (n mod 10) = int n" by presburger
    from False 1 show ?thesis
      using n by (simp add: digits_of.simps [of 10 n] b dec_digit_def num_step_def)
  qed
qed

lemma digits_of_length: "n < 10 ^ w \<Longrightarrow> 0 < w \<Longrightarrow> length (digits_of 10 n) \<le> w"
proof (induction w arbitrary: n)
  case (Suc w)
  show ?case
  proof (cases "n < 10")
    case False
    then have "0 < w" using Suc.prems by (cases w) auto
    moreover have "n div 10 < 10 ^ w" using Suc.prems by (simp add: less_mult_imp_div_less mult.commute)
    ultimately show ?thesis using Suc.IH [of "n div 10"] False by (simp add: digits_of.simps [of 10 n])
  qed (simp add: digits_of.simps [of 10 n])
qed simp

lemma pad_int_digits:
  assumes "0 \<le> n" "n < 10 ^ w" "0 < w"
  shows "length (pad_int w n) = w" "list_all dec_digit (pad_int w n)" "fold num_step (pad_int w n) 0 = n"
proof -
  have "nat n < 10 ^ w" using assms by (simp add: nat_less_iff)
  then have l: "length (digits_of 10 (nat n)) \<le> w" using digits_of_length assms(3) by blast
  have z: "fold num_step (replicate k (CHR ''0'')) 0 = 0" for k
    by (induction k) (simp_all add: num_step_def byte_value_def)
  have d0: "dec_digit (CHR ''0'')" by (simp add: dec_digit_def byte_value_def)
  have p: "pad_int w n = replicate (w - length (digits_of 10 (nat n))) (CHR ''0'') @ digits_of 10 (nat n)"
    using assms(1) by (simp add: pad_int_def pad_left_def Itoa_def)
  show "length (pad_int w n) = w" using l by (simp add: p)
  show "list_all dec_digit (pad_int w n)"
    using d0 digits_of_decimal [of "nat n"] by (auto simp: p list_all_iff)
  show "fold num_step (pad_int w n) 0 = n"
    using digits_of_decimal [of "nat n"] assms(1) z by (simp add: p)
qed

lemma take_pad:
  assumes "0 \<le> n" "n < 10 ^ w" "0 < w"
  shows "take_num w 0 (pad_int w n @ r) = Some (n, r)"
  using take_num_digits [of "pad_int w n" 0 r] pad_int_digits [OF assms] by simp

text \<open>The calendar, by the years of an era of 400 years that begins in March.\<close>

definition year_start :: "int \<Rightarrow> int" where
  "year_start yoe = 365 * yoe + yoe div 4 - yoe div 100"

definition leap_end :: "int \<Rightarrow> bool" where
  "leap_end yoe \<longleftrightarrow> (yoe + 1) mod 4 = 0 \<and> ((yoe + 1) mod 100 \<noteq> 0 \<or> (yoe + 1) mod 400 = 0)"

definition year_of :: "int \<Rightarrow> int" where
  "year_of doe = (doe - doe div 1460 + doe div 36524 - doe div 146096) div 365"


lemma div_unique: "k * q \<le> x \<Longrightarrow> x < k * q + k \<Longrightarrow> x div k = (q :: int)"
  by (rule int_div_pos_eq [of _ _ _ "x - k * q"]) simp_all

text \<open>A day of the era is the \<open>r\<close>-th day of the year \<open>100 c + 4 a + b\<close>.\<close>

lemma era_day_parts:
  assumes "0 \<le> doe" "doe \<le> (146096 :: int)"
  obtains c a b r where "doe = 36524 * c + 1461 * a + 365 * b + r" "0 \<le> c" "c \<le> 3" "0 \<le> a" "a \<le> 24" "0 \<le> b" "b \<le> 3"
    "0 \<le> r" "r \<le> 365" "r = 365 \<Longrightarrow> b = 3 \<and> (a \<noteq> 24 \<or> c = 3)"
proof -
  define c where "c = min (doe div 36524) 3"
  define x where "x = doe - 36524 * c"
  define a where "a = min (x div 1461) 24"
  define y where "y = x - 1461 * a"
  define b where "b = min (y div 365) 3"
  have c: "0 \<le> c" "c \<le> 3" using assms by (auto simp: c_def)
  have x: "0 \<le> x" "x \<le> 36524" "x = 36524 \<Longrightarrow> c = 3" using assms unfolding x_def c_def by (auto simp: min_def)
  have a: "0 \<le> a" "a \<le> 24" using x by (auto simp: a_def)
  have y: "0 \<le> y" "y \<le> 1460" "y = 1460 \<Longrightarrow> a \<noteq> 24 \<or> x = 36524" using x unfolding y_def a_def by (auto simp: min_def)
  have b: "0 \<le> b" "b \<le> 3" using y by (auto simp: b_def)
  have r: "0 \<le> y - 365 * b" "y - 365 * b \<le> 365" "y - 365 * b = 365 \<Longrightarrow> b = 3 \<and> y = 1460" using y unfolding b_def by (auto simp: min_def)
  show thesis
  proof (rule that [of c a b "y - 365 * b"])
    show "doe = 36524 * c + 1461 * a + 365 * b + (y - 365 * b)" by (simp add: y_def x_def)
    show "y - 365 * b = 365 \<Longrightarrow> b = 3 \<and> (a \<noteq> 24 \<or> c = 3)" using r(3) y(3) x(3) by blast
  qed (use a b c r in simp_all)
qed

lemma year_parts:
  fixes a b c :: int
  assumes "0 \<le> c" "c \<le> 3" "0 \<le> a" "a \<le> 24" "0 \<le> b" "b \<le> 3"
  shows "year_start (100 * c + 4 * a + b) = 36524 * c + 1461 * a + 365 * b"
    "leap_end (100 * c + 4 * a + b) \<longleftrightarrow> b = 3 \<and> (a \<noteq> 24 \<or> c = 3)"
proof -
  have "(100 * c + 4 * a + b) div 4 = 25 * c + a" "(100 * c + 4 * a + b) div 100 = c"
    using assms by (intro div_unique; simp)+
  then show "year_start (100 * c + 4 * a + b) = 36524 * c + 1461 * a + 365 * b" by (simp add: year_start_def)
  show "leap_end (100 * c + 4 * a + b) \<longleftrightarrow> b = 3 \<and> (a \<noteq> 24 \<or> c = 3)"
  proof -
    have "b = 0 \<or> b = 1 \<or> b = 2 \<or> b = 3" "c = 0 \<or> c = 1 \<or> c = 2 \<or> c = 3" using assms by auto
    with assms(3,4) show ?thesis unfolding leap_end_def by (elim disjE) (simp; presburger)+
  qed
qed

lemma year_of_day:
  fixes a b c r :: int
  assumes "0 \<le> c" "c \<le> 3" "0 \<le> a" "a \<le> 24" "0 \<le> b" "b \<le> 3" "0 \<le> r" "r \<le> 365" "r = 365 \<Longrightarrow> b = 3 \<and> (a \<noteq> 24 \<or> c = 3)"
  shows "year_of (36524 * c + 1461 * a + 365 * b + r) = 100 * c + 4 * a + b"
proof -
  let ?d = "36524 * c + 1461 * a + 365 * b + r"
  define e where "e = (if 1460 \<le> 24 * c + a + 365 * b + r then 1 else 0 :: int)"
  define f where "f = (if ?d = 146096 then 1 else 0 :: int)"
  have last: "1461 * a + 365 * b + r < 36524 \<or> (?d = 146096 \<and> c = 3)" using assms by linarith
  have "?d div 1460 = 25 * c + a + e" using assms by (intro div_unique) (auto simp: e_def)
  moreover have "?d div 36524 = c + f" using assms last by (intro div_unique) (auto simp: f_def)
  moreover have "?d div 146096 = f" using assms by (intro div_unique) (auto simp: f_def)
  moreover have "0 \<le> r - e" "r - e < 365" using assms by (cases "r = 365"; auto simp: e_def)+
  ultimately show ?thesis unfolding year_of_def by (intro div_unique) simp_all
qed

text \<open>Month and day within a year that begins in March.\<close>

definition month_end :: "int \<Rightarrow> int" where
  "month_end mp = (if mp = 11 then 29 else if mp \<in> {1, 3, 6, 8} then 30 else 31)"

definition month_day_ok :: "int \<Rightarrow> bool" where
  "month_day_ok r =
     (let mp = (5 * r + 2) div 153; d = r - (153 * mp + 2) div 5 + 1
      in 0 \<le> mp \<and> mp \<le> 11 \<and> 1 \<le> d \<and> d \<le> month_end mp \<and> (mp = 11 \<longrightarrow> d = 29 \<longrightarrow> r = 365))"

lemma month_days:
  assumes "0 \<le> r" "r \<le> 365"
  shows "month_day_ok r"
proof -
  define mp where "mp = (5 * r + 2) div 153"
  have b: "153 * mp \<le> 5 * r + 2" "5 * r + 2 < 153 * mp + 153" unfolding mp_def by presburger+
  with assms have "0 \<le> mp" "mp \<le> 11" by linarith+
  then have "mp = 0 \<or> mp = 1 \<or> mp = 2 \<or> mp = 3 \<or> mp = 4 \<or> mp = 5 \<or> mp = 6 \<or> mp = 7 \<or> mp = 8 \<or> mp = 9 \<or> mp = 10 \<or> mp = 11"
    by presburger
  with b assms show ?thesis
    unfolding month_day_ok_def mp_def [symmetric] Let_def by (elim disjE) (simp_all add: month_end_def)
qed

lemma civil_days:
  assumes "civil_of_days days = (y, m, d)"
  shows "1 \<le> m" "m \<le> 12" "1 \<le> d" "d \<le> days_in_month y m" "days_of_civil y m d = days"
proof -
  define era where "era = (days + 719468) div 146097"
  define doe where "doe = days + 719468 - era * 146097"
  have "doe = (days + 719468) mod 146097" by (simp add: doe_def era_def minus_div_mult_eq_mod)
  then have "0 \<le> doe" "doe \<le> 146096" using pos_mod_bound [of 146097 "days + 719468"] by simp_all
  then obtain c a b r where p: "doe = 36524 * c + 1461 * a + 365 * b + r"
    and r: "0 \<le> c" "c \<le> 3" "0 \<le> a" "a \<le> 24" "0 \<le> b" "b \<le> 3" "0 \<le> r" "r \<le> 365" "r = 365 \<Longrightarrow> b = 3 \<and> (a \<noteq> 24 \<or> c = 3)"
    by (rule era_day_parts) blast
  define yoe where "yoe = 100 * c + 4 * a + b"
  have yoe: "year_of doe = yoe" unfolding p yoe_def by (rule year_of_day [OF r])
  have doy: "doe - (365 * yoe + yoe div 4 - yoe div 100) = r"
    using year_parts(1) [OF r(1-6)] by (simp add: p yoe_def year_start_def)
  have range: "0 \<le> yoe" "yoe < 400" using r by (simp_all add: yoe_def)
  define mp where "mp = (5 * r + 2) div 153"
  have md: "0 \<le> mp" "mp \<le> 11" "1 \<le> r - (153 * mp + 2) div 5 + 1" "r - (153 * mp + 2) div 5 + 1 \<le> month_end mp"
    "mp = 11 \<Longrightarrow> r - (153 * mp + 2) div 5 + 1 = 29 \<Longrightarrow> r = 365"
    using month_days [OF r(7,8)] by (simp_all add: month_day_ok_def mp_def Let_def)
  define m' where "m' = (if mp < 10 then mp + 3 else mp - 9)"
  have "civil_of_days days = (if m' \<le> 2 then yoe + era * 400 + 1 else yoe + era * 400, m', r - (153 * mp + 2) div 5 + 1)"
    by (simp only: civil_of_days_def Let_def era_def [symmetric] doe_def [symmetric] year_of_def [symmetric] yoe doy
        mp_def [symmetric] m'_def [symmetric])
  with assms have y: "m = (if mp < 10 then mp + 3 else mp - 9)"
    "y = (if m \<le> 2 then yoe + era * 400 + 1 else yoe + era * 400)" "d = r - (153 * mp + 2) div 5 + 1"
    by (auto simp: m'_def)
  show "1 \<le> m" "m \<le> 12" "1 \<le> d" using y md by auto
  have leap: "(yoe + era * 400 + 1) mod 4 = 0 \<and> ((yoe + era * 400 + 1) mod 100 \<noteq> 0 \<or> (yoe + era * 400 + 1) mod 400 = 0) \<longleftrightarrow> leap_end yoe"
  proof -
    have "(yoe + era * 400 + 1) mod k = (yoe + 1) mod k" if "k dvd 400" for k
      using that by (metis add.assoc add.commute dvd_mult mod_add_cong mod_eq_0_iff_dvd add_0 mod_add_left_eq)
    from this [of 4] this [of 100] this [of 400] show ?thesis by (simp add: leap_end_def)
  qed
  have "d = 29 \<Longrightarrow> mp = 11 \<Longrightarrow> leap_end yoe"
    using md(5) r(9) y(3) year_parts(2) [OF r(1-6)] by (simp add: yoe_def)
  with leap y md show "d \<le> days_in_month y m"
    by (auto simp: days_in_month_def month_end_def split: if_splits)
  have mp: "(if m > 2 then m - 3 else m + 9) = mp" using y md by auto
  have "(if m \<le> 2 then y - 1 else y) = yoe + era * 400" using y by simp
  moreover have "(yoe + era * 400) div 400 = era" using range by (intro div_unique) simp_all
  ultimately have "days_of_civil y m d = era * 146097 + (yoe * 365 + yoe div 4 - yoe div 100 + ((153 * mp + 2) div 5 + d - 1)) - 719468"
    unfolding days_of_civil_def Let_def mp by simp
  also have "\<dots> = days" using doy y(3) by (simp add: doe_def)
  finally show "days_of_civil y m d = days" .
qed

text \<open>The fraction loses nothing but trailing zeros.\<close>

lemma fold_zeros: "fold num_step (replicate k (CHR ''0'')) n = n * 10 ^ k"
  by (induction k arbitrary: n) (simp_all add: num_step_def byte_value_def)

lemma take_fraction_text:
  assumes "0 \<le> ns" "ns < 1000000000"
  shows "take_fraction (fraction_text ns @ ''Z'') = (ns, ''Z'')"
proof (cases "ns = 0")
  case False
  have p: "length (pad_int 9 ns) = 9" "list_all dec_digit (pad_int 9 ns)" "fold num_step (pad_int 9 ns) 0 = ns"
    using pad_int_digits [of ns 9] assms by simp_all
  define s where "s = rev (dropWhile (\<lambda>c. c = CHR ''0'') (rev (pad_int 9 ns)))"
  define z where "z = rev (takeWhile (\<lambda>c. c = CHR ''0'') (rev (pad_int 9 ns)))"
  have sz: "pad_int 9 ns = s @ z"
    by (metis s_def z_def rev_append rev_rev_ident takeWhile_dropWhile_id)
  have z: "z = replicate (length z) (CHR ''0'')"
    by (rule replicate_eqI [symmetric, THEN sym, of _ _ "CHR ''0''"]) (auto simp: z_def dest: set_takeWhileD)
  have l: "length s + length z = 9" using p(1) sz by simp
  have v: "fold num_step s 0 * 10 ^ length z = ns" using p(3) sz fold_zeros [of "length z"] z by (metis fold_append comp_apply)
  then have "s \<noteq> []" using False by auto
  moreover have d: "list_all dec_digit s" using p(2) sz by simp
  ultimately obtain x r where s: "s = x # r" "dec_digit x" "list_all dec_digit r" by (cases s) auto
  have dZ: "\<not> dec_digit (CHR ''Z'')" by (simp add: dec_digit_def byte_value_def)
  have w: "takeWhile dec_digit (s @ ''Z'') = s" "dropWhile dec_digit (s @ ''Z'') = ''Z''"
    using d dZ by (auto simp: list_all_iff takeWhile_append2 dropWhile_append2)
  have "take_fraction (''.'' @ s @ ''Z'') = (fold num_step s 0 * 10 ^ (9 - length s), ''Z'')"
    using w s l take_num_digits [OF d, of 0 "[]"] by (simp add: take_fraction_def Let_def)
  moreover have "9 - length s = length z" using l by simp
  ultimately show ?thesis using False v by (simp add: fraction_text_def s_def)
next
  case True
  then show ?thesis by (simp add: fraction_text_def take_fraction_def)
qed

definition year_in_range :: "time \<Rightarrow> bool" where
  "year_in_range t = (case civil_of_days (t div 1000000000 div 86400) of (y, _, _) \<Rightarrow> 0 \<le> y \<and> y \<le> 9999)"

lemma parse_rfc3339_parts:
  assumes "0 \<le> y" "y < 10 ^ 4" "1 \<le> m" "m \<le> 12" "1 \<le> d" "d \<le> days_in_month y m" "0 \<le> h" "h < 24" "0 \<le> mi" "mi < 60"
    "0 \<le> sec" "sec < 60" "0 \<le> ns" "ns < 1000000000"
  shows "parse_rfc3339 strict
      (pad_int 4 y @ ''-'' @ pad_int 2 m @ ''-'' @ pad_int 2 d @ ''T'' @ pad_int 2 h @ '':'' @ pad_int 2 mi @ '':'' @ pad_int 2 sec @
       fraction_text ns @ ''Z'') =
    Some ((days_of_civil y m d * 86400 + h * 3600 + mi * 60 + sec) * 1000000000 + ns)"
proof -
  have lit: "take_literal c ([c] @ r) = Some r" for c r by (simp add: take_literal_def)
  have two: "take_num 2 0 (pad_int 2 n @ r) = Some (n, r)" if "0 \<le> n" "n < 100" for n r using take_pad [of n 2 r] that by simp
  have "d \<le> 31" using assms(6) by (simp add: days_in_month_def split: if_splits)
  then have n: "take_num 2 0 (pad_int 2 m @ r) = Some (m, r)" "take_num 2 0 (pad_int 2 d @ r) = Some (d, r)"
    "take_num 2 0 (pad_int 2 h @ r) = Some (h, r)" "take_num 2 0 (pad_int 2 mi @ r) = Some (mi, r)"
    "take_num 2 0 (pad_int 2 sec @ r) = Some (sec, r)" for r
    using assms by (auto intro!: two)
  have y: "take_num 4 0 (pad_int 4 y @ r) = Some (y, r)" for r using assms(1,2) by (intro take_pad) simp_all
  have hour: "take_hour strict (pad_int 2 h @ r) = Some (h, r)" for r by (simp add: take_hour_def n)
  have comma: "HasPrefix (fraction_text ns @ ''Z'') '','' = False" by (simp add: fraction_text_def HasPrefix_def)
  have zone: "take_zone strict ''Z'' = Some 0" by (simp add: take_zone_def)
  have guards: "(m < 1 \<or> 12 < m) = False" "(24 \<le> h) = False" "(60 \<le> mi) = False" "(60 \<le> sec) = False"
    "(d < 1 \<or> days_in_month y m < d) = False"
    using assms by auto
  show ?thesis
    unfolding parse_rfc3339_def
    by (simp only: y n hour lit zone comma guards take_fraction_text [OF assms(13,14)] Option.bind.bind_lunit prod.case if_False
        HOL.simp_thms diff_zero)
qed

lemma parse_format_rfc3339:
  assumes "year_in_range t"
  shows "parse_rfc3339 strict (format_rfc3339 t) = Some t"
proof -
  define secs where "secs = t div 1000000000"
  define tod where "tod = secs mod 86400"
  obtain y m d where c: "civil_of_days (secs div 86400) = (y, m, d)" by (metis prod_cases3)
  note civ = civil_days [OF c]
  have y: "0 \<le> y" "y < 10 ^ 4" using assms c by (simp_all add: year_in_range_def secs_def)
  have "0 \<le> tod" "tod < 86400" by (simp_all add: tod_def)
  then have h: "0 \<le> tod div 3600" "tod div 3600 < 24" "0 \<le> tod div 60 mod 60" "tod div 60 mod 60 < 60"
    "0 \<le> tod mod 60" "tod mod 60 < 60" by auto
  have "tod div 3600 * 3600 + tod div 60 mod 60 * 60 + tod mod 60 = tod"
  proof -
    have "tod div 3600 = tod div 60 div 60" by (simp add: zdiv_zmult2_eq [of 60 tod 60, symmetric])
    then show ?thesis using div_mult_mod_eq [of "tod div 60" 60] div_mult_mod_eq [of tod 60] by linarith
  qed
  moreover have "secs div 86400 * 86400 + tod = secs" unfolding tod_def by (rule div_mult_mod_eq)
  ultimately have e: "secs div 86400 * 86400 + tod div 3600 * 3600 + tod div 60 mod 60 * 60 + tod mod 60 = secs" by linarith
  have t: "secs * 1000000000 + t mod 1000000000 = t" unfolding secs_def by (rule div_mult_mod_eq)
  show ?thesis
    unfolding format_rfc3339_def Let_def secs_def [symmetric] c prod.case tod_def [symmetric]
    by (subst parse_rfc3339_parts [OF y civ(1-4) h]) (simp_all only: civ(5) e t pos_mod_sign pos_mod_bound zero_less_numeral)
qed

end
