(* ===== verification/Signing.thy ===== *)
theory Signing
  imports Domain Go_Time Go_Crypto
begin

text \<open>
  Message signing (\<^verbatim>\<open>internal/signing/signer.go\<close>): the canonical text of a delivery
  attempt and the choice of the digest.  RSA itself stays a parameter: a provider is given by
  what \<^verbatim>\<open>rsa.SignPKCS1v15\<close> makes of a digest under its key, and by the certificate URL
  that \<^verbatim>\<open>SigningCertURL\<close> derives from the base URL with \<^verbatim>\<open>net/url\<close>.
\<close>

datatype hash = SHA1 | SHA256

record Provider =
  Prov_SignPKCS1v15 :: "hash \<Rightarrow> string \<Rightarrow> string res"
  Prov_SigningCertURL :: "string \<Rightarrow> string"

definition signed_fields :: "DeliveryAttempt \<Rightarrow> string list" where
  "signed_fields attempt =
     (if Att_Type attempt = ''Notification''
      then [''Message'', Att_ProtocolMessage attempt] @ [''MessageId'', Att_MessageID attempt] @
           (if Att_Subject attempt \<noteq> [] then [''Subject'', Att_Subject attempt] else []) @
           [''Timestamp'', DefaultTimestamp (Att_Timestamp attempt)] @
           [''TopicArn'', Topic_ARN (Att_Topic attempt)] @ [''Type'', Att_Type attempt]
      else [''Message'', Att_ProtocolMessage attempt] @ [''MessageId'', Att_MessageID attempt] @
           [''SubscribeURL'', Att_SubscribeURL attempt] @
           [''Timestamp'', DefaultTimestamp (Att_Timestamp attempt)] @ [''Token'', Att_Token attempt] @
           [''TopicArn'', Topic_ARN (Att_Topic attempt)] @ [''Type'', Att_Type attempt])"

definition stringToSign :: "DeliveryAttempt \<Rightarrow> string" where
  "stringToSign attempt = Join (signed_fields attempt) [CHR 0x0A]"

definition Sign :: "Provider \<Rightarrow> DeliveryAttempt \<Rightarrow> string res" where
  "Sign p attempt =
     (let message = stringToSign attempt in
      if Att_SignatureVersion attempt = [] \<or> Att_SignatureVersion attempt = ''1'' then
        (case Prov_SignPKCS1v15 p SHA1 (sha1 message) of
           Inl e \<Rightarrow> Inl e
         | Inr sig \<Rightarrow> Inr (b64_std_encode sig))
      else if Att_SignatureVersion attempt = ''2'' then
        (case Prov_SignPKCS1v15 p SHA256 (sha256 message) of
           Inl e \<Rightarrow> Inl e
         | Inr sig \<Rightarrow> Inr (b64_std_encode sig))
      else Inr [])"

subsection \<open>The canonical text determines what was signed\<close>

definition one_line :: "string \<Rightarrow> bool" where
  "one_line s \<longleftrightarrow> CHR 0x0A \<notin> set s"

lemma one_line_append [simp]: "one_line (a @ b) \<longleftrightarrow> one_line a \<and> one_line b"
  by (auto simp: one_line_def)

lemma one_line_Nil [simp]: "one_line []"
  by (simp add: one_line_def)

lemma one_line_Cons [simp]: "one_line (c # s) \<longleftrightarrow> c \<noteq> CHR 0x0A \<and> one_line s"
  by (auto simp: one_line_def)

lemma one_line_digits: "one_line (digits_of 10 n)"
proof -
  have "set (digits_of 10 n) \<subseteq> set digit_alphabet" by (rule set_digits_of) simp_all
  moreover have "CHR 0x0A \<notin> set digit_alphabet" by (simp add: digit_alphabet_def)
  ultimately show ?thesis by (auto simp: one_line_def)
qed

lemma one_line_pad_int: "one_line (pad_int w n)"
proof -
  have "one_line (pad_left w s)" if "one_line s" for s
    using that by (simp add: pad_left_def) (simp add: one_line_def)
  moreover have "one_line (Itoa i)" for i by (simp add: Itoa_def one_line_digits)
  ultimately show ?thesis by (simp add: pad_int_def)
qed

lemma one_line_timestamp: "one_line (DefaultTimestamp t)"
  by (simp add: DefaultTimestamp_def Let_def one_line_pad_int split: prod.split)

definition one_line_attempt :: "DeliveryAttempt \<Rightarrow> bool" where
  "one_line_attempt a \<longleftrightarrow>
     one_line (Att_ProtocolMessage a) \<and> one_line (Att_MessageID a) \<and> one_line (Att_Subject a) \<and>
     one_line (Att_SubscribeURL a) \<and> one_line (Att_Token a) \<and> one_line (Topic_ARN (Att_Topic a)) \<and>
     one_line (Att_Type a)"

lemma one_line_fields: "one_line_attempt a \<Longrightarrow> f \<in> set (signed_fields a) \<Longrightarrow> one_line f"
  by (auto simp: one_line_attempt_def signed_fields_def one_line_timestamp split: if_splits)

lemma signed_fields_inj:
  assumes "signed_fields a = signed_fields b"
  shows "Att_Type a = Att_Type b \<and> Att_ProtocolMessage a = Att_ProtocolMessage b \<and>
    Att_MessageID a = Att_MessageID b \<and> Topic_ARN (Att_Topic a) = Topic_ARN (Att_Topic b) \<and>
    DefaultTimestamp (Att_Timestamp a) = DefaultTimestamp (Att_Timestamp b) \<and>
    (if Att_Type a = ''Notification'' then Att_Subject a = Att_Subject b
     else Att_SubscribeURL a = Att_SubscribeURL b \<and> Att_Token a = Att_Token b)"
proof -
  have "last (signed_fields x) = Att_Type x" for x by (simp add: signed_fields_def)
  then have t: "Att_Type a = Att_Type b" using assms by metis
  show ?thesis
    using assms t by (cases "Att_Type a = ''Notification''") (auto simp: signed_fields_def split: if_splits)
qed

text \<open>C21: the text that is signed leaves no room for confusion: two attempts whose fields hold no
  newline and whose texts agree have the same type, message, message id, topic and millisecond
  timestamp, and the same subject (a notification) or the same token and subscribe URL (a
  confirmation).\<close>

theorem string_to_sign_injective:
  assumes "one_line_attempt a" "one_line_attempt b" "stringToSign a = stringToSign b"
  shows "Att_Type a = Att_Type b \<and> Att_ProtocolMessage a = Att_ProtocolMessage b \<and>
    Att_MessageID a = Att_MessageID b \<and> Topic_ARN (Att_Topic a) = Topic_ARN (Att_Topic b) \<and>
    DefaultTimestamp (Att_Timestamp a) = DefaultTimestamp (Att_Timestamp b) \<and>
    (if Att_Type a = ''Notification'' then Att_Subject a = Att_Subject b
     else Att_SubscribeURL a = Att_SubscribeURL b \<and> Att_Token a = Att_Token b)"
proof -
  have "Split (CHR 0x0A) (stringToSign x) = signed_fields x" if "one_line_attempt x" for x
    unfolding stringToSign_def
    by (rule Split_Join) (use one_line_fields [OF that] in \<open>auto simp: one_line_def signed_fields_def\<close>)
  then have "signed_fields a = signed_fields b" using assms by metis
  then show ?thesis by (rule signed_fields_inj)
qed

definition sample_attempt :: "Subscription \<Rightarrow> Topic \<Rightarrow> string \<Rightarrow> DeliveryAttempt" where
  "sample_attempt sub topic msg =
     \<lparr>Att_Subscription = sub, Att_Topic = topic, Att_MessageID = ''m1'', Att_Subject = [],
      Att_Message = msg, Att_ProtocolMessage = msg, Att_Timestamp = 0, Att_Type = ''Notification'',
      Att_Token = [], Att_SubscribeURL = [], Att_UnsubscribeURL = [], Att_SignatureVersion = ''1'',
      Att_Signature = [], Att_SigningCertURL = [], Att_MessageAttributes = [], Att_GroupID = [],
      Att_DeduplicationID = [], Att_SequenceNumber = [], Att_Headers = fmempty\<rparr>"

theorem string_to_sign_injective_witness:
  "stringToSign (sample_attempt sample_sub sample_topic ''x'') \<noteq> stringToSign (sample_attempt sample_sub sample_topic ''y'')"
proof -
  have "one_line_attempt (sample_attempt sample_sub sample_topic ''x'')"
    "one_line_attempt (sample_attempt sample_sub sample_topic ''y'')"
    by (simp_all add: one_line_attempt_def sample_attempt_def sample_topic_def)
  then show ?thesis
    using string_to_sign_injective [of "sample_attempt sample_sub sample_topic ''x''" "sample_attempt sample_sub sample_topic ''y''"]
    by (auto simp: sample_attempt_def)
qed

end
