(* ===== verification/Delivery.thy ===== *)
theory Delivery
  imports Go_JSON
begin

text \<open>
  Package \<^verbatim>\<open>internal/delivery\<close> (\<^verbatim>\<open>policy.go\<close>): delivery policies of topics and
  subscriptions, how they are merged into the effective policy of a subscription, its JSON
  form, and the retry delays the worker derives from it.  Delays are computed in floating
  point (\<^verbatim>\<open>Go_Float\<close>) and scaled to a 64 bit \<^verbatim>\<open>time.Duration\<close>.
\<close>

subsection \<open>Policies\<close>

record RetryPolicy =
  RP_MinDelayTarget :: int
  RP_MaxDelayTarget :: int
  RP_NumRetries :: int
  RP_NumNoDelayRetries :: int
  RP_NumMinDelayRetries :: int
  RP_NumMaxDelayRetries :: int
  RP_BackoffFunction :: string

record ThrottlePolicy =
  TP_MaxReceivesPerSecond :: int

record RequestPolicy =
  RQ_HeaderContentType :: string

record SubscriptionPolicy =
  SP_HealthyRetryPolicy :: RetryPolicy
  SP_ThrottlePolicy :: ThrottlePolicy
  SP_RequestPolicy :: RequestPolicy

text \<open>\<^verbatim>\<open>TopicPolicyEnvelope\<close>: the fields of its only member, \<^verbatim>\<open>HTTP\<close>.\<close>

record TopicPolicyEnvelope =
  TE_DefaultHealthyRetryPolicy :: RetryPolicy
  TE_DisableSubscriptionOverrides :: bool
  TE_DefaultThrottlePolicy :: ThrottlePolicy
  TE_DefaultRequestPolicy :: RequestPolicy

definition zeroRetryPolicy :: RetryPolicy where
  "zeroRetryPolicy =
     \<lparr>RP_MinDelayTarget = 0, RP_MaxDelayTarget = 0, RP_NumRetries = 0, RP_NumNoDelayRetries = 0,
      RP_NumMinDelayRetries = 0, RP_NumMaxDelayRetries = 0, RP_BackoffFunction = []\<rparr>"

definition zeroSubscriptionPolicy :: SubscriptionPolicy where
  "zeroSubscriptionPolicy =
     \<lparr>SP_HealthyRetryPolicy = zeroRetryPolicy, SP_ThrottlePolicy = \<lparr>TP_MaxReceivesPerSecond = 0\<rparr>,
      SP_RequestPolicy = \<lparr>RQ_HeaderContentType = []\<rparr>\<rparr>"

definition zeroEnvelope :: TopicPolicyEnvelope where
  "zeroEnvelope =
     \<lparr>TE_DefaultHealthyRetryPolicy = zeroRetryPolicy, TE_DisableSubscriptionOverrides = False,
      TE_DefaultThrottlePolicy = \<lparr>TP_MaxReceivesPerSecond = 0\<rparr>,
      TE_DefaultRequestPolicy = \<lparr>RQ_HeaderContentType = []\<rparr>\<rparr>"

definition DefaultPolicy :: SubscriptionPolicy where
  "DefaultPolicy =
     \<lparr>SP_HealthyRetryPolicy =
        \<lparr>RP_MinDelayTarget = 20, RP_MaxDelayTarget = 20, RP_NumRetries = 3, RP_NumNoDelayRetries = 0,
         RP_NumMinDelayRetries = 0, RP_NumMaxDelayRetries = 0, RP_BackoffFunction = ''linear''\<rparr>,
      SP_ThrottlePolicy = \<lparr>TP_MaxReceivesPerSecond = 0\<rparr>,
      SP_RequestPolicy = \<lparr>RQ_HeaderContentType = ''text/plain; charset=UTF-8''\<rparr>\<rparr>"

subsection \<open>JSON form\<close>

definition retry_fields :: "string list" where
  "retry_fields =
     [''minDelayTarget'', ''maxDelayTarget'', ''numRetries'', ''numNoDelayRetries'',
      ''numMinDelayRetries'', ''numMaxDelayRetries'', ''backoffFunction'']"

definition decode_retry_field :: "string \<Rightarrow> json \<Rightarrow> RetryPolicy \<Rightarrow> RetryPolicy option" where
  "decode_retry_field f j p =
     (if f = ''minDelayTarget'' then map_option (\<lambda>v. p\<lparr>RP_MinDelayTarget := v\<rparr>) (decode_int j (RP_MinDelayTarget p))
      else if f = ''maxDelayTarget'' then map_option (\<lambda>v. p\<lparr>RP_MaxDelayTarget := v\<rparr>) (decode_int j (RP_MaxDelayTarget p))
      else if f = ''numRetries'' then map_option (\<lambda>v. p\<lparr>RP_NumRetries := v\<rparr>) (decode_int j (RP_NumRetries p))
      else if f = ''numNoDelayRetries''
      then map_option (\<lambda>v. p\<lparr>RP_NumNoDelayRetries := v\<rparr>) (decode_int j (RP_NumNoDelayRetries p))
      else if f = ''numMinDelayRetries''
      then map_option (\<lambda>v. p\<lparr>RP_NumMinDelayRetries := v\<rparr>) (decode_int j (RP_NumMinDelayRetries p))
      else if f = ''numMaxDelayRetries''
      then map_option (\<lambda>v. p\<lparr>RP_NumMaxDelayRetries := v\<rparr>) (decode_int j (RP_NumMaxDelayRetries p))
      else map_option (\<lambda>v. p\<lparr>RP_BackoffFunction := v\<rparr>) (decode_string j (RP_BackoffFunction p)))"

definition decode_retry :: "json \<Rightarrow> RetryPolicy \<Rightarrow> RetryPolicy option" where
  "decode_retry = decode_struct retry_fields decode_retry_field"

definition decode_throttle :: "json \<Rightarrow> ThrottlePolicy \<Rightarrow> ThrottlePolicy option" where
  "decode_throttle =
     decode_struct [''maxReceivesPerSecond'']
       (\<lambda>f j p. map_option (\<lambda>v. p\<lparr>TP_MaxReceivesPerSecond := v\<rparr>) (decode_int j (TP_MaxReceivesPerSecond p)))"

definition decode_request :: "json \<Rightarrow> RequestPolicy \<Rightarrow> RequestPolicy option" where
  "decode_request =
     decode_struct [''headerContentType'']
       (\<lambda>f j p. map_option (\<lambda>v. p\<lparr>RQ_HeaderContentType := v\<rparr>) (decode_string j (RQ_HeaderContentType p)))"

definition decode_subscription_policy :: "json \<Rightarrow> SubscriptionPolicy \<Rightarrow> SubscriptionPolicy option" where
  "decode_subscription_policy =
     decode_struct [''healthyRetryPolicy'', ''throttlePolicy'', ''requestPolicy'']
       (\<lambda>f j p.
          if f = ''healthyRetryPolicy''
          then map_option (\<lambda>v. p\<lparr>SP_HealthyRetryPolicy := v\<rparr>) (decode_retry j (SP_HealthyRetryPolicy p))
          else if f = ''throttlePolicy''
          then map_option (\<lambda>v. p\<lparr>SP_ThrottlePolicy := v\<rparr>) (decode_throttle j (SP_ThrottlePolicy p))
          else map_option (\<lambda>v. p\<lparr>SP_RequestPolicy := v\<rparr>) (decode_request j (SP_RequestPolicy p)))"

definition decode_envelope :: "json \<Rightarrow> TopicPolicyEnvelope \<Rightarrow> TopicPolicyEnvelope option" where
  "decode_envelope =
     decode_struct [''http'']
       (\<lambda>_. decode_struct
          [''defaultHealthyRetryPolicy'', ''disableSubscriptionOverrides'', ''defaultThrottlePolicy'',
           ''defaultRequestPolicy'']
          (\<lambda>f j p.
             if f = ''defaultHealthyRetryPolicy''
             then map_option (\<lambda>v. p\<lparr>TE_DefaultHealthyRetryPolicy := v\<rparr>) (decode_retry j (TE_DefaultHealthyRetryPolicy p))
             else if f = ''disableSubscriptionOverrides''
             then map_option (\<lambda>v. p\<lparr>TE_DisableSubscriptionOverrides := v\<rparr>) (decode_bool j (TE_DisableSubscriptionOverrides p))
             else if f = ''defaultThrottlePolicy''
             then map_option (\<lambda>v. p\<lparr>TE_DefaultThrottlePolicy := v\<rparr>) (decode_throttle j (TE_DefaultThrottlePolicy p))
             else map_option (\<lambda>v. p\<lparr>TE_DefaultRequestPolicy := v\<rparr>) (decode_request j (TE_DefaultRequestPolicy p))))"

definition json_retry :: "RetryPolicy \<Rightarrow> json" where
  "json_retry p =
     json_object
       [(''minDelayTarget'', json_int (RP_MinDelayTarget p)), (''maxDelayTarget'', json_int (RP_MaxDelayTarget p)),
        (''numRetries'', json_int (RP_NumRetries p)), (''numNoDelayRetries'', json_int (RP_NumNoDelayRetries p)),
        (''numMinDelayRetries'', json_int (RP_NumMinDelayRetries p)),
        (''numMaxDelayRetries'', json_int (RP_NumMaxDelayRetries p)),
        (''backoffFunction'', json_string (RP_BackoffFunction p))]"

definition json_subscription_policy :: "SubscriptionPolicy \<Rightarrow> json" where
  "json_subscription_policy p =
     json_object
       [(''healthyRetryPolicy'', json_retry (SP_HealthyRetryPolicy p)),
        (''throttlePolicy'',
           json_object [(''maxReceivesPerSecond'', json_int (TP_MaxReceivesPerSecond (SP_ThrottlePolicy p)))]),
        (''requestPolicy'',
           json_object [(''headerContentType'', json_string (RQ_HeaderContentType (SP_RequestPolicy p)))])]"

subsection \<open>Merging\<close>

definition mergeRetryPolicy :: "RetryPolicy \<Rightarrow> RetryPolicy \<Rightarrow> RetryPolicy" where
  "mergeRetryPolicy base override =
     (let out = base;
          out = (if RP_MinDelayTarget override \<noteq> 0 then out\<lparr>RP_MinDelayTarget := RP_MinDelayTarget override\<rparr> else out);
          out = (if RP_MaxDelayTarget override \<noteq> 0 then out\<lparr>RP_MaxDelayTarget := RP_MaxDelayTarget override\<rparr> else out);
          out = (if RP_NumRetries override \<noteq> 0 \<or> RP_NumNoDelayRetries override \<noteq> 0 \<or>
                    RP_NumMinDelayRetries override \<noteq> 0 \<or> RP_NumMaxDelayRetries override \<noteq> 0
                 then out\<lparr>RP_NumRetries := RP_NumRetries override,
                          RP_NumNoDelayRetries := RP_NumNoDelayRetries override,
                          RP_NumMinDelayRetries := RP_NumMinDelayRetries override,
                          RP_NumMaxDelayRetries := RP_NumMaxDelayRetries override\<rparr>
                 else out);
          out = (if RP_BackoffFunction override \<noteq> [] then out\<lparr>RP_BackoffFunction := RP_BackoffFunction override\<rparr> else out);
          out = (if RP_MinDelayTarget out = 0 then out\<lparr>RP_MinDelayTarget := 20\<rparr> else out);
          out = (if RP_MaxDelayTarget out = 0 then out\<lparr>RP_MaxDelayTarget := RP_MinDelayTarget out\<rparr> else out);
          out = (if RP_BackoffFunction out = [] then out\<lparr>RP_BackoffFunction := ''linear''\<rparr> else out)
      in out)"

definition mergeThrottlePolicy :: "ThrottlePolicy \<Rightarrow> ThrottlePolicy \<Rightarrow> ThrottlePolicy" where
  "mergeThrottlePolicy base override =
     (if TP_MaxReceivesPerSecond override \<noteq> 0
      then base\<lparr>TP_MaxReceivesPerSecond := TP_MaxReceivesPerSecond override\<rparr> else base)"

definition mergeRequestPolicy :: "RequestPolicy \<Rightarrow> RequestPolicy \<Rightarrow> RequestPolicy" where
  "mergeRequestPolicy base override =
     (if RQ_HeaderContentType override \<noteq> []
      then base\<lparr>RQ_HeaderContentType := RQ_HeaderContentType override\<rparr> else base)"

definition mergeDefaults :: "SubscriptionPolicy \<Rightarrow> SubscriptionPolicy" where
  "mergeDefaults out =
     \<lparr>SP_HealthyRetryPolicy = mergeRetryPolicy (SP_HealthyRetryPolicy DefaultPolicy) (SP_HealthyRetryPolicy out),
      SP_ThrottlePolicy = mergeThrottlePolicy (SP_ThrottlePolicy DefaultPolicy) (SP_ThrottlePolicy out),
      SP_RequestPolicy = mergeRequestPolicy (SP_RequestPolicy DefaultPolicy) (SP_RequestPolicy out)\<rparr>"

definition ParseTopicPolicy :: "string \<Rightarrow> TopicPolicyEnvelope res" where
  "ParseTopicPolicy raw =
     (if raw = []
      then Inr (zeroEnvelope\<lparr>TE_DefaultHealthyRetryPolicy := SP_HealthyRetryPolicy DefaultPolicy,
                             TE_DefaultRequestPolicy := SP_RequestPolicy DefaultPolicy\<rparr>)
      else unmarshal decode_envelope raw zeroEnvelope)"

definition ParseSubscriptionPolicy :: "string \<Rightarrow> SubscriptionPolicy res" where
  "ParseSubscriptionPolicy raw =
     (if raw = [] then Inr DefaultPolicy
      else case unmarshal decode_subscription_policy raw zeroSubscriptionPolicy of
             Inl e \<Rightarrow> Inl e
           | Inr out \<Rightarrow> Inr (mergeDefaults out))"

definition merge_policies :: "SubscriptionPolicy \<Rightarrow> RetryPolicy \<Rightarrow> ThrottlePolicy \<Rightarrow> RequestPolicy \<Rightarrow> SubscriptionPolicy" where
  "merge_policies base r t q =
     \<lparr>SP_HealthyRetryPolicy = mergeRetryPolicy (SP_HealthyRetryPolicy base) r,
      SP_ThrottlePolicy = mergeThrottlePolicy (SP_ThrottlePolicy base) t,
      SP_RequestPolicy = mergeRequestPolicy (SP_RequestPolicy base) q\<rparr>"

definition EffectivePolicy :: "string \<Rightarrow> string \<Rightarrow> (SubscriptionPolicy \<times> string) res" where
  "EffectivePolicy topicRaw subRaw =
     (case ParseTopicPolicy topicRaw of
        Inl e \<Rightarrow> Inl e
      | Inr env \<Rightarrow>
          let base = merge_policies DefaultPolicy (TE_DefaultHealthyRetryPolicy env)
                       (TE_DefaultThrottlePolicy env) (TE_DefaultRequestPolicy env) in
          if \<not> TE_DisableSubscriptionOverrides env \<and> subRaw \<noteq> [] then
            (case ParseSubscriptionPolicy subRaw of
               Inl e \<Rightarrow> Inl e
             | Inr sub \<Rightarrow>
                 let base = merge_policies base (SP_HealthyRetryPolicy sub) (SP_ThrottlePolicy sub) (SP_RequestPolicy sub)
                 in Inr (base, print_json (json_subscription_policy base)))
          else Inr (base, print_json (json_subscription_policy base)))"

definition ValidateSubscriptionPolicy :: "string \<Rightarrow> unit res" where
  "ValidateSubscriptionPolicy raw = (case ParseSubscriptionPolicy raw of Inl e \<Rightarrow> Inl e | Inr _ \<Rightarrow> Inr ())"

definition ValidateTopicPolicy :: "string \<Rightarrow> unit res" where
  "ValidateTopicPolicy raw = (case ParseTopicPolicy raw of Inl e \<Rightarrow> Inl e | Inr _ \<Rightarrow> Inr ())"

subsection \<open>Retry delays\<close>

text \<open>The loop of the exponential case: double until the cap.\<close>

fun exponential_delay :: "nat \<Rightarrow> rat \<Rightarrow> int \<Rightarrow> int" where
  "exponential_delay 0 value cap = int_of_float value"
| "exponential_delay (Suc n) value cap =
     (let value = fmul value 2
      in if int_of_float value \<ge> cap then cap else exponential_delay n value cap)"

definition backoffDelay :: "RetryPolicy \<Rightarrow> int \<Rightarrow> int \<Rightarrow> int" where
  "backoffDelay policy attempt retries =
     (if retries \<le> 1 then RP_MinDelayTarget policy
      else if RP_BackoffFunction policy = ''arithmetic'' \<or> RP_BackoffFunction policy = ''linear'' then
        (let step = fdiv (float_of_int (wrap64 (RP_MaxDelayTarget policy - RP_MinDelayTarget policy)))
                      (float_of_int (retries - 1))
         in int_of_float (fadd (float_of_int (RP_MinDelayTarget policy)) (fmul step (float_of_int attempt))))
      else if RP_BackoffFunction policy = ''geometric'' then
        (if attempt = 0 then RP_MinDelayTarget policy
         else
           let value = fmul (float_of_int (RP_MinDelayTarget policy)) (float_of_int (attempt + 1))
           in if int_of_float value > RP_MaxDelayTarget policy then RP_MaxDelayTarget policy else int_of_float value)
      else if RP_BackoffFunction policy = ''exponential'' then
        exponential_delay (nat attempt) (float_of_int (RP_MinDelayTarget policy)) (RP_MaxDelayTarget policy)
      else RP_MinDelayTarget policy)"

definition Second :: duration where "Second = 1000000000"

definition in_seconds :: "int \<Rightarrow> duration" where
  "in_seconds n = wrap64 (n * Second)"

text \<open>A count that is not positive yields no entries.\<close>

definition RetryDelays :: "SubscriptionPolicy \<Rightarrow> duration list res" where
  "RetryDelays policy =
     (let rp = SP_HealthyRetryPolicy policy in
      if RP_NumRetries rp < 0 \<or> RP_NumRetries rp > 100
      then Inl (Plain ''numRetries must be between 0 and 100'')
      else if RP_MinDelayTarget rp \<le> 0 \<or> RP_MaxDelayTarget rp \<le> 0 \<or> RP_MinDelayTarget rp > RP_MaxDelayTarget rp
      then Inl (Plain ''invalid delay configuration'')
      else
        let backoffRetries =
              max (wrap64 (wrap64 (wrap64 (RP_NumRetries rp - RP_NumNoDelayRetries rp) - RP_NumMinDelayRetries rp)
                     - RP_NumMaxDelayRetries rp)) 0
        in Inr (replicate (nat (RP_NumNoDelayRetries rp)) 0 @
                replicate (nat (RP_NumMinDelayRetries rp)) (in_seconds (RP_MinDelayTarget rp)) @
                map (\<lambda>i. in_seconds (backoffDelay rp (int i) backoffRetries)) [0..<nat backoffRetries] @
                replicate (nat (RP_NumMaxDelayRetries rp)) (in_seconds (RP_MaxDelayTarget rp))))"

subsection \<open>Bounds of the delays\<close>

lemma float_small: "0 \<le> n \<Longrightarrow> n < 2 ^ 52 \<Longrightarrow> float_of_int n = of_int n"
  by (simp add: float_of_int_def round64_of_int)

lemma int_of_float_between:
  assumes "of_int a \<le> x" "x \<le> of_int b + 1 / 2" "0 \<le> a" "b < 2 ^ 52"
  shows "a \<le> int_of_float x \<and> int_of_float x \<le> b"
proof -
  have "0 \<le> x" using assms(1,3) by (meson of_int_0_le_iff order_trans)
  moreover have "x < 2 ^ 63"
  proof -
    have "of_int b < (2 ^ 52 :: rat)" using assms(4) by (metis of_int_less_iff of_int_numeral of_int_power)
    then show ?thesis using assms(2) by simp
  qed
  ultimately have "int_of_float x = \<lfloor>x\<rfloor>" by (rule int_of_float_floor)
  then show ?thesis using assms(1,2) by (simp add: le_floor_iff floor_le_iff)
qed

lemma linear_delay_bounds:
  fixes lo hi n i :: int
  assumes "0 < lo" "lo \<le> hi" "hi < 2 ^ 50" "0 \<le> i" "i < n" "1 < n" "n \<le> 100"
  shows "lo \<le> int_of_float (fadd (float_of_int lo) (fmul (fdiv (float_of_int (hi - lo)) (float_of_int (n - 1))) (float_of_int i))) \<and>
    int_of_float (fadd (float_of_int lo) (fmul (fdiv (float_of_int (hi - lo)) (float_of_int (n - 1))) (float_of_int i))) \<le> hi"
proof -
  define m where "m = hi - lo"
  have m: "0 \<le> m" "m < 2 ^ 50" using assms by (simp_all add: m_def)
  define N :: rat where "N = of_int (n - 1)"
  define I :: rat where "I = of_int i"
  have NI: "0 < N" "0 \<le> I" "I \<le> N" "N \<le> 99" using assms by (simp_all add: N_def I_def)
  define step where "step = round64 (of_int m / N)"
  define prod where "prod = round64 (step * I)"
  have eq: "fadd (float_of_int lo) (fmul (fdiv (float_of_int (hi - lo)) (float_of_int (n - 1))) (float_of_int i)) =
      round64 (of_int lo + prod)"
    using assms m by (simp add: fadd_def fmul_def fdiv_def float_small step_def prod_def N_def I_def m_def)
  have M: "of_int m < (2 ^ 50 :: rat)" using m(2) by (metis of_int_less_iff of_int_numeral of_int_power)
  have step: "0 \<le> step" "step * N \<le> of_int m + 1 / 8"
  proof -
    show "0 \<le> step" unfolding step_def using m NI by (intro round64_nonneg) simp
    show "step * N \<le> of_int m + 1 / 8"
    proof (cases "m = 0")
      case True
      then show ?thesis using NI by (simp add: step_def)
    next
      case False
      with m have m1: "(1 :: rat) \<le> of_int m" by simp
      have "1 / 2 ^ 20 \<le> of_int m / N" using m1 NI by (simp add: field_simps)
      then have "step \<le> of_int m / N + of_int m / N / 2 ^ 53" unfolding step_def by (rule round64_relative)
      then have "step * N \<le> (of_int m / N + of_int m / N / 2 ^ 53) * N" using NI by (intro mult_right_mono) simp_all
      also have "\<dots> = of_int m + of_int m / 2 ^ 53" using NI by (simp add: field_simps)
      finally show ?thesis using M by simp
    qed
  qed
  have sI: "0 \<le> step * I" "step * I \<le> of_int m + 1 / 8"
    using step NI mult_left_mono [of I N step] by auto
  have prod: "0 \<le> prod" "prod \<le> of_int m + 1 / 2"
  proof -
    show "0 \<le> prod" unfolding prod_def using sI(1) by (rule round64_nonneg)
    have "prod \<le> of_int (2 * m + 1) / 2"
      unfolding prod_def using sI M by (intro round64_le_half) (simp_all add: pow2_def)
    then show "prod \<le> of_int m + 1 / 2" by simp
  qed
  have hi: "of_int hi < (2 ^ 50 :: rat)" using assms(3) by (metis of_int_less_iff of_int_numeral of_int_power)
  have x: "of_int lo + prod \<le> of_int hi + 1 / 2" using prod by (simp add: m_def)
  have "of_int (2 * lo) / 2 \<le> round64 (of_int lo + prod)"
    using prod assms x hi by (intro round64_ge_half) (simp_all add: pow2_def)
  moreover have "round64 (of_int lo + prod) \<le> of_int (2 * hi + 1) / 2"
    using prod assms x hi by (intro round64_le_half) (simp_all add: pow2_def)
  ultimately show ?thesis
    unfolding eq using assms by (intro int_of_float_between) simp_all
qed

lemma exponential_delay_bounds:
  assumes "0 < lo" "lo \<le> v" "v \<le> hi" "hi < 2 ^ 50"
  shows "lo \<le> exponential_delay n (of_int v) hi \<and> exponential_delay n (of_int v) hi \<le> hi"
  using assms
proof (induction n arbitrary: v)
  case 0
  then show ?case by (simp add: in_int64_def)
next
  case (Suc n)
  have f: "fmul (of_int v) 2 = of_int (2 * v)"
    using Suc.prems round64_of_int [of "2 * v"] by (simp add: fmul_def mult.commute)
  have i: "int_of_float (of_int (2 * v)) = 2 * v"
    using Suc.prems by (intro int_of_float_of_int) (simp add: in_int64_def)
  show ?case
  proof (cases "hi \<le> 2 * v")
    case True
    with Suc.prems f i show ?thesis by simp
  next
    case False
    then have "lo \<le> exponential_delay n (of_int (2 * v)) hi \<and> exponential_delay n (of_int (2 * v)) hi \<le> hi"
      using Suc.prems by (intro Suc.IH) simp_all
    with False f i show ?thesis by simp
  qed
qed

lemma backoffDelay_bounds:
  assumes "0 < RP_MinDelayTarget p" "RP_MinDelayTarget p \<le> RP_MaxDelayTarget p" "RP_MaxDelayTarget p < 2 ^ 40"
    "0 \<le> i" "i < n" "n \<le> 100"
  shows "RP_MinDelayTarget p \<le> backoffDelay p i n \<and> backoffDelay p i n \<le> RP_MaxDelayTarget p"
proof -
  let ?lo = "RP_MinDelayTarget p" and ?hi = "RP_MaxDelayTarget p"
  have geo: "int_of_float (fmul (float_of_int ?lo) (float_of_int (i + 1))) = ?lo * (i + 1)"
  proof -
    have "?lo * (i + 1) \<le> 2 ^ 40 * 100" using assms by (intro mult_mono) simp_all
    then have b: "0 \<le> ?lo * (i + 1)" "?lo * (i + 1) < 2 ^ 52" using assms by simp_all
    then have "fmul (of_int ?lo) (of_int (i + 1)) = of_int (?lo * (i + 1))"
      using round64_of_int [OF b] by (simp add: fmul_def)
    moreover have "int_of_float (of_int (?lo * (i + 1))) = ?lo * (i + 1)"
      using b by (intro int_of_float_of_int) (simp add: in_int64_def)
    moreover have "float_of_int ?lo = of_int ?lo" "float_of_int (i + 1) = of_int (i + 1)"
      using assms by (simp_all add: float_small del: of_int_add)
    ultimately show ?thesis by (simp only:)
  qed
  have lin: "wrap64 (?hi - ?lo) = ?hi - ?lo" using assms by (simp add: in_int64_def)
  show ?thesis
    using linear_delay_bounds [of ?lo ?hi i n] exponential_delay_bounds [of ?lo ?lo ?hi "nat i"] geo assms lin
    by (auto simp: backoffDelay_def Let_def float_small)
qed

lemma in_seconds_mono:
  assumes "0 \<le> a" "a \<le> b" "b \<le> 9223372036"
  shows "0 \<le> in_seconds a \<and> in_seconds a \<le> in_seconds b \<and> in_seconds a = a * Second"
proof -
  have "in_int64 (a * Second)" "in_int64 (b * Second)" using assms by (simp_all add: in_int64_def Second_def)
  then show ?thesis using assms by (simp add: in_seconds_def Second_def)
qed

text \<open>C17: for a policy with delays up to 9223372036 seconds and non-negative phase counts,
  \<^verbatim>\<open>RetryDelays\<close> succeeds exactly on the configurations it validates; every delay is zero or lies
  between the minimum and the maximum target, floating point rounding included; and the number of
  retries is \<^verbatim>\<open>numRetries\<close>, unless the three fixed phases alone ask for more.\<close>

theorem retry_delays_bounded:
  fixes p :: SubscriptionPolicy
  defines "rp \<equiv> SP_HealthyRetryPolicy p"
  assumes "0 \<le> RP_NumNoDelayRetries rp" "RP_NumNoDelayRetries rp < 2 ^ 31"
    and "0 \<le> RP_NumMinDelayRetries rp" "RP_NumMinDelayRetries rp < 2 ^ 31"
    and "0 \<le> RP_NumMaxDelayRetries rp" "RP_NumMaxDelayRetries rp < 2 ^ 31"
    and "RP_MaxDelayTarget rp \<le> 9223372036"
  shows "((\<exists>ds. RetryDelays p = Inr ds) \<longleftrightarrow>
      0 \<le> RP_NumRetries rp \<and> RP_NumRetries rp \<le> 100 \<and> 0 < RP_MinDelayTarget rp \<and>
      RP_MinDelayTarget rp \<le> RP_MaxDelayTarget rp) \<and>
    (\<forall>ds. RetryDelays p = Inr ds \<longrightarrow>
      (\<forall>d \<in> set ds. d = 0 \<or> RP_MinDelayTarget rp * Second \<le> d \<and> d \<le> RP_MaxDelayTarget rp * Second) \<and>
      int (length ds) =
        max (RP_NumRetries rp) (RP_NumNoDelayRetries rp + RP_NumMinDelayRetries rp + RP_NumMaxDelayRetries rp))"
proof -
  let ?n = "max (RP_NumRetries rp - RP_NumNoDelayRetries rp - RP_NumMinDelayRetries rp - RP_NumMaxDelayRetries rp) 0"
  let ?lo = "RP_MinDelayTarget rp" and ?hi = "RP_MaxDelayTarget rp"
  have n: "max (wrap64 (wrap64 (wrap64 (RP_NumRetries rp - RP_NumNoDelayRetries rp) - RP_NumMinDelayRetries rp)
      - RP_NumMaxDelayRetries rp)) 0 = ?n" if "0 \<le> RP_NumRetries rp" "RP_NumRetries rp \<le> 100"
    using that assms by (simp add: in_int64_def)
  have valid: "(\<exists>ds. RetryDelays p = Inr ds) \<longleftrightarrow> 0 \<le> RP_NumRetries rp \<and> RP_NumRetries rp \<le> 100 \<and> 0 < ?lo \<and> ?lo \<le> ?hi"
    unfolding RetryDelays_def rp_def [symmetric] Let_def by auto
  have "(\<forall>d \<in> set ds. d = 0 \<or> ?lo * Second \<le> d \<and> d \<le> ?hi * Second) \<and>
      int (length ds) =
        max (RP_NumRetries rp) (RP_NumNoDelayRetries rp + RP_NumMinDelayRetries rp + RP_NumMaxDelayRetries rp)"
    if "RetryDelays p = Inr ds" for ds
  proof -
    from that have ok: "0 \<le> RP_NumRetries rp" "RP_NumRetries rp \<le> 100" "0 < ?lo" "?lo \<le> ?hi"
      and ds: "ds = replicate (nat (RP_NumNoDelayRetries rp)) 0 @
        replicate (nat (RP_NumMinDelayRetries rp)) (in_seconds ?lo) @
        map (\<lambda>i. in_seconds (backoffDelay rp (int i) ?n)) [0..<nat ?n] @
        replicate (nat (RP_NumMaxDelayRetries rp)) (in_seconds ?hi)"
      using n unfolding RetryDelays_def rp_def [symmetric] Let_def by (auto split: if_splits)
    have b: "?lo * Second \<le> in_seconds d \<and> in_seconds d \<le> ?hi * Second" if "?lo \<le> d" "d \<le> ?hi" for d
      using in_seconds_mono [of ?lo d] in_seconds_mono [of d ?hi] in_seconds_mono [of ?hi ?hi] that ok assms by auto
    have "?lo \<le> backoffDelay rp (int i) ?n \<and> backoffDelay rp (int i) ?n \<le> ?hi" if "i < nat ?n" for i
      using that ok assms by (intro backoffDelay_bounds) simp_all
    with b ok have "\<forall>d \<in> set ds. d = 0 \<or> ?lo * Second \<le> d \<and> d \<le> ?hi * Second"
      unfolding ds by auto
    moreover have "int (length ds) =
        max (RP_NumRetries rp) (RP_NumNoDelayRetries rp + RP_NumMinDelayRetries rp + RP_NumMaxDelayRetries rp)"
      unfolding ds using assms ok by simp
    ultimately show ?thesis by blast
  qed
  with valid show ?thesis by blast
qed

theorem retry_delays_bounded_witness:
  "\<exists>ds. RetryDelays DefaultPolicy = Inr ds \<and> length ds = 3 \<and> (\<forall>d \<in> set ds. d = 0 \<or> d = 20 * Second)"
  using retry_delays_bounded [of DefaultPolicy] by (force simp: DefaultPolicy_def)

subsection \<open>Round trip of the effective policy\<close>

definition policy_ints :: "SubscriptionPolicy \<Rightarrow> int list" where
  "policy_ints p =
     (let r = SP_HealthyRetryPolicy p in
        [RP_MinDelayTarget r, RP_MaxDelayTarget r, RP_NumRetries r, RP_NumNoDelayRetries r,
         RP_NumMinDelayRetries r, RP_NumMaxDelayRetries r, TP_MaxReceivesPerSecond (SP_ThrottlePolicy p)])"

lemma decode_retry_json:
  assumes "\<forall>n \<in> {RP_MinDelayTarget r, RP_MaxDelayTarget r, RP_NumRetries r, RP_NumNoDelayRetries r,
      RP_NumMinDelayRetries r, RP_NumMaxDelayRetries r}. in_int64 n" "valid_utf8 (RP_BackoffFunction r)"
  shows "decode_retry (json_retry r) cur = Some r"
  using assms
  by (simp add: decode_retry_def json_retry_def decode_struct_object decode_members_quote retry_fields_def
      byte_value_def decode_retry_field_def del: decode_members.simps(2))

lemma decode_subscription_json:
  assumes "\<forall>n \<in> set (policy_ints p). in_int64 n" "valid_utf8 (RP_BackoffFunction (SP_HealthyRetryPolicy p))"
    "valid_utf8 (RQ_HeaderContentType (SP_RequestPolicy p))"
  shows "decode_subscription_policy (json_subscription_policy p) cur = Some p"
  using assms
  by (simp add: decode_subscription_policy_def json_subscription_policy_def decode_struct_object
      decode_members_quote byte_value_def policy_ints_def Let_def decode_retry_json decode_throttle_def
      decode_request_def del: decode_members.simps(2))

definition retry_ints :: "RetryPolicy \<Rightarrow> bool" where
  "retry_ints r \<longleftrightarrow>
     (\<forall>n \<in> {RP_MinDelayTarget r, RP_MaxDelayTarget r, RP_NumRetries r, RP_NumNoDelayRetries r,
            RP_NumMinDelayRetries r, RP_NumMaxDelayRetries r}. in_int64 n)"

lemma decode_retry_ints: "decode_retry j r = Some r' \<Longrightarrow> retry_ints r \<Longrightarrow> retry_ints r'"
  unfolding decode_retry_def
  by (erule decode_struct_inv, assumption)
    (auto simp: decode_retry_field_def retry_ints_def split: if_splits dest: decode_int_in)

lemma decode_throttle_ints:
  "decode_throttle j t = Some t' \<Longrightarrow> in_int64 (TP_MaxReceivesPerSecond t) \<Longrightarrow> in_int64 (TP_MaxReceivesPerSecond t')"
  unfolding decode_throttle_def by (erule decode_struct_inv, assumption) (auto dest: decode_int_in)

definition policy_ints_ok :: "SubscriptionPolicy \<Rightarrow> bool" where
  "policy_ints_ok p \<longleftrightarrow> retry_ints (SP_HealthyRetryPolicy p) \<and> in_int64 (TP_MaxReceivesPerSecond (SP_ThrottlePolicy p))"

lemma decode_subscription_ints:
  "decode_subscription_policy j p = Some p' \<Longrightarrow> policy_ints_ok p \<Longrightarrow> policy_ints_ok p'"
  unfolding decode_subscription_policy_def
  by (erule decode_struct_inv, assumption)
    (auto simp: policy_ints_ok_def split: if_splits dest: decode_retry_ints decode_throttle_ints)

definition envelope_ints_ok :: "TopicPolicyEnvelope \<Rightarrow> bool" where
  "envelope_ints_ok p \<longleftrightarrow>
     retry_ints (TE_DefaultHealthyRetryPolicy p) \<and> in_int64 (TP_MaxReceivesPerSecond (TE_DefaultThrottlePolicy p))"

lemma decode_envelope_ints:
  "decode_envelope j p = Some p' \<Longrightarrow> envelope_ints_ok p \<Longrightarrow> envelope_ints_ok p'"
  unfolding decode_envelope_def
  by (erule decode_struct_inv, assumption, erule decode_struct_inv, assumption)
    (auto simp: envelope_ints_ok_def split: if_splits dest: decode_retry_ints decode_throttle_ints)

lemma mergeRetry_ints: "retry_ints a \<Longrightarrow> retry_ints b \<Longrightarrow> retry_ints (mergeRetryPolicy a b)"
  by (auto simp: mergeRetryPolicy_def Let_def retry_ints_def in_int64_def)

text \<open>What every merged policy satisfies, and why merging the defaults again changes nothing.\<close>

definition settled :: "SubscriptionPolicy \<Rightarrow> bool" where
  "settled p \<longleftrightarrow>
     (let r = SP_HealthyRetryPolicy p in
        RP_MinDelayTarget r \<noteq> 0 \<and> RP_MaxDelayTarget r \<noteq> 0 \<and> RP_BackoffFunction r \<noteq> [] \<and>
        (RP_NumRetries r \<noteq> 0 \<or> RP_NumNoDelayRetries r \<noteq> 0 \<or> RP_NumMinDelayRetries r \<noteq> 0 \<or> RP_NumMaxDelayRetries r \<noteq> 0) \<and>
        RQ_HeaderContentType (SP_RequestPolicy p) \<noteq> [])"

lemma settled_DefaultPolicy: "settled DefaultPolicy"
  by (simp add: settled_def DefaultPolicy_def)

lemma settled_merge: "settled base \<Longrightarrow> settled (merge_policies base r t q)"
  by (auto simp: settled_def merge_policies_def mergeRetryPolicy_def mergeRequestPolicy_def Let_def)

lemma mergeDefaults_settled: "settled p \<Longrightarrow> mergeDefaults p = p"
  by (cases p) (auto simp: settled_def mergeDefaults_def mergeRetryPolicy_def mergeRequestPolicy_def
      mergeThrottlePolicy_def DefaultPolicy_def Let_def)

lemma mergeDefaults_merge:
  "mergeDefaults out = merge_policies DefaultPolicy (SP_HealthyRetryPolicy out) (SP_ThrottlePolicy out) (SP_RequestPolicy out)"
  by (simp add: mergeDefaults_def merge_policies_def)

lemma merge_ints:
  "policy_ints_ok base \<Longrightarrow> retry_ints r \<Longrightarrow> in_int64 (TP_MaxReceivesPerSecond t) \<Longrightarrow>
     policy_ints_ok (merge_policies base r t q)"
  by (simp add: policy_ints_ok_def merge_policies_def mergeRetry_ints mergeThrottlePolicy_def)

lemma merge_sub_ints:
  "policy_ints_ok base \<Longrightarrow> policy_ints_ok sub \<Longrightarrow>
     policy_ints_ok (merge_policies base (SP_HealthyRetryPolicy sub) (SP_ThrottlePolicy sub) q)"
  by (rule merge_ints) (simp_all add: policy_ints_ok_def)

lemma zero_ints [simp]: "policy_ints_ok zeroSubscriptionPolicy" "envelope_ints_ok zeroEnvelope" "policy_ints_ok DefaultPolicy"
  by (simp_all add: policy_ints_ok_def envelope_ints_ok_def zeroSubscriptionPolicy_def zeroEnvelope_def
      DefaultPolicy_def retry_ints_def in_int64_def zeroRetryPolicy_def)

lemma ParseTopicPolicy_ints:
  assumes "ParseTopicPolicy raw = Inr env"
  shows "envelope_ints_ok env"
proof (cases "raw = []")
  case True
  with assms show ?thesis
    using zero_ints(2,3) by (auto simp: ParseTopicPolicy_def envelope_ints_ok_def policy_ints_ok_def)
next
  case False
  with assms obtain j where "decode_envelope j zeroEnvelope = Some env"
    by (auto simp: ParseTopicPolicy_def dest: unmarshal_Inr)
  then show ?thesis using decode_envelope_ints zero_ints(2) by blast
qed

lemma ParseSubscriptionPolicy_ok:
  assumes "ParseSubscriptionPolicy raw = Inr p"
  shows "policy_ints_ok p \<and> settled p"
proof (cases "raw = []")
  case True
  with assms show ?thesis by (simp add: ParseSubscriptionPolicy_def settled_DefaultPolicy)
next
  case False
  with assms obtain j out where out: "decode_subscription_policy j zeroSubscriptionPolicy = Some out" "p = mergeDefaults out"
    by (auto simp: ParseSubscriptionPolicy_def split: sum.splits dest: unmarshal_Inr)
  then have "policy_ints_ok out" using decode_subscription_ints zero_ints(1) by blast
  then show ?thesis
    by (simp add: out(2) mergeDefaults_merge merge_sub_ints settled_merge settled_DefaultPolicy)
qed

lemma EffectivePolicy_ok:
  assumes "EffectivePolicy t s = Inr (p, js)"
  shows "policy_ints_ok p \<and> settled p \<and> js = print_json (json_subscription_policy p)"
proof -
  obtain env where env: "ParseTopicPolicy t = Inr env" using assms by (auto simp: EffectivePolicy_def split: sum.splits)
  let ?base = "merge_policies DefaultPolicy (TE_DefaultHealthyRetryPolicy env)
                       (TE_DefaultThrottlePolicy env) (TE_DefaultRequestPolicy env)"
  have base: "policy_ints_ok ?base" "settled ?base"
    using ParseTopicPolicy_ints [OF env] by (auto simp: envelope_ints_ok_def settled_DefaultPolicy intro!: merge_ints settled_merge)
  show ?thesis
  proof (cases "\<not> TE_DisableSubscriptionOverrides env \<and> s \<noteq> []")
    case True
    then obtain sub where sub: "ParseSubscriptionPolicy s = Inr sub"
      using assms env by (auto simp: EffectivePolicy_def Let_def split: sum.splits)
    with True assms env ParseSubscriptionPolicy_ok [OF sub] base show ?thesis
      by (auto simp: EffectivePolicy_def Let_def intro!: settled_merge merge_sub_ints)
  next
    case False
    with assms env base show ?thesis by (auto simp: EffectivePolicy_def Let_def)
  qed
qed

lemma wf_policy_json: "wf_json 0 (json_subscription_policy p)"
  by (simp add: json_subscription_policy_def json_retry_def maxNestingDepth_def)

lemma policy_ints_ok_iff: "policy_ints_ok p \<longleftrightarrow> (\<forall>n \<in> set (policy_ints p). in_int64 n)"
  by (auto simp: policy_ints_ok_def retry_ints_def policy_ints_def Let_def)

text \<open>C18: the JSON text of an effective delivery policy, which a delivery job carries, is read
  back by the worker (\<^verbatim>\<open>ParseSubscriptionPolicy\<close>) as exactly the policy it was written from: the
  defaults merged on reading change nothing.  The two strings of the policy must be valid UTF-8,
  as strings decoded from JSON are.\<close>

theorem effective_policy_roundtrip:
  assumes "EffectivePolicy topicRaw subRaw = Inr (p, js)"
    "valid_utf8 (RP_BackoffFunction (SP_HealthyRetryPolicy p))"
    "valid_utf8 (RQ_HeaderContentType (SP_RequestPolicy p))"
  shows "ParseSubscriptionPolicy js = Inr p"
proof -
  have ok: "policy_ints_ok p" "settled p" and js: "js = print_json (json_subscription_policy p)"
    using EffectivePolicy_ok [OF assms(1)] by auto
  have "js \<noteq> []" by (simp add: js json_subscription_policy_def json_object_def)
  moreover have "unmarshal decode_subscription_policy js zeroSubscriptionPolicy = Inr p"
    using ok(1) assms(2,3)
    by (simp add: unmarshal_def js parse_print wf_policy_json decode_subscription_json policy_ints_ok_iff)
  ultimately show ?thesis
    using mergeDefaults_settled [OF ok(2)] by (simp add: ParseSubscriptionPolicy_def)
qed

theorem effective_policy_roundtrip_witness:
  "\<exists>js. EffectivePolicy [] [] = Inr (DefaultPolicy, js) \<and> ParseSubscriptionPolicy js = Inr DefaultPolicy"
proof -
  have "merge_policies DefaultPolicy (SP_HealthyRetryPolicy DefaultPolicy) \<lparr>TP_MaxReceivesPerSecond = 0\<rparr>
      (SP_RequestPolicy DefaultPolicy) = DefaultPolicy"
    by (simp add: merge_policies_def DefaultPolicy_def mergeRetryPolicy_def mergeThrottlePolicy_def mergeRequestPolicy_def)
  then have e: "EffectivePolicy [] [] = Inr (DefaultPolicy, print_json (json_subscription_policy DefaultPolicy))"
    by (simp add: EffectivePolicy_def ParseTopicPolicy_def zeroEnvelope_def Let_def)
  have "valid_utf8 (RP_BackoffFunction (SP_HealthyRetryPolicy DefaultPolicy))"
    "valid_utf8 (RQ_HeaderContentType (SP_RequestPolicy DefaultPolicy))"
    by (rule valid_utf8_ascii, simp add: DefaultPolicy_def byte_value_def)+
  from effective_policy_roundtrip [OF e this] e show ?thesis by blast
qed

end
