(* ===== verification/HTTP_Adapter.thy ===== *)
theory HTTP_Adapter
  imports Signing Delivery
begin

text \<open>
  Delivery over HTTP (\<^verbatim>\<open>internal/protocol/http/adapter.go\<close>): the request body and headers
  made from a delivery attempt, and how the answer of the endpoint is classified.  The network is
  a parameter: \<^verbatim>\<open>NewRequest\<close> says whether \<^verbatim>\<open>http.NewRequestWithContext\<close> accepts the
  endpoint as a URL, \<^verbatim>\<open>Do\<close> is what \<^verbatim>\<open>Client.Do\<close> returns for the \<open>n\<close>-th request sent, a
  transport error or a status code and line.
\<close>

subsection \<open>Requests\<close>

record HttpRequest =
  HR_URL :: string
  HR_Body :: string
  HR_Header :: "(string, string) fmap"

record transport =
  NewRequest :: "string \<Rightarrow> unit res"
  Do :: "nat \<Rightarrow> HttpRequest \<Rightarrow> (int \<times> string) res"

text \<open>\<^verbatim>\<open>Header.Set\<close> files a value under the canonical form of its name: a name of token
  characters is capitalised at its start and after each hyphen, any other name is kept.\<close>

definition token_char :: "char \<Rightarrow> bool" where
  "token_char c \<longleftrightarrow>
     (let n = byte_value c in (65 \<le> n \<and> n \<le> 90) \<or> (97 \<le> n \<and> n \<le> 122) \<or> (48 \<le> n \<and> n \<le> 57)) \<or>
     c \<in> set ''!#$%&*+-.^_`|~'' \<or> c = CHR 39"

fun capitalize :: "bool \<Rightarrow> string \<Rightarrow> string" where
  "capitalize up [] = []"
| "capitalize up (c # cs) = (if up then upper_char c else lower_char c) # capitalize (c = CHR ''-'') cs"

definition CanonicalHeaderKey :: "string \<Rightarrow> string" where
  "CanonicalHeaderKey k = (if list_all token_char k then capitalize True k else k)"

definition Header_Set :: "string \<Rightarrow> string \<Rightarrow> (string, string) fmap \<Rightarrow> (string, string) fmap" where
  "Header_Set k v h = fmupd (CanonicalHeaderKey k) v h"

text \<open>The payload is a Go map of dynamic values, as it is here.\<close>

definition attribute_entry :: "MessageAttributeValue \<Rightarrow> any" where
  "attribute_entry v =
     AMap ((''Type'', AStr (MA_DataType v)) #
       (if length (bytes_of (MA_BinaryValue v)) > 0 then [(''Value'', AStr (bytes_of (MA_BinaryValue v)))]
        else if MA_StringValue v \<noteq> [] then [(''Value'', AStr (MA_StringValue v))] else []))"

definition marshalAttributes :: "MessageAttributeValue ranged \<Rightarrow> any" where
  "marshalAttributes attrs = AMap (map (\<lambda>(k, v). (k, attribute_entry v)) attrs)"

definition http_payload :: "DeliveryAttempt \<Rightarrow> (string \<times> any) list" where
  "http_payload attempt =
     [(''Type'', AStr (Att_Type attempt)),
      (''MessageId'', AStr (Att_MessageID attempt)),
      (''TopicArn'', AStr (Topic_ARN (Att_Topic attempt))),
      (''Message'', AStr (Att_ProtocolMessage attempt)),
      (''Timestamp'', AStr (DefaultTimestamp (Att_Timestamp attempt))),
      (''SignatureVersion'', AStr (Att_SignatureVersion attempt)),
      (''Signature'', AStr (Att_Signature attempt)),
      (''SigningCertURL'', AStr (Att_SigningCertURL attempt))] @
     (if Sub_ARN (Att_Subscription attempt) \<noteq> []
      then [(''SubscriptionArn'', AStr (Sub_ARN (Att_Subscription attempt)))] else []) @
     (if Att_Subject attempt \<noteq> [] then [(''Subject'', AStr (Att_Subject attempt))] else []) @
     (if Att_Type attempt = ''Notification''
      then (''UnsubscribeURL'', AStr (Att_UnsubscribeURL attempt)) #
           (if length (Att_MessageAttributes attempt) > 0
            then [(''MessageAttributes'', marshalAttributes (Att_MessageAttributes attempt))] else [])
      else [(''Token'', AStr (Att_Token attempt)), (''SubscribeURL'', AStr (Att_SubscribeURL attempt))])"

text \<open>\<^verbatim>\<open>bodyForAttempt\<close>; encoding strings and maps of strings cannot fail.\<close>

definition bodyForAttempt :: "DeliveryAttempt \<Rightarrow> SubscriptionPolicy \<Rightarrow> bool \<Rightarrow> string \<times> string" where
  "bodyForAttempt attempt policy raw =
     (let contentType = RQ_HeaderContentType (SP_RequestPolicy policy);
          contentType = (if contentType = [] then ''text/plain; charset=UTF-8'' else contentType)
      in if raw then (Att_ProtocolMessage attempt, contentType)
         else (print_json (of_any (AMap (http_payload attempt))), contentType))"

subsection \<open>The adapter\<close>

definition Protocols :: "string list" where
  "Protocols = [ProtocolHTTP, ProtocolHTTPS]"

definition ValidateEndpoint :: "string \<Rightarrow> unit res" where
  "ValidateEndpoint endpoint =
     (if HasPrefix endpoint ''http://'' \<or> HasPrefix endpoint ''https://'' then Inr ()
      else Inl (NewInvalidParameter ''Invalid parameter: Endpoint''))"

text \<open>The headers of the attempt itself are set last; they are a Go map, so two of them that share
  a canonical name would be set in an order left open.  The service never sets any.\<close>

definition request_for :: "DeliveryAttempt \<Rightarrow> string \<Rightarrow> string \<Rightarrow> bool \<Rightarrow> HttpRequest" where
  "request_for attempt body contentType raw =
     (let h = Header_Set ''Content-Type'' contentType fmempty;
          h = Header_Set ''User-Agent'' ''Amazon Simple Notification Service Agent'' h;
          h = Header_Set ''x-amz-sns-message-type'' (Att_Type attempt) h;
          h = Header_Set ''x-amz-sns-message-id'' (Att_MessageID attempt) h;
          h = Header_Set ''x-amz-sns-topic-arn'' (Topic_ARN (Att_Topic attempt)) h;
          h = Header_Set ''x-amz-sns-subscription-arn'' (Sub_ARN (Att_Subscription attempt)) h;
          h = (if raw then Header_Set ''x-amz-sns-rawdelivery'' ''true'' h else h);
          h = fold (\<lambda>k h. case fmlookup (Att_Headers attempt) k of None \<Rightarrow> h | Some v \<Rightarrow> Header_Set k v h)
                (sorted_keys (Att_Headers attempt)) h
      in \<lparr>HR_URL = Sub_Endpoint (Att_Subscription attempt), HR_Body = body, HR_Header = h\<rparr>)"

definition classify :: "int \<Rightarrow> string \<Rightarrow> DeliveryResult" where
  "classify code status =
     (if 200 \<le> code \<and> code < 300
      then \<lparr>DR_Success = True, DR_Retryable = False, DR_StatusCode = code, DR_ErrorMessage = []\<rparr>
      else \<lparr>DR_Success = False, DR_Retryable = (code = 429 \<or> code \<ge> 500), DR_StatusCode = code,
            DR_ErrorMessage = status\<rparr>)"

definition failed_attempt :: "go_error \<Rightarrow> DeliveryResult" where
  "failed_attempt e =
     \<lparr>DR_Success = False, DR_Retryable = True, DR_StatusCode = 0, DR_ErrorMessage = error_text e\<rparr>"

text \<open>\<^verbatim>\<open>Deliver\<close>: the result and the requests that went out.\<close>

definition Deliver ::
    "transport \<Rightarrow> nat \<Rightarrow> DeliveryAttempt \<Rightarrow> SubscriptionPolicy \<Rightarrow> bool \<Rightarrow> DeliveryResult \<times> HttpRequest list" where
  "Deliver tr n attempt policy raw =
     (let (body, contentType) = bodyForAttempt attempt policy raw in
      case NewRequest tr (Sub_Endpoint (Att_Subscription attempt)) of
        Inl e \<Rightarrow> (failed_attempt e, [])
      | Inr _ \<Rightarrow>
          let req = request_for attempt body contentType raw in
          (case Do tr n req of
             Inl e \<Rightarrow> (failed_attempt e, [req])
           | Inr (code, status) \<Rightarrow> (classify code status, [req])))"

subsection \<open>What the adapter guarantees\<close>

lemma header_names [simp]:
  "CanonicalHeaderKey ''Content-Type'' = ''Content-Type''"
  "CanonicalHeaderKey ''User-Agent'' = ''User-Agent''"
  "CanonicalHeaderKey ''x-amz-sns-message-type'' = ''X-Amz-Sns-Message-Type''"
  "CanonicalHeaderKey ''x-amz-sns-message-id'' = ''X-Amz-Sns-Message-Id''"
  "CanonicalHeaderKey ''x-amz-sns-topic-arn'' = ''X-Amz-Sns-Topic-Arn''"
  "CanonicalHeaderKey ''x-amz-sns-subscription-arn'' = ''X-Amz-Sns-Subscription-Arn''"
  "CanonicalHeaderKey ''x-amz-sns-rawdelivery'' = ''X-Amz-Sns-Rawdelivery''"
  by code_simp+

definition sample_http_sub :: Subscription where
  "sample_http_sub = sample_sub\<lparr>Sub_Protocol := ProtocolHTTP, Sub_Endpoint := ''http://x''\<rparr>"

lemma sorted_keys_empty [simp]: "sorted_keys fmempty = []"
  by (simp add: sorted_keys_def sorted_list_of_fset.rep_eq)

lemma no_num_payload: "\<forall>e \<in> set (http_payload attempt). no_num (snd e)"
  by (auto simp: http_payload_def marshalAttributes_def attribute_entry_def)

lemma wf_payload: "wf_json 0 (of_any (AMap (http_payload attempt)))"
  by (rule wf_of_any_flat)
    (auto simp: http_payload_def marshalAttributes_def attribute_entry_def maxNestingDepth_def)

lemma payload_keys: "distinct (map fst (http_payload attempt))" "\<forall>e \<in> set (http_payload attempt). valid_utf8 (fst e)"
  by (auto simp: http_payload_def intro!: valid_utf8_ascii simp: byte_value_def)


text \<open>C22: one delivery attempt sends at most one request, to the endpoint of the subscription and
  with the headers that name the topic and the subscription; it succeeds exactly when that request
  was answered with a status from 200 to 299, and a failure is worth a retry exactly when no answer
  came, or the answer was 429 or 500 and above.\<close>

theorem deliver_outcome:
  assumes "Deliver tr n attempt policy raw = (result, reqs)"
  shows "(reqs = [] \<and> NewRequest tr (Sub_Endpoint (Att_Subscription attempt)) \<noteq> Inr () \<and>
        \<not> DR_Success result \<and> DR_Retryable result) \<or>
    (\<exists>req. reqs = [req] \<and> HR_URL req = Sub_Endpoint (Att_Subscription attempt) \<and>
       HR_Body req = fst (bodyForAttempt attempt policy raw) \<and>
       (Att_Headers attempt = fmempty \<longrightarrow>
          fmlookup (HR_Header req) ''X-Amz-Sns-Topic-Arn'' = Some (Topic_ARN (Att_Topic attempt)) \<and>
          fmlookup (HR_Header req) ''X-Amz-Sns-Subscription-Arn'' = Some (Sub_ARN (Att_Subscription attempt)) \<and>
          (fmlookup (HR_Header req) ''X-Amz-Sns-Rawdelivery'' = Some ''true'' \<longleftrightarrow> raw)) \<and>
       (DR_Success result \<longleftrightarrow> (\<exists>code status. Do tr n req = Inr (code, status) \<and> 200 \<le> code \<and> code < 300)) \<and>
       (\<not> DR_Success result \<longrightarrow>
          (DR_Retryable result \<longleftrightarrow>
             is_err (Do tr n req) \<or> (\<exists>code status. Do tr n req = Inr (code, status) \<and> (code = 429 \<or> 500 \<le> code)))))"
proof (cases "NewRequest tr (Sub_Endpoint (Att_Subscription attempt))")
  case (Inl e)
  with assms show ?thesis by (auto simp: Deliver_def failed_attempt_def Let_def split: prod.splits)
next
  case (Inr u)
  define req where "req = request_for attempt (fst (bodyForAttempt attempt policy raw))
    (snd (bodyForAttempt attempt policy raw)) raw"
  have r: "(result, reqs) = (case Do tr n req of Inl e \<Rightarrow> (failed_attempt e, [req])
      | Inr (code, status) \<Rightarrow> (classify code status, [req]))"
    using assms Inr unfolding req_def by (simp add: Deliver_def Let_def case_prod_unfold)
  have h: "Att_Headers attempt = fmempty \<Longrightarrow>
      fmlookup (HR_Header req) ''X-Amz-Sns-Topic-Arn'' = Some (Topic_ARN (Att_Topic attempt)) \<and>
      fmlookup (HR_Header req) ''X-Amz-Sns-Subscription-Arn'' = Some (Sub_ARN (Att_Subscription attempt)) \<and>
      (fmlookup (HR_Header req) ''X-Amz-Sns-Rawdelivery'' = Some ''true'' \<longleftrightarrow> raw)"
    by (simp add: req_def request_for_def Let_def Header_Set_def header_names)
  have "HR_URL req = Sub_Endpoint (Att_Subscription attempt)" "HR_Body req = fst (bodyForAttempt attempt policy raw)"
    by (simp_all add: req_def request_for_def Let_def)
  with r h show ?thesis
    by (cases "Do tr n req") (auto simp: classify_def failed_attempt_def split: if_splits)
qed

theorem deliver_outcome_witness:
  "DR_Retryable (fst (Deliver \<lparr>NewRequest = \<lambda>_. Inr (), Do = \<lambda>_ _. Inr (503, ''busy'')\<rparr> 0
     (sample_attempt sample_http_sub sample_topic ''hi'') DefaultPolicy False))"
proof -
  let ?tr = "\<lparr>NewRequest = \<lambda>_. Inr (), Do = \<lambda>_ _. Inr (503, ''busy'')\<rparr>"
  let ?r = "Deliver ?tr 0 (sample_attempt sample_http_sub sample_topic ''hi'') DefaultPolicy False"
  have "?r = (fst ?r, snd ?r)" by simp
  from deliver_outcome [OF this] show ?thesis by auto
qed


end
