(* ===== verification/Sigv4.thy ===== *)
theory Sigv4
  imports Domain Go_URL Go_Crypto Go_Time HTTP_Adapter "HOL-Library.Multiset"
begin

text \<open>
  Request signatures (\<^verbatim>\<open>internal/auth/sigv4.go\<close>): AWS Signature Version 4 in the Authorization header and in
  the query of a presigned URL.  Requests are what \<^verbatim>\<open>net/http\<close> hands to a handler; \<^verbatim>\<open>strconv.Quote\<close>,
  which only shapes two error texts, is a parameter, as is the reading of the clock.

  The verifier normalises the values of signed headers in place; nothing reads those headers afterwards and
  normalising twice is normalising once, so the model leaves the request alone.
\<close>

subsection \<open>HMAC\<close>

definition xor_byte :: "nat \<Rightarrow> char \<Rightarrow> char" where
  "xor_byte k c = byte_of (unat ((of_nat k :: 8 word) XOR of_nat (byte_value c)))"

definition hmac_key :: "string \<Rightarrow> string" where
  "hmac_key key =
     (let k = (if length key > 64 then sha256 key else key) in k @ replicate (64 - length k) (CHR 0x00))"

definition hmacSHA256 :: "string \<Rightarrow> string \<Rightarrow> string" where
  "hmacSHA256 key message =
     (let k = hmac_key key
      in sha256 (map (xor_byte 0x5C) k @ sha256 (map (xor_byte 0x36) k @ message)))"

subsection \<open>Requests\<close>

record ServerRequest =
  R_Method :: string
  R_Host :: string
  R_Path :: string
  R_RawPath :: string
  R_RawQuery :: string
  R_Header :: "(string, string list) fmap"

definition Header_Values :: "ServerRequest \<Rightarrow> string \<Rightarrow> string list" where
  "Header_Values r k = (case fmlookup (R_Header r) (CanonicalHeaderKey k) of None \<Rightarrow> [] | Some vs \<Rightarrow> vs)"

definition Header_Get :: "ServerRequest \<Rightarrow> string \<Rightarrow> string" where
  "Header_Get r k = (case Header_Values r k of [] \<Rightarrow> [] | v # _ \<Rightarrow> v)"

definition URL_Query :: "ServerRequest \<Rightarrow> url_values" where
  "URL_Query r = fst (ParseQuery (R_RawQuery r))"

text \<open>\<^verbatim>\<open>URL.EscapedPath\<close>: the path as it was sent when that is a valid encoding of the path, otherwise the
  default encoding.\<close>

definition path_literal :: "char \<Rightarrow> bool" where
  "path_literal c \<longleftrightarrow> unreserved c \<or> c \<in> set ''$&+,/:;=@''"

definition path_escape :: "string \<Rightarrow> string" where
  "path_escape s =
     concat (map (\<lambda>c. if path_literal c then [c]
                      else [CHR ''%'', upper_hex (byte_value c div 16), upper_hex (byte_value c mod 16)]) s)"

fun path_unescape :: "string \<Rightarrow> string option" where
  "path_unescape [] = Some []"
| "path_unescape (c # s) =
     (if c = CHR ''%'' then
        (case s of
           a # b # r \<Rightarrow>
             (case (digit_value 16 a, digit_value 16 b) of
                (Some x, Some y) \<Rightarrow> map_option ((#) (byte_of (16 * x + y))) (path_unescape r)
              | _ \<Rightarrow> None)
         | _ \<Rightarrow> None)
      else map_option ((#) c) (path_unescape s))"

definition valid_encoded :: "string \<Rightarrow> bool" where
  "valid_encoded s \<longleftrightarrow> list_all (\<lambda>c. path_literal c \<or> c \<in> set ''!()*[]%'' \<or> c = CHR 39) s"

definition EscapedPath :: "ServerRequest \<Rightarrow> string" where
  "EscapedPath r =
     (if R_RawPath r \<noteq> [] \<and> valid_encoded (R_RawPath r) \<and> path_unescape (R_RawPath r) = Some (R_Path r) then R_RawPath r
      else if R_Path r = ''*'' then ''*'' else path_escape (R_Path r))"

text \<open>\<^verbatim>\<open>strings.Fields\<close>: the parts between runs of white space; \<open>cur\<close> is the part being read, reversed.\<close>

function fields_from :: "string \<Rightarrow> string \<Rightarrow> string list" where
  "fields_from cur s =
     (let flush = (if cur = [] then [] else [rev cur]) in
      case s of
        [] \<Rightarrow> flush
      | c # rest \<Rightarrow>
          (case strip_any space_encodings s of
             Some after \<Rightarrow> flush @ fields_from [] after
           | None \<Rightarrow> fields_from (c # cur) rest))"
  by pat_completeness auto
termination
  by (relation "measure (length \<circ> snd)") (auto dest: strip_any_shorter)

declare fields_from.simps [simp del]

definition Fields :: "string \<Rightarrow> string list" where
  "Fields s = fields_from [] s"

subsection \<open>Canonical requests\<close>

definition normalizeHeaderValue :: "string \<Rightarrow> string" where
  "normalizeHeaderValue v = Join (Fields (TrimSpace v)) '' ''"

definition header_line :: "(string \<Rightarrow> string) \<Rightarrow> ServerRequest \<Rightarrow> string \<Rightarrow> string res" where
  "header_line qt r lower =
     (if lower = ''host'' then Inr (lower @ '':'' @ normalizeHeaderValue (R_Host r))
      else
        let values = Header_Values r (CanonicalHeaderKey lower);
            values = (if values = [] then Header_Values r lower else values)
        in if values = [] then Inl (Plain (''signed header '' @ qt lower @ '' missing from request''))
           else Inr (lower @ '':'' @ normalizeHeaderValue (Join (map normalizeHeaderValue values) '','')))"

fun header_lines :: "(string \<Rightarrow> string) \<Rightarrow> ServerRequest \<Rightarrow> string list \<Rightarrow> string list res" where
  "header_lines qt r [] = Inr []"
| "header_lines qt r (name # names) =
     (let lower = ToLower (TrimSpace name) in
      if lower = [] then header_lines qt r names
      else case header_line qt r lower of
             Inl e \<Rightarrow> Inl e
           | Inr line \<Rightarrow>
               (case header_lines qt r names of Inl e \<Rightarrow> Inl e | Inr ls \<Rightarrow> Inr (line # ls)))"

definition buildCanonicalHeaders :: "(string \<Rightarrow> string) \<Rightarrow> ServerRequest \<Rightarrow> string list \<Rightarrow> string res" where
  "buildCanonicalHeaders qt r signedHeaders =
     (case header_lines qt r signedHeaders of Inl e \<Rightarrow> Inl e | Inr ls \<Rightarrow> Inr (Join ls [CHR 0x0A] @ [CHR 0x0A]))"

definition canonicalURI :: "ServerRequest \<Rightarrow> string" where
  "canonicalURI r = (if R_Path r = [] then ''/'' else EscapedPath r)"

text \<open>\<^verbatim>\<open>strings.NewReplacer("+", "%20", "*", "%2A", "%7E", "~")\<close>.\<close>

fun aws_replace :: "string \<Rightarrow> string" where
  "aws_replace [] = []"
| "aws_replace (c # s) =
     (if c = CHR ''+'' then ''%20'' @ aws_replace s
      else if c = CHR ''*'' then ''%2A'' @ aws_replace s
      else if HasPrefix (c # s) ''%7E'' then CHR ''~'' # aws_replace (drop 2 s)
      else c # aws_replace s)"

definition awsQueryEscape :: "string \<Rightarrow> string" where
  "awsQueryEscape v = aws_replace (QueryEscape v)"

definition canonicalQuery :: "url_values \<Rightarrow> bool \<Rightarrow> string" where
  "canonicalQuery values stripSignature =
     (let keys = filter (\<lambda>k. \<not> (stripSignature \<and> k = ''X-Amz-Signature'')) (sorted_keys values)
      in Join (concat (map (\<lambda>k. map (\<lambda>v. awsQueryEscape k @ ''='' @ awsQueryEscape v) (sort (values_of values k))) keys)) ''&'')"

definition sha256Hex :: "string \<Rightarrow> string" where
  "sha256Hex data = hex_encode (sha256 data)"

definition buildCanonicalRequest ::
    "(string \<Rightarrow> string) \<Rightarrow> ServerRequest \<Rightarrow> string \<Rightarrow> string list \<Rightarrow> bool \<Rightarrow> string res" where
  "buildCanonicalRequest qt r rawBody signedHeaders stripQuerySignature =
     (case buildCanonicalHeaders qt r signedHeaders of
        Inl e \<Rightarrow> Inl e
      | Inr canonicalHeaders \<Rightarrow>
          Inr (Join [R_Method r, canonicalURI r, canonicalQuery (URL_Query r) stripQuerySignature, canonicalHeaders,
                     Join signedHeaders '';'',
                     if length rawBody = 0 then sha256Hex [] else sha256Hex rawBody] [CHR 0x0A]))"

record credentialScope =
  Scope_Date :: string
  Scope_Region :: string
  Scope_Service :: string
  Scope_Term :: string

definition buildStringToSign :: "string \<Rightarrow> credentialScope \<Rightarrow> string \<Rightarrow> string" where
  "buildStringToSign amzDate scope canonicalRequest =
     Join [''AWS4-HMAC-SHA256'', amzDate,
           Join [Scope_Date scope, Scope_Region scope, Scope_Service scope, Scope_Term scope] ''/'',
           sha256Hex canonicalRequest] [CHR 0x0A]"

definition signingKey :: "string \<Rightarrow> string \<Rightarrow> string \<Rightarrow> string \<Rightarrow> string" where
  "signingKey secret date region service =
     (let kDate = hmacSHA256 (''AWS4'' @ secret) date;
          kRegion = hmacSHA256 kDate region;
          kService = hmacSHA256 kRegion service
      in hmacSHA256 kService ''aws4_request'')"

subsection \<open>The verifier\<close>

record Credential =
  AccessKeyID :: string
  SecretAccessKey :: string
  SessionToken :: string

record Verifier =
  V_AccountID :: string
  V_Region :: string
  V_Service :: string
  V_Mode :: string
  V_Now :: time
  V_creds :: "(string, Credential) fmap"
  V_Quote :: "string \<Rightarrow> string"

definition ModeStrict :: string where "ModeStrict = ''strict''"
definition ModeBypass :: string where "ModeBypass = ''bypass''"

definition add_credential :: "Credential \<Rightarrow> (string, Credential) fmap \<Rightarrow> (string, Credential) fmap" where
  "add_credential cred lookup = (if AccessKeyID cred = [] then lookup else fmupd (AccessKeyID cred) cred lookup)"

definition NewVerifier ::
    "string \<Rightarrow> string \<Rightarrow> string \<Rightarrow> Credential list \<Rightarrow> time \<Rightarrow> (string \<Rightarrow> string) \<Rightarrow> Verifier" where
  "NewVerifier accountID region mode creds t qt =
     \<lparr>V_AccountID = accountID, V_Region = region, V_Service = ''sns'', V_Mode = mode, V_Now = t,
      V_creds = fold add_credential creds fmempty, V_Quote = qt\<rparr>"

fun parse_credentials :: "(string \<Rightarrow> string) \<Rightarrow> string list \<Rightarrow> Credential list res" where
  "parse_credentials qt [] = Inr []"
| "parse_credentials qt (part # parts) =
     (let fs = Split (CHR '':'') (TrimSpace part) in
      if length fs < 2 \<or> length fs > 3 then Inl (Plain (''invalid SNS_CREDENTIALS entry '' @ qt part))
      else case parse_credentials qt parts of
             Inl e \<Rightarrow> Inl e
           | Inr out \<Rightarrow>
               Inr (\<lparr>AccessKeyID = fs ! 0, SecretAccessKey = fs ! 1,
                     SessionToken = (if length fs = 3 then fs ! 2 else [])\<rparr> # out))"

definition ParseStaticCredentials :: "(string \<Rightarrow> string) \<Rightarrow> string \<Rightarrow> Credential list res" where
  "ParseStaticCredentials qt raw =
     (let raw = TrimSpace raw in
      if raw = [] then Inr [\<lparr>AccessKeyID = ''test'', SecretAccessKey = ''test'', SessionToken = ''test''\<rparr>]
      else parse_credentials qt (Split (CHR '','') raw))"

definition identity :: "Verifier \<Rightarrow> Identity" where
  "identity v = \<lparr>Id_AccountID = V_AccountID v, Id_Principal = V_AccountID v\<rparr>"

definition invalidSecurity :: "string \<Rightarrow> go_error" where
  "invalidSecurity message = mkAPIError ''InvalidSecurity'' 403 message"

definition resolveCredential :: "Verifier \<Rightarrow> string \<Rightarrow> string \<Rightarrow> (credentialScope \<times> Credential) res" where
  "resolveCredential v rawCredential requestToken =
     (case Split (CHR ''/'') rawCredential of
        [key, date, region, service, term] \<Rightarrow>
          (case fmlookup (V_creds v) key of
             None \<Rightarrow> Inl (invalidSecurity ''Unknown access key'')
           | Some cred \<Rightarrow>
               if region \<noteq> V_Region v \<or> service \<noteq> V_Service v \<or> term \<noteq> ''aws4_request''
               then Inl (invalidSecurity ''Credential scope does not match this endpoint'')
               else if SessionToken cred \<noteq> [] \<and> requestToken \<noteq> SessionToken cred
               then Inl (invalidSecurity ''The security token included in the request is invalid.'')
               else Inr (\<lparr>Scope_Date = date, Scope_Region = region, Scope_Service = service, Scope_Term = term\<rparr>, cred))
      | _ \<Rightarrow> Inl (invalidSecurity ''Invalid credential scope''))"

fun parse_fields :: "string list \<Rightarrow> (string, string) fmap \<Rightarrow> (string, string) fmap" where
  "parse_fields [] fs = fs"
| "parse_fields (part # parts) fs =
     (case Cut (CHR ''='') (TrimSpace part) of
        None \<Rightarrow> parse_fields parts fs
      | Some (k, x) \<Rightarrow> parse_fields parts (fmupd k x fs))"

definition parseAuthFields :: "string \<Rightarrow> (string, string) fmap" where
  "parseAuthFields raw = parse_fields (Split (CHR '','') raw) fmempty"

definition mismatch :: go_error where
  "mismatch = invalidSecurity ''The request signature we calculated does not match the signature you provided.''"

definition expected_signature :: "Credential \<Rightarrow> credentialScope \<Rightarrow> string \<Rightarrow> string" where
  "expected_signature cred scope toSign =
     hex_encode (hmacSHA256 (signingKey (SecretAccessKey cred) (Scope_Date scope) (Scope_Region scope) (Scope_Service scope))
       toSign)"

definition auth_prefix :: string where
  "auth_prefix = ''AWS4-HMAC-SHA256 ''"

text \<open>The part both verifications end with.\<close>

definition check_signature ::
    "Verifier \<Rightarrow> ServerRequest \<Rightarrow> string \<Rightarrow> bool \<Rightarrow> string list \<Rightarrow> string \<Rightarrow> credentialScope \<Rightarrow> Credential \<Rightarrow> string \<Rightarrow> unit res" where
  "check_signature v r rawBody strip signedHeaders amzDate scope cred signature =
     (case buildCanonicalRequest (V_Quote v) r rawBody signedHeaders strip of
        Inl e \<Rightarrow> Inl (invalidSecurity (error_text e))
      | Inr canonicalRequest \<Rightarrow>
          if expected_signature cred scope (buildStringToSign amzDate scope canonicalRequest) \<noteq> signature then Inl mismatch
          else Inr ())"

definition verifyHeaderSignature :: "Verifier \<Rightarrow> ServerRequest \<Rightarrow> string \<Rightarrow> unit res" where
  "verifyHeaderSignature v r rawBody =
     (let authHeader = Header_Get r ''Authorization'' in
      if \<not> HasPrefix authHeader auth_prefix then Inl (invalidSecurity ''Unsupported authorization algorithm'')
      else
        let fs = parseAuthFields (TrimPrefix authHeader auth_prefix) in
        case fmlookup fs ''Credential'' of
          None \<Rightarrow> Inl (invalidSecurity ''Missing Credential in Authorization header'')
        | Some credField \<Rightarrow>
        (case fmlookup fs ''SignedHeaders'' of
          None \<Rightarrow> Inl (invalidSecurity ''Missing SignedHeaders in Authorization header'')
        | Some signedHeadersField \<Rightarrow>
        (case fmlookup fs ''Signature'' of
          None \<Rightarrow> Inl (invalidSecurity ''Missing Signature in Authorization header'')
        | Some signatureField \<Rightarrow>
        (case resolveCredential v credField (Header_Get r ''X-Amz-Security-Token'') of
          Inl e \<Rightarrow> Inl e
        | Inr (scope, cred) \<Rightarrow>
            let amzDate = Header_Get r ''X-Amz-Date'' in
            if amzDate = [] then Inl (invalidSecurity ''Missing X-Amz-Date header'')
            else check_signature v r rawBody False (Split (CHR '';'') signedHeadersField) amzDate scope cred signatureField))))"

text \<open>\<^verbatim>\<open>time.Parse("20060102T150405Z", value)\<close>.  A fraction of a second after the seconds is accepted though
  the layout has none; digits beyond the ninth are ignored.\<close>

definition parse_amz_date :: "string \<Rightarrow> time option" where
  "parse_amz_date s =
     (case take_num 4 0 s of None \<Rightarrow> None | Some (y, s) \<Rightarrow>
     (case take_num 2 0 s of None \<Rightarrow> None | Some (m, s) \<Rightarrow>
     if m \<le> 0 \<or> 12 < m then None else
     (case take_num 2 0 s of None \<Rightarrow> None | Some (d, s) \<Rightarrow>
     if \<not> HasPrefix s ''T'' then None else
     (case take_num 2 0 (drop 1 s) of None \<Rightarrow> None | Some (h, s) \<Rightarrow>
     if 24 \<le> h then None else
     (case take_num 2 0 s of None \<Rightarrow> None | Some (mi, s) \<Rightarrow>
     if 60 \<le> mi then None else
     (case take_num 2 0 s of None \<Rightarrow> None | Some (sec, s) \<Rightarrow>
     if 60 \<le> sec then None else
     (case take_fraction s of (ns, s) \<Rightarrow>
     if s \<noteq> ''Z'' then None
     else if d < 1 \<or> d > days_in_month y m then None
     else Some ((days_of_civil y m d * 86400 + h * 3600 + mi * 60 + sec) * 1000000000 + ns))))))))"

definition verifyQuerySignature :: "Verifier \<Rightarrow> ServerRequest \<Rightarrow> string \<Rightarrow> unit res" where
  "verifyQuerySignature v r rawBody =
     (let q = URL_Query r in
      if Values_Get q ''X-Amz-Algorithm'' \<noteq> ''AWS4-HMAC-SHA256''
      then Inl (invalidSecurity ''Unsupported authorization algorithm'')
      else case resolveCredential v (Values_Get q ''X-Amz-Credential'') (Values_Get q ''X-Amz-Security-Token'') of
        Inl e \<Rightarrow> Inl e
      | Inr (scope, cred) \<Rightarrow>
          let amzDate = Values_Get q ''X-Amz-Date''; expiresRaw = Values_Get q ''X-Amz-Expires'' in
          if amzDate = [] then Inl (invalidSecurity ''Missing X-Amz-Date query parameter'')
          else if expiresRaw = [] then Inl (invalidSecurity ''Missing X-Amz-Expires query parameter'')
          else case Atoi expiresRaw of
            None \<Rightarrow> Inl (invalidSecurity ''Invalid X-Amz-Expires query parameter'')
          | Some expires \<Rightarrow>
              if expires < 0 then Inl (invalidSecurity ''Invalid X-Amz-Expires query parameter'')
              else case parse_amz_date amzDate of
                None \<Rightarrow> Inl (invalidSecurity ''Invalid X-Amz-Date'')
              | Some ts \<Rightarrow>
                  if V_Now v > ts + wrap64 (expires * 1000000000) then Inl (invalidSecurity ''Signature expired'')
                  else check_signature v r rawBody True (Split (CHR '';'') (Values_Get q ''X-Amz-SignedHeaders'')) amzDate scope cred
                         (Values_Get q ''X-Amz-Signature''))"

definition hasHeaderAuth :: "ServerRequest \<Rightarrow> bool" where
  "hasHeaderAuth r \<longleftrightarrow> TrimSpace (Header_Get r ''Authorization'') \<noteq> []"

definition hasQueryAuth :: "url_values \<Rightarrow> bool" where
  "hasQueryAuth q \<longleftrightarrow> Values_Get q ''X-Amz-Algorithm'' \<noteq> [] \<or> Values_Get q ''X-Amz-Credential'' \<noteq> []"

definition Verify :: "Verifier \<Rightarrow> ServerRequest \<Rightarrow> string \<Rightarrow> bool \<Rightarrow> Identity res" where
  "Verify v r rawBody allowAnonymous =
     (if EqualFold (V_Mode v) ModeBypass then Inr (identity v)
      else if hasHeaderAuth r then
        (case verifyHeaderSignature v r rawBody of Inl e \<Rightarrow> Inl e | Inr _ \<Rightarrow> Inr (identity v))
      else if hasQueryAuth (URL_Query r) then
        (case verifyQuerySignature v r rawBody of Inl e \<Rightarrow> Inl e | Inr _ \<Rightarrow> Inr (identity v))
      else if allowAnonymous then Inr (identity v)
      else Inl (invalidSecurity ''Request must be signed with AWS Signature Version 4''))"

subsection \<open>What a verified request has\<close>

text \<open>The request carries a signature that a configured credential makes for it.\<close>

definition signed_by :: "Verifier \<Rightarrow> ServerRequest \<Rightarrow> string \<Rightarrow> bool \<Rightarrow> string \<Rightarrow> string \<Rightarrow> string list \<Rightarrow> string \<Rightarrow> bool" where
  "signed_by v r rawBody strip amzDate requestToken signedHeaders signature \<longleftrightarrow>
     (\<exists>key cred scope canonical. fmlookup (V_creds v) key = Some cred \<and>
        Scope_Region scope = V_Region v \<and> Scope_Service scope = V_Service v \<and> Scope_Term scope = ''aws4_request'' \<and>
        (SessionToken cred = [] \<or> requestToken = SessionToken cred) \<and>
        buildCanonicalRequest (V_Quote v) r rawBody signedHeaders strip = Inr canonical \<and>
        signature = expected_signature cred scope (buildStringToSign amzDate scope canonical))"

lemma resolved_credential:
  assumes "resolveCredential v raw token = Inr (scope, cred)"
  shows "\<exists>key. fmlookup (V_creds v) key = Some cred" "Scope_Region scope = V_Region v" "Scope_Service scope = V_Service v"
    "Scope_Term scope = ''aws4_request''" "SessionToken cred = [] \<or> token = SessionToken cred"
  using assms by (auto simp: resolveCredential_def split: list.splits option.splits if_splits)

lemma checked_signature:
  assumes "resolveCredential v raw token = Inr (scope, cred)"
    "check_signature v r rawBody strip signedHeaders amzDate scope cred signature = Inr u"
  shows "signed_by v r rawBody strip amzDate token signedHeaders signature"
  unfolding signed_by_def using resolved_credential [OF assms(1)] assms(2)
  by (auto simp: check_signature_def split: sum.splits if_splits)

lemma header_signed:
  assumes "verifyHeaderSignature v r rawBody = Inr u"
  shows "\<exists>names signature. signed_by v r rawBody False (Header_Get r ''X-Amz-Date'') (Header_Get r ''X-Amz-Security-Token'') names signature \<and>
    fmlookup (parseAuthFields (TrimPrefix (Header_Get r ''Authorization'') auth_prefix)) ''Signature'' = Some signature"
  using assms
  by (auto simp: verifyHeaderSignature_def Let_def split: if_splits option.splits sum.splits dest: checked_signature)

lemma query_signed:
  assumes "verifyQuerySignature v r rawBody = Inr u"
  shows "\<exists>names ts expires. signed_by v r rawBody True (Values_Get (URL_Query r) ''X-Amz-Date'') (Values_Get (URL_Query r) ''X-Amz-Security-Token'') names
      (Values_Get (URL_Query r) ''X-Amz-Signature'') \<and>
    parse_amz_date (Values_Get (URL_Query r) ''X-Amz-Date'') = Some ts \<and> Atoi (Values_Get (URL_Query r) ''X-Amz-Expires'') = Some expires \<and>
    0 \<le> expires \<and> V_Now v \<le> ts + wrap64 (expires * 1000000000)"
  using assms
  by (auto simp: verifyQuerySignature_def Let_def split: if_splits option.splits sum.splits dest: checked_signature)

text \<open>C7: Whoever a request is taken to come from is the configured account, and a request is accepted only in one of four
  ways: the verifier is in bypass mode; the request has neither form of signature and its action allows that;
  its Authorization header carries the signature that one of the configured credentials makes for the canonical
  form of this very request and body, in the scope of this region and service; or its query does, and has not expired.\<close>

theorem accepted_requests_signed:
  assumes "Verify v r rawBody allowAnonymous = Inr who"
  shows "who = identity v \<and>
    (EqualFold (V_Mode v) ModeBypass \<or>
     allowAnonymous \<and> \<not> hasHeaderAuth r \<and> \<not> hasQueryAuth (URL_Query r) \<or>
     (\<exists>names signature.
        signed_by v r rawBody False (Header_Get r ''X-Amz-Date'') (Header_Get r ''X-Amz-Security-Token'') names signature \<and>
        fmlookup (parseAuthFields (TrimPrefix (Header_Get r ''Authorization'') auth_prefix)) ''Signature'' = Some signature) \<or>
     (\<exists>names ts expires.
        signed_by v r rawBody True (Values_Get (URL_Query r) ''X-Amz-Date'') (Values_Get (URL_Query r) ''X-Amz-Security-Token'') names
          (Values_Get (URL_Query r) ''X-Amz-Signature'') \<and>
        parse_amz_date (Values_Get (URL_Query r) ''X-Amz-Date'') = Some ts \<and>
        Atoi (Values_Get (URL_Query r) ''X-Amz-Expires'') = Some expires \<and>
        0 \<le> expires \<and> V_Now v \<le> ts + wrap64 (expires * 1000000000)))"
  using assms header_signed [of v r rawBody] query_signed [of v r rawBody]
  unfolding Verify_def by (simp split: if_splits sum.splits)

subsection \<open>Canonical queries\<close>

text \<open>The replacer turns the form encoding into the percent encoding of RFC 3986.\<close>

definition aws_byte :: "char \<Rightarrow> string" where
  "aws_byte c =
     (if unreserved c then [c] else [CHR ''%'', upper_hex (byte_value c div 16), upper_hex (byte_value c mod 16)])"

lemma aws_replace_unreserved:
  assumes "unreserved c"
  shows "aws_replace (c # s) = c # aws_replace s"
proof -
  have "c \<noteq> CHR ''+''" "c \<noteq> CHR ''*''" "c \<noteq> CHR ''%''"
    using assms by (auto simp: unreserved_def byte_value_def)
  then show ?thesis by (simp add: HasPrefix_def)
qed

lemma byte_div_bound: "byte_value c div 16 < 16"
  by (rule less_mult_imp_div_less) simp

lemma digit_7: "digit_value 16 (CHR ''7'') = Some 7" and digit_E: "digit_value 16 (CHR ''E'') = Some 14"
  and byte_of_126: "byte_of 126 = CHR ''~''"
  by code_simp+

lemma aws_replace_byte: "aws_replace (escape_byte c @ s) = aws_byte c @ aws_replace s"
proof -
  have u: "unreserved (upper_hex (byte_value c div 16))" "unreserved (upper_hex (byte_value c mod 16))"
    by (rule upper_hex_unreserved, rule less_mult_imp_div_less, simp) (simp add: upper_hex_unreserved)
  have tilde: "unreserved (CHR ''~'')" and blank: "aws_byte (CHR '' '') = ''%20''" by code_simp+
  have "\<not> HasPrefix (CHR ''%'' # upper_hex (byte_value c div 16) # upper_hex (byte_value c mod 16) # s) ''%7E''" if "\<not> unreserved c"
  proof
    assume "HasPrefix (CHR ''%'' # upper_hex (byte_value c div 16) # upper_hex (byte_value c mod 16) # s) ''%7E''"
    then have "upper_hex (byte_value c div 16) = CHR ''7''" "upper_hex (byte_value c mod 16) = CHR ''E''"
      by (auto simp: HasPrefix_def)
    then have "byte_value c div 16 = 7" "byte_value c mod 16 = 14"
      using upper_hex_value [of "byte_value c div 16"] upper_hex_value [of "byte_value c mod 16"] byte_div_bound [of c]
      by (simp_all add: digit_E digit_7)
    then have "byte_value c = 126" by presburger
    then have "c = CHR ''~''" by (metis byte_of_value byte_of_126)
    with tilde that show False by simp
  qed
  note percent = this
  consider "unreserved c" | "\<not> unreserved c" "c = CHR '' ''" | "\<not> unreserved c" "c \<noteq> CHR '' ''" by blast
  then show ?thesis
  proof cases
    case 1
    then show ?thesis by (simp only: escape_byte_def aws_byte_def if_True append.simps aws_replace_unreserved)
  next
    case 2
    then show ?thesis unfolding 2(2) blank by (simp add: escape_byte_def)
  next
    case 3
    have "aws_replace (CHR ''%'' # upper_hex (byte_value c div 16) # upper_hex (byte_value c mod 16) # s) =
        CHR ''%'' # aws_replace (upper_hex (byte_value c div 16) # upper_hex (byte_value c mod 16) # s)"
      using percent [OF 3(1)] by (subst aws_replace.simps) simp
    also have "\<dots> = CHR ''%'' # upper_hex (byte_value c div 16) # upper_hex (byte_value c mod 16) # aws_replace s"
      by (simp only: aws_replace_unreserved u)
    finally show ?thesis using 3 by (simp add: escape_byte_def aws_byte_def del: aws_replace.simps)
  qed
qed

lemma awsQueryEscape_bytes: "awsQueryEscape s = concat (map aws_byte s)"
proof (induction s)
  case (Cons c s)
  then show ?case by (simp add: awsQueryEscape_def QueryEscape_def aws_replace_byte)
qed (simp add: awsQueryEscape_def QueryEscape_def)

definition aws_pair :: "string \<times> string \<Rightarrow> string" where
  "aws_pair p = awsQueryEscape (fst p) @ ''='' @ awsQueryEscape (snd p)"

definition canonical_keys :: "url_values \<Rightarrow> bool \<Rightarrow> string list" where
  "canonical_keys v strip = filter (\<lambda>k. \<not> (strip \<and> k = ''X-Amz-Signature'')) (sorted_keys v)"

definition canonical_pairs :: "url_values \<Rightarrow> bool \<Rightarrow> (string \<times> string) list" where
  "canonical_pairs v strip = concat (map (\<lambda>k. map (Pair k) (sort (values_of v k))) (canonical_keys v strip))"

lemma canonicalQuery_pairs: "canonicalQuery v strip = Join (map aws_pair (canonical_pairs v strip)) ''&''"
  by (simp add: canonicalQuery_def canonical_pairs_def canonical_keys_def map_concat o_def aws_pair_def)

lemma unescape_aws: "QueryUnescape (concat (map aws_byte s)) = Some s"
proof (induction s)
  case (Cons c s)
  have "QueryUnescape (aws_byte c @ t) = map_option ((#) c) (QueryUnescape t)" for t
  proof -
    have "16 * (byte_value c div 16) + byte_value c mod 16 = byte_value c" by simp
    moreover have "\<not> unreserved (CHR ''%'')" "\<not> unreserved (CHR ''+'')" by code_simp+
    ultimately show ?thesis by (auto simp: aws_byte_def upper_hex_value byte_div_bound)
  qed
  with Cons show ?case by simp
qed simp

lemma aws_escape_chars: "x \<in> set (awsQueryEscape s) \<Longrightarrow> unreserved x \<or> x = CHR ''%''"
proof -
  have "unreserved (upper_hex (byte_value c div 16))" "unreserved (upper_hex (byte_value c mod 16))" for c
    by (rule upper_hex_unreserved, rule byte_div_bound) (simp add: upper_hex_unreserved)
  then show "x \<in> set (awsQueryEscape s) \<Longrightarrow> unreserved x \<or> x = CHR ''%''"
    by (auto simp: awsQueryEscape_bytes aws_byte_def split: if_splits)
qed

lemma aws_separators:
  "CHR ''&'' \<notin> set (awsQueryEscape s)" "CHR ''='' \<notin> set (awsQueryEscape s)" "CHR '';'' \<notin> set (awsQueryEscape s)"
proof -
  have "\<not> unreserved (CHR ''&'')" "\<not> unreserved (CHR ''='')" "\<not> unreserved (CHR '';'')" by code_simp+
  then show "CHR ''&'' \<notin> set (awsQueryEscape s)" "CHR ''='' \<notin> set (awsQueryEscape s)" "CHR '';'' \<notin> set (awsQueryEscape s)"
    using aws_escape_chars by fastforce+
qed

lemma parse_aws_pair: "parse_parts (aws_pair p # parts) m e = parse_parts parts (Values_Add p m) e"
proof -
  have "CHR '';'' \<notin> set (aws_pair p)" "aws_pair p \<noteq> []"
    "Cut (CHR ''='') (aws_pair p) = Some (awsQueryEscape (fst p), awsQueryEscape (snd p))"
    by (auto simp: aws_pair_def aws_separators)
  moreover have "QueryUnescape (awsQueryEscape x) = Some x" for x by (simp add: awsQueryEscape_bytes unescape_aws)
  ultimately show ?thesis by simp
qed

lemma parse_aws_pairs: "parse_parts (map aws_pair ps) m e = (fold Values_Add ps m, e)"
  by (induction ps arbitrary: m) (simp_all add: parse_aws_pair del: parse_parts.simps(2))

text \<open>The canonical query can be read back.\<close>

lemma decode_canonical:
  "parse_parts (Split (CHR ''&'') (canonicalQuery v strip)) fmempty None = (fold Values_Add (canonical_pairs v strip) fmempty, None)"
proof (cases "canonical_pairs v strip = []")
  case False
  have "Split (CHR ''&'') (Join (map aws_pair (canonical_pairs v strip)) ''&'') = map aws_pair (canonical_pairs v strip)"
    using False by (intro Split_Join) (auto simp: aws_pair_def aws_separators)
  then show ?thesis by (simp add: canonicalQuery_pairs parse_aws_pairs)
qed (simp add: canonicalQuery_pairs)

lemma filter_key_pairs:
  "distinct ks \<Longrightarrow> filter (\<lambda>p. fst p = k) (concat (map (\<lambda>k. map (Pair k) (f k)) ks)) = (if k \<in> set ks then map (Pair k) (f k) else [])"
proof (induction ks)
  case (Cons a ks)
  then show ?case by (cases "a = k") (auto simp: filter_map o_def)
qed simp

lemma canonical_values:
  assumes "\<not> (strip \<and> k = ''X-Amz-Signature'')"
  shows "values_of (fold Values_Add (canonical_pairs v strip) fmempty) k = sort (values_of v k)"
proof -
  have "distinct (canonical_keys v strip)" by (simp add: canonical_keys_def)
  note f = filter_key_pairs [OF this, where k = k and f = "\<lambda>k. sort (values_of v k)"]
  have "k \<notin> set (canonical_keys v strip) \<Longrightarrow> values_of v k = []"
    using assms by (auto simp: canonical_keys_def values_of_def fmdom_notD)
  then show ?thesis unfolding values_of_fold canonical_pairs_def f
    by (auto simp: values_of_def o_def split: option.splits)
qed

lemma canonical_keys_eq:
  assumes "\<forall>k. fmlookup v k \<noteq> Some []" "\<forall>k. fmlookup w k \<noteq> Some []"
    "\<forall>k. \<not> (strip \<and> k = ''X-Amz-Signature'') \<longrightarrow> mset (values_of v k) = mset (values_of w k)"
  shows "canonical_keys v strip = canonical_keys w strip"
proof (rule sorted_distinct_set_unique)
  have "k |\<in>| fmdom x \<longleftrightarrow> values_of x k \<noteq> []" if "\<forall>k. fmlookup x k \<noteq> Some []" for x :: url_values and k
    using that by (auto simp: values_of_def fmlookup_dom_iff split: option.splits)
  moreover have "values_of v k = [] \<longleftrightarrow> values_of w k = []" if "\<not> (strip \<and> k = ''X-Amz-Signature'')" for k
    using assms(3) that by (metis mset_zero_iff)
  ultimately show "set (canonical_keys v strip) = set (canonical_keys w strip)"
    using assms(1,2) by (auto simp: canonical_keys_def)
qed (simp_all add: canonical_keys_def sorted_wrt_filter)

text \<open>C34: The canonical query that is signed stands for the parameters of the request and nothing else: two forms have the same
  canonical query exactly when every parameter has the same values in both, in whatever order, the signature of a
  presigned URL apart.  So no parameter can be added, dropped or changed under a signature, whatever bytes it holds.\<close>

theorem canonical_query_faithful:
  assumes "\<forall>k. fmlookup v k \<noteq> Some []" "\<forall>k. fmlookup w k \<noteq> Some []"
  shows "canonicalQuery v strip = canonicalQuery w strip \<longleftrightarrow>
    (\<forall>k. \<not> (strip \<and> k = ''X-Amz-Signature'') \<longrightarrow> mset (values_of v k) = mset (values_of w k))"
proof
  assume "canonicalQuery v strip = canonicalQuery w strip"
  then have "fold Values_Add (canonical_pairs v strip) fmempty = fold Values_Add (canonical_pairs w strip) fmempty"
    using decode_canonical [of v strip] decode_canonical [of w strip] by simp
  then have "sort (values_of v k) = sort (values_of w k)" if "\<not> (strip \<and> k = ''X-Amz-Signature'')" for k
    using canonical_values [OF that] by metis
  then show "\<forall>k. \<not> (strip \<and> k = ''X-Amz-Signature'') \<longrightarrow> mset (values_of v k) = mset (values_of w k)" by (metis mset_sort)
next
  assume m: "\<forall>k. \<not> (strip \<and> k = ''X-Amz-Signature'') \<longrightarrow> mset (values_of v k) = mset (values_of w k)"
  have "sort (values_of v k) = sort (values_of w k)" if "k \<in> set (canonical_keys v strip)" for k
    using m that properties_for_sort [of "sort (values_of v k)" "values_of w k"] by (auto simp: canonical_keys_def)
  then have "canonical_pairs v strip = canonical_pairs w strip"
    unfolding canonical_pairs_def canonical_keys_eq [OF assms m, symmetric] by (metis (mono_tags, lifting) map_eq_conv)
  then show "canonicalQuery v strip = canonicalQuery w strip" by (simp add: canonicalQuery_pairs)
qed

subsection \<open>Signing and verifying\<close>

text \<open>What a client does to sign a request in its header: the Authorization header for a credential, a scope and a
  list of headers to sign.\<close>

definition credential_text :: "Credential \<Rightarrow> credentialScope \<Rightarrow> string" where
  "credential_text cred scope =
     Join [AccessKeyID cred, Scope_Date scope, Scope_Region scope, Scope_Service scope, Scope_Term scope] ''/''"

definition auth_header :: "Credential \<Rightarrow> credentialScope \<Rightarrow> string list \<Rightarrow> string \<Rightarrow> string" where
  "auth_header cred scope signedHeaders signature =
     auth_prefix @ ''Credential='' @ credential_text cred scope @ '', SignedHeaders='' @ Join signedHeaders '';'' @
     '', Signature='' @ signature"

definition sign_request :: "Credential \<Rightarrow> credentialScope \<Rightarrow> string list \<Rightarrow> ServerRequest \<Rightarrow> string \<Rightarrow> ServerRequest" where
  "sign_request cred scope signedHeaders r canonical =
     r\<lparr>R_Header := fmupd ''Authorization''
         [auth_header cred scope signedHeaders
            (expected_signature cred scope (buildStringToSign (Header_Get r ''X-Amz-Date'') scope canonical))] (R_Header r)\<rparr>"

definition plain_text :: "string \<Rightarrow> bool" where
  "plain_text s \<longleftrightarrow> s \<noteq> [] \<and> list_all (\<lambda>c. plain_char c \<and> c \<notin> set '',/;'') s"

lemma plain_textD: "plain_text s \<Longrightarrow> s \<noteq> [] \<and> (\<forall>c \<in> set s. plain_char c \<and> c \<noteq> CHR '','' \<and> c \<noteq> CHR ''/'' \<and> c \<noteq> CHR '';'')"
  by (auto simp: plain_text_def list_all_iff)

lemma Join_chars: "x \<in> set (Join ss sep) \<Longrightarrow> x \<in> set sep \<or> (\<exists>s \<in> set ss. x \<in> set s)"
  by (induction ss sep rule: Join.induct) auto

lemma Join_not_Nil: "ss \<noteq> [] \<Longrightarrow> hd ss \<noteq> [] \<Longrightarrow> Join ss sep \<noteq> []"
  by (induction ss sep rule: Join.induct) auto

lemma trim_plain:
  assumes "\<forall>c \<in> set s. plain_char c"
  shows "TrimSpace s = s" "TrimSpace (CHR '' '' # s) = s"
proof -
  show s: "TrimSpace s = s"
    using assms TrimSpace_plain [of s] by (cases "s = []") (auto simp: hd_in_set)
  have "strip_any space_encodings (CHR '' '' # s) = Some s" by (simp add: space_encodings_def HasPrefix_def)
  then have "trim_left space_encodings (CHR '' '' # s) = trim_left space_encodings s" by (simp add: trim_left.simps [of _ "CHR '' '' # s"])
  then show "TrimSpace (CHR '' '' # s) = s" using s by (simp add: TrimSpace_def)
qed

definition plain_scope :: "credentialScope \<Rightarrow> bool" where
  "plain_scope scope \<longleftrightarrow>
     plain_text (Scope_Date scope) \<and> plain_text (Scope_Region scope) \<and> plain_text (Scope_Service scope) \<and> plain_text (Scope_Term scope)"

lemma parse_auth_header:
  assumes cred: "plain_text (AccessKeyID cred)" "plain_scope scope"
    and names: "\<forall>n \<in> set signedHeaders. plain_text n" and sig: "\<forall>c \<in> set signature. plain_char c \<and> c \<noteq> CHR '',''"
  shows "parseAuthFields (TrimPrefix (auth_header cred scope signedHeaders signature) auth_prefix) =
    fmupd ''Signature'' signature (fmupd ''SignedHeaders'' (Join signedHeaders '';'') (fmupd ''Credential'' (credential_text cred scope) fmempty))"
proof -
  define a where "a = ''Credential='' @ credential_text cred scope"
  define b where "b = ''SignedHeaders='' @ Join signedHeaders '';''"
  define c where "c = ''Signature='' @ signature"
  define ok where "ok x \<longleftrightarrow> plain_char x \<and> x \<noteq> CHR '',''" for x
  have lit: "list_all ok ''Credential=''" "list_all ok ''SignedHeaders=''" "list_all ok ''Signature=''" "ok (CHR ''/'')" "ok (CHR '';'')"
    by (simp_all add: ok_def plain_char_def byte_value_def)
  have parts: "ok x" if "x \<in> set s" "plain_text s" for x s
    using plain_textD [OF that(2)] that(1) by (simp add: ok_def)
  have joined: "list_all ok (Join ss [sep])" if "\<forall>s \<in> set ss. plain_text s" "ok sep" for ss sep
    using that parts by (fastforce simp: list_all_iff dest: Join_chars)
  have pa: "list_all ok a" using cred lit joined [of _ "CHR ''/''"] by (simp add: a_def credential_text_def plain_scope_def del: Join.simps)
  have pb: "list_all ok b" using names lit joined [of signedHeaders "CHR '';''"] by (simp add: b_def)
  have pc: "list_all ok c" using sig lit by (simp add: c_def list_all_iff ok_def)
  have raw: "TrimPrefix (auth_header cred scope signedHeaders signature) auth_prefix = a @ CHR '','' # (CHR '' '' # b) @ CHR '','' # (CHR '' '' # c)"
    by (simp add: TrimPrefix_def auth_header_def a_def b_def c_def)
  have "\<not> ok (CHR '','')" by (simp add: ok_def)
  then have comma: "CHR '','' \<notin> set a" "CHR '','' \<notin> set (CHR '' '' # b)" "CHR '','' \<notin> set (CHR '' '' # c)"
    using pa pb pc by (auto simp: list_all_iff)
  have "Split (CHR '','') (a @ CHR '','' # (CHR '' '' # b) @ CHR '','' # (CHR '' '' # c)) = [a, CHR '' '' # b, CHR '' '' # c]"
    by (simp only: Split_append_sep [OF comma(1)] Split_append_sep [OF comma(2)] Split_no_sep [OF comma(3)])
  moreover have "TrimSpace a = a" "TrimSpace (CHR '' '' # b) = b" "TrimSpace (CHR '' '' # c) = c"
    using pa pb pc by (simp_all add: trim_plain list_all_iff ok_def)
  moreover have "Cut (CHR ''='') a = Some (''Credential'', credential_text cred scope)"
    "Cut (CHR ''='') b = Some (''SignedHeaders'', Join signedHeaders '';'')" "Cut (CHR ''='') c = Some (''Signature'', signature)"
    by (simp_all add: a_def b_def c_def)
  ultimately show ?thesis unfolding raw parseAuthFields_def by simp
qed

lemma Split_slash:
  assumes "plain_text (AccessKeyID cred)" "plain_scope scope"
  shows "Split (CHR ''/'') (credential_text cred scope) =
    [AccessKeyID cred, Scope_Date scope, Scope_Region scope, Scope_Service scope, Scope_Term scope]"
  unfolding credential_text_def using assms by (intro Split_Join) (auto simp: plain_scope_def dest: plain_textD)

lemma hex_plain: "c \<in> set (hex_encode s) \<Longrightarrow> plain_char c \<and> c \<noteq> CHR '',''"
proof -
  have "\<forall>c \<in> set digit_alphabet. plain_char c \<and> c \<noteq> CHR '',''" by (simp add: digit_alphabet_def plain_char_def byte_value_def)
  moreover have "digit_char (byte_value x div 16) \<in> set digit_alphabet" "digit_char (byte_value x mod 16) \<in> set digit_alphabet" for x
    using byte_div_bound [of x] by (simp_all add: digit_char_def nth_mem less_trans [OF mod_less_divisor])
  ultimately show "c \<in> set (hex_encode s) \<Longrightarrow> plain_char c \<and> c \<noteq> CHR '',''"
    by (auto simp: hex_encode_def)
qed

lemma strip_any_keeps:
  assumes "strip_any (map rev space_encodings) s = Some t" "CHR ''A'' \<in> set s"
  shows "CHR ''A'' \<in> set t"
proof -
  have "strip_any ps s = Some t \<Longrightarrow> \<exists>p \<in> set ps. s = p @ t" for ps
    by (induction ps) (auto simp: HasPrefix_iff split: if_splits)
  from this [OF assms(1)] obtain p where "p \<in> set (map rev space_encodings)" "s = p @ t" by blast
  moreover have "\<forall>p \<in> set (map rev space_encodings). CHR ''A'' \<notin> set p" by (simp add: space_encodings_def)
  ultimately show ?thesis using assms(2) by auto
qed

lemma auth_header_visible: "TrimSpace (auth_header cred scope names signature) \<noteq> []"
proof -
  obtain rest where h: "auth_header cred scope names signature = CHR ''A'' # rest" by (simp add: auth_header_def auth_prefix_def)
  have p: "plain_char (CHR ''A'')" by (simp add: plain_char_def byte_value_def)
  have l: "trim_left space_encodings (CHR ''A'' # rest) = CHR ''A'' # rest"
    by (intro trim_left_fixed strip_any_head space_encodings_heads p)
  have "trim_left (map rev space_encodings) s \<noteq> []" if "CHR ''A'' \<in> set s" for s
    using that
  proof (induction "length s" arbitrary: s rule: less_induct)
    case less
    show ?case
    proof (cases "strip_any (map rev space_encodings) s")
      case None
      then show ?thesis using less.prems by (auto simp: trim_left_fixed)
    next
      case (Some t)
      then have "CHR ''A'' \<in> set t" using less.prems strip_any_keeps by blast
      with less.hyps [OF strip_any_shorter [OF Some]] Some show ?thesis by (simp add: trim_left.simps [of _ s])
    qed
  qed
  then show ?thesis unfolding TrimSpace_def h l by simp
qed

text \<open>The Authorization header is not among the signed ones, so adding it changes nothing that is signed.\<close>

definition not_auth :: "string \<Rightarrow> bool" where
  "not_auth k \<longleftrightarrow> CanonicalHeaderKey k \<noteq> ''Authorization'' \<and> CanonicalHeaderKey (CanonicalHeaderKey k) \<noteq> ''Authorization''"

abbreviation with_auth :: "ServerRequest \<Rightarrow> string list \<Rightarrow> ServerRequest" where
  "with_auth r a \<equiv> r\<lparr>R_Header := fmupd ''Authorization'' a (R_Header r)\<rparr>"

lemma with_auth_values: "CanonicalHeaderKey k \<noteq> ''Authorization'' \<Longrightarrow> Header_Values (with_auth r a) k = Header_Values r k"
  by (auto simp: Header_Values_def)

lemma with_auth_get: "CanonicalHeaderKey k \<noteq> ''Authorization'' \<Longrightarrow> Header_Get (with_auth r a) k = Header_Get r k"
  by (simp add: Header_Get_def with_auth_values)

lemma header_lines_auth:
  "\<forall>n \<in> set names. not_auth (ToLower (TrimSpace n)) \<Longrightarrow> header_lines qt (with_auth r a) names = header_lines qt r names"
proof (induction names)
  case (Cons n names)
  have "header_line qt (with_auth r a) (ToLower (TrimSpace n)) = header_line qt r (ToLower (TrimSpace n))"
    using Cons.prems by (simp add: header_line_def with_auth_values not_auth_def Let_def)
  then show ?case using Cons by (simp add: Let_def cong: sum.case_cong)
qed simp

lemma canonical_auth:
  "\<forall>n \<in> set names. not_auth (ToLower (TrimSpace n)) \<Longrightarrow>
   buildCanonicalRequest qt (with_auth r a) body names strip = buildCanonicalRequest qt r body names strip"
  by (simp add: buildCanonicalRequest_def buildCanonicalHeaders_def header_lines_auth canonicalURI_def EscapedPath_def URL_Query_def cong: sum.case_cong)

lemma signed_header_verifies:
  assumes "fmlookup (V_creds v) (AccessKeyID cred) = Some cred" "Scope_Region scope = V_Region v"
    "Scope_Service scope = V_Service v" "Scope_Term scope = ''aws4_request''"
    "SessionToken cred = [] \<or> Header_Get r ''X-Amz-Security-Token'' = SessionToken cred" "Header_Get r ''X-Amz-Date'' \<noteq> []"
    "plain_text (AccessKeyID cred)" "plain_scope scope" "names \<noteq> []"
    "\<forall>n \<in> set names. plain_text n \<and> not_auth (ToLower (TrimSpace n))"
    "buildCanonicalRequest (V_Quote v) r body names False = Inr canonical"
  shows "verifyHeaderSignature v (sign_request cred scope names r canonical) body = Inr ()"
    "hasHeaderAuth (sign_request cred scope names r canonical)"
proof -
  let ?sig = "expected_signature cred scope (buildStringToSign (Header_Get r ''X-Amz-Date'') scope canonical)"
  let ?a = "auth_header cred scope names ?sig" and ?r = "sign_request cred scope names r canonical"
  have r: "?r = with_auth r [?a]" by (simp add: sign_request_def)
  have keys: "CanonicalHeaderKey ''X-Amz-Date'' \<noteq> ''Authorization''" "CanonicalHeaderKey ''X-Amz-Security-Token'' \<noteq> ''Authorization''"
    "CanonicalHeaderKey ''Authorization'' = ''Authorization''" by code_simp+
  have auth: "Header_Get ?r ''Authorization'' = ?a" by (simp add: r Header_Get_def Header_Values_def keys(3))
  show "hasHeaderAuth ?r" unfolding hasHeaderAuth_def auth by (rule auth_header_visible)
  have fields: "parseAuthFields (TrimPrefix ?a auth_prefix) =
      fmupd ''Signature'' ?sig (fmupd ''SignedHeaders'' (Join names '';'') (fmupd ''Credential'' (credential_text cred scope) fmempty))"
    using assms(7,8,10) hex_plain by (intro parse_auth_header) (auto simp: expected_signature_def)
  have split: "Split (CHR '';'') (Join names '';'') = names"
    using assms(9,10) by (intro Split_Join) (auto dest: plain_textD)
  have res: "resolveCredential v (credential_text cred scope) (Header_Get ?r ''X-Amz-Security-Token'') = Inr (scope, cred)"
    unfolding resolveCredential_def Split_slash [OF assms(7,8)] r with_auth_get [OF keys(2)]
    using assms(1-5) by (cases scope) auto
  have "check_signature v ?r body False names (Header_Get r ''X-Amz-Date'') scope cred ?sig = Inr ()"
    unfolding check_signature_def r using assms(10) by (subst canonical_auth) (auto simp: assms(11))
  moreover have "HasPrefix ?a auth_prefix" by (simp add: auth_header_def)
  ultimately show "verifyHeaderSignature v ?r body = Inr ()"
    unfolding verifyHeaderSignature_def auth Let_def fields using assms(6)
    by (simp add: res split with_auth_get [OF keys(1), folded r]) (simp add: r with_auth_get [OF keys(1)])
qed

text \<open>C8: A request that a client signs in its header with a configured credential, for this region and service, is accepted
  as the configured account: the verifier recomputes exactly the signature the client made, for every method, path, query,
  body and choice of signed headers that the request has, as long as the names in the header are plain.\<close>

theorem signed_request_accepted:
  assumes "fmlookup (V_creds v) (AccessKeyID cred) = Some cred" "Scope_Region scope = V_Region v"
    "Scope_Service scope = V_Service v" "Scope_Term scope = ''aws4_request''"
    "SessionToken cred = [] \<or> Header_Get r ''X-Amz-Security-Token'' = SessionToken cred" "Header_Get r ''X-Amz-Date'' \<noteq> []"
    "plain_text (AccessKeyID cred)" "plain_scope scope" "names \<noteq> []"
    "\<forall>n \<in> set names. plain_text n \<and> not_auth (ToLower (TrimSpace n))"
    "buildCanonicalRequest (V_Quote v) r body names False = Inr canonical"
  shows "Verify v (sign_request cred scope names r canonical) body allowAnonymous = Inr (identity v)"
  using signed_header_verifies [OF assms] by (simp add: Verify_def)

text \<open>The verification of a header signature does not read the clock: a signed request can be repeated for ever.  The
  date of the scope and the date of the request are not compared either.\<close>

lemma header_signature_never_expires:
  "verifyHeaderSignature (v\<lparr>V_Now := t\<rparr>) r rawBody = verifyHeaderSignature v r rawBody"
proof -
  have "resolveCredential (v\<lparr>V_Now := t\<rparr>) = resolveCredential v"
    by (rule ext)+ (auto simp: resolveCredential_def split: list.split option.split)
  moreover have "check_signature (v\<lparr>V_Now := t\<rparr>) = check_signature v"
    by (rule ext)+ (simp add: check_signature_def)
  ultimately show ?thesis by (simp only: verifyHeaderSignature_def)
qed

subsection \<open>Concrete instances\<close>

definition sample_credential :: Credential where
  "sample_credential = \<lparr>AccessKeyID = ''AKID'', SecretAccessKey = ''secret'', SessionToken = []\<rparr>"

definition sample_verifier :: Verifier where
  "sample_verifier = NewVerifier ''1'' ''us-east-1'' ModeStrict [sample_credential] 0 (\<lambda>s. s)"

definition sample_scope :: credentialScope where
  "sample_scope = \<lparr>Scope_Date = ''20240101'', Scope_Region = ''us-east-1'', Scope_Service = ''sns'', Scope_Term = ''aws4_request''\<rparr>"

definition sample_http_request :: ServerRequest where
  "sample_http_request =
     \<lparr>R_Method = ''POST'', R_Host = ''localhost'', R_Path = ''/'', R_RawPath = [], R_RawQuery = [],
      R_Header = fmap_of_list [(''X-Amz-Date'', [''20240101T000000Z''])]\<rparr>"

lemma sample_signing:
  obtains canonical where "buildCanonicalRequest (V_Quote sample_verifier) sample_http_request body [''host'', ''x-amz-date''] False = Inr canonical"
proof -
  have "\<not> is_err (header_lines (\<lambda>s. s) sample_http_request [''host'', ''x-amz-date''])" by code_simp
  then obtain ls where "header_lines (\<lambda>s. s) sample_http_request [''host'', ''x-amz-date''] = Inr ls"
    by (cases "header_lines (\<lambda>s. s) sample_http_request [''host'', ''x-amz-date'']") auto
  then show thesis using that
    by (simp add: buildCanonicalRequest_def buildCanonicalHeaders_def sample_verifier_def NewVerifier_def)
qed

lemma sample_signing_facts:
  "fmlookup (V_creds sample_verifier) (AccessKeyID sample_credential) = Some sample_credential"
  "Scope_Region sample_scope = V_Region sample_verifier" "Scope_Service sample_scope = V_Service sample_verifier"
  "Scope_Term sample_scope = ''aws4_request''"
  "SessionToken sample_credential = [] \<or> Header_Get sample_http_request ''X-Amz-Security-Token'' = SessionToken sample_credential"
  "Header_Get sample_http_request ''X-Amz-Date'' \<noteq> []" "plain_text (AccessKeyID sample_credential)" "plain_scope sample_scope"
  "[''host'', ''x-amz-date''] \<noteq> []" "\<forall>n \<in> set [''host'', ''x-amz-date'']. plain_text n \<and> not_auth (ToLower (TrimSpace n))"
  by code_simp+

theorem signed_request_accepted_witness:
  "\<exists>r. Verify sample_verifier r ''Action=ListTopics'' False = Inr (identity sample_verifier)"
proof -
  obtain canonical where "buildCanonicalRequest (V_Quote sample_verifier) sample_http_request ''Action=ListTopics'' [''host'', ''x-amz-date''] False = Inr canonical"
    by (rule sample_signing)
  from signed_request_accepted [OF sample_signing_facts this] show ?thesis by blast
qed

theorem accepted_requests_signed_witness:
  "\<exists>r names signature. Verify sample_verifier r ''Action=ListTopics'' False = Inr (identity sample_verifier) \<and>
     signed_by sample_verifier r ''Action=ListTopics'' False (Header_Get r ''X-Amz-Date'') (Header_Get r ''X-Amz-Security-Token'') names signature"
proof -
  let ?body = "''Action=ListTopics''"
  obtain canonical where c: "buildCanonicalRequest (V_Quote sample_verifier) sample_http_request ?body [''host'', ''x-amz-date''] False = Inr canonical"
    by (rule sample_signing)
  let ?r = "sign_request sample_credential sample_scope [''host'', ''x-amz-date''] sample_http_request canonical"
  have v: "Verify sample_verifier ?r ?body False = Inr (identity sample_verifier)"
    using signed_header_verifies [OF sample_signing_facts c] by (simp add: Verify_def)
  have "\<not> EqualFold (V_Mode sample_verifier) ModeBypass" by code_simp
  moreover have "Values_Get (URL_Query ?r) ''X-Amz-Date'' = []"
    by (simp add: sign_request_def sample_http_request_def URL_Query_def ParseQuery_def max_params_def Values_Get_def values_of_def)
  moreover have "parse_amz_date [] = None" by code_simp
  ultimately show ?thesis using accepted_requests_signed [OF v] v by auto
qed

theorem canonical_query_faithful_witness:
  "canonicalQuery (fmap_of_list [(''a'', [''1'', ''2'']), (''X-Amz-Signature'', [''s''])]) True =
   canonicalQuery (fmap_of_list [(''a'', [''2'', ''1''])]) True"
proof -
  let ?v = "fmap_of_list [(''a'', [''1'', ''2'']), (''X-Amz-Signature'', [''s''])]" and ?w = "fmap_of_list [(''a'', [''2'', ''1''])]"
  have "\<forall>k. fmlookup ?v k \<noteq> Some []" "\<forall>k. fmlookup ?w k \<noteq> Some []" by (simp_all)
  from canonical_query_faithful [OF this, of True] show ?thesis by (auto simp: values_of_def)
qed

end
