(* ===== verification/Go_HTTP.thy ===== *)
theory Go_HTTP
  imports Sigv4
begin

text \<open>
  What the API server uses of \<^verbatim>\<open>net/http\<close> and \<^verbatim>\<open>mime\<close> to read a request: the media type of the
  body and \<^verbatim>\<open>Request.ParseForm\<close>, which takes the parameters from a form in the body and from the query.
\<close>

subsection \<open>Media types\<close>

definition isTSpecial :: "char \<Rightarrow> bool" where
  "isTSpecial c \<longleftrightarrow> c \<in> set ''()<>@,;:/[]?='' \<or> c = CHR 0x22 \<or> c = CHR 0x5C"

definition isTokenChar :: "char \<Rightarrow> bool" where
  "isTokenChar c \<longleftrightarrow> 0x20 < byte_value c \<and> byte_value c < 0x7F \<and> \<not> isTSpecial c"

definition consumeToken :: "string \<Rightarrow> string \<times> string" where
  "consumeToken v = (takeWhile isTokenChar v, dropWhile isTokenChar v)"

text \<open>The runes outside ASCII whose lower case is an ASCII letter are U+0130 and U+212A; every other rune outside
  ASCII stays outside and is no token.\<close>

fun mime_lower :: "string \<Rightarrow> string" where
  "mime_lower (a # b # c # s) =
     (if [a, b] = [CHR 0xC4, CHR 0xB0] then CHR ''i'' # mime_lower (c # s)
      else if [a, b, c] = [CHR 0xE2, CHR 0x84, CHR 0xAA] then CHR ''k'' # mime_lower s
      else lower_char a # mime_lower (b # c # s))"
| "mime_lower [a, b] = (if [a, b] = [CHR 0xC4, CHR 0xB0] then ''i'' else [lower_char a, lower_char b])"
| "mime_lower s = ToLower s"

definition checkMediaTypeDisposition :: "string \<Rightarrow> bool" where
  "checkMediaTypeDisposition s =
     (case consumeToken s of (typ, r) \<Rightarrow>
      typ \<noteq> [] \<and>
      (r = [] \<or> HasPrefix r ''/'' \<and>
         (case consumeToken (drop 1 r) of (subtype, r') \<Rightarrow> subtype \<noteq> [] \<and> r' = [])))"

fun consume_quoted :: "string \<Rightarrow> (string \<times> string) option" where
  "consume_quoted [] = None"
| "consume_quoted (c # s) =
     (if c = CHR 0x22 then Some ([], s)
      else case s of
             d # s' \<Rightarrow>
               if c = CHR 0x5C \<and> isTSpecial d then map_option (\<lambda>(v, r). (d # v, r)) (consume_quoted s')
               else if c = CHR 0x0D \<or> c = CHR 0x0A then None
               else map_option (\<lambda>(v, r). (c # v, r)) (consume_quoted s)
           | [] \<Rightarrow> None)"

declare consume_quoted.simps(2) [simp del]

definition consumeValue :: "string \<Rightarrow> string \<times> string" where
  "consumeValue v =
     (case v of
        [] \<Rightarrow> ([], [])
      | c # s \<Rightarrow>
          if c \<noteq> CHR 0x22 then consumeToken v
          else (case consume_quoted s of None \<Rightarrow> ([], v) | Some p \<Rightarrow> p))"

abbreviation trim_space_left :: "string \<Rightarrow> string" where
  "trim_space_left \<equiv> trim_left space_encodings"

text \<open>\<^verbatim>\<open>consumeMediaParam\<close>: the parameter, its value and the rest, \<open>None\<close> when there is no parameter to read.\<close>

definition consumeMediaParam :: "string \<Rightarrow> (string \<times> string \<times> string) option" where
  "consumeMediaParam v =
     (let r = trim_space_left v in
      if \<not> HasPrefix r '';'' then None
      else case consumeToken (trim_space_left (drop 1 r)) of
             (param, r) \<Rightarrow>
               if param = [] \<or> \<not> HasPrefix (trim_space_left r) ''='' then None
               else let r = trim_space_left (drop 1 (trim_space_left r)) in
                    case consumeValue r of
                      (x, r2) \<Rightarrow> if x = [] \<and> r2 = r then None else Some (ToLower param, x, r2))"

lemma trim_left_length: "length (trim_left ps s) \<le> length s"
proof (induction ps s rule: trim_left.induct)
  case (1 ps s)
  show ?case
  proof (cases "strip_any ps s")
    case (Some r)
    with 1 [OF Some] strip_any_shorter [OF Some] show ?thesis by (simp add: trim_left.simps [of ps s])
  qed (simp add: trim_left.simps [of ps s])
qed

lemma consume_quoted_length: "consume_quoted s = Some (v, r) \<Longrightarrow> length r < length s"
proof (induction "length s" arbitrary: s v r rule: less_induct)
  case less
  have ih: "consume_quoted t = Some (u, r) \<Longrightarrow> length t < length s \<Longrightarrow> length r < length s" for t u
    using less.hyps [of t u r] by simp
  obtain c t where s: "s = c # t" using less.prems by (cases s) auto
  show ?case
  proof (cases t)
    case Nil
    with s less.prems show ?thesis by (auto simp: consume_quoted.simps(2) [of c "[]"] split: if_splits)
  next
    case (Cons d u)
    with s less.prems ih show ?thesis by (auto simp: consume_quoted.simps(2) [of c "d # u"] split: if_splits)
  qed
qed

lemma consumeValue_length: "length (snd (consumeValue v)) \<le> length v"
proof (cases v)
  case (Cons c s)
  have "consume_quoted s = Some p \<Longrightarrow> length (snd p) \<le> Suc (length s)" for p
    using consume_quoted_length [of s "fst p" "snd p"] by simp
  moreover have "length (dropWhile isTokenChar v) \<le> length v" by (rule length_dropWhile_le)
  ultimately show ?thesis by (simp add: consumeValue_def consumeToken_def Cons split: option.split)
qed (simp add: consumeValue_def)

lemma consumeMediaParam_length:
  assumes "consumeMediaParam v = Some (k, x, r)"
  shows "length r < length v"
proof -
  let ?a = "trim_space_left v" and ?b = "trim_space_left (drop 1 (trim_space_left v))"
  let ?c = "trim_space_left (drop 1 (trim_space_left (dropWhile isTokenChar ?b)))"
  have r: "r = snd (consumeValue ?c)" and a: "HasPrefix ?a '';''"
    using assms by (auto simp: consumeMediaParam_def Let_def consumeToken_def split: if_splits prod.splits)
  have "length r \<le> length ?c" unfolding r by (rule consumeValue_length)
  also have "\<dots> \<le> length (trim_space_left (dropWhile isTokenChar ?b)) - 1" using trim_left_length [of _ "drop 1 _"] by force
  also have "\<dots> \<le> length (dropWhile isTokenChar ?b)" using trim_left_length [of space_encodings "dropWhile isTokenChar ?b"] by simp
  also have "\<dots> \<le> length ?b" by (rule length_dropWhile_le)
  also have "\<dots> \<le> length ?a - 1" using trim_left_length [of _ "drop 1 ?a"] by force
  also have "\<dots> < length ?a" using a by (auto simp: HasPrefix_iff)
  also have "\<dots> \<le> length v" by (rule trim_left_length)
  finally show ?thesis .
qed

text \<open>The parameters after the media type: a fault leaves the media type as it is, a parameter with two values
  drops it.  The parameters of a continued value are told apart by their whole name, as in the source.\<close>

datatype params_result = Params_ok | Params_invalid | Params_duplicate

function media_params :: "(string, string) fmap \<Rightarrow> string \<Rightarrow> params_result" where
  "media_params seen v =
     (let v = trim_space_left v in
      if v = [] then Params_ok
      else case consumeMediaParam v of
             None \<Rightarrow> if TrimSpace v = '';'' then Params_ok else Params_invalid
           | Some (k, x, r) \<Rightarrow>
               if fmlookup seen k \<noteq> None \<and> fmlookup seen k \<noteq> Some x then Params_duplicate
               else media_params (fmupd k x seen) r)"
  by pat_completeness auto
termination
proof (relation "measure (\<lambda>(seen, v). length v)")
  fix seen :: "(string, string) fmap" and v va :: string and e :: "string \<times> string \<times> string" and k y x r
  assume "va = trim_space_left v" "consumeMediaParam va = Some e" "(k, y) = e" "(x, r) = y"
  then have "length r < length (trim_space_left v)" using consumeMediaParam_length by blast
  also have "\<dots> \<le> length v" by (rule trim_left_length)
  finally show "((fmupd k x seen, r), seen, v) \<in> measure (\<lambda>(seen, v). length v)" by simp
qed simp

declare media_params.simps [simp del]

definition ParseMediaType :: "string \<Rightarrow> string \<times> go_error option" where
  "ParseMediaType v =
     (let base = takeWhile (\<lambda>c. c \<noteq> CHR '';'') v;
          mediatype = TrimSpace (mime_lower base) in
      if \<not> checkMediaTypeDisposition mediatype then ([], Some (Plain ''mime: no media type''))
      else case media_params fmempty (drop (length base) v) of
             Params_ok \<Rightarrow> (mediatype, None)
           | Params_invalid \<Rightarrow> (mediatype, Some (Plain ''mime: invalid media parameter''))
           | Params_duplicate \<Rightarrow> ([], Some (Plain ''mime: duplicate parameter name'')))"

subsection \<open>Forms\<close>

definition form_type :: string where
  "form_type = ''application/x-www-form-urlencoded''"

definition max_form_size :: nat where
  "max_form_size = 10485760"

definition or_error :: "go_error option \<Rightarrow> go_error option \<Rightarrow> go_error option" where
  "or_error e e' = (if e = None then e' else e)"

definition parsePostForm :: "ServerRequest \<Rightarrow> string \<Rightarrow> url_values \<times> go_error option" where
  "parsePostForm r body =
     (let ct = Header_Get r ''Content-Type'';
          ct = (if ct = [] then ''application/octet-stream'' else ct)
      in case ParseMediaType ct of
           (mediatype, err) \<Rightarrow>
             if mediatype = form_type then
               if length body > max_form_size then (fmempty, Some (Plain ''http: POST too large''))
               else (case ParseQuery body of (vs, e) \<Rightarrow> (vs, or_error err e))
             else (fmempty, err))"

text \<open>The values of a parameter in the body come before those in the query.\<close>

definition copyValues :: "url_values \<Rightarrow> url_values \<Rightarrow> url_values" where
  "copyValues dst src = fmmap_keys (\<lambda>k vs. values_of dst k @ values_of src k) (dst ++\<^sub>f src)"

definition ParseForm :: "ServerRequest \<Rightarrow> string \<Rightarrow> url_values \<times> go_error option" where
  "ParseForm r body =
     (case (if R_Method r \<in> {''POST'', ''PUT'', ''PATCH''} then parsePostForm r body else (fmempty, None)) of
        (post, err) \<Rightarrow>
          (case ParseQuery (R_RawQuery r) of (query, e) \<Rightarrow> (copyValues post query, or_error err e)))"

lemma copyValues_values: "values_of (copyValues dst src) k = values_of dst k @ values_of src k"
  by (auto simp: copyValues_def values_of_def fmlookup_dom_iff split: option.split)

lemma copyValues_empty: "copyValues fmempty src = src" "copyValues dst fmempty = dst"
  by (auto intro!: fmap_ext simp: copyValues_def values_of_def split: option.split)

text \<open>A form posted in the usual way is read as it was written.\<close>

lemma post_form_read:
  assumes "R_Method r = ''POST''" "Header_Get r ''Content-Type'' = form_type" "R_RawQuery r = []"
    "form_ok form" "length (Values_Encode form) \<le> max_form_size"
  shows "ParseForm r (Values_Encode form) = (form, None)"
proof -
  have ct: "ParseMediaType form_type = (form_type, None)" by code_simp
  have q: "ParseQuery [] = (fmempty, None)" by code_simp
  have "form_type \<noteq> []" by (simp add: form_type_def)
  then have "parsePostForm r (Values_Encode form) = (form, None)"
    using assms(2,5) parse_encode [OF assms(4)] by (simp add: parsePostForm_def ct or_error_def)
  then show ?thesis by (simp add: ParseForm_def assms(1,3) q copyValues_empty or_error_def)
qed

end
