(* ===== verification/Paging.thy ===== *)
theory Paging
  imports Domain
begin

text \<open>
  Listing in pages, as both stores do it: a sorted key list, a page token that names the
  offset of the next page, and the loop of a client that follows the tokens.  The contract
  \<open>paged_listing\<close> says what one page returns; inside it the client's walk is shown to
  return every key from its starting point exactly once, in order.
\<close>

subsection \<open>Tokens and pages of the memory store\<close>

definition encodePageToken :: "int \<Rightarrow> string" where
  "encodePageToken i = b64_encode (Itoa i)"

definition decodePageToken :: "string \<Rightarrow> int" where
  "decodePageToken token =
     (if TrimSpace token = [] then 0
      else case b64_decode token of
             None \<Rightarrow> 0
           | Some raw \<Rightarrow> (case Atoi raw of None \<Rightarrow> 0 | Some n \<Rightarrow> if n < 0 then 0 else n))"

text \<open>
  The common tail of \<^verbatim>\<open>listTopics\<close>, \<^verbatim>\<open>listSubscriptions\<close> and
  \<^verbatim>\<open>listSubscriptionsByTopic\<close>.  \<open>start + pageSize\<close> wraps at 64 bits, and
  \<^verbatim>\<open>make\<close> with the negative capacity that a wrapped sum yields panics.
\<close>

definition page_keys :: "'k list \<Rightarrow> string \<Rightarrow> int \<Rightarrow> ('k list \<times> string) res" where
  "page_keys keys nextToken pageSize =
     (let start = decodePageToken nextToken; len = int (length keys) in
      if start \<ge> len then Inr ([], [])
      else
        let end1 = wrap64 (start + pageSize);
            end2 = (if pageSize \<le> 0 \<or> end1 > len then len else end1)
        in if end2 < start then Inl (Panic ''makeslice: cap out of range'')
           else Inr (take (nat (end2 - start)) (drop (nat start) keys),
                     if end2 < len then encodePageToken end2 else []))"

lemma Itoa_not_Nil [simp]: "Itoa i \<noteq> []"
  by (simp add: Itoa_def)

lemma decodePageToken_nonneg [simp]: "0 \<le> decodePageToken t"
  by (auto simp: decodePageToken_def split: option.splits)

lemma decodePageToken_nat: obtains d where "decodePageToken t = int d"
  using decodePageToken_nonneg by (metis nonneg_int_cases)

lemma decodePageToken_Nil [simp]: "decodePageToken [] = 0"
  by (simp add: decodePageToken_def)

lemma decode_encodePageToken:
  "0 \<le> i \<Longrightarrow> in_int64 i \<Longrightarrow> decodePageToken (encodePageToken i) = i"
  by (simp add: decodePageToken_def encodePageToken_def TrimSpace_b64 b64_decode_encode Atoi_Itoa)

lemma encodePageToken_not_Nil [simp]: "encodePageToken i \<noteq> []"
  by (simp add: encodePageToken_def)

text \<open>With sizes that cannot overflow a page is a slice.\<close>

lemma page_keys_slice:
  assumes "0 < n" "decodePageToken t + n < 2 ^ 63" "length keys < 2 ^ 63"
  shows "page_keys keys t n =
    Inr (take (nat n) (drop (nat (decodePageToken t)) keys),
         if decodePageToken t + n < int (length keys) then encodePageToken (decodePageToken t + n) else [])"
proof -
  obtain d where d: "decodePageToken t = int d" by (rule decodePageToken_nat)
  obtain m where m: "n = int m" using assms(1) by (metis nonneg_int_cases less_imp_le)
  have "in_int64 (int d + int m)" using assms d m unfolding in_int64_def by linarith
  with assms show ?thesis by (auto simp: page_keys_def Let_def d m nat_add_distrib nat_diff_distrib')
qed

lemma page_keys_first:
  "length keys \<le> 10000 \<Longrightarrow> page_keys keys [] 10000 = Inr (keys, [])"
  by (subst page_keys_slice) auto

lemma page_keys_subset:
  "page_keys keys t n = Inr (ks, t') \<Longrightarrow> set ks \<subseteq> set keys"
  by (auto simp: page_keys_def Let_def split: if_splits dest: in_set_takeD in_set_dropD)

subsection \<open>Following the tokens\<close>

fun walk :: "(string \<Rightarrow> ('k list \<times> string) res) \<Rightarrow> nat \<Rightarrow> string \<Rightarrow> 'k list option" where
  "walk page 0 t = None"
| "walk page (Suc fuel) t =
     (case page t of
        Inl e \<Rightarrow> None
      | Inr (ks, t') \<Rightarrow>
          if t' = [] then Some ks else map_option (\<lambda>rest. ks @ rest) (walk page fuel t'))"

locale paged_listing =
  fixes page :: "'k list \<Rightarrow> nat \<Rightarrow> string \<Rightarrow> ('k list \<times> string) res"
    and offset :: "string \<Rightarrow> nat"
    and fits :: "'k list \<Rightarrow> nat \<Rightarrow> bool"
  assumes fits_pos: "fits keys sz \<Longrightarrow> 0 < sz"
    and offset_Nil: "offset [] = 0"
    and page_slice: "fits keys sz \<Longrightarrow>
          \<exists>t'. page keys sz t = Inr (take sz (drop (offset t) keys), t') \<and>
            (if offset t + sz < length keys then t' \<noteq> [] \<and> offset t' = offset t + sz else t' = [])"
begin

lemma walk_from:
  assumes "fits keys sz"
  shows "length keys - offset t < fuel \<Longrightarrow> walk (page keys sz) fuel t = Some (drop (offset t) keys)"
proof (induction fuel arbitrary: t)
  case (Suc fuel)
  obtain t' where p: "page keys sz t = Inr (take sz (drop (offset t) keys), t')"
    and t': "if offset t + sz < length keys then t' \<noteq> [] \<and> offset t' = offset t + sz else t' = []"
    using page_slice [OF assms] by blast
  show ?case
  proof (cases "offset t + sz < length keys")
    case True
    then have t'': "t' \<noteq> []" "offset t' = offset t + sz" using t' by auto
    then have "walk (page keys sz) fuel t' = Some (drop (offset t + sz) keys)"
      using Suc True fits_pos [OF assms] by simp
    moreover have "take sz (drop (offset t) keys) @ drop (offset t + sz) keys = drop (offset t) keys"
      by (metis add.commute append_take_drop_id drop_drop)
    ultimately show ?thesis using p t'' by simp
  next
    case False
    then show ?thesis using p t' by simp
  qed
qed simp

lemma walk_all: "fits keys sz \<Longrightarrow> length keys < fuel \<Longrightarrow> walk (page keys sz) fuel [] = Some keys"
  using walk_from [of keys sz "[]" fuel] by (simp add: offset_Nil)

end

definition page_fits :: "'k list \<Rightarrow> nat \<Rightarrow> bool" where
  "page_fits keys sz \<longleftrightarrow> 0 < sz \<and> length keys + sz < 2 ^ 63"

interpretation mem_pages:
  paged_listing "\<lambda>keys sz t. page_keys keys t (int sz)" "\<lambda>t. nat (decodePageToken t)" page_fits
proof (unfold_locales, goal_cases)
  case (1 keys sz)
  then show ?case by (simp add: page_fits_def)
next
  case 2
  show ?case by simp
next
  case (3 keys sz t)
  obtain d where d: "decodePageToken t = int d" by (rule decodePageToken_nat)
  show ?case
  proof (cases "d < length keys")
    case True
    with 3 have b: "int d + int sz < 2 ^ 63" by (simp add: page_fits_def)
    then have "decodePageToken (encodePageToken (int d + int sz)) = int d + int sz"
      by (simp add: decode_encodePageToken in_int64_def)
    moreover have "page_keys keys t (int sz) =
        Inr (take sz (drop d keys),
             if int d + int sz < int (length keys) then encodePageToken (int d + int sz) else [])"
      using 3 b page_keys_slice [of "int sz" t keys] by (simp add: page_fits_def d)
    ultimately show ?thesis by (auto simp: d nat_add_distrib)
  next
    case False
    then show ?thesis by (auto simp: page_keys_def Let_def d)
  qed
qed

text \<open>A page token decodes to the offset it was made from, and a token that is not one of the
  store's (blank, not base64, not a number, negative) decodes to the start of the list.\<close>

theorem page_token_roundtrip:
  assumes "0 \<le> i" "in_int64 i"
  shows "decodePageToken (encodePageToken i) = i \<and> decodePageToken [] = 0 \<and> 0 \<le> decodePageToken t"
  using decode_encodePageToken [OF assms] by simp

theorem page_token_roundtrip_witness: "decodePageToken (encodePageToken 10000) = 10000"
  using page_token_roundtrip [of 10000] by (simp add: in_int64_def)

end
