(* ===== verification/Store_Spec.thy ===== *)
theory Store_Spec
  imports Paging
begin

text \<open>
  The contract of a store (\<^verbatim>\<open>internal/store/store.go\<close>, interfaces \<^verbatim>\<open>Reader\<close>,
  \<^verbatim>\<open>Writer\<close>, \<^verbatim>\<open>Tx\<close>).  Its abstract state has no indexes: four finite maps, from ARN to
  topic, from ARN to subscription, from token to confirmation record and from job id to
  delivery job.  The \<^verbatim>\<open>spec_\<close> operations say what each call of the interface means on
  that state; the locale \<open>sns_store\<close> states that an implementation with invariant
  \<^verbatim>\<open>inv\<close> and abstraction function \<^verbatim>\<open>abs\<close> refines them, and derives what the service
  layer relies on.

  An update callback gets the current record and the rest of the world, \<^verbatim>\<open>'w\<close>; it
  returns an error or the new record with the values it captured, and the world after it
  (clock readings and captured effects persist even when the transaction is abandoned).
\<close>

record astore =
  A_topics :: "(string, Topic) fmap"
  A_subs :: "(string, Subscription) fmap"
  A_tokens :: "(string, ConfirmationToken) fmap"
  A_jobs :: "(string, DeliveryJob) fmap"

type_synonym ('t, 'r, 'w) callback = "'t \<Rightarrow> 'w \<Rightarrow> ('t \<times> 'r) res \<times> 'w"

definition of_option :: "go_error \<Rightarrow> 'a option \<Rightarrow> 'a res" where
  "of_option e x = (case x of None \<Rightarrow> Inl e | Some v \<Rightarrow> Inr v)"

lemma of_option_simps [simp]:
  "of_option e None = Inl e" "of_option e (Some v) = Inr v"
  by (simp_all add: of_option_def)

subsection \<open>Readers\<close>

definition spec_GetTopic :: "astore \<Rightarrow> string \<Rightarrow> Topic res" where
  "spec_GetTopic a arn = of_option ErrNotFound (fmlookup (A_topics a) arn)"

definition named :: "astore \<Rightarrow> string \<Rightarrow> string \<Rightarrow> bool" where
  "named a name arn \<longleftrightarrow>
     (case fmlookup (A_topics a) arn of None \<Rightarrow> False | Some t \<Rightarrow> Topic_Name t = name)"

definition spec_FindTopicByName :: "astore \<Rightarrow> string \<Rightarrow> Topic option res" where
  "spec_FindTopicByName a name =
     (case filter (named a name) (sorted_keys (A_topics a)) of
        [] \<Rightarrow> Inl ErrNotFound
      | arn # _ \<Rightarrow> Inr (fmlookup (A_topics a) arn))"

definition spec_GetSubscription :: "astore \<Rightarrow> string \<Rightarrow> Subscription res" where
  "spec_GetSubscription a arn = of_option ErrNotFound (fmlookup (A_subs a) arn)"

definition in_topic :: "astore \<Rightarrow> string \<Rightarrow> string \<Rightarrow> bool" where
  "in_topic a topicARN arn \<longleftrightarrow>
     (case fmlookup (A_subs a) arn of None \<Rightarrow> False | Some s \<Rightarrow> Sub_TopicARN s = topicARN)"

text \<open>The subscriptions of a topic, by ARN.\<close>

definition topic_sub_keys :: "astore \<Rightarrow> string \<Rightarrow> string list" where
  "topic_sub_keys a topicARN = filter (in_topic a topicARN) (sorted_keys (A_subs a))"

definition spec_GetConfirmationToken :: "astore \<Rightarrow> string \<Rightarrow> ConfirmationToken res" where
  "spec_GetConfirmationToken a tok = of_option ErrNotFound (fmlookup (A_tokens a) tok)"

subsection \<open>Writers\<close>

definition spec_CreateTopic :: "Topic \<Rightarrow> astore \<Rightarrow> unit res \<times> astore" where
  "spec_CreateTopic t a =
     (if \<exists>arn \<in> set (sorted_keys (A_topics a)). named a (Topic_Name t) arn then (Inl ErrConflict, a)
      else (Inr (), a\<lparr>A_topics := fmupd (Topic_ARN t) t (A_topics a)\<rparr>))"

definition run_update ::
    "('t option) \<Rightarrow> ('t, 'r, 'w) callback \<Rightarrow> 'w \<Rightarrow> ('t \<times> 'r) res \<times> 'w" where
  "run_update cur fn w = (case cur of None \<Rightarrow> (Inl ErrNotFound, w) | Some t \<Rightarrow> fn t w)"

definition spec_UpdateTopic ::
    "string \<Rightarrow> (Topic, 'r, 'w) callback \<Rightarrow> astore \<Rightarrow> 'w \<Rightarrow> (Topic \<times> 'r) res \<times> astore \<times> 'w" where
  "spec_UpdateTopic arn fn a w =
     (case run_update (fmlookup (A_topics a) arn) fn w of
        (Inl e, w') \<Rightarrow> (Inl e, a, w')
      | (Inr (t, r), w') \<Rightarrow> (Inr (t, r), a\<lparr>A_topics := fmupd arn t (A_topics a)\<rparr>, w'))"

definition spec_DeleteTopic :: "string \<Rightarrow> astore \<Rightarrow> astore" where
  "spec_DeleteTopic arn a =
     (case fmlookup (A_topics a) arn of
        None \<Rightarrow> a
      | Some t \<Rightarrow>
          a\<lparr>A_topics := fmdrop arn (A_topics a),
            A_subs := fmkeep (\<lambda>s. Sub_TopicARN s \<noteq> arn) (A_subs a),
            A_tokens := fmkeep (\<lambda>c. Tok_TopicARN c \<noteq> arn) (A_tokens a),
            A_jobs := fmkeep (\<lambda>j. Pay_TopicARN (Job_Payload j) \<noteq> arn) (A_jobs a)\<rparr>)"

definition spec_CreateSubscription :: "Subscription \<Rightarrow> astore \<Rightarrow> astore" where
  "spec_CreateSubscription s a = a\<lparr>A_subs := fmupd (Sub_ARN s) s (A_subs a)\<rparr>"

definition spec_UpdateSubscription ::
    "string \<Rightarrow> (Subscription, 'r, 'w) callback \<Rightarrow> astore \<Rightarrow> 'w \<Rightarrow> (Subscription \<times> 'r) res \<times> astore \<times> 'w" where
  "spec_UpdateSubscription arn fn a w =
     (case run_update (fmlookup (A_subs a) arn) fn w of
        (Inl e, w') \<Rightarrow> (Inl e, a, w')
      | (Inr (s, r), w') \<Rightarrow> (Inr (s, r), a\<lparr>A_subs := fmupd arn s (A_subs a)\<rparr>, w'))"

definition spec_DeleteSubscription :: "string \<Rightarrow> astore \<Rightarrow> Subscription res \<times> astore" where
  "spec_DeleteSubscription arn a =
     (case fmlookup (A_subs a) arn of
        None \<Rightarrow> (Inl ErrNotFound, a)
      | Some s \<Rightarrow>
          (Inr s, a\<lparr>A_subs := fmdrop arn (A_subs a),
                    A_tokens := fmkeep (\<lambda>c. Tok_SubscriptionARN c \<noteq> arn) (A_tokens a)\<rparr>))"

definition spec_PutConfirmationToken :: "ConfirmationToken \<Rightarrow> astore \<Rightarrow> astore" where
  "spec_PutConfirmationToken c a = a\<lparr>A_tokens := fmupd (Tok_Token c) c (A_tokens a)\<rparr>"

definition spec_DeleteConfirmationToken :: "string \<Rightarrow> astore \<Rightarrow> astore" where
  "spec_DeleteConfirmationToken tok a = a\<lparr>A_tokens := fmdrop tok (A_tokens a)\<rparr>"

definition spec_EnqueueDeliveryJob :: "DeliveryJob \<Rightarrow> astore \<Rightarrow> astore" where
  "spec_EnqueueDeliveryJob j a = a\<lparr>A_jobs := fmupd (Job_ID j) j (A_jobs a)\<rparr>"

definition spec_DeleteDeliveryJob :: "string \<Rightarrow> astore \<Rightarrow> astore" where
  "spec_DeleteDeliveryJob i a = a\<lparr>A_jobs := fmdrop i (A_jobs a)\<rparr>"

lemmas spec_defs =
  spec_GetTopic_def spec_GetSubscription_def spec_GetConfirmationToken_def spec_CreateTopic_def
  spec_UpdateTopic_def spec_DeleteTopic_def spec_CreateSubscription_def spec_UpdateSubscription_def
  spec_DeleteSubscription_def spec_PutConfirmationToken_def spec_DeleteConfirmationToken_def
  spec_EnqueueDeliveryJob_def spec_DeleteDeliveryJob_def

lemma named_iff: "named a n arn \<longleftrightarrow> (\<exists>t. fmlookup (A_topics a) arn = Some t \<and> Topic_Name t = n)"
  by (auto simp: named_def split: option.splits)

lemma in_topic_iff:
  "in_topic a t arn \<longleftrightarrow> (\<exists>s. fmlookup (A_subs a) arn = Some s \<and> Sub_TopicARN s = t)"
  by (auto simp: in_topic_def split: option.splits)

subsection \<open>Integrity of the abstract state\<close>

text \<open>
  Every record is filed under its own key, topic names are unique, and every
  subscription, confirmation token and delivery job refers to a topic that exists; a
  pending \<^verbatim>\<open>subscribe\<close> token refers to a subscription that exists.
\<close>

definition keyed :: "astore \<Rightarrow> bool" where
  "keyed a \<longleftrightarrow>
     (\<forall>k t. fmlookup (A_topics a) k = Some t \<longrightarrow> Topic_ARN t = k) \<and>
     (\<forall>k s. fmlookup (A_subs a) k = Some s \<longrightarrow> Sub_ARN s = k) \<and>
     (\<forall>k c. fmlookup (A_tokens a) k = Some c \<longrightarrow> Tok_Token c = k) \<and>
     (\<forall>k j. fmlookup (A_jobs a) k = Some j \<longrightarrow> Job_ID j = k)"

definition names_unique :: "astore \<Rightarrow> bool" where
  "names_unique a \<longleftrightarrow>
     (\<forall>k k' t t'. fmlookup (A_topics a) k = Some t \<longrightarrow> fmlookup (A_topics a) k' = Some t' \<longrightarrow>
        Topic_Name t = Topic_Name t' \<longrightarrow> k = k')"

definition refs_ok :: "astore \<Rightarrow> bool" where
  "refs_ok a \<longleftrightarrow>
     (\<forall>k s. fmlookup (A_subs a) k = Some s \<longrightarrow> fmlookup (A_topics a) (Sub_TopicARN s) \<noteq> None) \<and>
     (\<forall>k c. fmlookup (A_tokens a) k = Some c \<longrightarrow> fmlookup (A_topics a) (Tok_TopicARN c) \<noteq> None) \<and>
     (\<forall>k j. fmlookup (A_jobs a) k = Some j \<longrightarrow>
        fmlookup (A_topics a) (Pay_TopicARN (Job_Payload j)) \<noteq> None)"

definition tokens_ok :: "astore \<Rightarrow> bool" where
  "tokens_ok a \<longleftrightarrow>
     (\<forall>k c. fmlookup (A_tokens a) k = Some c \<longrightarrow>
        (Tok_Kind c = ''subscribe'' \<longrightarrow>
           (\<exists>s. fmlookup (A_subs a) (Tok_SubscriptionARN c) = Some s \<and> Sub_TopicARN s = Tok_TopicARN c)) \<and>
        (Tok_Kind c = ''unsubscribe'' \<longrightarrow>
           (\<exists>s. Tok_Restore c = Some s \<and> Sub_ARN s = Tok_SubscriptionARN c \<and>
                Sub_TopicARN s = Tok_TopicARN c)))"

definition integrity :: "astore \<Rightarrow> bool" where
  "integrity a \<longleftrightarrow> keyed a \<and> names_unique a \<and> refs_ok a \<and> tokens_ok a"

lemmas integrity_defs = integrity_def keyed_def names_unique_def refs_ok_def tokens_ok_def

subsection \<open>The operations keep integrity\<close>

lemma integrity_CreateTopic:
  assumes "integrity a" "fmlookup (A_topics a) (Topic_ARN t) = None"
  shows "integrity (snd (spec_CreateTopic t a))"
proof (cases "\<exists>arn \<in> set (sorted_keys (A_topics a)). named a (Topic_Name t) arn")
  case False
  then have "\<forall>k u. fmlookup (A_topics a) k = Some u \<longrightarrow> Topic_Name u \<noteq> Topic_Name t"
    by (auto simp: named_iff fmlookup_dom_iff)
  moreover have "snd (spec_CreateTopic t a) = a\<lparr>A_topics := fmupd (Topic_ARN t) t (A_topics a)\<rparr>"
    using False by (simp add: spec_CreateTopic_def)
  ultimately show ?thesis
    using assms unfolding integrity_defs by (auto split: if_splits) blast
qed (use assms in \<open>simp add: spec_CreateTopic_def\<close>)

definition keeps_topic :: "(Topic, 'r, 'w) callback \<Rightarrow> bool" where
  "keeps_topic fn \<longleftrightarrow>
     (\<forall>t w t' r w'. fn t w = (Inr (t', r), w') \<longrightarrow>
        Topic_ARN t' = Topic_ARN t \<and> Topic_Name t' = Topic_Name t)"

definition keeps_sub :: "(Subscription, 'r, 'w) callback \<Rightarrow> bool" where
  "keeps_sub fn \<longleftrightarrow>
     (\<forall>s w s' r w'. fn s w = (Inr (s', r), w') \<longrightarrow>
        Sub_ARN s' = Sub_ARN s \<and> Sub_TopicARN s' = Sub_TopicARN s)"

lemma integrity_put_topic:
  assumes "integrity a" "fmlookup (A_topics a) arn = Some t"
    "Topic_ARN t' = Topic_ARN t" "Topic_Name t' = Topic_Name t"
  shows "integrity (a\<lparr>A_topics := fmupd arn t' (A_topics a)\<rparr>)"
  using assms unfolding integrity_defs by (auto split: if_splits)

lemma spec_UpdateTopic_state:
  assumes "spec_UpdateTopic arn fn a w = (r, a', w')" "keeps_topic fn"
  shows "a' = a \<or> (\<exists>t t'. fmlookup (A_topics a) arn = Some t \<and>
    a' = a\<lparr>A_topics := fmupd arn t' (A_topics a)\<rparr> \<and>
    Topic_ARN t' = Topic_ARN t \<and> Topic_Name t' = Topic_Name t)"
  using assms
  by (fastforce simp: spec_UpdateTopic_def run_update_def keeps_topic_def
      split: option.splits prod.splits sum.splits)

lemma integrity_UpdateTopic:
  assumes "integrity a" "keeps_topic fn" "spec_UpdateTopic arn fn a w = (r, a', w')"
  shows "integrity a'"
  using spec_UpdateTopic_state [OF assms(3,2)] assms(1) integrity_put_topic by blast

lemma spec_DeleteTopic_lookup:
  assumes "fmlookup (A_topics a) arn = Some t"
  shows "fmlookup (A_topics (spec_DeleteTopic arn a)) k = Some u \<longleftrightarrow>
      k \<noteq> arn \<and> fmlookup (A_topics a) k = Some u"
    and "fmlookup (A_subs (spec_DeleteTopic arn a)) k = Some s \<longleftrightarrow>
      fmlookup (A_subs a) k = Some s \<and> Sub_TopicARN s \<noteq> arn"
    and "fmlookup (A_tokens (spec_DeleteTopic arn a)) k = Some c \<longleftrightarrow>
      fmlookup (A_tokens a) k = Some c \<and> Tok_TopicARN c \<noteq> arn"
    and "fmlookup (A_jobs (spec_DeleteTopic arn a)) k = Some j \<longleftrightarrow>
      fmlookup (A_jobs a) k = Some j \<and> Pay_TopicARN (Job_Payload j) \<noteq> arn"
  using assms by (auto simp: spec_DeleteTopic_def fmkeep_Some split: option.splits if_splits)

lemma integrity_DeleteTopic:
  assumes "integrity a"
  shows "integrity (spec_DeleteTopic arn a)"
proof (cases "fmlookup (A_topics a) arn")
  case (Some t)
  note l = spec_DeleteTopic_lookup [OF Some]
  have "keyed (spec_DeleteTopic arn a)"
    using assms unfolding integrity_def keyed_def l by blast
  moreover have "names_unique (spec_DeleteTopic arn a)"
    using assms unfolding integrity_def names_unique_def l by blast
  moreover have "refs_ok (spec_DeleteTopic arn a)"
    using assms unfolding integrity_def refs_ok_def not_None_eq l by blast
  moreover have "tokens_ok (spec_DeleteTopic arn a)"
    using assms unfolding integrity_def tokens_ok_def l by metis
  ultimately show ?thesis by (simp add: integrity_def)
qed (use assms in \<open>simp add: spec_DeleteTopic_def\<close>)

lemma integrity_put_sub:
  assumes "integrity a" "fmlookup (A_topics a) (Sub_TopicARN s) \<noteq> None" "Sub_ARN s = arn"
    "\<And>old. fmlookup (A_subs a) arn = Some old \<Longrightarrow> Sub_TopicARN old = Sub_TopicARN s"
  shows "integrity (a\<lparr>A_subs := fmupd arn s (A_subs a)\<rparr>)"
proof -
  have "\<forall>old. fmlookup (A_subs a) arn = Some old \<longrightarrow> Sub_TopicARN old = Sub_TopicARN s"
    using assms(4) by blast
  with assms(1-3) show ?thesis unfolding integrity_defs by (simp, metis)
qed

lemma integrity_CreateSubscription:
  assumes "integrity a" "fmlookup (A_topics a) (Sub_TopicARN s) \<noteq> None"
    "\<And>old. fmlookup (A_subs a) (Sub_ARN s) = Some old \<Longrightarrow> Sub_TopicARN old = Sub_TopicARN s"
  shows "integrity (spec_CreateSubscription s a)"
  unfolding spec_CreateSubscription_def by (rule integrity_put_sub [OF assms(1,2) refl assms(3)])

lemma spec_UpdateSubscription_state:
  assumes "spec_UpdateSubscription arn fn a w = (r, a', w')" "keeps_sub fn"
  shows "a' = a \<or> (\<exists>s s'. fmlookup (A_subs a) arn = Some s \<and>
    a' = a\<lparr>A_subs := fmupd arn s' (A_subs a)\<rparr> \<and>
    Sub_ARN s' = Sub_ARN s \<and> Sub_TopicARN s' = Sub_TopicARN s)"
  using assms
  by (fastforce simp: spec_UpdateSubscription_def run_update_def keeps_sub_def
      split: option.splits prod.splits sum.splits)

lemma integrity_UpdateSubscription:
  assumes "integrity a" "keeps_sub fn" "spec_UpdateSubscription arn fn a w = (r, a', w')"
  shows "integrity a'"
  using spec_UpdateSubscription_state [OF assms(3,2)]
proof
  assume "\<exists>s s'. fmlookup (A_subs a) arn = Some s \<and> a' = a\<lparr>A_subs := fmupd arn s' (A_subs a)\<rparr> \<and>
    Sub_ARN s' = Sub_ARN s \<and> Sub_TopicARN s' = Sub_TopicARN s"
  then obtain s s' where s: "fmlookup (A_subs a) arn = Some s"
    and a': "a' = a\<lparr>A_subs := fmupd arn s' (A_subs a)\<rparr>"
    and k: "Sub_ARN s' = Sub_ARN s" "Sub_TopicARN s' = Sub_TopicARN s" by blast
  then have "Sub_ARN s = arn" "fmlookup (A_topics a) (Sub_TopicARN s) \<noteq> None"
    using assms(1) unfolding integrity_defs by blast+
  with k s show ?thesis unfolding a' by (intro integrity_put_sub [OF assms(1)]) simp_all
qed (use assms in simp)

lemma integrity_DeleteSubscription:
  "integrity a \<Longrightarrow> integrity (snd (spec_DeleteSubscription arn a))"
  unfolding integrity_defs spec_DeleteSubscription_def
  by (auto simp: fmkeep_Some split: option.split)

lemma integrity_PutConfirmationToken:
  assumes "integrity a" "fmlookup (A_topics a) (Tok_TopicARN c) \<noteq> None"
    "Tok_Kind c = ''subscribe'' \<Longrightarrow>
       \<exists>s. fmlookup (A_subs a) (Tok_SubscriptionARN c) = Some s \<and> Sub_TopicARN s = Tok_TopicARN c"
    "Tok_Kind c = ''unsubscribe'' \<Longrightarrow>
       \<exists>s. Tok_Restore c = Some s \<and> Sub_ARN s = Tok_SubscriptionARN c \<and> Sub_TopicARN s = Tok_TopicARN c"
  shows "integrity (spec_PutConfirmationToken c a)"
  using assms unfolding integrity_defs spec_PutConfirmationToken_def by (auto split: if_splits)

lemma integrity_DeleteConfirmationToken: "integrity a \<Longrightarrow> integrity (spec_DeleteConfirmationToken t a)"
  unfolding integrity_defs spec_DeleteConfirmationToken_def by auto

lemma integrity_EnqueueDeliveryJob:
  assumes "integrity a" "fmlookup (A_topics a) (Pay_TopicARN (Job_Payload j)) \<noteq> None"
  shows "integrity (spec_EnqueueDeliveryJob j a)"
  using assms unfolding integrity_defs spec_EnqueueDeliveryJob_def by (auto split: if_splits)

lemma integrity_DeleteDeliveryJob: "integrity a \<Longrightarrow> integrity (spec_DeleteDeliveryJob i a)"
  unfolding integrity_defs spec_DeleteDeliveryJob_def by auto

subsection \<open>The interface\<close>

locale sns_store =
  fixes inv :: "'s \<Rightarrow> bool"
    and abs :: "'s \<Rightarrow> astore"
    and get_topic :: "'s \<Rightarrow> string \<Rightarrow> Topic res"
    and find_topic :: "'s \<Rightarrow> string \<Rightarrow> Topic option res"
    and get_sub :: "'s \<Rightarrow> string \<Rightarrow> Subscription res"
    and sub_keys :: "'s \<Rightarrow> string \<Rightarrow> string list"
    and get_token :: "'s \<Rightarrow> string \<Rightarrow> ConfirmationToken res"
    and create_topic :: "Topic \<Rightarrow> 's \<Rightarrow> unit res \<times> 's"
    and update_topic :: "string \<Rightarrow> (Topic, 'r, 'w) callback \<Rightarrow> 's \<Rightarrow> 'w \<Rightarrow> (Topic \<times> 'r) res \<times> 's \<times> 'w"
    and delete_topic :: "string \<Rightarrow> 's \<Rightarrow> 's"
    and create_sub :: "Subscription \<Rightarrow> 's \<Rightarrow> 's"
    and update_sub ::
      "string \<Rightarrow> (Subscription, 'r, 'w) callback \<Rightarrow> 's \<Rightarrow> 'w \<Rightarrow> (Subscription \<times> 'r) res \<times> 's \<times> 'w"
    and delete_sub :: "string \<Rightarrow> 's \<Rightarrow> Subscription res \<times> 's"
    and put_token :: "ConfirmationToken \<Rightarrow> 's \<Rightarrow> 's"
    and delete_token :: "string \<Rightarrow> 's \<Rightarrow> 's"
    and enqueue :: "DeliveryJob \<Rightarrow> 's \<Rightarrow> 's"
    and delete_job :: "string \<Rightarrow> 's \<Rightarrow> 's"
  assumes get_topic: "get_topic s arn = spec_GetTopic (abs s) arn"
    and find_topic: "inv s \<Longrightarrow> find_topic s name = spec_FindTopicByName (abs s) name"
    and get_sub: "get_sub s arn = spec_GetSubscription (abs s) arn"
    and sub_keys: "inv s \<Longrightarrow> sub_keys s topicARN = topic_sub_keys (abs s) topicARN"
    and get_token: "get_token s tok = spec_GetConfirmationToken (abs s) tok"
    and create_topic: "inv s \<Longrightarrow> apsnd abs (create_topic t s) = spec_CreateTopic t (abs s)"
    and create_topic_inv:
      "inv s \<Longrightarrow> fmlookup (A_topics (abs s)) (Topic_ARN t) = None \<Longrightarrow> inv (snd (create_topic t s))"
    and update_topic:
      "apsnd (apfst abs) (update_topic arn fn s w) = spec_UpdateTopic arn fn (abs s) w"
    and update_topic_inv: "inv s \<Longrightarrow> keeps_topic fn \<Longrightarrow> inv (fst (snd (update_topic arn fn s w)))"
    and delete_topic: "inv s \<Longrightarrow> abs (delete_topic arn s) = spec_DeleteTopic arn (abs s)"
    and delete_topic_inv: "inv s \<Longrightarrow> inv (delete_topic arn s)"
    and create_sub: "abs (create_sub u s) = spec_CreateSubscription u (abs s)"
    and create_sub_inv:
      "inv s \<Longrightarrow>
       (\<And>old. fmlookup (A_subs (abs s)) (Sub_ARN u) = Some old \<Longrightarrow> Sub_TopicARN old = Sub_TopicARN u) \<Longrightarrow>
       inv (create_sub u s)"
    and update_sub:
      "apsnd (apfst abs) (update_sub arn fn' s w) = spec_UpdateSubscription arn fn' (abs s) w"
    and update_sub_inv: "inv s \<Longrightarrow> keeps_sub fn' \<Longrightarrow> inv (fst (snd (update_sub arn fn' s w)))"
    and delete_sub: "apsnd abs (delete_sub arn s) = spec_DeleteSubscription arn (abs s)"
    and delete_sub_inv: "inv s \<Longrightarrow> inv (snd (delete_sub arn s))"
    and put_token: "abs (put_token c s) = spec_PutConfirmationToken c (abs s)"
    and put_token_inv: "inv s \<Longrightarrow> inv (put_token c s)"
    and delete_token: "abs (delete_token tok s) = spec_DeleteConfirmationToken tok (abs s)"
    and delete_token_inv: "inv s \<Longrightarrow> inv (delete_token tok s)"
    and enqueue: "abs (enqueue j s) = spec_EnqueueDeliveryJob j (abs s)"
    and enqueue_inv: "inv s \<Longrightarrow> inv (enqueue j s)"
    and delete_job: "abs (delete_job i s) = spec_DeleteDeliveryJob i (abs s)"
    and delete_job_inv: "inv s \<Longrightarrow> inv (delete_job i s)"
begin

definition good :: "'s \<Rightarrow> bool" where
  "good s \<longleftrightarrow> inv s \<and> integrity (abs s)"

lemma good_create_topic:
  assumes "good s" "fmlookup (A_topics (abs s)) (Topic_ARN t) = None" "create_topic t s = (r, s')"
  shows "good s'"
  using assms create_topic [of s t] create_topic_inv [of s t] integrity_CreateTopic [of "abs s" t]
  by (simp add: good_def) (metis snd_conv)

lemma good_update_topic:
  assumes "good s" "keeps_topic fn" "update_topic arn fn s w = (r, s', w')"
  shows "good s'"
  using assms update_topic [of arn fn s w] update_topic_inv [of s fn arn w]
    integrity_UpdateTopic [of "abs s" fn arn w r "abs s'" w']
  by (simp add: good_def)

lemma good_delete_topic: "good s \<Longrightarrow> good (delete_topic arn s)"
  by (simp add: good_def delete_topic delete_topic_inv integrity_DeleteTopic)

lemma good_create_sub:
  assumes "good s" "fmlookup (A_topics (abs s)) (Sub_TopicARN u) \<noteq> None"
    "\<And>old. fmlookup (A_subs (abs s)) (Sub_ARN u) = Some old \<Longrightarrow> Sub_TopicARN old = Sub_TopicARN u"
  shows "good (create_sub u s)"
  using assms create_sub_inv [of s u] integrity_CreateSubscription [of "abs s" u]
  by (simp add: good_def create_sub)

lemma good_update_sub:
  assumes "good s" "keeps_sub fn" "update_sub arn fn s w = (r, s', w')"
  shows "good s'"
  using assms update_sub [of arn fn s w] update_sub_inv [of s fn arn w]
    integrity_UpdateSubscription [of "abs s" fn arn w r "abs s'" w']
  by (simp add: good_def)

lemma good_delete_sub: "good s \<Longrightarrow> delete_sub arn s = (r, s') \<Longrightarrow> good s'"
  using delete_sub [of arn s] delete_sub_inv [of s arn] integrity_DeleteSubscription [of "abs s" arn]
  by (simp add: good_def) (metis snd_conv)

lemma good_put_token:
  assumes "good s" "fmlookup (A_topics (abs s)) (Tok_TopicARN c) \<noteq> None"
    "Tok_Kind c = ''subscribe'' \<Longrightarrow>
       \<exists>u. fmlookup (A_subs (abs s)) (Tok_SubscriptionARN c) = Some u \<and> Sub_TopicARN u = Tok_TopicARN c"
    "Tok_Kind c = ''unsubscribe'' \<Longrightarrow>
       \<exists>u. Tok_Restore c = Some u \<and> Sub_ARN u = Tok_SubscriptionARN c \<and> Sub_TopicARN u = Tok_TopicARN c"
  shows "good (put_token c s)"
  using assms put_token_inv [of s c] integrity_PutConfirmationToken [of "abs s" c]
  by (simp add: good_def put_token)

lemma good_delete_token: "good s \<Longrightarrow> good (delete_token t s)"
  by (simp add: good_def delete_token delete_token_inv integrity_DeleteConfirmationToken)

lemma good_enqueue:
  "good s \<Longrightarrow> fmlookup (A_topics (abs s)) (Pay_TopicARN (Job_Payload j)) \<noteq> None \<Longrightarrow> good (enqueue j s)"
  by (simp add: good_def enqueue enqueue_inv integrity_EnqueueDeliveryJob)

lemma good_delete_job: "good s \<Longrightarrow> good (delete_job i s)"
  by (simp add: good_def delete_job delete_job_inv integrity_DeleteDeliveryJob)

text \<open>Looking a topic up by name finds the one topic of that name, and only then.\<close>

lemma find_topic_Inr_iff:
  assumes "good s"
  shows "find_topic s name = Inr x \<longleftrightarrow>
    (\<exists>arn t. x = Some t \<and> fmlookup (A_topics (abs s)) arn = Some t \<and> Topic_Name t = name)"
proof -
  let ?ks = "filter (named (abs s) name) (sorted_keys (A_topics (abs s)))"
  have mem: "arn \<in> set ?ks \<longleftrightarrow> named (abs s) name arn" for arn
    by (auto simp: named_iff fmlookup_dom_iff)
  have uniq: "k = k'" if "named (abs s) name k" "named (abs s) name k'" for k k'
    using assms that unfolding good_def integrity_def names_unique_def named_iff by metis
  show ?thesis
  proof (cases ?ks)
    case Nil
    then have "\<not> named (abs s) name arn" for arn using mem by (metis empty_iff list.set(1))
    with Nil assms show ?thesis
      by (auto simp: find_topic good_def spec_FindTopicByName_def named_iff)
  next
    case (Cons k ks)
    then have k: "named (abs s) name k" using mem by (metis list.set_intros(1))
    with Cons assms uniq show ?thesis
      by (auto simp: find_topic good_def spec_FindTopicByName_def named_iff)
  qed
qed

text \<open>The subscriptions listed for a topic are those that name it, in ARN order.\<close>

lemma sub_keys_mem:
  "inv s \<Longrightarrow> arn \<in> set (sub_keys s t) \<longleftrightarrow>
     (\<exists>u. fmlookup (A_subs (abs s)) arn = Some u \<and> Sub_TopicARN u = t)"
  by (auto simp: sub_keys topic_sub_keys_def in_topic_iff fmlookup_dom_iff)

lemma sub_keys_sorted: "inv s \<Longrightarrow> sorted (sub_keys s t) \<and> distinct (sub_keys s t)"
  by (simp add: sub_keys topic_sub_keys_def sorted_wrt_filter)

lemma deleted_topic_gone:
  assumes "inv s"
  shows "get_topic (delete_topic arn s) arn = Inl ErrNotFound"
  using assms by (simp add: get_topic delete_topic spec_GetTopic_def spec_DeleteTopic_def split: option.split)

end

end
