(* ===== verification/Memory_Store.thy ===== *)
theory Memory_Store
  imports Store_Spec "HOL-Library.Product_Lexorder"
begin

text \<open>
  The in-memory store (\<^verbatim>\<open>internal/store/memory/store.go\<close>): the maps of its \<^verbatim>\<open>state\<close>,
  the two indexes kept beside them, the operations of a transaction (\<^verbatim>\<open>tx_\<close>), the
  read functions, and the methods of \<^verbatim>\<open>Store\<close>, each of which runs one transaction on a
  clone of the state and installs the clone when the callback succeeds.  This theory is
  the sequential behaviour; \<^verbatim>\<open>Memory_Concurrency\<close> interleaves transactions.

  The store refines \<^verbatim>\<open>Store_Spec\<close>: the invariant says that the indexes agree with the
  maps, the abstraction forgets the indexes.
\<close>

subsection \<open>State\<close>

record mstate =
  topics :: "(string, Topic) fmap"
  topicsByName :: "(string, string) fmap"
  subscriptions :: "(string, Subscription) fmap"
  subsByTopic :: "(string, string fset) fmap"
  confirmation :: "(string, ConfirmationToken) fmap"
  deliveryJobs :: "(string, DeliveryJob) fmap"
  signingMaterial :: SigningMaterial

definition emptySigningMaterial :: SigningMaterial where
  "emptySigningMaterial =
     \<lparr>Sig_PrivateKeyPEM = [], Sig_CertPEM = [], Sig_CreatedAt = - 62135596800000000000\<rparr>"

definition NewStore :: mstate where
  "NewStore =
     \<lparr>topics = fmempty, topicsByName = fmempty, subscriptions = fmempty, subsByTopic = fmempty,
      confirmation = fmempty, deliveryJobs = fmempty, signingMaterial = emptySigningMaterial\<rparr>"

definition copySigningMaterial :: "SigningMaterial \<Rightarrow> SigningMaterial" where
  "copySigningMaterial src =
     \<lparr>Sig_PrivateKeyPEM = Sig_PrivateKeyPEM src, Sig_CertPEM = Sig_CertPEM src,
      Sig_CreatedAt = Sig_CreatedAt src\<rparr>"

definition cloneState :: "mstate \<Rightarrow> mstate" where
  "cloneState src =
     \<lparr>topics = topics src, topicsByName = topicsByName src, subscriptions = subscriptions src,
      subsByTopic = subsByTopic src, confirmation = confirmation src,
      deliveryJobs = deliveryJobs src,
      signingMaterial = copySigningMaterial (signingMaterial src)\<rparr>"

lemma cloneState_id [simp]: "cloneState s = s"
  by (simp add: cloneState_def copySigningMaterial_def)

subsection \<open>Reads\<close>

definition getTopic :: "mstate \<Rightarrow> string \<Rightarrow> Topic res" where
  "getTopic s arn =
     (case fmlookup (topics s) arn of None \<Rightarrow> Inl ErrNotFound | Some topic \<Rightarrow> Inr topic)"

text \<open>A name whose ARN is not filed yields a nil topic and no error.\<close>

definition findTopicByName :: "mstate \<Rightarrow> string \<Rightarrow> Topic option res" where
  "findTopicByName s name =
     (case fmlookup (topicsByName s) name of
        None \<Rightarrow> Inl ErrNotFound
      | Some arn \<Rightarrow> Inr (fmlookup (topics s) arn))"

text \<open>A listed entry is a pointer; \<^verbatim>\<open>None\<close> is the nil pointer of a key that is not filed.\<close>

definition page_of :: "string list \<Rightarrow> (string, 'v) fmap \<Rightarrow> string \<Rightarrow> int \<Rightarrow> ('v option list \<times> string) res" where
  "page_of keys m nextToken pageSize =
     (case page_keys keys nextToken pageSize of
        Inl e \<Rightarrow> Inl e
      | Inr (ks, token) \<Rightarrow> Inr (map (fmlookup m) ks, token))"

definition listTopics :: "mstate \<Rightarrow> string \<Rightarrow> int \<Rightarrow> (Topic option list \<times> string) res" where
  "listTopics s nextToken pageSize =
     page_of (sorted_keys (topics s)) (topics s) nextToken pageSize"

definition getSubscription :: "mstate \<Rightarrow> string \<Rightarrow> Subscription res" where
  "getSubscription s arn =
     (case fmlookup (subscriptions s) arn of None \<Rightarrow> Inl ErrNotFound | Some sub \<Rightarrow> Inr sub)"

definition listSubscriptions ::
    "mstate \<Rightarrow> string \<Rightarrow> int \<Rightarrow> (Subscription option list \<times> string) res" where
  "listSubscriptions s nextToken pageSize =
     page_of (sorted_keys (subscriptions s)) (subscriptions s) nextToken pageSize"

definition topicSubs :: "mstate \<Rightarrow> string \<Rightarrow> string fset" where
  "topicSubs s topicARN =
     (case fmlookup (subsByTopic s) topicARN of None \<Rightarrow> {||} | Some subSet \<Rightarrow> subSet)"

definition listSubscriptionsByTopic ::
    "mstate \<Rightarrow> string \<Rightarrow> string \<Rightarrow> int \<Rightarrow> (Subscription option list \<times> string) res" where
  "listSubscriptionsByTopic s topicARN nextToken pageSize =
     page_of (sorted_list_of_fset (topicSubs s topicARN)) (subscriptions s) nextToken pageSize"

definition getConfirmationToken :: "mstate \<Rightarrow> string \<Rightarrow> ConfirmationToken res" where
  "getConfirmationToken s token =
     (case fmlookup (confirmation s) token of None \<Rightarrow> Inl ErrNotFound | Some t \<Rightarrow> Inr t)"

text \<open>
  Ready jobs, earliest attempt first, then oldest; the order of jobs that tie on both is
  left open by \<^verbatim>\<open>sort.Slice\<close>, the model takes them by id.
\<close>

definition job_key :: "mstate \<Rightarrow> string \<Rightarrow> time \<times> time" where
  "job_key s jid =
     (case fmlookup (deliveryJobs s) jid of
        None \<Rightarrow> (0, 0)
      | Some j \<Rightarrow> (Job_NextAttemptAt j, Job_CreatedAt j))"

definition ListReadyDeliveryJobs :: "mstate \<Rightarrow> time \<Rightarrow> int \<Rightarrow> DeliveryJob list" where
  "ListReadyDeliveryJobs s now limit =
     (let ready = filter (\<lambda>jid. case fmlookup (deliveryJobs s) jid of None \<Rightarrow> False
                             | Some j \<Rightarrow> \<not> Job_NextAttemptAt j > now) (sorted_keys (deliveryJobs s));
          keys = sort_key (job_key s) ready;
          keys = (if limit > 0 \<and> int (length keys) > limit then take (nat limit) keys else keys)
      in List.map_filter (fmlookup (deliveryJobs s)) keys)"

subsection \<open>Operations of a transaction\<close>

text \<open>On a name conflict the caller's topic gets the ARN of the existing topic, read
  through a pointer that is nil when the index is stale.\<close>

definition tx_CreateTopic :: "Topic \<Rightarrow> mstate \<Rightarrow> unit res \<times> Topic \<times> mstate" where
  "tx_CreateTopic topic s =
     (case fmlookup (topicsByName s) (Topic_Name topic) of
        Some arn \<Rightarrow>
          (case fmlookup (topics s) arn of
             None \<Rightarrow> (Inl (Panic ''nil pointer dereference''), topic, s)
           | Some existing \<Rightarrow> (Inl ErrConflict, topic\<lparr>Topic_ARN := Topic_ARN existing\<rparr>, s))
      | None \<Rightarrow>
          (Inr (), topic,
           s\<lparr>topics := fmupd (Topic_ARN topic) topic (topics s),
             topicsByName := fmupd (Topic_Name topic) (Topic_ARN topic) (topicsByName s)\<rparr>))"

definition tx_UpdateTopic ::
    "string \<Rightarrow> (Topic, 'r, 'w) callback \<Rightarrow> mstate \<Rightarrow> 'w \<Rightarrow> (Topic \<times> 'r) res \<times> mstate \<times> 'w" where
  "tx_UpdateTopic arn fn s w =
     (case fmlookup (topics s) arn of
        None \<Rightarrow> (Inl ErrNotFound, s, w)
      | Some current \<Rightarrow>
          (case fn current w of
             (Inl e, w') \<Rightarrow> (Inl e, s, w')
           | (Inr (copyTopic, r), w') \<Rightarrow>
               (Inr (copyTopic, r), s\<lparr>topics := fmupd arn copyTopic (topics s)\<rparr>, w')))"

text \<open>The removed subscriptions come in the order of an index map; the model lists them by ARN.\<close>

definition tx_DeleteTopic :: "string \<Rightarrow> mstate \<Rightarrow> Subscription list res \<times> mstate" where
  "tx_DeleteTopic arn s =
     (case fmlookup (topics s) arn of
        None \<Rightarrow> (Inr [], s)
      | Some topic \<Rightarrow>
          let subARNs = topicSubs s arn in
          (Inr (List.map_filter (fmlookup (subscriptions s)) (sorted_list_of_fset subARNs)),
           s\<lparr>topics := fmdrop arn (topics s),
             topicsByName := fmdrop (Topic_Name topic) (topicsByName s),
             subscriptions := fmdrop_fset subARNs (subscriptions s),
             subsByTopic := fmdrop arn (subsByTopic s),
             confirmation := fmkeep (\<lambda>record. Tok_TopicARN record \<noteq> arn) (confirmation s),
             deliveryJobs := fmkeep (\<lambda>job. Pay_TopicARN (Job_Payload job) \<noteq> arn) (deliveryJobs s)\<rparr>))"

definition tx_CreateSubscription :: "Subscription \<Rightarrow> mstate \<Rightarrow> unit res \<times> mstate" where
  "tx_CreateSubscription sub s =
     (Inr (),
      s\<lparr>subscriptions := fmupd (Sub_ARN sub) sub (subscriptions s),
        subsByTopic := fmupd (Sub_TopicARN sub) (finsert (Sub_ARN sub) (topicSubs s (Sub_TopicARN sub)))
                         (subsByTopic s)\<rparr>)"

definition tx_UpdateSubscription ::
    "string \<Rightarrow> (Subscription, 'r, 'w) callback \<Rightarrow> mstate \<Rightarrow> 'w \<Rightarrow> (Subscription \<times> 'r) res \<times> mstate \<times> 'w" where
  "tx_UpdateSubscription arn fn s w =
     (case fmlookup (subscriptions s) arn of
        None \<Rightarrow> (Inl ErrNotFound, s, w)
      | Some current \<Rightarrow>
          (case fn current w of
             (Inl e, w') \<Rightarrow> (Inl e, s, w')
           | (Inr (copySub, r), w') \<Rightarrow>
               (Inr (copySub, r), s\<lparr>subscriptions := fmupd arn copySub (subscriptions s)\<rparr>, w')))"

definition tx_DeleteSubscription :: "string \<Rightarrow> mstate \<Rightarrow> Subscription res \<times> mstate" where
  "tx_DeleteSubscription arn s =
     (case fmlookup (subscriptions s) arn of
        None \<Rightarrow> (Inl ErrNotFound, s)
      | Some sub \<Rightarrow>
          (Inr sub,
           s\<lparr>subscriptions := fmdrop arn (subscriptions s),
             subsByTopic := (case fmlookup (subsByTopic s) (Sub_TopicARN sub) of
                               None \<Rightarrow> subsByTopic s
                             | Some subSet \<Rightarrow> fmupd (Sub_TopicARN sub) (subSet |-| {|arn|}) (subsByTopic s)),
             confirmation := fmkeep (\<lambda>record. Tok_SubscriptionARN record \<noteq> arn) (confirmation s)\<rparr>))"

definition tx_PutConfirmationToken :: "ConfirmationToken \<Rightarrow> mstate \<Rightarrow> mstate" where
  "tx_PutConfirmationToken token s =
     s\<lparr>confirmation := fmupd (Tok_Token token) token (confirmation s)\<rparr>"

definition tx_DeleteConfirmationToken :: "string \<Rightarrow> mstate \<Rightarrow> mstate" where
  "tx_DeleteConfirmationToken token s = s\<lparr>confirmation := fmdrop token (confirmation s)\<rparr>"

definition tx_EnqueueDeliveryJob :: "DeliveryJob \<Rightarrow> mstate \<Rightarrow> unit res \<times> mstate" where
  "tx_EnqueueDeliveryJob job s =
     (Inr (), s\<lparr>deliveryJobs := fmupd (Job_ID job) job (deliveryJobs s)\<rparr>)"

subsection \<open>Methods of Store\<close>

text \<open>
  \<^verbatim>\<open>Tx\<close>: the callback works on a clone; an error discards the clone.  What the callback
  did to the rest of the world stays.
\<close>

definition Tx ::
    "(mstate \<Rightarrow> 'w \<Rightarrow> 'a res \<times> mstate \<times> 'w) \<Rightarrow> mstate \<Rightarrow> 'w \<Rightarrow> 'a res \<times> mstate \<times> 'w" where
  "Tx fn s w =
     (case fn (cloneState s) w of
        (Inl e, working, w') \<Rightarrow> (Inl e, s, w')
      | (Inr a, working, w') \<Rightarrow> (Inr a, working, w'))"

definition Store_CreateTopic :: "Topic \<Rightarrow> mstate \<Rightarrow> 'w \<Rightarrow> unit res \<times> mstate \<times> 'w" where
  "Store_CreateTopic topic = Tx (\<lambda>tx w. case tx_CreateTopic topic tx of (r, _, tx') \<Rightarrow> (r, tx', w))"

definition Store_UpdateTopic ::
    "string \<Rightarrow> (Topic, 'r, 'w) callback \<Rightarrow> mstate \<Rightarrow> 'w \<Rightarrow> (Topic \<times> 'r) res \<times> mstate \<times> 'w" where
  "Store_UpdateTopic arn fn = Tx (tx_UpdateTopic arn fn)"

definition Store_DeleteTopic :: "string \<Rightarrow> mstate \<Rightarrow> 'w \<Rightarrow> Subscription list res \<times> mstate \<times> 'w" where
  "Store_DeleteTopic arn = Tx (\<lambda>tx w. case tx_DeleteTopic arn tx of (r, tx') \<Rightarrow> (r, tx', w))"

definition Store_CreateSubscription :: "Subscription \<Rightarrow> mstate \<Rightarrow> 'w \<Rightarrow> unit res \<times> mstate \<times> 'w" where
  "Store_CreateSubscription sub =
     Tx (\<lambda>tx w. case tx_CreateSubscription sub tx of (r, tx') \<Rightarrow> (r, tx', w))"

definition Store_UpdateSubscription ::
    "string \<Rightarrow> (Subscription, 'r, 'w) callback \<Rightarrow> mstate \<Rightarrow> 'w \<Rightarrow> (Subscription \<times> 'r) res \<times> mstate \<times> 'w" where
  "Store_UpdateSubscription arn fn = Tx (tx_UpdateSubscription arn fn)"

definition Store_DeleteSubscription :: "string \<Rightarrow> mstate \<Rightarrow> 'w \<Rightarrow> Subscription res \<times> mstate \<times> 'w" where
  "Store_DeleteSubscription arn =
     Tx (\<lambda>tx w. case tx_DeleteSubscription arn tx of (r, tx') \<Rightarrow> (r, tx', w))"

definition Store_PutConfirmationToken :: "ConfirmationToken \<Rightarrow> mstate \<Rightarrow> 'w \<Rightarrow> unit res \<times> mstate \<times> 'w" where
  "Store_PutConfirmationToken token = Tx (\<lambda>tx w. (Inr (), tx_PutConfirmationToken token tx, w))"

definition Store_DeleteConfirmationToken :: "string \<Rightarrow> mstate \<Rightarrow> 'w \<Rightarrow> unit res \<times> mstate \<times> 'w" where
  "Store_DeleteConfirmationToken token = Tx (\<lambda>tx w. (Inr (), tx_DeleteConfirmationToken token tx, w))"

definition Store_EnqueueDeliveryJob :: "DeliveryJob \<Rightarrow> mstate \<Rightarrow> 'w \<Rightarrow> unit res \<times> mstate \<times> 'w" where
  "Store_EnqueueDeliveryJob job =
     Tx (\<lambda>tx w. case tx_EnqueueDeliveryJob job tx of (r, tx') \<Rightarrow> (r, tx', w))"

definition Store_UpdateDeliveryJob ::
    "string \<Rightarrow> (DeliveryJob, 'r, 'w) callback \<Rightarrow> mstate \<Rightarrow> 'w \<Rightarrow> (DeliveryJob \<times> 'r) res \<times> mstate \<times> 'w" where
  "Store_UpdateDeliveryJob jid fn =
     Tx (\<lambda>tx w. case fmlookup (deliveryJobs tx) jid of
           None \<Rightarrow> (Inl ErrNotFound, tx, w)
         | Some current \<Rightarrow>
             (case fn current w of
                (Inl e, w') \<Rightarrow> (Inl e, tx, w')
              | (Inr (copyJob, r), w') \<Rightarrow>
                  (Inr (copyJob, r), tx\<lparr>deliveryJobs := fmupd jid copyJob (deliveryJobs tx)\<rparr>, w')))"

definition Store_DeleteDeliveryJob :: "string \<Rightarrow> mstate \<Rightarrow> mstate" where
  "Store_DeleteDeliveryJob jid s = s\<lparr>deliveryJobs := fmdrop jid (deliveryJobs s)\<rparr>"

definition LoadSigningMaterial :: "mstate \<Rightarrow> SigningMaterial res" where
  "LoadSigningMaterial s = Inr (copySigningMaterial (signingMaterial s))"

definition SaveSigningMaterial :: "SigningMaterial \<Rightarrow> mstate \<Rightarrow> mstate" where
  "SaveSigningMaterial material s = s\<lparr>signingMaterial := copySigningMaterial material\<rparr>"

text \<open>A transaction whose callback cannot fail installs its result.\<close>

lemma Tx_cases:
  "Tx fn s w = (case fn s w of (Inl e, _, w') \<Rightarrow> (Inl e, s, w') | (Inr a, s', w') \<Rightarrow> (Inr a, s', w'))"
  by (simp add: Tx_def)

lemma Tx_total: "Tx (\<lambda>tx w. (Inr a, f tx, w)) s w = (Inr a, f s, w)"
  by (simp add: Tx_def)

lemma Tx_err_unchanged: "Tx fn s w = (Inl e, s', w') \<Longrightarrow> s' = s"
  by (auto simp: Tx_def split: prod.splits sum.splits)

subsection \<open>Refinement of the store contract\<close>

definition mem_abs :: "mstate \<Rightarrow> astore" where
  "mem_abs s =
     \<lparr>A_topics = topics s, A_subs = subscriptions s, A_tokens = confirmation s, A_jobs = deliveryJobs s\<rparr>"

text \<open>The indexes agree with the maps they index.\<close>

definition mem_inv :: "mstate \<Rightarrow> bool" where
  "mem_inv s \<longleftrightarrow>
     (\<forall>name arn. fmlookup (topicsByName s) name = Some arn \<longleftrightarrow>
        (\<exists>t. fmlookup (topics s) arn = Some t \<and> Topic_Name t = name)) \<and>
     (\<forall>topicARN arn. arn |\<in>| topicSubs s topicARN \<longleftrightarrow>
        (\<exists>u. fmlookup (subscriptions s) arn = Some u \<and> Sub_TopicARN u = topicARN))"

lemma mem_abs_simps [simp]:
  "A_topics (mem_abs s) = topics s" "A_subs (mem_abs s) = subscriptions s"
  "A_tokens (mem_abs s) = confirmation s" "A_jobs (mem_abs s) = deliveryJobs s"
  by (simp_all add: mem_abs_def)

lemma mem_inv_name: "mem_inv s \<Longrightarrow> fmlookup (topicsByName s) name = Some arn \<longleftrightarrow> named (mem_abs s) name arn"
  by (auto simp: mem_inv_def named_iff)

lemma mem_inv_sub: "mem_inv s \<Longrightarrow> arn |\<in>| topicSubs s t \<longleftrightarrow> in_topic (mem_abs s) t arn"
  by (simp add: mem_inv_def in_topic_iff)

lemma mem_inv_NewStore: "mem_inv NewStore"
  by (simp add: mem_inv_def NewStore_def topicSubs_def)

lemma findTopicByName_refines:
  assumes "mem_inv s"
  shows "findTopicByName s name = spec_FindTopicByName (mem_abs s) name"
proof -
  let ?ks = "filter (named (mem_abs s) name) (sorted_keys (topics s))"
  have mem: "arn \<in> set ?ks \<longleftrightarrow> fmlookup (topicsByName s) name = Some arn" for arn
    using mem_inv_name [OF assms] by (auto simp: named_iff fmlookup_dom_iff)
  show ?thesis
  proof (cases ?ks)
    case Nil
    then have "fmlookup (topicsByName s) name = None" using mem by (metis empty_iff empty_set not_None_eq)
    with Nil show ?thesis by (simp add: findTopicByName_def spec_FindTopicByName_def)
  next
    case (Cons k ks)
    then have "fmlookup (topicsByName s) name = Some k" using mem by (metis list.set_intros(1))
    with Cons show ?thesis by (simp add: findTopicByName_def spec_FindTopicByName_def)
  qed
qed

lemma sorted_list_of_fset_props [simp]:
  "set (sorted_list_of_fset A) = fset A" "sorted (sorted_list_of_fset A)"
  "distinct (sorted_list_of_fset A)"
  by (simp_all add: sorted_list_of_fset.rep_eq)

lemma topic_sub_keys_refines:
  "mem_inv s \<Longrightarrow> sorted_list_of_fset (topicSubs s t) = topic_sub_keys (mem_abs s) t"
  by (rule sorted_distinct_set_unique)
     (auto simp: topic_sub_keys_def sorted_wrt_filter mem_inv_sub in_topic_iff fmlookup_dom_iff)

text \<open>\<^verbatim>\<open>tx_CreateTopic\<close> without the caller's copy of the topic.\<close>

definition mem_create_topic :: "Topic \<Rightarrow> mstate \<Rightarrow> unit res \<times> mstate" where
  "mem_create_topic t s = (case tx_CreateTopic t s of (r, _, s') \<Rightarrow> (r, s'))"

lemma mem_create_topic_cases:
  assumes "mem_inv s"
  shows "mem_create_topic t s =
    (if \<exists>arn \<in> set (sorted_keys (topics s)). named (mem_abs s) (Topic_Name t) arn then (Inl ErrConflict, s)
     else (Inr (), s\<lparr>topics := fmupd (Topic_ARN t) t (topics s),
                     topicsByName := fmupd (Topic_Name t) (Topic_ARN t) (topicsByName s)\<rparr>))"
proof (cases "fmlookup (topicsByName s) (Topic_Name t)")
  case None
  then have "\<not> named (mem_abs s) (Topic_Name t) arn" for arn
    using mem_inv_name [OF assms] by (metis option.distinct(1))
  with None show ?thesis by (simp add: mem_create_topic_def tx_CreateTopic_def)
next
  case (Some arn)
  then have n: "named (mem_abs s) (Topic_Name t) arn" using mem_inv_name [OF assms] by blast
  then obtain u where u: "fmlookup (topics s) arn = Some u" by (auto simp: named_iff)
  then have "arn \<in> set (sorted_keys (topics s))" by (simp add: fmlookup_dom_iff)
  with Some n u show ?thesis by (auto simp: mem_create_topic_def tx_CreateTopic_def)
qed

lemma mem_create_topic_inv:
  assumes "mem_inv s" "fmlookup (topics s) (Topic_ARN t) = None"
  shows "mem_inv (snd (mem_create_topic t s))"
proof (cases "\<exists>arn \<in> set (sorted_keys (topics s)). named (mem_abs s) (Topic_Name t) arn")
  case False
  then have "\<forall>arn u. fmlookup (topics s) arn = Some u \<longrightarrow> Topic_Name u \<noteq> Topic_Name t"
    by (auto simp: named_iff fmlookup_dom_iff)
  with assms False show ?thesis
    by (simp add: mem_create_topic_cases) (auto simp: mem_inv_def topicSubs_def)
qed (use assms in \<open>simp add: mem_create_topic_cases\<close>)

lemma mem_update_topic_inv:
  assumes "mem_inv s" "keeps_topic fn"
  shows "mem_inv (fst (snd (tx_UpdateTopic arn fn s w)))"
proof (cases "fmlookup (topics s) arn")
  case (Some t)
  show ?thesis
  proof (cases "fn t w")
    case (Pair r w')
    show ?thesis
    proof (cases r)
      case (Inr tr)
      with Pair obtain t' r' where fn: "fn t w = (Inr (t', r'), w')" by (cases tr) auto
      then have "Topic_Name t' = Topic_Name t" using assms(2) unfolding keeps_topic_def by blast
      with assms(1) Some fn show ?thesis
        by (simp add: tx_UpdateTopic_def mem_inv_def topicSubs_def)
    qed (use assms Some Pair in \<open>simp add: tx_UpdateTopic_def\<close>)
  qed
qed (use assms in \<open>simp add: tx_UpdateTopic_def\<close>)

lemma mem_update_sub_inv:
  assumes "mem_inv s" "keeps_sub fn"
  shows "mem_inv (fst (snd (tx_UpdateSubscription arn fn s w)))"
proof (cases "fmlookup (subscriptions s) arn")
  case (Some t)
  show ?thesis
  proof (cases "fn t w")
    case (Pair r w')
    show ?thesis
    proof (cases r)
      case (Inr tr)
      with Pair obtain t' r' where fn: "fn t w = (Inr (t', r'), w')" by (cases tr) auto
      then have "Sub_TopicARN t' = Sub_TopicARN t" using assms(2) unfolding keeps_sub_def by blast
      with assms(1) Some fn show ?thesis
        by (simp add: tx_UpdateSubscription_def mem_inv_def topicSubs_def)
    qed (use assms Some Pair in \<open>simp add: tx_UpdateSubscription_def\<close>)
  qed
qed (use assms in \<open>simp add: tx_UpdateSubscription_def\<close>)

lemma mem_delete_topic_abs:
  assumes "mem_inv s"
  shows "mem_abs (snd (tx_DeleteTopic arn s)) = spec_DeleteTopic arn (mem_abs s)"
proof (cases "fmlookup (topics s) arn")
  case (Some t)
  have "fmdrop_fset (topicSubs s arn) (subscriptions s) = fmkeep (\<lambda>u. Sub_TopicARN u \<noteq> arn) (subscriptions s)"
    using mem_inv_sub [OF assms, of _ arn]
    by (intro fmap_ext) (auto simp: in_topic_iff split: option.split)
  with Some show ?thesis by (simp add: tx_DeleteTopic_def spec_DeleteTopic_def mem_abs_def Let_def)
qed (simp add: tx_DeleteTopic_def spec_DeleteTopic_def)

lemma mem_delete_topic_inv:
  assumes "mem_inv s"
  shows "mem_inv (snd (tx_DeleteTopic arn s))"
proof (cases "fmlookup (topics s) arn")
  case (Some t)
  have "topicSubs (snd (tx_DeleteTopic arn s)) k = (if k = arn then {||} else topicSubs s k)" for k
    using Some by (simp add: tx_DeleteTopic_def Let_def topicSubs_def)
  with assms Some show ?thesis
    unfolding mem_inv_def by (simp add: tx_DeleteTopic_def Let_def) (metis option.inject)
qed (use assms in \<open>simp add: tx_DeleteTopic_def\<close>)

lemma mem_create_sub_inv:
  assumes "mem_inv s"
    "\<And>old. fmlookup (subscriptions s) (Sub_ARN u) = Some old \<Longrightarrow> Sub_TopicARN old = Sub_TopicARN u"
  shows "mem_inv (snd (tx_CreateSubscription u s))"
proof -
  have "topicSubs (snd (tx_CreateSubscription u s)) k =
      (if k = Sub_TopicARN u then finsert (Sub_ARN u) (topicSubs s k) else topicSubs s k)" for k
    by (simp add: tx_CreateSubscription_def topicSubs_def)
  moreover have "\<forall>old. fmlookup (subscriptions s) (Sub_ARN u) = Some old \<longrightarrow> Sub_TopicARN old = Sub_TopicARN u"
    using assms(2) by blast
  ultimately show ?thesis
    using assms(1) unfolding mem_inv_def by (auto simp: tx_CreateSubscription_def)
qed

lemma mem_delete_sub_inv:
  assumes "mem_inv s"
  shows "mem_inv (snd (tx_DeleteSubscription arn s))"
proof (cases "fmlookup (subscriptions s) arn")
  case (Some u)
  have "topicSubs (snd (tx_DeleteSubscription arn s)) k =
      (if k = Sub_TopicARN u then topicSubs s k |-| {|arn|} else topicSubs s k)" for k
    using Some by (auto simp: tx_DeleteSubscription_def topicSubs_def split: option.split)
  with assms Some show ?thesis
    unfolding mem_inv_def by (auto simp: tx_DeleteSubscription_def)
qed (use assms in \<open>simp add: tx_DeleteSubscription_def\<close>)

interpretation mem: sns_store mem_inv mem_abs getTopic findTopicByName getSubscription
  "\<lambda>s t. sorted_list_of_fset (topicSubs s t)" getConfirmationToken mem_create_topic tx_UpdateTopic
  "\<lambda>arn s. snd (tx_DeleteTopic arn s)" "\<lambda>u s. snd (tx_CreateSubscription u s)" tx_UpdateSubscription
  tx_DeleteSubscription tx_PutConfirmationToken tx_DeleteConfirmationToken
  "\<lambda>j s. snd (tx_EnqueueDeliveryJob j s)" Store_DeleteDeliveryJob
proof (unfold_locales, goal_cases)
  case (1 s arn)
  show ?case by (simp add: getTopic_def spec_GetTopic_def of_option_def)
next
  case (2 s name)
  then show ?case by (rule findTopicByName_refines)
next
  case (3 s arn)
  show ?case by (simp add: getSubscription_def spec_GetSubscription_def of_option_def)
next
  case (4 s topicARN)
  then show ?case by (rule topic_sub_keys_refines)
next
  case (5 s tok)
  show ?case by (simp add: getConfirmationToken_def spec_GetConfirmationToken_def of_option_def)
next
  case (6 s t)
  then show ?case by (auto simp: mem_create_topic_cases spec_CreateTopic_def mem_abs_def)
next
  case (7 s t)
  then show ?case by (intro mem_create_topic_inv) simp_all
next
  case (8 arn fn s w)
  show ?case
    by (simp add: tx_UpdateTopic_def spec_UpdateTopic_def run_update_def mem_abs_def
        split: option.split prod.split sum.split)
next
  case (9 s fn arn w)
  then show ?case by (rule mem_update_topic_inv)
next
  case (10 s arn)
  then show ?case by (rule mem_delete_topic_abs)
next
  case (11 s arn)
  then show ?case by (rule mem_delete_topic_inv)
next
  case (12 u s)
  show ?case by (simp add: tx_CreateSubscription_def spec_CreateSubscription_def mem_abs_def)
next
  case (13 s u)
  then show ?case by (intro mem_create_sub_inv) simp_all
next
  case (14 arn fn' s w)
  show ?case
    by (simp add: tx_UpdateSubscription_def spec_UpdateSubscription_def run_update_def mem_abs_def
        split: option.split prod.split sum.split)
next
  case (15 s fn' arn w)
  then show ?case by (rule mem_update_sub_inv)
next
  case (16 arn s)
  show ?case
    by (simp add: tx_DeleteSubscription_def spec_DeleteSubscription_def mem_abs_def split: option.split)
next
  case (17 s arn)
  then show ?case by (rule mem_delete_sub_inv)
qed (simp_all add: tx_PutConfirmationToken_def spec_PutConfirmationToken_def
    tx_DeleteConfirmationToken_def spec_DeleteConfirmationToken_def tx_EnqueueDeliveryJob_def
    spec_EnqueueDeliveryJob_def Store_DeleteDeliveryJob_def spec_DeleteDeliveryJob_def
    mem_abs_def mem_inv_def topicSubs_def)

subsection \<open>What the store guarantees\<close>

definition wf_store :: "mstate \<Rightarrow> bool" where
  "wf_store s \<longleftrightarrow> mem_inv s \<and> integrity (mem_abs s)"

lemma wf_store_good: "wf_store s \<longleftrightarrow> mem.good s"
  by (simp add: wf_store_def mem.good_def)

lemma wf_NewStore: "wf_store NewStore"
  using mem_inv_NewStore by (simp add: wf_store_def integrity_defs mem_abs_def) (simp add: NewStore_def)

text \<open>C10: \<^verbatim>\<open>DeleteTopic\<close> on a well-formed store removes the topic together with exactly its
  subscriptions, confirmation tokens and delivery jobs, leaves every other record alone, and
  keeps the store well-formed.\<close>

theorem delete_topic_complete:
  assumes "wf_store s" "Store_DeleteTopic arn s w = (r, s', w')"
  shows "wf_store s' \<and> getTopic s' arn = Inl ErrNotFound \<and>
    (\<forall>k u. fmlookup (subscriptions s') k = Some u \<longleftrightarrow>
       fmlookup (subscriptions s) k = Some u \<and> Sub_TopicARN u \<noteq> arn) \<and>
    (\<forall>k c. fmlookup (confirmation s') k = Some c \<longleftrightarrow>
       fmlookup (confirmation s) k = Some c \<and> Tok_TopicARN c \<noteq> arn) \<and>
    (\<forall>k j. fmlookup (deliveryJobs s') k = Some j \<longleftrightarrow>
       fmlookup (deliveryJobs s) k = Some j \<and> Pay_TopicARN (Job_Payload j) \<noteq> arn) \<and>
    (\<forall>k. k \<noteq> arn \<longrightarrow> fmlookup (topics s') k = fmlookup (topics s) k)"
proof -
  have s': "s' = snd (tx_DeleteTopic arn s)"
    using assms(2) by (auto simp: Store_DeleteTopic_def Tx_def tx_DeleteTopic_def Let_def split: option.splits)
  have g: "mem.good s" using assms(1) by (simp add: wf_store_good)
  have abs: "mem_abs s' = spec_DeleteTopic arn (mem_abs s)"
    unfolding s' using g by (intro mem_delete_topic_abs) (simp add: mem.good_def)
  show ?thesis
  proof (cases "fmlookup (topics s) arn")
    case None
    then have same: "s' = s" unfolding s' by (simp add: tx_DeleteTopic_def)
    have "refs_ok (mem_abs s)" using assms(1) by (simp add: wf_store_def integrity_def)
    then have "fmlookup (subscriptions s) k = Some u \<Longrightarrow> Sub_TopicARN u \<noteq> arn"
        "fmlookup (confirmation s) k = Some c \<Longrightarrow> Tok_TopicARN c \<noteq> arn"
        "fmlookup (deliveryJobs s) k = Some j \<Longrightarrow> Pay_TopicARN (Job_Payload j) \<noteq> arn" for k u c j
      using None unfolding refs_ok_def mem_abs_simps by blast+
    then show ?thesis using None assms(1) unfolding same by (simp add: getTopic_def) blast
  next
    case (Some t)
    have a: "fmlookup (A_topics (mem_abs s)) arn = Some t" using Some by simp
    note l = spec_DeleteTopic_lookup [OF a, folded abs]
    have "fmlookup (topics s') k = fmlookup (topics s) k" if "k \<noteq> arn" for k
      using l(1) [of k] that by (cases "fmlookup (topics s') k"; cases "fmlookup (topics s) k") auto
    moreover have "wf_store s'" using mem.good_delete_topic [OF g] by (simp add: wf_store_good s')
    moreover have "getTopic s' arn = Inl ErrNotFound"
      unfolding s' using mem.deleted_topic_gone g by (simp add: mem.good_def)
    ultimately show ?thesis using l(2-4) by simp
  qed
qed

lemma walk_page_of:
  "walk (\<lambda>t. page_of keys m t n) fuel t = map_option (map (fmlookup m)) (walk (\<lambda>t. page_keys keys t n) fuel t)"
  by (induction fuel arbitrary: t)
    (auto simp: page_of_def split: sum.splits prod.splits option.splits simp: option.map_comp o_def)

text \<open>A client that follows the page tokens of \<^verbatim>\<open>listTopics\<close>, whatever the page size
  (short of 64 bit overflow), gets every topic exactly once in ARN order, after at most one
  request more than there are topics.\<close>

theorem list_topics_complete:
  assumes "0 < n" "int (length (sorted_keys (topics s))) + n < 2 ^ 63"
  shows "walk (\<lambda>t. listTopics s t n) (Suc (length (sorted_keys (topics s)))) [] =
    Some (map (fmlookup (topics s)) (sorted_keys (topics s)))"
proof -
  obtain sz where n: "n = int sz" using assms(1) by (metis nonneg_int_cases less_imp_le)
  have "page_fits (sorted_keys (topics s)) sz"
    using assms unfolding n page_fits_def by (simp flip: of_nat_add add: of_nat_less_numeral_power_cancel_iff)
  then have "walk (\<lambda>t. page_keys (sorted_keys (topics s)) t n) (Suc (length (sorted_keys (topics s)))) [] =
      Some (sorted_keys (topics s))"
    unfolding n by (rule mem_pages.walk_all) simp
  then show ?thesis by (simp add: listTopics_def walk_page_of del: walk.simps)
qed

text \<open>C12: the pages of \<^verbatim>\<open>listSubscriptionsByTopic\<close> together hold exactly the subscriptions
  of the topic, each once, in ARN order, and no nil entry.\<close>

theorem list_topic_subs_complete:
  assumes "wf_store s" "0 < n" "int (length (sorted_list_of_fset (topicSubs s arn))) + n < 2 ^ 63"
  shows "\<exists>items. walk (\<lambda>t. listSubscriptionsByTopic s arn t n)
       (Suc (length (sorted_list_of_fset (topicSubs s arn)))) [] = Some (map Some items) \<and>
     sorted (map Sub_ARN items) \<and> distinct (map Sub_ARN items) \<and>
     set items = {u. \<exists>k. fmlookup (subscriptions s) k = Some u \<and> Sub_TopicARN u = arn}"
proof -
  let ?ks = "sorted_list_of_fset (topicSubs s arn)"
  obtain sz where n: "n = int sz" using assms(2) by (metis nonneg_int_cases less_imp_le)
  have "page_fits ?ks sz"
    using assms unfolding n page_fits_def by (simp flip: of_nat_add add: of_nat_less_numeral_power_cancel_iff)
  then have w: "walk (\<lambda>t. listSubscriptionsByTopic s arn t n) (Suc (length ?ks)) [] =
      Some (map (fmlookup (subscriptions s)) ?ks)"
    using mem_pages.walk_all [of ?ks sz "Suc (length ?ks)"]
    by (simp add: n listSubscriptionsByTopic_def walk_page_of del: walk.simps)
  have inv: "mem_inv s" and k: "fmlookup (subscriptions s) a = Some u \<Longrightarrow> Sub_ARN u = a" for a u
    using assms(1) by (auto simp: wf_store_def integrity_defs)
  have mem: "a \<in> set ?ks \<longleftrightarrow> (\<exists>u. fmlookup (subscriptions s) a = Some u \<and> Sub_TopicARN u = arn)" for a
    using mem_inv_sub [OF inv] by (simp add: in_topic_iff)
  define items where "items = map (\<lambda>a. the (fmlookup (subscriptions s) a)) ?ks"
  have "map (fmlookup (subscriptions s)) ?ks = map Some items"
    using mem by (fastforce simp: items_def)
  moreover have arns: "map Sub_ARN items = ?ks"
    unfolding items_def map_map using mem k by (intro map_idI) fastforce
  moreover have "set items = {u. \<exists>k. fmlookup (subscriptions s) k = Some u \<and> Sub_TopicARN u = arn}"
    unfolding items_def using mem by (force simp: image_iff)
  ultimately show ?thesis using w by (intro exI [of _ items]) simp
qed

lemma sort_key_take_min:
  assumes "x \<in> set (take n (sort_key f xs))" "y \<in> set (drop n (sort_key f xs))"
  shows "f x \<le> f y"
proof -
  have "sorted (map f (take n (sort_key f xs) @ drop n (sort_key f xs)))" by simp
  then show ?thesis using assms unfolding map_append sorted_append by auto
qed

definition ready_ids :: "mstate \<Rightarrow> time \<Rightarrow> string list" where
  "ready_ids s now =
     filter (\<lambda>jid. case fmlookup (deliveryJobs s) jid of None \<Rightarrow> False
        | Some j \<Rightarrow> \<not> Job_NextAttemptAt j > now) (sorted_keys (deliveryJobs s))"

definition job_due :: "DeliveryJob \<Rightarrow> time \<times> time" where
  "job_due j = (Job_NextAttemptAt j, Job_CreatedAt j)"

lemma ready_ids_iff:
  "k \<in> set (ready_ids s now) \<longleftrightarrow> (\<exists>j. fmlookup (deliveryJobs s) k = Some j \<and> Job_NextAttemptAt j \<le> now)"
  by (auto simp: ready_ids_def fmlookup_dom_iff split: option.splits)

text \<open>The listing is a prefix of the due jobs in due order, cut at the limit.\<close>

lemma ListReady_prefix:
  obtains n where
    "ListReadyDeliveryJobs s now limit =
       map (\<lambda>k. the (fmlookup (deliveryJobs s) k)) (take n (sort_key (job_key s) (ready_ids s now)))"
    "n < length (ready_ids s now) \<Longrightarrow> 0 < limit \<and> int n = limit"
    "0 < limit \<Longrightarrow> int (min n (length (ready_ids s now))) \<le> limit"
proof -
  let ?ks = "sort_key (job_key s) (ready_ids s now)"
  define n where "n = (if limit > 0 \<and> int (length ?ks) > limit then nat limit else length ?ks)"
  have some: "k \<in> set ?ks \<Longrightarrow> fmlookup (deliveryJobs s) k \<noteq> None" for k using ready_ids_iff [of k s now] by auto
  have mf: "List.map_filter (fmlookup (deliveryJobs s)) ks = map (\<lambda>k. the (fmlookup (deliveryJobs s) k)) ks"
    if "set ks \<subseteq> set ?ks" for ks
    using that some by (induction ks) (fastforce simp: List.map_filter_simps)+
  have "ListReadyDeliveryJobs s now limit = List.map_filter (fmlookup (deliveryJobs s)) (take n ?ks)"
    by (simp add: ListReadyDeliveryJobs_def n_def Let_def ready_ids_def [symmetric])
  then have "ListReadyDeliveryJobs s now limit = map (\<lambda>k. the (fmlookup (deliveryJobs s) k)) (take n ?ks)"
    using mf [of "take n ?ks"] set_take_subset [of n ?ks] by simp
  then show ?thesis by (rule that) (auto simp: n_def split: if_splits)
qed

lemma wf_job_keyed: "wf_store s \<Longrightarrow> fmlookup (deliveryJobs s) k = Some j \<Longrightarrow> Job_ID j = k"
  by (simp add: wf_store_def integrity_def keyed_def)

lemma ListReady_sound:
  assumes keyed: "\<And>k j. fmlookup (deliveryJobs s) k = Some j \<Longrightarrow> Job_ID j = k"
  shows "distinct (map Job_ID (ListReadyDeliveryJobs s now limit)) \<and>
    (\<forall>j \<in> set (ListReadyDeliveryJobs s now limit).
       fmlookup (deliveryJobs s) (Job_ID j) = Some j \<and> Job_NextAttemptAt j \<le> now)"
proof -
  obtain n where L: "ListReadyDeliveryJobs s now limit =
       map (\<lambda>k. the (fmlookup (deliveryJobs s) k)) (take n (sort_key (job_key s) (ready_ids s now)))"
    using ListReady_prefix [of s now limit] by blast
  define ks where "ks = sort_key (job_key s) (ready_ids s now)"
  have pre: "k \<in> set (take n ks) \<Longrightarrow> \<exists>j. fmlookup (deliveryJobs s) k = Some j \<and> Job_NextAttemptAt j \<le> now \<and> Job_ID j = k" for k
    using in_set_takeD [of k n ks] ready_ids_iff [of k s now] keyed by (fastforce simp: ks_def)
  have "map Job_ID (ListReadyDeliveryJobs s now limit) = take n ks"
    unfolding L ks_def [symmetric] map_map using pre by (intro map_idI) fastforce
  then show ?thesis
    unfolding L ks_def [symmetric] using pre by (force simp: ks_def ready_ids_def distinct_take)
qed

lemma ListReady_nonempty:
  assumes "fmlookup (deliveryJobs s) k = Some j" "Job_NextAttemptAt j \<le> now"
  shows "ListReadyDeliveryJobs s now limit \<noteq> []"
proof -
  obtain n where L: "ListReadyDeliveryJobs s now limit =
       map (\<lambda>k. the (fmlookup (deliveryJobs s) k)) (take n (sort_key (job_key s) (ready_ids s now)))"
    and cut: "n < length (ready_ids s now) \<Longrightarrow> 0 < limit \<and> int n = limit"
    using ListReady_prefix [of s now limit] by blast
  have "ready_ids s now \<noteq> []" using assms ready_ids_iff [of k s now] by force
  moreover have "n \<noteq> 0"
  proof
    assume "n = 0"
    with \<open>ready_ids s now \<noteq> []\<close> cut show False by auto
  qed
  ultimately show ?thesis unfolding L by (metis length_0_conv length_sort map_is_Nil_conv take_eq_Nil)
qed

text \<open>C11: \<^verbatim>\<open>ListReadyDeliveryJobs\<close> returns stored jobs that are due, none twice, in due
  order and within the limit; a due job is left out only when the limit is reached, and then
  every returned job is due no later.\<close>

theorem ready_jobs_due:
  assumes "wf_store s"
  shows "sorted (map job_due (ListReadyDeliveryJobs s now limit)) \<and>
    distinct (map Job_ID (ListReadyDeliveryJobs s now limit)) \<and>
    (limit > 0 \<longrightarrow> int (length (ListReadyDeliveryJobs s now limit)) \<le> limit) \<and>
    (\<forall>j \<in> set (ListReadyDeliveryJobs s now limit).
       fmlookup (deliveryJobs s) (Job_ID j) = Some j \<and> Job_NextAttemptAt j \<le> now) \<and>
    (\<forall>k j. fmlookup (deliveryJobs s) k = Some j \<and> Job_NextAttemptAt j \<le> now \<and>
        j \<notin> set (ListReadyDeliveryJobs s now limit) \<longrightarrow>
        0 < limit \<and> int (length (ListReadyDeliveryJobs s now limit)) = limit \<and>
        (\<forall>i \<in> set (ListReadyDeliveryJobs s now limit). job_due i \<le> job_due j))"
    (is "_ \<and> _ \<and> _ \<and> ?sound \<and> ?rest")
proof -
  obtain n where L: "ListReadyDeliveryJobs s now limit =
       map (\<lambda>k. the (fmlookup (deliveryJobs s) k)) (take n (sort_key (job_key s) (ready_ids s now)))"
    and cut: "n < length (ready_ids s now) \<Longrightarrow> 0 < limit \<and> int n = limit"
    and le: "0 < limit \<Longrightarrow> int (min n (length (ready_ids s now))) \<le> limit"
    using ListReady_prefix [of s now limit] by blast
  define ks where "ks = sort_key (job_key s) (ready_ids s now)"
  have set_ks: "set ks = set (ready_ids s now)" "length ks = length (ready_ids s now)" by (simp_all add: ks_def)
  have keyed: "fmlookup (deliveryJobs s) k = Some j \<Longrightarrow> Job_ID j = k" for k j
    using assms by (simp add: wf_store_def integrity_def keyed_def)
  have key: "k \<in> set ks \<Longrightarrow> job_due (the (fmlookup (deliveryJobs s) k)) = job_key s k" for k
    using ready_ids_iff [of k s now] by (auto simp: set_ks job_due_def job_key_def)
  have pre: "k \<in> set (take n ks) \<Longrightarrow> k \<in> set ks" for k by (rule in_set_takeD)
  have due: "map job_due (ListReadyDeliveryJobs s now limit) = map (job_key s) (take n ks)"
    unfolding L ks_def [symmetric] using key pre by simp
  have 1: "sorted (map job_due (ListReadyDeliveryJobs s now limit))"
    unfolding due by (simp add: ks_def sorted_wrt_take flip: take_map)
  have 2: "distinct (map Job_ID (ListReadyDeliveryJobs s now limit))" and 4: ?sound
    using ListReady_sound [OF wf_job_keyed [OF assms]] by blast+
  have 5: ?rest
  proof (intro allI impI)
    fix k j
    assume j: "fmlookup (deliveryJobs s) k = Some j \<and> Job_NextAttemptAt j \<le> now \<and>
      j \<notin> set (ListReadyDeliveryJobs s now limit)"
    then have "k \<in> set ks" using ready_ids_iff [of k s now] by (auto simp: set_ks)
    moreover have "k \<notin> set (take n ks)" using j unfolding L ks_def [symmetric] by force
    ultimately have d: "k \<in> set (drop n ks)" by (metis append_take_drop_id set_append UnE)
    then have n: "n < length ks" by (cases "n < length ks") auto
    have "job_due i \<le> job_due j" if "i \<in> set (ListReadyDeliveryJobs s now limit)" for i
    proof -
      from that obtain a where a: "a \<in> set (take n ks)" "i = the (fmlookup (deliveryJobs s) a)"
        unfolding L ks_def [symmetric] by auto
      have "job_key s a \<le> job_key s k"
        using sort_key_take_min [of a n "job_key s" "ready_ids s now" k] a(1) d by (simp add: ks_def)
      with a j show ?thesis using key [OF pre [OF a(1)]] by (simp add: job_due_def job_key_def)
    qed
    with n cut set_ks(2) show "0 < limit \<and> int (length (ListReadyDeliveryJobs s now limit)) = limit \<and>
        (\<forall>i \<in> set (ListReadyDeliveryJobs s now limit). job_due i \<le> job_due j)"
      unfolding L ks_def [symmetric] by simp
  qed
  have 3: "limit > 0 \<longrightarrow> int (length (ListReadyDeliveryJobs s now limit)) \<le> limit"
    using le unfolding L by (simp add: min.commute)
  from 1 2 3 4 5 show ?thesis by (intro conjI)
qed

subsection \<open>Concrete instances\<close>

text \<open>A store with one topic and one subscription, on which the theorems apply.\<close>

definition sample_store :: mstate where
  "sample_store = snd (tx_CreateSubscription sample_sub (snd (mem_create_topic sample_topic NewStore)))"

lemma wf_sample_store: "wf_store sample_store"
proof -
  have t: "wf_store (snd (mem_create_topic sample_topic NewStore))"
    using mem.good_create_topic [of NewStore sample_topic] wf_NewStore
    by (metis wf_store_good prod.collapse mem_abs_simps(1) NewStore_def mstate.simps(1) fmempty_lookup)
  show ?thesis
    unfolding sample_store_def wf_store_good
    by (rule mem.good_create_sub)
      (use t in \<open>simp_all add: wf_store_good mem_create_topic_def tx_CreateTopic_def NewStore_def
         sample_topic_def sample_sub_def\<close>)
qed


lemma sample_store_maps:
  "topics sample_store = fmupd (Topic_ARN sample_topic) sample_topic fmempty"
  "subscriptions sample_store = fmupd (Sub_ARN sample_sub) sample_sub fmempty"
  "topicSubs sample_store (Topic_ARN sample_topic) = {|Sub_ARN sample_sub|}"
  "confirmation sample_store = fmempty" "deliveryJobs sample_store = fmempty"
  by (simp_all add: sample_store_def tx_CreateSubscription_def mem_create_topic_def tx_CreateTopic_def
      NewStore_def topicSubs_def sample_topic_def sample_sub_def)

lemma sorted_keys_single [simp]: "sorted_keys (fmupd k v fmempty) = [k]"
  using sorted_keys_unique [of "[k]" "fmupd k v fmempty"] by simp

theorem delete_topic_complete_witness:
  "let s' = fst (snd (Store_DeleteTopic (Topic_ARN sample_topic) sample_store ())) in
     wf_store s' \<and> getTopic s' (Topic_ARN sample_topic) = Inl ErrNotFound \<and>
     getSubscription s' (Sub_ARN sample_sub) = Inl ErrNotFound"
proof -
  let ?r = "Store_DeleteTopic (Topic_ARN sample_topic) sample_store ()"
  have "?r = (fst ?r, fst (snd ?r), snd (snd ?r))" by (metis prod.collapse)
  note c = delete_topic_complete [OF wf_sample_store this]
  have "Sub_TopicARN sample_sub = Topic_ARN sample_topic" by (simp add: sample_sub_def sample_topic_def)
  then have "fmlookup (subscriptions (fst (snd ?r))) (Sub_ARN sample_sub) \<noteq> Some u" for u
    using c by (auto simp: sample_store_maps)
  then show ?thesis using c by (auto simp: Let_def getSubscription_def split: option.split)
qed

theorem list_topics_complete_witness:
  "walk (\<lambda>t. listTopics sample_store t 1) (Suc (Suc 0)) [] = Some [Some sample_topic]"
proof -
  have k: "sorted_keys (topics sample_store) = [Topic_ARN sample_topic]" by (simp add: sample_store_maps)
  show ?thesis using list_topics_complete [of 1 sample_store, unfolded k]
    by (simp add: sample_store_maps(1) del: walk.simps)
qed

theorem list_topic_subs_complete_witness:
  "\<exists>items. walk (\<lambda>t. listSubscriptionsByTopic sample_store (Topic_ARN sample_topic) t 1) (Suc (Suc 0)) [] =
      Some (map Some items) \<and> sample_sub \<in> set items"
proof -
  have k: "sorted_list_of_fset (topicSubs sample_store (Topic_ARN sample_topic)) = [Sub_ARN sample_sub]"
    by (simp add: sample_store_maps(3) sorted_list_of_fset.rep_eq)
  obtain items where "walk (\<lambda>t. listSubscriptionsByTopic sample_store (Topic_ARN sample_topic) t 1) (Suc (Suc 0)) [] =
      Some (map Some items)"
    and m: "set items = {u. \<exists>k. fmlookup (subscriptions sample_store) k = Some u \<and> Sub_TopicARN u = Topic_ARN sample_topic}"
    using list_topic_subs_complete [OF wf_sample_store, of 1 "Topic_ARN sample_topic", unfolded k]
    by (auto simp del: walk.simps)
  moreover have "fmlookup (subscriptions sample_store) (Sub_ARN sample_sub) = Some sample_sub \<and>
      Sub_TopicARN sample_sub = Topic_ARN sample_topic"
    by (simp add: sample_store_maps(2)) (simp add: sample_sub_def sample_topic_def)
  ultimately show ?thesis by blast
qed

text \<open>One due job, one that is due later.\<close>

definition sample_job :: "string \<Rightarrow> time \<Rightarrow> DeliveryJob" where
  "sample_job i due =
     \<lparr>Job_ID = i, Job_Kind = ''notification'',
      Job_Payload =
        \<lparr>Pay_Type = ''Notification'', Pay_TopicARN = Topic_ARN sample_topic, Pay_TopicOwner = ''1'',
         Pay_SubscriptionARN = Sub_ARN sample_sub, Pay_Protocol = ProtocolHTTP,
         Pay_Endpoint = ''http://x'', Pay_MessageID = ''m'', Pay_Subject = [], Pay_Message = ''hi'',
         Pay_ProtocolMessage = ''hi'', Pay_Timestamp = 0, Pay_Token = [], Pay_SubscribeURL = [],
         Pay_UnsubscribeURL = [], Pay_SignatureVersion = ''1'', Pay_Signature = [],
         Pay_SigningCertURL = [], Pay_MessageAttributes = [], Pay_GroupID = [],
         Pay_DeduplicationID = [], Pay_SequenceNumber = [], Pay_Headers = fmempty\<rparr>,
      Job_EffectiveDeliveryJSON = [], Job_RawMessageDelivery = False, Job_RedrivePolicy = [],
      Job_AttemptCount = 0, Job_NextAttemptAt = due, Job_LastError = [], Job_CreatedAt = 0,
      Job_UpdatedAt = 0\<rparr>"

definition sample_queue :: mstate where
  "sample_queue =
     snd (tx_EnqueueDeliveryJob (sample_job ''j2'' 9) (snd (tx_EnqueueDeliveryJob (sample_job ''j1'' 5) sample_store)))"

lemma wf_sample_queue: "wf_store sample_queue"
  unfolding sample_queue_def wf_store_good
  by (intro mem.good_enqueue)
    (use wf_sample_store in \<open>simp_all add: wf_store_good sample_job_def tx_EnqueueDeliveryJob_def sample_store_maps\<close>)

theorem ready_jobs_due_witness:
  "sample_job ''j1'' 5 \<in> set (ListReadyDeliveryJobs sample_queue 7 0) \<and>
   sample_job ''j2'' 9 \<notin> set (ListReadyDeliveryJobs sample_queue 7 0)"
proof -
  note c = ready_jobs_due [OF wf_sample_queue, of 7 0]
  have j1: "fmlookup (deliveryJobs sample_queue) ''j1'' = Some (sample_job ''j1'' 5)"
    by (simp add: sample_queue_def tx_EnqueueDeliveryJob_def sample_job_def)
  have due: "Job_NextAttemptAt (sample_job i d) = d" for i d by (simp add: sample_job_def)
  have late: "sample_job ''j2'' 9 \<notin> set (ListReadyDeliveryJobs sample_queue 7 0)"
    using c due by force
  have "sample_job ''j1'' 5 \<in> set (ListReadyDeliveryJobs sample_queue 7 0)"
    using c j1 due [of "''j1''" 5] by force
  with late show ?thesis by blast
qed

end
