(* ===== verification/Go_Number.thy ===== *)
theory Go_Number
  imports Go_JSON
begin

text \<open>
  \<^verbatim>\<open>strconv.ParseFloat\<close> on any text and \<^verbatim>\<open>fmt\<close>'s default format of dynamic values, as the
  filter package uses them.  A \<^verbatim>\<open>float64\<close> is finite (a sign, so that the two zeros differ, and a
  magnitude), infinite or not a number.
\<close>

datatype float64 = Fin bool rat | FInf bool | NaN

fun float_value :: "float64 \<Rightarrow> rat" where
  "float_value (Fin neg m) = (if neg then - m else m)"
| "float_value _ = 0"

subsection \<open>ParseFloat\<close>

definition is_hex_digit :: "char \<Rightarrow> bool" where
  "is_hex_digit c \<longleftrightarrow> digit_value 16 (lower_char c) \<noteq> None"

text \<open>The mantissa: the digits before and after the point, and what follows it.  Underscores are
  skipped here and checked afterwards; a second point ends the mantissa.\<close>

fun scan_mantissa :: "bool \<Rightarrow> bool \<Rightarrow> string \<Rightarrow> string \<times> string \<times> string" where
  "scan_mantissa hex dot [] = ([], [], [])"
| "scan_mantissa hex dot (c # s) =
     (if c = CHR ''_'' then scan_mantissa hex dot s
      else if c = CHR ''.'' then (if dot then ([], [], c # s) else scan_mantissa hex True s)
      else if is_digit c \<or> (hex \<and> is_hex_digit c) then
        (case scan_mantissa hex dot s of (ip, fp, r) \<Rightarrow> if dot then (ip, c # fp, r) else (c # ip, fp, r))
      else ([], [], c # s))"

text \<open>The exponent saturates once it has reached 10000.\<close>

fun scan_exponent :: "nat \<Rightarrow> string \<Rightarrow> nat \<times> string" where
  "scan_exponent e [] = (e, [])"
| "scan_exponent e (c # s) =
     (if c = CHR ''_'' then scan_exponent e s
      else if is_digit c
      then scan_exponent (if e < 10000 then e * 10 + (byte_value c - 48) else e) s
      else (e, c # s))"

text \<open>\<^verbatim>\<open>underscoreOK\<close>: an underscore follows a digit (or the base prefix) and precedes one.
  The state is the class of the last character: start, digit, underscore or other.\<close>

datatype last_char = LStart | LDigit | LUnder | LOther

fun underscore_scan :: "bool \<Rightarrow> last_char \<Rightarrow> string \<Rightarrow> bool" where
  "underscore_scan hex st [] \<longleftrightarrow> st \<noteq> LUnder"
| "underscore_scan hex st (c # s) \<longleftrightarrow>
     (if is_digit c \<or> (hex \<and> is_hex_digit c) then underscore_scan hex LDigit s
      else if c = CHR ''_'' then st = LDigit \<and> underscore_scan hex LUnder s
      else st \<noteq> LUnder \<and> underscore_scan hex LOther s)"

definition has_hex_prefix :: "string \<Rightarrow> bool" where
  "has_hex_prefix s \<longleftrightarrow> (case s of c # d # _ # _ \<Rightarrow> c = CHR ''0'' \<and> lower_char d = CHR ''x'' | _ \<Rightarrow> False)"

definition underscoreOK :: "string \<Rightarrow> bool" where
  "underscoreOK s \<longleftrightarrow>
     (let s = (case s of c # r \<Rightarrow> if c = CHR ''-'' \<or> c = CHR ''+'' then r else s | [] \<Rightarrow> [])
      in case s of
           c # d # r \<Rightarrow>
             if c = CHR ''0'' \<and> lower_char d \<in> set ''box''
             then underscore_scan (lower_char d = CHR ''x'') LDigit r
             else underscore_scan False LStart s
         | _ \<Rightarrow> underscore_scan False LStart s)"

definition digits_nat :: "nat \<Rightarrow> string \<Rightarrow> nat" where
  "digits_nat b ds = (case digits_value b 0 (ToLower ds) of None \<Rightarrow> 0 | Some n \<Rightarrow> n)"

text \<open>The exponent part after the mantissa: \<^verbatim>\<open>None\<close> when it is malformed or not followed by
  the end of the text.\<close>

definition parse_exponent :: "bool \<Rightarrow> string \<Rightarrow> int option" where
  "parse_exponent hex s =
     (case s of
        [] \<Rightarrow> if hex then None else Some 0
      | c # r \<Rightarrow>
          if lower_char c \<noteq> (if hex then CHR ''p'' else CHR ''e'') then None
          else let (neg, ds) = (case r of
                                  d # r' \<Rightarrow> if d = CHR ''+'' then (False, r') else if d = CHR ''-'' then (True, r') else (False, r)
                                | [] \<Rightarrow> (False, []))
               in case ds of
                    [] \<Rightarrow> None
                  | d # _ \<Rightarrow>
                      if \<not> is_digit d then None
                      else (case scan_exponent 0 ds of
                              (e, []) \<Rightarrow> Some (if neg then - int e else int e)
                            | (e, _ # _) \<Rightarrow> None))"

definition scaled :: "bool \<Rightarrow> nat \<Rightarrow> nat \<Rightarrow> int \<Rightarrow> rat" where
  "scaled hex m fdigits e =
     (if hex then of_nat m / 16 ^ fdigits * pow2 e else of_nat m / 10 ^ fdigits * scale10 e)"

definition parse_finite :: "bool \<Rightarrow> string \<Rightarrow> float64 option" where
  "parse_finite neg s =
     (let hex = has_hex_prefix s;
          (ip, fp, rest) = scan_mantissa hex False (if hex then drop 2 s else s)
      in if ip = [] \<and> fp = [] then None
         else case parse_exponent hex rest of
                None \<Rightarrow> None
              | Some e \<Rightarrow>
                  let x = round64 (scaled hex (digits_nat (if hex then 16 else 10) (ip @ fp)) (length fp) e)
                  in if x < 2 ^ 1024 then Some (Fin neg x) else None)"

definition parse_float :: "string \<Rightarrow> float64 option" where
  "parse_float s =
     (let (signed, neg, r) = (case s of
                                c # r \<Rightarrow> if c = CHR ''-'' then (True, True, r) else if c = CHR ''+'' then (True, False, r)
                                         else (False, False, s)
                              | [] \<Rightarrow> (False, False, []))
      in if ToLower r = ''inf'' \<or> ToLower r = ''infinity'' then Some (FInf neg)
         else if \<not> signed \<and> ToLower r = ''nan'' then Some NaN
         else if CHR ''_'' \<in> set s \<and> \<not> underscoreOK s then None
         else parse_finite neg r)"

subsection \<open>Comparison\<close>

fun float_less :: "float64 \<Rightarrow> float64 \<Rightarrow> bool" where
  "float_less NaN _ = False"
| "float_less _ NaN = False"
| "float_less (FInf a) (FInf b) = (a \<and> \<not> b)"
| "float_less (FInf a) (Fin _ _) = a"
| "float_less (Fin _ _) (FInf b) = (\<not> b)"
| "float_less (Fin a m) (Fin b n) = (float_value (Fin a m) < float_value (Fin b n))"

fun float_eq :: "float64 \<Rightarrow> float64 \<Rightarrow> bool" where
  "float_eq (FInf a) (FInf b) = (a = b)"
| "float_eq (Fin a m) (Fin b n) = (float_value (Fin a m) = float_value (Fin b n))"
| "float_eq _ _ = False"

text \<open>\<^verbatim>\<open>math.Abs(a-b) < 1e-9\<close>: a difference with an infinity is infinite or not a number.\<close>

fun float_close :: "float64 \<Rightarrow> float64 \<Rightarrow> bool" where
  "float_close (Fin a m) (Fin b n) =
     (abs (fsub (float_value (Fin a m)) (float_value (Fin b n))) < round64 (1 / 10 ^ 9))"
| "float_close _ _ = False"

subsection \<open>Printing\<close>

text \<open>\<^verbatim>\<open>%v\<close> of a float: shortest digits, an exponent of at least two digits when it is below
  -4 or at least 6.\<close>

definition format_g :: "nat \<Rightarrow> int \<Rightarrow> string" where
  "format_g d e =
     (let ds = digits_of 10 d; point = int (length ds) + e; x = point - 1 in
      if x < - 4 \<or> x \<ge> 6 then
        (case ds of
           [] \<Rightarrow> []
         | c # r \<Rightarrow> [c] @ (if r = [] then [] else ''.'' @ r) @ ''e'' @ (if x < 0 then ''-'' else ''+'') @
                     pad_left 2 (digits_of 10 (nat (abs x))))
      else if e \<ge> 0 then ds @ replicate (nat e) (CHR ''0'')
      else if point > 0 then take (nat point) ds @ ''.'' @ drop (nat point) ds
      else ''0.'' @ replicate (nat (- point)) (CHR ''0'') @ ds)"

fun format_float64 :: "float64 \<Rightarrow> string" where
  "format_float64 NaN = ''NaN''"
| "format_float64 (FInf neg) = (if neg then ''-Inf'' else ''+Inf'')"
| "format_float64 (Fin neg m) =
     (if neg then ''-'' else []) @
     (if m = 0 then ''0''
      else case shortest_from m 1 17 of (d, e) \<Rightarrow> case strip_zeros 17 d e of (d', e') \<Rightarrow> format_g d' e')"

text \<open>\<^verbatim>\<open>fmt.Sprint\<close> of one dynamic value.  A number is kept as the text it was read from.\<close>

fun Sprint :: "any \<Rightarrow> string" where
  "Sprint ANil = ''<nil>''"
| "Sprint (ABool b) = (if b then ''true'' else ''false'')"
| "Sprint (ANum n) = (case parse_float n of None \<Rightarrow> [] | Some f \<Rightarrow> format_float64 f)"
| "Sprint (AStr s) = s"
| "Sprint (AArr vs) = ''['' @ Join (map Sprint vs) '' '' @ '']''"
| "Sprint (AMap ms) =
     ''map['' @ Join (map (\<lambda>(k, v). k @ '':'' @ v) (sort_key fst (map (\<lambda>(k, v). (k, Sprint v)) ms))) '' '' @ '']''"

end
