(* ===== verification/Go_NetIP.thy ===== *)
theory Go_NetIP
  imports Go_Strings
begin

text \<open>
  What the filter package uses of \<^verbatim>\<open>net/netip\<close>: parsing an address and a prefix, and the
  test that a prefix contains an address.  The text of the parse errors is not modelled.
\<close>

unbundle bit_operations_syntax

datatype Addr = V4 "32 word" | V6 "128 word" string

subsection \<open>Parsing addresses\<close>

text \<open>A decimal octet: at most 255, no leading zero.\<close>

definition parse_octet :: "string \<Rightarrow> nat option" where
  "parse_octet s =
     (if s = [] \<or> (length s > 1 \<and> hd s = CHR ''0'') then None
      else case digits_value 10 0 s of None \<Rightarrow> None | Some n \<Rightarrow> if n \<le> 255 then Some n else None)"

definition parse_ipv4_fields :: "string \<Rightarrow> (nat \<times> nat \<times> nat \<times> nat) option" where
  "parse_ipv4_fields s =
     (case map parse_octet (Split (CHR ''.'') s) of
        [Some a, Some b, Some c, Some d] \<Rightarrow> Some (a, b, c, d)
      | _ \<Rightarrow> None)"

definition is_hex_char :: "char \<Rightarrow> bool" where
  "is_hex_char c \<longleftrightarrow> digit_value 16 (lower_char c) \<noteq> None"

definition hex_group :: "string \<Rightarrow> nat" where
  "hex_group ds = (case digits_value 16 0 (ToLower ds) of None \<Rightarrow> 0 | Some n \<Rightarrow> n)"

text \<open>
  The groups of an IPv6 address.  \<open>groups\<close> holds the 16 bit groups read so far and \<open>ell\<close> the
  position of the double colon; the result is these two at the end of a well-formed text.
  A group has one to four hexadecimal digits; a dot after it makes the rest a dotted quad, which
  must fill the last two groups.
\<close>

function parse_groups :: "string \<Rightarrow> nat list \<Rightarrow> nat option \<Rightarrow> (nat list \<times> nat option) option" where
  "parse_groups s groups ell =
     (if length groups \<ge> 8 then (if s = [] then Some (groups, ell) else None)
      else
        let ds = takeWhile is_hex_char s; rest = dropWhile is_hex_char s in
        if ds = [] \<or> length ds > 4 then None
        else case rest of
               [] \<Rightarrow> Some (groups @ [hex_group ds], ell)
             | c # r \<Rightarrow>
                 if c = CHR ''.'' then
                   (if (ell = None \<and> length groups \<noteq> 6) \<or> length groups + 2 > 8 then None
                    else case parse_ipv4_fields s of
                           None \<Rightarrow> None
                         | Some (a, b, c, d) \<Rightarrow> Some (groups @ [a * 256 + b, c * 256 + d], ell))
                 else if c \<noteq> CHR '':'' \<or> r = [] then None
                 else if hd r = CHR '':'' then
                   (if ell \<noteq> None then None
                    else if tl r = [] then Some (groups @ [hex_group ds], Some (length groups + 1))
                    else parse_groups (tl r) (groups @ [hex_group ds]) (Some (length groups + 1)))
                 else parse_groups r (groups @ [hex_group ds]) ell)"
  by pat_completeness auto
termination
  by (relation "measure (\<lambda>(s, groups, ell). 8 - length groups)") auto

declare parse_groups.simps [simp del]

text \<open>The double colon stands for at least one group of zeros.\<close>

definition expand_groups :: "nat list \<times> nat option \<Rightarrow> nat list option" where
  "expand_groups ge =
     (case ge of (groups, ell) \<Rightarrow>
        if length groups < 8 then
          (case ell of
             None \<Rightarrow> None
           | Some i \<Rightarrow> Some (take i groups @ replicate (8 - length groups) 0 @ drop i groups))
        else if ell \<noteq> None then None else Some groups)"

definition groups_word :: "nat list \<Rightarrow> 128 word" where
  "groups_word gs = fold (\<lambda>g w. push_bit 16 w OR word_of_nat g) gs 0"

definition parse_ipv6 :: "string \<Rightarrow> Addr option" where
  "parse_ipv6 s =
     (let (body, zone) = (case Cut (CHR ''%'') s of None \<Rightarrow> (s, None) | Some (a, z) \<Rightarrow> (a, Some z)) in
      if zone = Some [] then None
      else
        let z = (case zone of None \<Rightarrow> [] | Some z \<Rightarrow> z);
            parsed =
              (if HasPrefix body ''::''
               then (if length body = 2 then Some ([], Some 0) else parse_groups (drop 2 body) [] (Some 0))
               else parse_groups body [] None)
        in case parsed of
             None \<Rightarrow> None
           | Some ge \<Rightarrow>
               (case expand_groups ge of None \<Rightarrow> None | Some gs \<Rightarrow> Some (V6 (groups_word gs) z)))"

text \<open>\<^verbatim>\<open>ParseAddr\<close> looks at the first of dot, colon and percent sign.\<close>

definition ParseAddr :: "string \<Rightarrow> Addr option" where
  "ParseAddr s =
     (case filter (\<lambda>c. c \<in> set ''.:%'') s of
        [] \<Rightarrow> None
      | c # _ \<Rightarrow>
          if c = CHR ''.'' then
            (case parse_ipv4_fields s of
               None \<Rightarrow> None
             | Some (a, b, c, d) \<Rightarrow> Some (V4 (word_of_nat (((a * 256 + b) * 256 + c) * 256 + d))))
          else if c = CHR '':'' then parse_ipv6 s
          else None)"

subsection \<open>Prefixes\<close>

fun BitLen :: "Addr \<Rightarrow> nat" where
  "BitLen (V4 _) = 32"
| "BitLen (V6 _ _) = 128"

text \<open>\<^verbatim>\<open>ParsePrefix\<close>: an address without zone, a slash and a length without sign or leading
  zero.\<close>

definition ParsePrefix :: "string \<Rightarrow> (Addr \<times> nat) option" where
  "ParsePrefix s =
     (case Cut (CHR ''/'') (rev s) of
        None \<Rightarrow> None
      | Some (rbits, raddr) \<Rightarrow>
          (case ParseAddr (rev raddr) of
             None \<Rightarrow> None
           | Some ip \<Rightarrow>
               let bits = rev rbits in
               if (case ip of V6 _ z \<Rightarrow> z \<noteq> [] | V4 _ \<Rightarrow> False) then None
               else if length bits > 1 \<and> \<not> (CHR ''1'' \<le> hd bits \<and> hd bits \<le> CHR ''9'') then None
               else case Atoi bits of
                      None \<Rightarrow> None
                    | Some n \<Rightarrow> if 0 \<le> n \<and> n \<le> int (BitLen ip) then Some (ip, nat n) else None))"

text \<open>\<^verbatim>\<open>Prefix.Contains\<close>: the leading bits agree; an address with a zone is in no prefix.\<close>

fun Contains :: "Addr \<times> nat \<Rightarrow> Addr \<Rightarrow> bool" where
  "Contains (V4 p, bits) (V4 a) \<longleftrightarrow> drop_bit (32 - bits) (a XOR p) = 0"
| "Contains (V6 p _, bits) (V6 a z) \<longleftrightarrow> z = [] \<and> (a XOR p) AND push_bit (128 - bits) (mask bits) = 0"
| "Contains _ _ \<longleftrightarrow> False"

lemma Contains_V4_iff:
  assumes "bits \<le> 32"
  shows "Contains (V4 p, bits) (V4 a) \<longleftrightarrow> (\<forall>i. 32 - bits \<le> i \<and> i < 32 \<longrightarrow> bit a i = bit p i)"
proof -
  have "drop_bit (32 - bits) (a XOR p) = 0 \<longleftrightarrow> (\<forall>i. \<not> bit (drop_bit (32 - bits) (a XOR p)) i)"
    by (metis bit_0_eq bit_eqI bot_apply bot_bool_def)
  also have "\<dots> \<longleftrightarrow> (\<forall>i. 32 - bits \<le> i \<and> i < 32 \<longrightarrow> bit a i = bit p i)"
  proof (rule iffI; intro allI impI notI)
    fix i assume h: "\<forall>i. \<not> bit (drop_bit (32 - bits) (a XOR p)) i" "32 - bits \<le> i \<and> i < 32"
    from h(1) have "\<not> bit (drop_bit (32 - bits) (a XOR p)) (i - (32 - bits))" by blast
    with h(2) show "bit a i = bit p i" by (simp add: bit_drop_bit_eq bit_xor_iff)
  next
    fix i assume h: "\<forall>i. 32 - bits \<le> i \<and> i < 32 \<longrightarrow> bit a i = bit p i" "bit (drop_bit (32 - bits) (a XOR p)) i"
    from h(2) have x: "bit (a XOR p) (32 - bits + i)" by (simp only: bit_drop_bit_eq comp_apply)
    then have "32 - bits + i < 32" using bit_imp_le_length [OF x] by simp
    with h(1) x show False by (simp add: bit_xor_iff)
  qed
  finally show ?thesis by simp
qed

lemma Contains_V6_iff:
  assumes "bits \<le> 128"
  shows "Contains (V6 p y, bits) (V6 a z) \<longleftrightarrow> z = [] \<and> (\<forall>i. 128 - bits \<le> i \<and> i < 128 \<longrightarrow> bit a i = bit p i)"
proof -
  have b: "bit (push_bit (128 - bits) (mask bits) :: 128 word) i \<longleftrightarrow> 128 - bits \<le> i \<and> i < 128" for i
    using assms by (auto simp: bit_push_bit_iff bit_mask_iff)
  have "(a XOR p) AND push_bit (128 - bits) (mask bits) = 0 \<longleftrightarrow>
      (\<forall>i. \<not> (bit (a XOR p) i \<and> 128 - bits \<le> i \<and> i < 128))"
    by (auto simp: bit_eq_iff bit_and_iff b)
  also have "\<dots> \<longleftrightarrow> (\<forall>i. 128 - bits \<le> i \<and> i < 128 \<longrightarrow> bit a i = bit p i)" by (auto simp: bit_xor_iff)
  finally show ?thesis by simp
qed

lemma ParsePrefix_bits: "ParsePrefix s = Some (ip, n) \<Longrightarrow> n \<le> BitLen ip"
  by (auto simp: ParsePrefix_def Let_def nat_le_iff split: option.splits prod.splits if_splits)

end
