(* ===== verification/Filter_Policy.thy ===== *)
theory Filter_Policy
  imports Go_Number Go_NetIP Domain
begin

text \<open>
  Subscription filters (\<^verbatim>\<open>internal/filter/filter.go\<close>): validation of a filter policy and its
  evaluation on message attributes or on a JSON message body.  A \<^verbatim>\<open>map[string]any\<close> is the list of
  its entries in the order \<^verbatim>\<open>range\<close> visits them.  A number is the text it was read from; its
  value is \<^verbatim>\<open>strconv.ParseFloat\<close> of that text.

  The Unicode tables behind \<^verbatim>\<open>strings.EqualFold\<close> are a parameter, \<open>fold_eq\<close>.
\<close>

subsection \<open>Comparing values\<close>

fun toFloat :: "any \<Rightarrow> float64 option" where
  "toFloat (ANum n) = parse_float n"
| "toFloat (AStr s) = parse_float s"
| "toFloat _ = None"

definition equal_any :: "any \<Rightarrow> any \<Rightarrow> bool" where
  "equal_any a b =
     (case a of
        ANum n \<Rightarrow>
          (case (parse_float n, toFloat b) of
             (Some av, Some bv) \<Rightarrow> float_close av bv
           | _ \<Rightarrow> False)
      | _ \<Rightarrow> Sprint a = Sprint b)"

definition flatten :: "any \<Rightarrow> any list" where
  "flatten candidate = (case candidate of AArr vs \<Rightarrow> vs | _ \<Rightarrow> [candidate])"

definition scalarOrArrayContains :: "any \<Rightarrow> any \<Rightarrow> bool" where
  "scalarOrArrayContains candidate expected = list_ex (\<lambda>item. equal_any item expected) (flatten candidate)"

definition compareNumeric :: "float64 \<Rightarrow> string \<Rightarrow> float64 \<Rightarrow> bool" where
  "compareNumeric v op c =
     (if op = ''='' then float_close v c
      else if op = ''>'' then float_less c v
      else if op = ''>='' then float_less c v \<or> float_eq v c
      else if op = ''<'' then float_less v c
      else if op = ''<='' then float_less v c \<or> float_eq v c
      else False)"

subsection \<open>Wildcards\<close>

text \<open>The runes of a text, each as its UTF-8 encoding; a byte that starts no valid sequence reads as
  the replacement character.\<close>

function runes :: "string \<Rightarrow> string list" where
  "runes [] = []"
| "runes (c # s) =
     (if utf8_width (c # s) = 0 then rune_error # runes s
      else take (utf8_width (c # s)) (c # s) # runes (drop (utf8_width (c # s)) (c # s)))"
  by pat_completeness auto
termination
  by (relation "measure length") auto

declare runes.simps(2) [simp del]

text \<open>The regular expression \<^verbatim>\<open>wildcardRegexp\<close> compiles: between the anchors, a sequence of
  \<^verbatim>\<open>.*\<close>, \<^verbatim>\<open>.\<close> and quoted runes.\<close>

datatype rx = RxMany | RxAny | RxLit string

definition wildcardRegexp :: "string \<Rightarrow> rx list" where
  "wildcardRegexp pattern =
     map (\<lambda>r. if r = ''*'' then RxMany else if r = ''?'' then RxAny else RxLit r) (runes pattern)"

text \<open>\<^verbatim>\<open>MatchString\<close> of the anchored expression: a dot matches any rune but a newline.\<close>

fun rx_match :: "rx list \<Rightarrow> string list \<Rightarrow> bool" where
  "rx_match [] [] = True"
| "rx_match [] (_ # _) = False"
| "rx_match (RxMany # p) [] = rx_match p []"
| "rx_match (RxMany # p) (c # t) = (rx_match p (c # t) \<or> (c \<noteq> [CHR 0x0A] \<and> rx_match (RxMany # p) t))"
| "rx_match (RxAny # p) [] = False"
| "rx_match (RxAny # p) (c # t) = (c \<noteq> [CHR 0x0A] \<and> rx_match p t)"
| "rx_match (RxLit r # p) [] = False"
| "rx_match (RxLit r # p) (c # t) = (c = r \<and> rx_match p t)"

subsection \<open>Operators\<close>

text \<open>The loop over the flattened candidate shared by the string operators.\<close>

definition some_string :: "(string \<Rightarrow> bool) \<Rightarrow> any \<Rightarrow> bool" where
  "some_string P candidate = list_ex (\<lambda>v. case v of AStr s \<Rightarrow> P s | _ \<Rightarrow> False) (flatten candidate)"

definition evalPrefix :: "any \<Rightarrow> any \<Rightarrow> bool" where
  "evalPrefix rule candidate =
     (case rule of AStr want \<Rightarrow> some_string (\<lambda>s. HasPrefix s want) candidate | _ \<Rightarrow> False)"

definition evalSuffix :: "any \<Rightarrow> any \<Rightarrow> bool" where
  "evalSuffix rule candidate =
     (case rule of AStr want \<Rightarrow> some_string (\<lambda>s. HasSuffix s want) candidate | _ \<Rightarrow> False)"

definition evalEqualsIgnoreCase :: "(string \<Rightarrow> string \<Rightarrow> bool) \<Rightarrow> any \<Rightarrow> any \<Rightarrow> bool" where
  "evalEqualsIgnoreCase fold_eq rule candidate =
     (case rule of AStr want \<Rightarrow> some_string (\<lambda>s. fold_eq s want) candidate | _ \<Rightarrow> False)"

definition evalWildcard :: "any \<Rightarrow> any \<Rightarrow> bool res" where
  "evalWildcard rule candidate =
     (case rule of
        AStr pattern \<Rightarrow> Inr (some_string (\<lambda>s. rx_match (wildcardRegexp pattern) (runes s)) candidate)
      | _ \<Rightarrow> Inl (Plain ''wildcard must be a string''))"

definition evalCIDR :: "any \<Rightarrow> any \<Rightarrow> bool res" where
  "evalCIDR rule candidate =
     (case rule of
        AStr raw \<Rightarrow>
          (case ParsePrefix raw of
             None \<Rightarrow> Inl (Plain ''netip.ParsePrefix'')
           | Some pfx \<Rightarrow>
               Inr (some_string (\<lambda>s. case ParseAddr s of None \<Rightarrow> False | Some addr \<Rightarrow> Contains pfx addr) candidate))
      | _ \<Rightarrow> Inl (Plain ''cidr must be a string''))"

text \<open>The clauses of a numeric rule on one number: they stop at the first that fails, so a bad
  comparison value is an error only when it is reached.\<close>

fun numeric_clauses :: "float64 \<Rightarrow> any list \<Rightarrow> bool res" where
  "numeric_clauses number (op # c # clauses) =
     (case toFloat c of
        None \<Rightarrow> Inl (Plain ''invalid numeric compare'')
      | Some compare \<Rightarrow>
          if compareNumeric number (case op of AStr s \<Rightarrow> s | _ \<Rightarrow> []) compare
          then numeric_clauses number clauses else Inr False)"
| "numeric_clauses number _ = Inr True"

fun numeric_values :: "any list \<Rightarrow> any list \<Rightarrow> bool res" where
  "numeric_values clauses [] = Inr False"
| "numeric_values clauses (v # vs) =
     (case toFloat v of
        None \<Rightarrow> numeric_values clauses vs
      | Some number \<Rightarrow>
          (case numeric_clauses number clauses of
             Inl e \<Rightarrow> Inl e
           | Inr True \<Rightarrow> Inr True
           | Inr False \<Rightarrow> numeric_values clauses vs))"

definition evalNumeric :: "any \<Rightarrow> any \<Rightarrow> bool res" where
  "evalNumeric rule candidate =
     (case rule of
        AArr clauses \<Rightarrow>
          if length clauses mod 2 \<noteq> 0 then Inl (Plain ''invalid numeric clause'')
          else numeric_values clauses (flatten candidate)
      | _ \<Rightarrow> Inl (Plain ''invalid numeric clause''))"

text \<open>An error of a nested wildcard or CIDR rule is dropped, and counts as no match.\<close>

definition matched :: "bool res \<Rightarrow> bool" where
  "matched r = (case r of Inl _ \<Rightarrow> False | Inr b \<Rightarrow> b)"

definition evalAnythingBut :: "(string \<Rightarrow> string \<Rightarrow> bool) \<Rightarrow> any \<Rightarrow> any \<Rightarrow> bool" where
  "evalAnythingBut fold_eq rule candidate =
     (case rule of
        AArr items \<Rightarrow> \<not> list_ex (scalarOrArrayContains candidate) items
      | AMap typed \<Rightarrow>
          (case map_of typed ''prefix'' of Some p \<Rightarrow> \<not> evalPrefix p candidate | None \<Rightarrow>
           case map_of typed ''suffix'' of Some p \<Rightarrow> \<not> evalSuffix p candidate | None \<Rightarrow>
           case map_of typed ''equals-ignore-case'' of Some p \<Rightarrow> \<not> evalEqualsIgnoreCase fold_eq p candidate | None \<Rightarrow>
           case map_of typed ''wildcard'' of Some p \<Rightarrow> \<not> matched (evalWildcard p candidate) | None \<Rightarrow>
           case map_of typed ''cidr'' of Some p \<Rightarrow> \<not> matched (evalCIDR p candidate) | None \<Rightarrow> False)
      | _ \<Rightarrow> \<not> scalarOrArrayContains candidate rule)"

definition evalCondition :: "(string \<Rightarrow> string \<Rightarrow> bool) \<Rightarrow> any \<Rightarrow> any \<Rightarrow> bool \<Rightarrow> bool res" where
  "evalCondition fold_eq condition candidate present =
     (case condition of
        AMap typed \<Rightarrow>
          (case map_of typed ''exists'' of Some v \<Rightarrow> Inr (present = (v = ABool True)) | None \<Rightarrow>
           case map_of typed ''anything-but'' of Some v \<Rightarrow> Inr (evalAnythingBut fold_eq v candidate) | None \<Rightarrow>
           case map_of typed ''prefix'' of Some v \<Rightarrow> Inr (evalPrefix v candidate) | None \<Rightarrow>
           case map_of typed ''suffix'' of Some v \<Rightarrow> Inr (evalSuffix v candidate) | None \<Rightarrow>
           case map_of typed ''equals-ignore-case'' of Some v \<Rightarrow> Inr (evalEqualsIgnoreCase fold_eq v candidate) | None \<Rightarrow>
           case map_of typed ''wildcard'' of Some v \<Rightarrow> evalWildcard v candidate | None \<Rightarrow>
           case map_of typed ''cidr'' of Some v \<Rightarrow> evalCIDR v candidate | None \<Rightarrow>
           case map_of typed ''numeric'' of Some v \<Rightarrow> evalNumeric v candidate | None \<Rightarrow> Inr False)
      | AArr _ \<Rightarrow> Inr False
      | _ \<Rightarrow> Inr (scalarOrArrayContains candidate condition))"

fun evalConditions :: "(string \<Rightarrow> string \<Rightarrow> bool) \<Rightarrow> any list \<Rightarrow> any \<Rightarrow> bool \<Rightarrow> bool res" where
  "evalConditions fold_eq [] candidate present = Inr False"
| "evalConditions fold_eq (c # cs) candidate present =
     (case evalCondition fold_eq c candidate present of
        Inl e \<Rightarrow> Inl e
      | Inr True \<Rightarrow> Inr True
      | Inr False \<Rightarrow> evalConditions fold_eq cs candidate present)"

subsection \<open>Policies\<close>

text \<open>\<^verbatim>\<open>evalObject\<close> and the loop of \<^verbatim>\<open>evalOR\<close>.  A missing member of the candidate is nil.\<close>

fun evalObject :: "(string \<Rightarrow> string \<Rightarrow> bool) \<Rightarrow> (string \<times> any) list \<Rightarrow> (string \<times> any) list \<Rightarrow> bool res"
  and evalMember :: "(string \<Rightarrow> string \<Rightarrow> bool) \<Rightarrow> string \<Rightarrow> any \<Rightarrow> (string \<times> any) list \<Rightarrow> bool res"
  and evalOR :: "(string \<Rightarrow> string \<Rightarrow> bool) \<Rightarrow> any list \<Rightarrow> (string \<times> any) list \<Rightarrow> bool res" where
  "evalObject fold_eq [] candidate = Inr True"
| "evalObject fold_eq ((key, v) # policy) candidate =
     (case evalMember fold_eq key v candidate of
        Inl e \<Rightarrow> Inl e
      | Inr True \<Rightarrow> evalObject fold_eq policy candidate
      | Inr False \<Rightarrow> Inr False)"
| "evalMember fold_eq key (AArr items) candidate =
     (if key = ''$or''
      then (if length items < 2 then Inr False else evalOR fold_eq items candidate)
      else case map_of candidate key of
             None \<Rightarrow> evalConditions fold_eq items ANil False
           | Some child \<Rightarrow> evalConditions fold_eq items child True)"
| "evalMember fold_eq key (AMap typed) candidate =
     (if key = ''$or'' then Inr False
      else case map_of candidate key of
             Some (AMap obj) \<Rightarrow> evalObject fold_eq typed obj
           | _ \<Rightarrow> Inr False)"
| "evalMember fold_eq key v candidate =
     (if key = ''$or'' then Inr False else Inl (Plain ''invalid filter policy shape''))"
| "evalOR fold_eq [] candidate = Inr False"
| "evalOR fold_eq (AMap obj # items) candidate =
     (case evalObject fold_eq obj candidate of
        Inl e \<Rightarrow> Inl e
      | Inr True \<Rightarrow> Inr True
      | Inr False \<Rightarrow> evalOR fold_eq items candidate)"
| "evalOR fold_eq (_ # items) candidate = Inl (Plain ''invalid $or item'')"

definition attribute_any :: "MessageAttributeValue \<Rightarrow> any option" where
  "attribute_any attr =
     (if MA_DataType attr = ''String'' then Some (AStr (MA_StringValue attr))
      else if MA_DataType attr = ''String.Array'' then
        Some (case parse_json (MA_StringValue attr) of
                Some JNull \<Rightarrow> AArr []
              | Some (JArr vs) \<Rightarrow>
                  (case to_any (JArr vs) of Some a \<Rightarrow> a | None \<Rightarrow> AArr [AStr (MA_StringValue attr)])
              | _ \<Rightarrow> AArr [AStr (MA_StringValue attr)])
      else if MA_DataType attr = ''Number'' then
        (case parse_float (MA_StringValue attr) of None \<Rightarrow> None | Some _ \<Rightarrow> Some (ANum (MA_StringValue attr)))
      else Some (AStr (MessageAttributeString attr)))"

definition attributeRoot :: "MessageAttributeValue ranged \<Rightarrow> (string \<times> any) list" where
  "attributeRoot attrs =
     List.map_filter (\<lambda>(key, attr). map_option (\<lambda>v. (key, v)) (attribute_any attr)) attrs"

text \<open>Reading a policy: a JSON \<^verbatim>\<open>null\<close> is the nil map.\<close>

definition parse_policy :: "string \<Rightarrow> (string \<times> any) list res" where
  "parse_policy policyJSON =
     (case unmarshal (\<lambda>j _. decode_any_map j) policyJSON None of
        Inl e \<Rightarrow> Inl e
      | Inr None \<Rightarrow> Inr []
      | Inr (Some m) \<Rightarrow> Inr m)"

definition Matches ::
    "(string \<Rightarrow> string \<Rightarrow> bool) \<Rightarrow> string \<Rightarrow> string \<Rightarrow> string \<Rightarrow> MessageAttributeValue ranged \<Rightarrow> bool res" where
  "Matches fold_eq policyJSON scope message attrs =
     (if TrimSpace policyJSON = [] then Inr True
      else case parse_policy policyJSON of
             Inl e \<Rightarrow> Inl e
           | Inr policy \<Rightarrow>
               let scope = (if TrimSpace scope = [] then FilterScopeMessageAttributes else scope) in
               if scope = FilterScopeMessageAttributes then evalObject fold_eq policy (attributeRoot attrs)
               else if scope = FilterScopeMessageBody then
                 (case parse_json message of
                    None \<Rightarrow> Inr False
                  | Some j \<Rightarrow> (case to_any j of Some (AMap body) \<Rightarrow> evalObject fold_eq policy body | _ \<Rightarrow> Inr False))
               else Inl (Plain ''unsupported filter scope''))"

subsection \<open>Validation\<close>

text \<open>The five string operators an \<^verbatim>\<open>anything-but\<close> rule may nest.\<close>

definition string_operators :: "string list" where
  "string_operators = [''prefix'', ''suffix'', ''equals-ignore-case'', ''wildcard'', ''cidr'']"

text \<open>\<^verbatim>\<open>validateOperator\<close> on the single entry of the operator object.  Its own recursion on a
  nested operator ends there, since only string operators are followed.\<close>

definition validate_simple :: "string \<Rightarrow> any \<Rightarrow> unit res" where
  "validate_simple key v =
     (if key \<in> set string_operators
      then (case v of AStr _ \<Rightarrow> Inr () | _ \<Rightarrow> Inl (Plain (key @ '' must be a string'')))
      else if key = ''numeric''
      then (case v of
              AArr items \<Rightarrow>
                if length items < 2 \<or> length items mod 2 \<noteq> 0
                then Inl (Plain ''numeric must contain operator/value pairs'') else Inr ()
            | _ \<Rightarrow> Inl (Plain ''numeric must contain operator/value pairs''))
      else if key = ''exists''
      then (case v of ABool _ \<Rightarrow> Inr () | _ \<Rightarrow> Inl (Plain ''exists must be boolean''))
      else Inl (Plain ''unsupported operator''))"

definition validateOperator :: "(string \<times> any) list \<Rightarrow> unit res" where
  "validateOperator operator =
     (case operator of
        [(key, v)] \<Rightarrow>
          if key = ''anything-but'' then
            (case v of
               AMap typed \<Rightarrow>
                 (case typed of
                    [(key', v')] \<Rightarrow>
                      if key' \<in> set string_operators then validate_simple key' v'
                      else Inl (Plain ''unsupported anything-but nested operator'')
                  | _ \<Rightarrow> Inl (Plain ''anything-but supports one nested operator''))
             | _ \<Rightarrow> Inr ())
          else validate_simple key v
      | _ \<Rightarrow> Inl (Plain ''operator object must contain exactly one operator''))"

fun validateConditions :: "any list \<Rightarrow> unit res" where
  "validateConditions [] = Inr ()"
| "validateConditions (AMap typed # cs) =
     (case validateOperator typed of Inl e \<Rightarrow> Inl e | Inr _ \<Rightarrow> validateConditions cs)"
| "validateConditions (AArr _ # cs) = Inl (Plain ''unsupported filter condition'')"
| "validateConditions (c # cs) = validateConditions cs"

fun validateObject :: "(string \<times> any) list \<Rightarrow> unit res"
  and validateMember :: "string \<Rightarrow> any \<Rightarrow> unit res"
  and validateOR :: "any list \<Rightarrow> unit res" where
  "validateObject [] = Inr ()"
| "validateObject ((key, v) # policy) =
     (case validateMember key v of Inl e \<Rightarrow> Inl e | Inr _ \<Rightarrow> validateObject policy)"
| "validateMember key (AArr items) =
     (if key = ''$or''
      then (if length items < 2 then Inl (Plain ''$or must contain at least two objects'') else validateOR items)
      else validateConditions items)"
| "validateMember key (AMap typed) =
     (if key = ''$or'' then Inl (Plain ''$or must contain at least two objects'') else validateObject typed)"
| "validateMember key v =
     (if key = ''$or'' then Inl (Plain ''$or must contain at least two objects'')
      else Inl (Plain ''filter policy values must be objects or arrays''))"
| "validateOR [] = Inr ()"
| "validateOR (AMap obj # items) = (case validateObject obj of Inl e \<Rightarrow> Inl e | Inr _ \<Rightarrow> validateOR items)"
| "validateOR (_ # items) = Inl (Plain ''$or entries must be objects'')"

definition Validate :: "string \<Rightarrow> unit res" where
  "Validate policyJSON =
     (if TrimSpace policyJSON = [] then Inr ()
      else case parse_policy policyJSON of Inl e \<Rightarrow> Inl e | Inr policy \<Rightarrow> validateObject policy)"

subsection \<open>Wildcards denote regular languages\<close>

text \<open>What one element of the expression matches, and the language of a sequence.\<close>

fun rx_sym :: "rx \<Rightarrow> string list \<Rightarrow> bool" where
  "rx_sym RxMany t \<longleftrightarrow> [CHR 0x0A] \<notin> set t"
| "rx_sym RxAny t \<longleftrightarrow> (\<exists>c. t = [c] \<and> c \<noteq> [CHR 0x0A])"
| "rx_sym (RxLit r) t \<longleftrightarrow> t = [r]"

definition rx_lang :: "rx list \<Rightarrow> string list \<Rightarrow> bool" where
  "rx_lang p t \<longleftrightarrow> (\<exists>ts. concat ts = t \<and> list_all2 rx_sym p ts)"

lemma rx_lang_Nil: "rx_lang [] t \<longleftrightarrow> t = []"
  by (auto simp: rx_lang_def)

lemma rx_lang_Cons: "rx_lang (x # p) t \<longleftrightarrow> (\<exists>u v. t = u @ v \<and> rx_sym x u \<and> rx_lang p v)"
proof
  assume "rx_lang (x # p) t"
  then show "\<exists>u v. t = u @ v \<and> rx_sym x u \<and> rx_lang p v"
    unfolding rx_lang_def list_all2_Cons1 by (metis concat.simps(2))
next
  assume "\<exists>u v. t = u @ v \<and> rx_sym x u \<and> rx_lang p v"
  then obtain u ts where "t = u @ concat ts" "rx_sym x u" "list_all2 rx_sym p ts" unfolding rx_lang_def by auto
  then have "concat (u # ts) = t \<and> list_all2 rx_sym (x # p) (u # ts)" by simp
  then show "rx_lang (x # p) t" unfolding rx_lang_def by blast
qed

lemma rx_lang_Many_Cons:
  "rx_lang (RxMany # p) (c # t) \<longleftrightarrow> rx_lang p (c # t) \<or> (c \<noteq> [CHR 0x0A] \<and> rx_lang (RxMany # p) t)"
proof
  assume "rx_lang (RxMany # p) (c # t)"
  then obtain u v where u: "c # t = u @ v" "[CHR 0x0A] \<notin> set u" "rx_lang p v" by (auto simp: rx_lang_Cons)
  show "rx_lang p (c # t) \<or> (c \<noteq> [CHR 0x0A] \<and> rx_lang (RxMany # p) t)"
  proof (cases u)
    case Nil
    with u show ?thesis by simp
  next
    case (Cons d u')
    with u have "c \<noteq> [CHR 0x0A]" "t = u' @ v" "[CHR 0x0A] \<notin> set u'" by auto
    with u(3) show ?thesis unfolding rx_lang_Cons [of RxMany] rx_sym.simps by blast
  qed
next
  assume "rx_lang p (c # t) \<or> (c \<noteq> [CHR 0x0A] \<and> rx_lang (RxMany # p) t)"
  then show "rx_lang (RxMany # p) (c # t)"
  proof
    assume "rx_lang p (c # t)"
    then have "c # t = [] @ (c # t) \<and> rx_sym RxMany [] \<and> rx_lang p (c # t)" by simp
    then show ?thesis unfolding rx_lang_Cons by blast
  next
    assume h: "c \<noteq> [CHR 0x0A] \<and> rx_lang (RxMany # p) t"
    then obtain u v where "t = u @ v" "[CHR 0x0A] \<notin> set u" "rx_lang p v" by (auto simp: rx_lang_Cons)
    with h have "c # t = (c # u) @ v \<and> rx_sym RxMany (c # u) \<and> rx_lang p v" by auto
    then show ?thesis unfolding rx_lang_Cons by blast
  qed
qed

lemma rx_match_lang: "rx_match p t \<longleftrightarrow> rx_lang p t"
proof (induction p t rule: rx_match.induct)
  case (4 p c t)
  then show ?case by (simp add: rx_lang_Many_Cons)
next
  case (6 p c t)
  have "rx_lang (RxAny # p) (c # t) \<longleftrightarrow> c \<noteq> [CHR 0x0A] \<and> rx_lang p t"
    unfolding rx_lang_Cons rx_sym.simps by (metis append_Cons append_Nil list.inject)
  with 6 show ?case by simp
qed (auto simp: rx_lang_Nil rx_lang_Cons)

subsection \<open>Declarative meaning of a policy\<close>

text \<open>A policy as a boolean formula: every member must hold, a member holds when one of its conditions
  does, \<^verbatim>\<open>$or\<close> when one of its alternatives does.\<close>

definition condition_holds :: "(string \<Rightarrow> string \<Rightarrow> bool) \<Rightarrow> any option \<Rightarrow> any \<Rightarrow> bool" where
  "condition_holds fold_eq child c =
     (evalCondition fold_eq c (case child of None \<Rightarrow> ANil | Some v \<Rightarrow> v) (child \<noteq> None) = Inr True)"

fun holds :: "(string \<Rightarrow> string \<Rightarrow> bool) \<Rightarrow> (string \<times> any) list \<Rightarrow> (string \<times> any) list \<Rightarrow> bool"
  and holds_member :: "(string \<Rightarrow> string \<Rightarrow> bool) \<Rightarrow> string \<Rightarrow> any \<Rightarrow> (string \<times> any) list \<Rightarrow> bool"
  and holds_some :: "(string \<Rightarrow> string \<Rightarrow> bool) \<Rightarrow> any list \<Rightarrow> (string \<times> any) list \<Rightarrow> bool" where
  "holds fold_eq [] candidate \<longleftrightarrow> True"
| "holds fold_eq ((key, v) # policy) candidate \<longleftrightarrow>
     holds_member fold_eq key v candidate \<and> holds fold_eq policy candidate"
| "holds_member fold_eq key (AArr items) candidate \<longleftrightarrow>
     (if key = ''$or'' then holds_some fold_eq items candidate
      else \<exists>c \<in> set items. condition_holds fold_eq (map_of candidate key) c)"
| "holds_member fold_eq key (AMap typed) candidate \<longleftrightarrow>
     (case map_of candidate key of Some (AMap obj) \<Rightarrow> holds fold_eq typed obj | _ \<Rightarrow> False)"
| "holds_member fold_eq key v candidate \<longleftrightarrow> False"
| "holds_some fold_eq [] candidate \<longleftrightarrow> False"
| "holds_some fold_eq (AMap obj # items) candidate \<longleftrightarrow>
     holds fold_eq obj candidate \<or> holds_some fold_eq items candidate"
| "holds_some fold_eq (_ # items) candidate \<longleftrightarrow> holds_some fold_eq items candidate"

text \<open>Operands that validation does not look at: the text of a CIDR rule and the values of a numeric
  rule.\<close>

definition operand_ok :: "string \<times> any \<Rightarrow> bool" where
  "operand_ok e \<longleftrightarrow>
     (case e of
        (key, AStr raw) \<Rightarrow> key = ''cidr'' \<longrightarrow> ParsePrefix raw \<noteq> None
      | (key, AArr items) \<Rightarrow> key = ''numeric'' \<longrightarrow> (\<forall>i < length items. odd i \<longrightarrow> toFloat (items ! i) \<noteq> None)
      | _ \<Rightarrow> True)"

fun operands_ok :: "(string \<times> any) list \<Rightarrow> bool"
  and operands_ok_value :: "any \<Rightarrow> bool"
  and operands_ok_items :: "any list \<Rightarrow> bool" where
  "operands_ok [] \<longleftrightarrow> True"
| "operands_ok ((key, v) # ms) \<longleftrightarrow> operand_ok (key, v) \<and> operands_ok_value v \<and> operands_ok ms"
| "operands_ok_value (AMap ms) \<longleftrightarrow> operands_ok ms"
| "operands_ok_value (AArr items) \<longleftrightarrow> operands_ok_items items"
| "operands_ok_value v \<longleftrightarrow> True"
| "operands_ok_items [] \<longleftrightarrow> True"
| "operands_ok_items (v # vs) \<longleftrightarrow> operands_ok_value v \<and> operands_ok_items vs"

lemma numeric_clauses_ok:
  assumes "even (length cs)" "\<forall>i < length cs. odd i \<longrightarrow> toFloat (cs ! i) \<noteq> None"
  shows "\<not> is_err (numeric_clauses n cs)"
  using assms
proof (induction n cs rule: numeric_clauses.induct)
  case (1 n op c cs)
  have c: "toFloat c \<noteq> None" using 1(3) [rule_format, of 1] by simp
  have "\<forall>i < length cs. odd i \<longrightarrow> toFloat (cs ! i) \<noteq> None"
  proof (intro allI impI)
    fix i assume "i < length cs" "odd i"
    then show "toFloat (cs ! i) \<noteq> None" using 1(3) [rule_format, of "i + 2"] by simp
  qed
  with 1 c show ?case by (auto split: option.splits)
qed auto

lemma numeric_values_ok:
  assumes "even (length cs)" "\<forall>i < length cs. odd i \<longrightarrow> toFloat (cs ! i) \<noteq> None"
  shows "\<not> is_err (numeric_values cs vs)"
proof (induction vs)
  case (Cons v vs)
  with numeric_clauses_ok [OF assms] show ?case
    by (auto simp: is_err_iff split: option.splits sum.splits bool.splits)
qed simp

lemma validate_simple_cases:
  assumes "validate_simple key w = Inr ()"
  shows "(key \<in> set string_operators \<and> (\<exists>p. w = AStr p)) \<or>
    (key = ''numeric'' \<and> (\<exists>items. w = AArr items \<and> even (length items))) \<or> key = ''exists''"
  using assms unfolding validate_simple_def
  by (cases w) (auto split: if_splits)

lemma eval_operator [simp]:
  "evalCondition f (AMap [(''exists'', w)]) v b = Inr (b = (w = ABool True))"
  "evalCondition f (AMap [(''anything-but'', w)]) v b = Inr (evalAnythingBut f w v)"
  "evalCondition f (AMap [(''prefix'', w)]) v b = Inr (evalPrefix w v)"
  "evalCondition f (AMap [(''suffix'', w)]) v b = Inr (evalSuffix w v)"
  "evalCondition f (AMap [(''equals-ignore-case'', w)]) v b = Inr (evalEqualsIgnoreCase f w v)"
  "evalCondition f (AMap [(''wildcard'', w)]) v b = evalWildcard w v"
  "evalCondition f (AMap [(''cidr'', w)]) v b = evalCIDR w v"
  "evalCondition f (AMap [(''numeric'', w)]) v b = evalNumeric w v"
  by (simp_all add: evalCondition_def)

lemma string_operator_total:
  assumes "key \<in> set string_operators" "operand_ok (key, AStr p)"
  shows "\<not> is_err (evalCondition f (AMap [(key, AStr p)]) v present)"
proof -
  consider "key = ''prefix''" | "key = ''suffix''" | "key = ''equals-ignore-case''" | "key = ''wildcard''" | "key = ''cidr''"
    using assms(1) unfolding string_operators_def list.set(1,2) insert_iff empty_iff by blast
  then show ?thesis
  proof cases
    case 5
    then have "ParsePrefix p \<noteq> None" using assms(2) by (simp add: operand_ok_def)
    then show ?thesis unfolding 5 by (auto simp: evalCIDR_def)
  qed (simp_all add: evalWildcard_def)
qed

lemma eval_operator_total:
  assumes "validate_simple key w = Inr ()" "operand_ok (key, w)"
  shows "\<not> is_err (evalCondition f (AMap [(key, w)]) v present)"
  using validate_simple_cases [OF assms(1)]
proof (elim disjE conjE exE)
  fix p assume "key \<in> set string_operators" "w = AStr p"
  with assms(2) show ?thesis by (simp only: string_operator_total simp_thms)
next
  fix items assume n: "key = ''numeric''" "w = AArr items" "even (length items)"
  then have "\<forall>i < length items. odd i \<longrightarrow> toFloat (items ! i) \<noteq> None" using assms(2) by (simp add: operand_ok_def)
  from numeric_values_ok [OF n(3) this] n(3) show ?thesis unfolding n(1,2)
    by (simp add: evalNumeric_def)
qed simp

lemma evalCondition_total:
  assumes "validateConditions [c] = Inr ()" "operands_ok_value c"
  shows "\<not> is_err (evalCondition f c v present)"
proof (cases c)
  case (AMap typed)
  then have v: "validateOperator typed = Inr ()" using assms(1) by (auto split: sum.splits)
  then obtain key w where t: "typed = [(key, w)]" by (auto simp: validateOperator_def split: list.splits)
  have o: "operand_ok (key, w)" using assms(2) AMap t by simp
  show ?thesis
  proof (cases "key = ''anything-but''")
    case True
    show ?thesis unfolding AMap t True by simp
  next
    case False
    then have "validate_simple key w = Inr ()" using v by (simp add: validateOperator_def t)
    from eval_operator_total [OF this o] show ?thesis unfolding AMap t .
  qed
qed (use assms in \<open>simp_all add: evalCondition_def\<close>)

lemma validateConditions_Cons:
  "validateConditions (c # cs) = Inr () \<longleftrightarrow> validateConditions [c] = Inr () \<and> validateConditions cs = Inr ()"
  by (cases c) (auto split: sum.splits)

lemma evalConditions_holds:
  assumes "validateConditions cs = Inr ()" "operands_ok_items cs"
  shows "evalConditions f cs (case child of None \<Rightarrow> ANil | Some v \<Rightarrow> v) (child \<noteq> None) =
    Inr (\<exists>c \<in> set cs. condition_holds f child c)"
  using assms
proof (induction cs)
  case (Cons c cs)
  have v: "validateConditions [c] = Inr ()" "validateConditions cs = Inr ()"
    using Cons.prems(1) validateConditions_Cons by blast+
  have o: "operands_ok_value c" "operands_ok_items cs" using Cons.prems(2) by simp_all
  obtain b where "evalCondition f c (case child of None \<Rightarrow> ANil | Some v \<Rightarrow> v) (child \<noteq> None) = Inr b"
    using evalCondition_total [OF v(1) o(1)] by (metis is_err.elims(3))
  with Cons.IH [OF v(2) o(2)] show ?case by (cases b) (auto simp: condition_holds_def)
qed simp

lemma eval_holds:
  "validateObject p = Inr () \<Longrightarrow> operands_ok p \<Longrightarrow> evalObject f p c = Inr (holds f p c)"
  "validateMember k v = Inr () \<Longrightarrow> operands_ok_value v \<Longrightarrow> evalMember f k v c = Inr (holds_member f k v c)"
  "validateOR items = Inr () \<Longrightarrow> operands_ok_items items \<Longrightarrow> evalOR f items c = Inr (holds_some f items c)"
proof (induction f p c and f k v c and f items c rule: evalObject_evalMember_evalOR.induct)
  case (3 f k items c)
  show ?case
  proof (cases "k = ''$or''")
    case True
    with 3 show ?thesis by (auto split: if_splits)
  next
    case False
    then have "validateConditions items = Inr ()" using 3(2) by simp
    from evalConditions_holds [OF this, of f "map_of c k"] 3 False show ?thesis
      by (auto split: option.splits)
  qed
qed (auto split: sum.splits option.splits any.splits bool.splits if_splits)

lemma holds_all: "holds f p c \<longleftrightarrow> (\<forall>(k, v) \<in> set p. holds_member f k v c)"
  by (induction p) auto

subsection \<open>What the package guarantees\<close>

text \<open>C20: on a policy that \<^verbatim>\<open>Validate\<close> accepts, and whose CIDR texts and numeric bounds can be read,
  evaluation never fails, and its early exits do not matter: the outcome is the boolean formula the
  policy denotes, all members of an object and some alternative of an \<^verbatim>\<open>$or\<close>.  In particular the
  order in which a Go map yields the members is irrelevant.\<close>

theorem filter_semantics:
  assumes "TrimSpace policyJSON \<noteq> []" "Validate policyJSON = Inr ()" "parse_policy policyJSON = Inr policy"
    "operands_ok policy" "set policy' = set policy"
  shows "Matches f policyJSON FilterScopeMessageAttributes message attrs = Inr (holds f policy' (attributeRoot attrs)) \<and>
    (\<forall>j body. parse_json message = Some j \<and> to_any j = Some (AMap body) \<longrightarrow>
       Matches f policyJSON FilterScopeMessageBody message attrs = Inr (holds f policy' body))"
proof -
  have "validateObject policy = Inr ()" using assms(1-3) by (simp add: Validate_def)
  then have e: "evalObject f policy c = Inr (holds f policy' c)" for c
    using eval_holds(1) assms(4,5) by (simp add: holds_all)
  have "TrimSpace FilterScopeMessageAttributes \<noteq> []" "TrimSpace FilterScopeMessageBody \<noteq> []" by code_simp+
  moreover have "FilterScopeMessageBody \<noteq> FilterScopeMessageAttributes" by (simp add: go_eval)
  ultimately show ?thesis using assms(1,3) by (auto simp: Matches_def Let_def e)
qed


text \<open>C25: a CIDR rule accepts a string exactly when it is an address of the family of the prefix,
  without a zone, that agrees with the prefix on its leading bits; a rule that is not a prefix is an
  error.\<close>

theorem cidr_membership:
  "evalCIDR (AStr raw) (AStr s) =
     (case ParsePrefix raw of
        None \<Rightarrow> Inl (Plain ''netip.ParsePrefix'')
      | Some (V4 p, n) \<Rightarrow>
          Inr (\<exists>a. ParseAddr s = Some (V4 a) \<and> (\<forall>i. 32 - n \<le> i \<and> i < 32 \<longrightarrow> bit a i = bit p i))
      | Some (V6 p z, n) \<Rightarrow>
          Inr (\<exists>a. ParseAddr s = Some (V6 a []) \<and> (\<forall>i. 128 - n \<le> i \<and> i < 128 \<longrightarrow> bit a i = bit p i)))"
proof (cases "ParsePrefix raw")
  case (Some pn)
  obtain ip n where pn: "pn = (ip, n)" by (cases pn)
  have n: "n \<le> BitLen ip" using ParsePrefix_bits Some pn by blast
  show ?thesis
  proof (cases ip)
    case (V4 p)
    have "(case ParseAddr s of None \<Rightarrow> False | Some a \<Rightarrow> Contains (V4 p, n) a) \<longleftrightarrow>
        (\<exists>a. ParseAddr s = Some (V4 a) \<and> (\<forall>i. 32 - n \<le> i \<and> i < 32 \<longrightarrow> bit a i = bit p i))"
      using Contains_V4_iff [of n p] n V4 by (auto split: option.split Addr.splits elim!: Contains.elims simp del: Contains.simps(1))
    then show ?thesis by (simp add: evalCIDR_def some_string_def flatten_def Some pn V4)
  next
    case (V6 p z)
    have "(case ParseAddr s of None \<Rightarrow> False | Some a \<Rightarrow> Contains (V6 p z, n) a) \<longleftrightarrow>
        (\<exists>a. ParseAddr s = Some (V6 a []) \<and> (\<forall>i. 128 - n \<le> i \<and> i < 128 \<longrightarrow> bit a i = bit p i))"
      using Contains_V6_iff [of n p z] n V6 by (auto split: option.split Addr.splits elim!: Contains.elims simp del: Contains.simps(2))
    then show ?thesis by (simp add: evalCIDR_def some_string_def flatten_def Some pn V6)
  qed
qed (simp add: evalCIDR_def)

text \<open>Validation does not look into the operand of a CIDR rule: a policy with an unreadable prefix
  is accepted, and then its evaluation fails on every message, whatever the attributes.\<close>

theorem unreadable_cidr_accepted:
  assumes "ParsePrefix raw = None" "key \<noteq> ''$or''"
  shows "validateObject [(key, AArr [AMap [(''cidr'', AStr raw)]])] = Inr () \<and>
    is_err (evalObject f [(key, AArr [AMap [(''cidr'', AStr raw)]])] candidate)"
proof -
  have "''cidr'' \<in> set string_operators" by (simp add: string_operators_def)
  then have "validateOperator [(''cidr'', AStr raw)] = Inr ()" by (simp add: validateOperator_def validate_simple_def)
  moreover have "evalCIDR (AStr raw) v = Inl (Plain ''netip.ParsePrefix'')" for v
    using assms(1) by (simp add: evalCIDR_def)
  ultimately show ?thesis using assms(2) by (simp split: option.split)
qed

text \<open>A message that lacks the attribute satisfies the condition that the attribute be the text
  \<^verbatim>\<open><nil>\<close>, since values are compared in print; and it satisfies every \<^verbatim>\<open>anything-but\<close> of any
  other text.\<close>

theorem missing_attribute_conditions:
  assumes "key \<noteq> ''$or''" "map_of candidate key = None"
  shows "evalMember f key (AArr [AStr ''<nil>'']) candidate = Inr True \<and>
    evalMember f key (AArr [AMap [(''anything-but'', AStr x)]]) candidate = Inr (x \<noteq> ''<nil>'')"
  using assms
  by (auto simp: evalCondition_def evalAnythingBut_def scalarOrArrayContains_def flatten_def equal_any_def
      split: bool.split)

subsection \<open>Concrete instances\<close>

definition sample_policy :: "(string \<times> any) list" where
  "sample_policy = [(''a'', AArr [AStr ''x'']), (''b'', AArr [AMap [(''exists'', ABool False)]])]"

definition sample_policy_json :: string where
  "sample_policy_json = print_json (of_any (AMap sample_policy))"

lemma sample_policy_parse: "parse_policy sample_policy_json = Inr sample_policy"
  by code_simp

theorem filter_semantics_witness:
  "Matches EqualFold sample_policy_json FilterScopeMessageAttributes []
     [(''a'', \<lparr>MA_DataType = ''String'', MA_StringValue = ''x'', MA_BinaryValue = None\<rparr>)] = Inr True"
proof -
  have "TrimSpace sample_policy_json \<noteq> []" by code_simp
  moreover have "Validate sample_policy_json = Inr ()" by code_simp
  moreover have "operands_ok sample_policy" by code_simp
  ultimately have "Matches EqualFold sample_policy_json FilterScopeMessageAttributes []
     [(''a'', \<lparr>MA_DataType = ''String'', MA_StringValue = ''x'', MA_BinaryValue = None\<rparr>)] =
     Inr (holds EqualFold sample_policy (attributeRoot
       [(''a'', \<lparr>MA_DataType = ''String'', MA_StringValue = ''x'', MA_BinaryValue = None\<rparr>)]))"
    using filter_semantics [OF _ _ sample_policy_parse, of sample_policy] by blast
  also have "\<dots> = Inr True" by code_simp
  finally show ?thesis .
qed

theorem cidr_membership_witness:
  "evalCIDR (AStr ''0.0.0.0/31'') (AStr ''0.0.0.2'') = Inr False"
proof -
  have p: "ParsePrefix ''0.0.0.0/31'' = Some (V4 0, 31)" by code_simp
  have a: "ParseAddr ''0.0.0.2'' = Some (V4 2)" by code_simp
  have "bit (2 :: 32 word) 1 \<noteq> bit (0 :: 32 word) 1" by code_simp
  then have "\<not> (\<forall>i. 32 - 31 \<le> i \<and> i < 32 \<longrightarrow> bit (2 :: 32 word) i = bit (0 :: 32 word) i)"
    by (auto intro!: exI [of _ 1])
  then show ?thesis unfolding cidr_membership p a by simp
qed

theorem unreadable_cidr_accepted_witness:
  "is_err (evalObject EqualFold [(''ip'', AArr [AMap [(''cidr'', AStr ''10.0.0.0'')]])] [(''ip'', AStr ''10.0.0.1'')])"
  using unreadable_cidr_accepted [of "''10.0.0.0''" "''ip''" EqualFold "[(''ip'', AStr ''10.0.0.1'')]"]
  by (simp add: ParsePrefix_def)

theorem missing_attribute_conditions_witness:
  "evalMember EqualFold ''a'' (AArr [AStr ''<nil>'']) [(''b'', AStr ''x'')] = Inr True"
  using missing_attribute_conditions [of "''a''" "[(''b'', AStr ''x'')]" EqualFold] by simp

end
