(* ===== verification/Policy.thy ===== *)
theory Policy
  imports Go_JSON
begin

text \<open>
  Package \<^verbatim>\<open>internal/policy\<close> (\<^verbatim>\<open>policy.go\<close>): access policies of topics and queues, from
  their JSON text to the decision on a request.

  A \<^verbatim>\<open>json.RawMessage\<close> is the parsed value, \<^verbatim>\<open>None\<close> when the member is absent.  A Go map is
  the list of its entries; \<^verbatim>\<open>range\<close> over it may visit them in any order, and
  \<open>principal_order_irrelevant\<close> says when that order does not matter.  A slice decoded twice
  (a repeated member) is decoded over the elements its backing array already holds, so
  decoding carries that array along.
\<close>

subsection \<open>Documents\<close>

record Statement =
  St_Sid :: string
  St_Effect :: string
  St_Principal :: "json option"
  St_Action :: "json option"
  St_Resource :: "json option"
  St_Condition :: "(string \<times> (string \<times> any) list option) list"

record Document =
  Doc_Version :: string
  Doc_Statement :: "Statement list"

record Request =
  Req_Principal :: string
  Req_ServicePrincipal :: string
  Req_Action :: string
  Req_Resource :: string
  Req_Context :: "(string, string) fmap"

definition zeroStatement :: Statement where
  "zeroStatement =
     \<lparr>St_Sid = [], St_Effect = [], St_Principal = None, St_Action = None, St_Resource = None,
      St_Condition = []\<rparr>"

fun decode_conditions ::
    "(string \<times> json) list \<Rightarrow> (string \<times> (string \<times> any) list option) list \<Rightarrow>
     (string \<times> (string \<times> any) list option) list option" where
  "decode_conditions [] cur = Some cur"
| "decode_conditions ((k, j) # ms) cur =
     (case decode_any_map j of None \<Rightarrow> None | Some m \<Rightarrow> decode_conditions ms (upsert (unquote k) m cur))"

definition decode_condition ::
    "json \<Rightarrow> (string \<times> (string \<times> any) list option) list \<Rightarrow>
     (string \<times> (string \<times> any) list option) list option" where
  "decode_condition j cur =
     (case j of JNull \<Rightarrow> Some [] | JObj ms \<Rightarrow> decode_conditions ms cur | _ \<Rightarrow> None)"

definition statement_fields :: "string list" where
  "statement_fields = [''Sid'', ''Effect'', ''Principal'', ''Action'', ''Resource'', ''Condition'']"

definition decode_statement_field :: "string \<Rightarrow> json \<Rightarrow> Statement \<Rightarrow> Statement option" where
  "decode_statement_field f j st =
     (if f = ''Sid'' then map_option (\<lambda>v. st\<lparr>St_Sid := v\<rparr>) (decode_string j (St_Sid st))
      else if f = ''Effect'' then map_option (\<lambda>v. st\<lparr>St_Effect := v\<rparr>) (decode_string j (St_Effect st))
      else if f = ''Principal'' then Some (st\<lparr>St_Principal := Some j\<rparr>)
      else if f = ''Action'' then Some (st\<lparr>St_Action := Some j\<rparr>)
      else if f = ''Resource'' then Some (st\<lparr>St_Resource := Some j\<rparr>)
      else map_option (\<lambda>v. st\<lparr>St_Condition := v\<rparr>) (decode_condition j (St_Condition st)))"

definition decode_statement :: "json \<Rightarrow> Statement \<Rightarrow> Statement option" where
  "decode_statement = decode_struct statement_fields decode_statement_field"

text \<open>Decoding an array into a slice: the visible elements and the backing array.\<close>

fun decode_over :: "(json \<Rightarrow> 'a \<Rightarrow> 'a option) \<Rightarrow> 'a \<Rightarrow> json list \<Rightarrow> 'a list \<Rightarrow> 'a list option" where
  "decode_over dec zero [] old = Some []"
| "decode_over dec zero (v # vs) old =
     (case dec v (case old of [] \<Rightarrow> zero | o1 # _ \<Rightarrow> o1) of
        None \<Rightarrow> None
      | Some x \<Rightarrow> map_option (Cons x) (decode_over dec zero vs (tl old)))"

definition decode_slice :: "(json \<Rightarrow> 'a \<Rightarrow> 'a option) \<Rightarrow> 'a \<Rightarrow> json \<Rightarrow> 'a list \<Rightarrow> ('a list \<times> 'a list) option" where
  "decode_slice dec zero j backing =
     (case j of
        JNull \<Rightarrow> Some ([], [])
      | JArr vs \<Rightarrow>
          if vs = [] then Some ([], [])
          else map_option (\<lambda>xs. (xs, xs @ drop (length vs) backing)) (decode_over dec zero vs backing)
      | _ \<Rightarrow> None)"

definition decode_document :: "json \<Rightarrow> Document \<times> Statement list \<Rightarrow> (Document \<times> Statement list) option" where
  "decode_document =
     decode_struct [''Version'', ''Statement'']
       (\<lambda>f j (doc, backing).
          if f = ''Version''
          then map_option (\<lambda>v. (doc\<lparr>Doc_Version := v\<rparr>, backing)) (decode_string j (Doc_Version doc))
          else map_option (\<lambda>(xs, b). (doc\<lparr>Doc_Statement := xs\<rparr>, b)) (decode_slice decode_statement zeroStatement j backing))"

definition zeroDocument :: Document where
  "zeroDocument = \<lparr>Doc_Version = [], Doc_Statement = []\<rparr>"

definition Parse :: "string \<Rightarrow> Document res" where
  "Parse raw =
     (if TrimSpace raw = [] then Inr zeroDocument
      else case unmarshal decode_document raw (zeroDocument, []) of
             Inl e \<Rightarrow> Inl e
           | Inr (doc, _) \<Rightarrow> Inr doc)"

subsection \<open>Marshalling\<close>

definition json_raw :: "json option \<Rightarrow> json" where
  "json_raw r = (case r of None \<Rightarrow> JNull | Some j \<Rightarrow> compact_json j)"

definition json_condition :: "(string \<times> (string \<times> any) list option) list \<Rightarrow> json" where
  "json_condition c =
     json_object (sort_key fst (map (\<lambda>(k, m). (k, case m of None \<Rightarrow> JNull | Some es \<Rightarrow> of_any (AMap es))) c))"

definition json_statement :: "Statement \<Rightarrow> json" where
  "json_statement st =
     json_object
       ((if St_Sid st = [] then [] else [(''Sid'', json_string (St_Sid st))]) @
        [(''Effect'', json_string (St_Effect st))] @
        (if St_Principal st = None then [] else [(''Principal'', json_raw (St_Principal st))]) @
        [(''Action'', json_raw (St_Action st)), (''Resource'', json_raw (St_Resource st))] @
        (if St_Condition st = [] then [] else [(''Condition'', json_condition (St_Condition st))]))"

definition json_document :: "Document \<Rightarrow> json" where
  "json_document doc =
     json_object
       ((if Doc_Version doc = [] then [] else [(''Version'', json_string (Doc_Version doc))]) @
        [(''Statement'', JArr (map json_statement (Doc_Statement doc)))])"

definition Marshal :: "Document \<Rightarrow> string" where
  "Marshal doc = print_json (json_document doc)"

text \<open>\<^verbatim>\<open>mustJSON\<close> of a list of strings, and of a map with one entry.\<close>

definition mustJSON_list :: "string list \<Rightarrow> json" where
  "mustJSON_list xs = JArr (map json_string xs)"

definition mustJSON_entry :: "string \<Rightarrow> json \<Rightarrow> json" where
  "mustJSON_entry k v = json_object [(k, v)]"

definition default_actions :: "string list" where
  "default_actions =
     [''SNS:AddPermission'', ''SNS:RemovePermission'', ''SNS:DeleteTopic'', ''SNS:GetTopicAttributes'',
      ''SNS:SetTopicAttributes'', ''SNS:Publish'', ''SNS:Subscribe'', ''SNS:ListSubscriptionsByTopic'',
      ''SNS:TagResource'', ''SNS:UntagResource'', ''SNS:ListTagsForResource'']"

definition default_statement :: "string \<Rightarrow> string \<Rightarrow> Statement" where
  "default_statement topicARN accountID =
     \<lparr>St_Sid = ''__default_statement_ID'', St_Effect = ''Allow'',
      St_Principal = Some (mustJSON_entry ''AWS'' (json_string ''*'')),
      St_Action = Some (mustJSON_list default_actions),
      St_Resource = Some (json_string topicARN),
      St_Condition = [(''StringEquals'', Some [(''AWS:SourceOwner'', AStr accountID)])]\<rparr>"

definition DefaultTopicPolicy :: "string \<Rightarrow> string \<Rightarrow> string" where
  "DefaultTopicPolicy topicARN accountID =
     Marshal \<lparr>Doc_Version = ''2012-10-17'', Doc_Statement = [default_statement topicARN accountID]\<rparr>"

subsection \<open>Permissions\<close>

fun normalize_actions :: "string list \<Rightarrow> string list" where
  "normalize_actions [] = []"
| "normalize_actions (action # rest) =
     (let action = TrimSpace action in
      if action = [] then normalize_actions rest
      else (if HasPrefix (ToUpper action) ''SNS:'' then action else ''SNS:'' @ action) # normalize_actions rest)"

definition permission_statement :: "string \<Rightarrow> string list \<Rightarrow> string list \<Rightarrow> string \<Rightarrow> Statement" where
  "permission_statement label accountIDs actionNames topicARN =
     \<lparr>St_Sid = label, St_Effect = ''Allow'',
      St_Principal = Some (mustJSON_entry ''AWS'' (mustJSON_list accountIDs)),
      St_Action = Some (mustJSON_list (normalize_actions actionNames)),
      St_Resource = Some (json_string topicARN), St_Condition = []\<rparr>"

definition AddPermission :: "string \<Rightarrow> string \<Rightarrow> string list \<Rightarrow> string list \<Rightarrow> string \<Rightarrow> string res" where
  "AddPermission raw label accountIDs actionNames topicARN =
     (case Parse raw of
        Inl e \<Rightarrow> Inl e
      | Inr doc \<Rightarrow>
          if list_ex (\<lambda>stmt. St_Sid stmt = label) (Doc_Statement doc)
          then Inl (Plain ''statement with label already exists'')
          else Inr (Marshal (doc\<lparr>Doc_Statement :=
                 Doc_Statement doc @ [permission_statement label accountIDs actionNames topicARN]\<rparr>)))"

definition RemovePermission :: "string \<Rightarrow> string \<Rightarrow> string res" where
  "RemovePermission raw label =
     (case Parse raw of
        Inl e \<Rightarrow> Inl e
      | Inr doc \<Rightarrow>
          if \<not> list_ex (\<lambda>stmt. St_Sid stmt = label) (Doc_Statement doc)
          then Inl (Plain ''statement not found'')
          else Inr (Marshal (doc\<lparr>Doc_Statement := filter (\<lambda>stmt. St_Sid stmt \<noteq> label) (Doc_Statement doc)\<rparr>)))"

subsection \<open>Evaluation\<close>

fun matchesAny :: "string list \<Rightarrow> string \<Rightarrow> bool" where
  "matchesAny [] value = False"
| "matchesAny (item # items) value =
     (if item = ''*'' \<or> EqualFold item value \<or> item = value then True else matchesAny items value)"

fun any_strings :: "any list \<Rightarrow> string list option" where
  "any_strings [] = Some []"
| "any_strings (v # vs) = (case v of AStr s \<Rightarrow> map_option (Cons s) (any_strings vs) | _ \<Rightarrow> None)"

definition anyToStrings :: "any \<Rightarrow> string list res" where
  "anyToStrings v =
     (case v of
        AStr s \<Rightarrow> Inr [s]
      | AArr vs \<Rightarrow> (case any_strings vs of None \<Rightarrow> Inl (Plain ''non-string value'') | Some xs \<Rightarrow> Inr xs)
      | _ \<Rightarrow> Inl (Plain ''unsupported value''))"

definition parseStringList :: "json option \<Rightarrow> string list res" where
  "parseStringList raw =
     (case raw of
        None \<Rightarrow> Inl (Plain ''invalid list'')
      | Some j \<Rightarrow>
          (case decode_string j [] of
             Some s \<Rightarrow> Inr [s]
           | None \<Rightarrow>
               (case j of
                  JArr vs \<Rightarrow> (case all_some (map (\<lambda>v. decode_string v []) vs) of
                                None \<Rightarrow> Inl (Plain ''invalid list'') | Some xs \<Rightarrow> Inr xs)
                | _ \<Rightarrow> Inl (Plain ''invalid list''))))"

text \<open>The loop over the members of a principal object.\<close>

fun principal_entries :: "(string \<times> any) list \<Rightarrow> Request \<Rightarrow> bool res" where
  "principal_entries [] req = Inr False"
| "principal_entries ((key, value) # m) req =
     (if key = ''AWS'' \<or> key = ''Service'' then
        (case anyToStrings value of
           Inl e \<Rightarrow> Inl e
         | Inr items \<Rightarrow>
             if matchesAny items (if key = ''AWS'' then Req_Principal req else Req_ServicePrincipal req)
             then Inr True
             else principal_entries m req)
      else principal_entries m req)"

definition principalMatches :: "json \<Rightarrow> Request \<Rightarrow> bool res" where
  "principalMatches raw req =
     (case decode_string raw [] of
        Some s \<Rightarrow> Inr (s = ''*'' \<or> s = Req_Principal req \<or> s = Req_ServicePrincipal req)
      | None \<Rightarrow>
          (case decode_any_map raw of
             None \<Rightarrow> Inl (Plain ''cannot unmarshal'')
           | Some m \<Rightarrow> principal_entries (case m of None \<Rightarrow> [] | Some es \<Rightarrow> es) req))"

definition candidates_of :: "any \<Rightarrow> string list" where
  "candidates_of v = (case anyToStrings v of Inl e \<Rightarrow> [] | Inr xs \<Rightarrow> xs)"

definition lookup_context :: "(string, string) fmap \<Rightarrow> string \<Rightarrow> string" where
  "lookup_context ctx key = (case fmlookup ctx key of None \<Rightarrow> [] | Some v \<Rightarrow> v)"

text \<open>Operators other than the two below are ignored.\<close>

definition conditionsMatch :: "(string \<times> (string \<times> any) list option) list \<Rightarrow> (string, string) fmap \<Rightarrow> bool" where
  "conditionsMatch conds ctx \<longleftrightarrow>
     list_all (\<lambda>(operator, values).
       if operator = ''StringEquals'' \<or> operator = ''ArnEquals''
       then list_all (\<lambda>(key, value). matchesAny (candidates_of value) (lookup_context ctx key))
              (case values of None \<Rightarrow> [] | Some es \<Rightarrow> es)
       else True) conds"

definition statementMatches :: "Statement \<Rightarrow> Request \<Rightarrow> bool res" where
  "statementMatches stmt req =
     (case parseStringList (St_Action stmt) of
        Inl e \<Rightarrow> Inl e
      | Inr actions \<Rightarrow>
          if \<not> matchesAny actions (Req_Action req) then Inr False
          else
            (case parseStringList (St_Resource stmt) of
               Inl e \<Rightarrow> Inl e
             | Inr resources \<Rightarrow>
                 if \<not> matchesAny resources (Req_Resource req) then Inr False
                 else
                   (case (case St_Principal stmt of None \<Rightarrow> Inr True | Some p \<Rightarrow> principalMatches p req) of
                      Inl e \<Rightarrow> Inl e
                    | Inr ok \<Rightarrow> if \<not> ok then Inr False
                               else Inr (conditionsMatch (St_Condition stmt) (Req_Context req)))))"

fun evaluate_loop :: "Statement list \<Rightarrow> Request \<Rightarrow> bool \<Rightarrow> bool" where
  "evaluate_loop [] req allowed = allowed"
| "evaluate_loop (stmt # rest) req allowed =
     (if statementMatches stmt req \<noteq> Inr True then evaluate_loop rest req allowed
      else if EqualFold (St_Effect stmt) ''Deny'' then False
      else if EqualFold (St_Effect stmt) ''Allow'' then evaluate_loop rest req True
      else evaluate_loop rest req allowed)"

definition Evaluate :: "string \<Rightarrow> Request \<Rightarrow> string \<Rightarrow> bool res" where
  "Evaluate raw req ownerAccountID =
     (if TrimSpace raw = [] then Inr (Req_Principal req = ownerAccountID)
      else case Parse raw of
             Inl e \<Rightarrow> Inl e
           | Inr doc \<Rightarrow> Inr (evaluate_loop (Doc_Statement doc) req (Req_Principal req = ownerAccountID)))"

subsection \<open>Decisions\<close>

lemma evaluate_loop_iff:
  "evaluate_loop sts req a \<longleftrightarrow>
     \<not> (\<exists>st \<in> set sts. statementMatches st req = Inr True \<and> EqualFold (St_Effect st) ''Deny'') \<and>
     (a \<or> (\<exists>st \<in> set sts. statementMatches st req = Inr True \<and> EqualFold (St_Effect st) ''Allow''))"
  by (induction sts arbitrary: a) auto

lemma EqualFold_Deny_Allow: "\<not> (EqualFold e ''Deny'' \<and> EqualFold e ''Allow'')"
  by (auto simp: EqualFold_def lower_char_def Let_def)

lemma matchesAny_iff: "matchesAny xs v \<longleftrightarrow> (\<exists>x \<in> set xs. x = ''*'' \<or> EqualFold x v)"
  by (induction xs) auto

lemma principal_entries_ok:
  assumes "\<And>k v. (k, v) \<in> set m \<Longrightarrow> k = ''AWS'' \<or> k = ''Service'' \<Longrightarrow> \<exists>xs. anyToStrings v = Inr xs"
  shows "principal_entries m req = Inr (\<exists>(k, v) \<in> set m.
    (k = ''AWS'' \<and> matchesAny (candidates_of v) (Req_Principal req)) \<or>
    (k = ''Service'' \<and> matchesAny (candidates_of v) (Req_ServicePrincipal req)))"
  using assms
proof (induction m)
  case (Cons e m)
  obtain k v where e: "e = (k, v)" by (cases e)
  show ?case
  proof (cases "k = ''AWS'' \<or> k = ''Service''")
    case True
    then obtain xs where "anyToStrings v = Inr xs" using Cons.prems [of k v] e by auto
    then show ?thesis using Cons e True by (auto simp: candidates_of_def)
  next
    case False
    then show ?thesis using Cons e by auto
  qed
qed simp

subsection \<open>Policies that survive a round trip\<close>

fun plain_any :: "any \<Rightarrow> bool" where
  "plain_any (AStr s) = valid_utf8 s"
| "plain_any (AArr vs) = (\<forall>v \<in> set vs. case v of AStr s \<Rightarrow> valid_utf8 s | _ \<Rightarrow> False)"
| "plain_any v = False"

definition plain_entries :: "(string \<times> any) list \<Rightarrow> bool" where
  "plain_entries es \<longleftrightarrow> sorted_wrt (<) (map fst es) \<and> (\<forall>(k, v) \<in> set es. valid_utf8 k \<and> plain_any v)"

definition plain_condition :: "(string \<times> (string \<times> any) list option) list \<Rightarrow> bool" where
  "plain_condition c \<longleftrightarrow>
     sorted_wrt (<) (map fst c) \<and>
     (\<forall>(k, m) \<in> set c. valid_utf8 k \<and> (case m of None \<Rightarrow> True | Some es \<Rightarrow> plain_entries es))"

definition plain_raw :: "json option \<Rightarrow> bool" where
  "plain_raw r \<longleftrightarrow> (case r of None \<Rightarrow> True | Some j \<Rightarrow> wf_json 3 j \<and> compact_json j = j)"

definition plain_statement :: "Statement \<Rightarrow> bool" where
  "plain_statement st \<longleftrightarrow>
     valid_utf8 (St_Sid st) \<and> valid_utf8 (St_Effect st) \<and> plain_raw (St_Principal st) \<and>
     plain_raw (St_Action st) \<and> St_Action st \<noteq> None \<and> plain_raw (St_Resource st) \<and> St_Resource st \<noteq> None \<and>
     plain_condition (St_Condition st)"

definition plain_document :: "Document \<Rightarrow> bool" where
  "plain_document doc \<longleftrightarrow> valid_utf8 (Doc_Version doc) \<and> (\<forall>st \<in> set (Doc_Statement doc). plain_statement st)"

lemma to_any_of_any: "plain_any v \<Longrightarrow> to_any (of_any v) = Some v"
proof (cases v)
  case (AArr vs)
  assume p: "plain_any v"
  have "to_any (of_any x) = Some x" if "x \<in> set vs" for x
  proof -
    have "case x of AStr s \<Rightarrow> valid_utf8 s | _ \<Rightarrow> False" using that p AArr by auto
    then show ?thesis by (auto simp: json_string_def unquote_quote split: any.splits)
  qed
  then have "map (to_any \<circ> of_any) vs = map Some vs" by simp
  then show ?thesis by (simp only: AArr of_any.simps to_any.simps map_map all_some_map_Some) simp
qed (auto simp: json_string_def unquote_quote)

lemma of_any_entries:
  assumes "plain_entries es"
  shows "to_any (of_any (AMap es)) = Some (AMap es)"
    and "of_any (AMap es) = json_object (map (\<lambda>(k, v). (k, of_any v)) es)"
proof -
  have s: "sort_key fst (map (\<lambda>(k, v). (k, of_any v)) es) = map (\<lambda>(k, v). (k, of_any v)) es"
    using assms by (intro sort_key_sorted) (simp add: plain_entries_def o_def case_prod_unfold)
  then show eq: "of_any (AMap es) = json_object (map (\<lambda>(k, v). (k, of_any v)) es)" by simp
  have v: "map (\<lambda>m. to_any (snd m)) (map (\<lambda>(k, v). (quote k, of_any v)) es) = map Some (map snd es)"
    using assms by (auto simp: plain_entries_def to_any_of_any)
  have k: "map (\<lambda>m. unquote (fst m)) (map (\<lambda>(k, v). (quote k, of_any v)) es) = map fst es"
    using assms by (auto simp: plain_entries_def unquote_quote)
  have d: "distinct (map fst es)" using assms by (simp add: plain_entries_def sorted_wrt_less_distinct)
  have "to_any (JObj (map (\<lambda>(k, v). (quote k, of_any v)) es)) = Some (AMap es)"
    unfolding to_any.simps v k all_some_map_Some
    using fold_upsert_distinct [of "[]" es] d by (simp add: zip_map_fst_snd)
  then show "to_any (of_any (AMap es)) = Some (AMap es)"
    unfolding eq json_object_def by (simp add: case_prod_unfold o_def)
qed

lemma decode_any_map_entries:
  "plain_entries es \<Longrightarrow> decode_any_map (of_any (AMap es)) = Some (Some es)"
proof -
  assume es: "plain_entries es"
  obtain ms where "of_any (AMap es) = JObj ms" using of_any_entries(2) [OF es] by (simp add: json_object_def)
  with of_any_entries(1) [OF es] show ?thesis by (simp add: decode_any_map_def del: of_any.simps to_any.simps)
qed

definition json_inner :: "(string \<times> any) list option \<Rightarrow> json" where
  "json_inner m = (case m of None \<Rightarrow> JNull | Some es \<Rightarrow> of_any (AMap es))"

lemma json_condition_sorted:
  assumes "plain_condition c"
  shows "json_condition c = json_object (map (\<lambda>(k, m). (k, json_inner m)) c)"
proof -
  have "sort_key fst (map (\<lambda>(k, m). (k, json_inner m)) c) = map (\<lambda>(k, m). (k, json_inner m)) c"
    using assms by (intro sort_key_sorted) (simp add: plain_condition_def o_def case_prod_unfold)
  then show ?thesis by (simp add: json_condition_def json_inner_def)
qed

lemma decode_conditions_plain:
  assumes "\<forall>(k, m) \<in> set c. valid_utf8 k \<and> (case m of None \<Rightarrow> True | Some es \<Rightarrow> plain_entries es)"
    "distinct (map fst cur @ map fst c)"
  shows "decode_conditions (map (\<lambda>(k, m). (quote k, json_inner m)) c) cur = Some (cur @ c)"
  using assms
proof (induction c arbitrary: cur)
  case (Cons e c)
  obtain k m where e: "e = (k, m)" by (cases e)
  have "decode_any_map (json_inner m) = Some m"
    using Cons.prems e decode_any_map_entries
    by (cases m) (auto simp: json_inner_def decode_any_map_def [of JNull] simp del: of_any.simps)
  moreover have "k \<notin> fst ` set cur" using Cons.prems e by auto
  ultimately show ?case using Cons e by (simp add: unquote_quote upsert_new)
qed simp

lemma decode_condition_plain:
  assumes "plain_condition c"
  shows "decode_condition (json_condition c) [] = Some c"
proof -
  have "distinct (map fst c)" using assms by (simp add: plain_condition_def sorted_wrt_less_distinct)
  moreover have "json_condition c = JObj (map (\<lambda>(k, m). (quote k, json_inner m)) c)"
    unfolding json_condition_sorted [OF assms] json_object_def by (simp add: case_prod_unfold o_def)
  ultimately show ?thesis
    using assms decode_conditions_plain [of c "[]"] by (simp add: decode_condition_def plain_condition_def)
qed

lemma statement_field_names:
  "''Sid'' \<in> set statement_fields" "''Effect'' \<in> set statement_fields" "''Principal'' \<in> set statement_fields"
  "''Action'' \<in> set statement_fields" "''Resource'' \<in> set statement_fields" "''Condition'' \<in> set statement_fields"
  by (simp_all add: statement_fields_def)

lemma decode_statement_plain:
  assumes "plain_statement st"
  shows "decode_statement (json_statement st) zeroStatement = Some st"
proof -
  obtain a where a: "St_Action st = Some a" "compact_json a = a" using assms by (auto simp: plain_statement_def plain_raw_def)
  obtain r where r: "St_Resource st = Some r" "compact_json r = r" using assms by (auto simp: plain_statement_def plain_raw_def)
  have p: "St_Principal st = Some q \<Longrightarrow> compact_json q = q" for q using assms by (auto simp: plain_statement_def plain_raw_def)
  have c: "decode_condition (json_condition (St_Condition st)) [] = Some (St_Condition st)"
    using assms by (simp add: plain_statement_def decode_condition_plain)
  have e: "valid_utf8 (St_Sid st)" "valid_utf8 (St_Effect st)" using assms by (simp_all add: plain_statement_def)
  show ?thesis
    by (cases "St_Sid st = []"; cases "St_Principal st"; cases "St_Condition st = []")
      (use a r p c e in \<open>simp_all add: decode_statement_def json_statement_def decode_struct_object
         decode_members_quote byte_value_def statement_field_names decode_statement_field_def
         json_raw_def zeroStatement_def del: decode_members.simps(2)\<close>)
qed

lemma decode_over_plain:
  "\<forall>st \<in> set sts. plain_statement st \<Longrightarrow>
     decode_over decode_statement zeroStatement (map json_statement sts) [] = Some sts"
  by (induction sts) (simp_all add: decode_statement_plain)

lemma decode_document_plain:
  assumes "plain_document doc"
  shows "\<exists>b. decode_document (json_document doc) (zeroDocument, []) = Some (doc, b)"
proof -
  have sl: "\<exists>b. decode_slice decode_statement zeroStatement (JArr (map json_statement (Doc_Statement doc))) [] =
      Some (Doc_Statement doc, b)"
    using assms decode_over_plain [of "Doc_Statement doc"] by (auto simp: decode_slice_def plain_document_def)
  then obtain b where b: "decode_slice decode_statement zeroStatement (JArr (map json_statement (Doc_Statement doc))) [] =
      Some (Doc_Statement doc, b)" by blast
  have v: "valid_utf8 (Doc_Version doc)" using assms by (simp add: plain_document_def)
  have "decode_document (json_document doc) (zeroDocument, []) = Some (doc, b)"
    by (cases "Doc_Version doc = []")
      (use b v in \<open>simp_all add: decode_document_def json_document_def decode_struct_object
         decode_members_quote byte_value_def zeroDocument_def del: decode_members.simps(2)\<close>)
  then show ?thesis by blast
qed

lemma wf_of_plain_any: "plain_any v \<Longrightarrow> d + 1 < maxNestingDepth \<Longrightarrow> wf_json d (of_any v)"
proof (cases v)
  case (AArr vs)
  assume p: "plain_any v" and d: "d + 1 < maxNestingDepth"
  have "wf_json (Suc d) (of_any x)" if "x \<in> set vs" for x
  proof -
    have "case x of AStr s \<Rightarrow> valid_utf8 s | _ \<Rightarrow> False" using that p AArr by auto
    then show ?thesis by (auto split: any.splits)
  qed
  with d show ?thesis by (simp add: AArr)
qed auto

lemma wf_json_condition: "plain_condition c \<Longrightarrow> wf_json 3 (json_condition c)"
proof -
  assume c: "plain_condition c"
  have "wf_json 4 (json_inner m)" if "(k, m) \<in> set c" for k m
  proof (cases m)
    case (Some es)
    then have es: "plain_entries es" using c that by (auto simp: plain_condition_def)
    have "wf_json 5 (of_any v)" if "(k', v) \<in> set es" for k' v
      using es that by (intro wf_of_plain_any) (auto simp: plain_entries_def maxNestingDepth_def)
    then show ?thesis
      using of_any_entries(2) [OF es] Some
      by (auto simp: json_inner_def maxNestingDepth_def numeral_eq_Suc simp del: of_any.simps)
  qed (simp add: json_inner_def)
  then show ?thesis
    unfolding json_condition_sorted [OF c] by (auto simp: maxNestingDepth_def numeral_eq_Suc)
qed

lemma wf_json_statement: "plain_statement st \<Longrightarrow> wf_json 2 (json_statement st)"
  using wf_json_condition [of "St_Condition st"]
  by (auto simp: plain_statement_def json_statement_def json_raw_def plain_raw_def maxNestingDepth_def
      numeral_eq_Suc split: option.splits)

lemma wf_json_document: "plain_document doc \<Longrightarrow> wf_json 0 (json_document doc)"
  using wf_json_statement
  by (auto simp: plain_document_def json_document_def maxNestingDepth_def numeral_2_eq_2)

lemma Parse_Marshal:
  assumes "plain_document doc"
  shows "Parse (Marshal doc) = Inr doc" and "TrimSpace (Marshal doc) \<noteq> []"
proof -
  have m: "\<exists>t. Marshal doc = CHR ''{'' # t @ ''}''"
    by (simp add: Marshal_def json_document_def json_object_def)
  then obtain t where t: "Marshal doc = CHR ''{'' # t @ ''}''" by blast
  have "TrimSpace (Marshal doc) = Marshal doc"
    by (rule TrimSpace_plain) (simp_all add: t plain_char_def byte_value_def)
  then show ne: "TrimSpace (Marshal doc) \<noteq> []" by (simp add: t)
  have "parse_json (Marshal doc) = Some (json_document doc)"
    unfolding Marshal_def by (rule parse_print) (rule wf_json_document [OF assms])
  with decode_document_plain [OF assms] ne show "Parse (Marshal doc) = Inr doc"
    by (auto simp: Parse_def unmarshal_def)
qed

lemma compact_string [simp]: "compact_json (json_string s) = json_string s"
  by (simp add: json_string_def escape_html_quote)

lemma compact_object [simp]: "compact_json (json_object ms) = json_object (map (\<lambda>(k, v). (k, compact_json v)) ms)"
  by (auto simp: json_object_def escape_html_quote)

lemma plain_raw_intros [simp]:
  "plain_raw (Some (json_string s))" "plain_raw (Some (mustJSON_list xs))"
  "plain_raw (Some (mustJSON_entry k (json_string s)))" "plain_raw (Some (mustJSON_entry k (mustJSON_list xs)))"
  by (auto simp: plain_raw_def mustJSON_list_def mustJSON_entry_def maxNestingDepth_def o_def)

lemma valid_ascii_names:
  "valid_utf8 ''Allow''" "valid_utf8 ''__default_statement_ID''" "valid_utf8 ''2012-10-17''"
  "valid_utf8 ''StringEquals''" "valid_utf8 ''AWS:SourceOwner''"
  by (rule valid_utf8_ascii, simp add: byte_value_def)+

lemma plain_permission_statement:
  "valid_utf8 label \<Longrightarrow> plain_statement (permission_statement label accts acts arn)"
  by (simp add: plain_statement_def permission_statement_def plain_condition_def valid_ascii_names)

lemma plain_default_statement: "valid_utf8 acct \<Longrightarrow> plain_statement (default_statement arn acct)"
  by (simp add: plain_statement_def default_statement_def plain_condition_def plain_entries_def valid_ascii_names)

lemma parseStringList_list:
  "\<forall>x \<in> set xs. valid_utf8 x \<Longrightarrow> parseStringList (Some (mustJSON_list xs)) = Inr xs"
proof -
  assume "\<forall>x \<in> set xs. valid_utf8 x"
  then have "map ((\<lambda>v. decode_string v []) \<circ> json_string) xs = map Some xs" by simp
  then show ?thesis
    by (simp only: parseStringList_def mustJSON_list_def option.case decode_string_def json.case map_map all_some_map_Some)
qed

lemma parseStringList_string: "valid_utf8 x \<Longrightarrow> parseStringList (Some (json_string x)) = Inr [x]"
  by (simp add: parseStringList_def)

lemma principal_aws:
  assumes "decode_any_map p = Some (Some [(''AWS'', v)])" "decode_string p [] = None" "anyToStrings v = Inr xs"
  shows "principalMatches p req = Inr (matchesAny xs (Req_Principal req))"
  using assms by (simp add: principalMatches_def)

lemma principal_entry_list:
  assumes "\<forall>x \<in> set xs. valid_utf8 x"
  shows "principalMatches (mustJSON_entry ''AWS'' (mustJSON_list xs)) req = Inr (matchesAny xs (Req_Principal req))"
proof (rule principal_aws)
  have "plain_entries [(''AWS'', AArr (map AStr xs))]"
    using assms valid_utf8_ascii [of "''AWS''"] by (simp add: plain_entries_def byte_value_def)
  moreover have "of_any (AMap [(''AWS'', AArr (map AStr xs))]) = mustJSON_entry ''AWS'' (mustJSON_list xs)"
    by (simp add: mustJSON_entry_def mustJSON_list_def o_def)
  ultimately show "decode_any_map (mustJSON_entry ''AWS'' (mustJSON_list xs)) = Some (Some [(''AWS'', AArr (map AStr xs))])"
    by (metis decode_any_map_entries)
  have "any_strings (map AStr xs) = Some xs" by (induction xs) simp_all
  then show "anyToStrings (AArr (map AStr xs)) = Inr xs" by (simp add: anyToStrings_def)
qed (simp add: mustJSON_entry_def json_object_def decode_string_def)

lemma principal_entry_star: "principalMatches (mustJSON_entry ''AWS'' (json_string ''*'')) req = Inr True"
proof -
  have "plain_entries [(''AWS'', AStr ''*'')]"
    using valid_utf8_ascii [of "''AWS''"] valid_utf8_ascii [of "''*''"] by (simp add: plain_entries_def byte_value_def)
  moreover have "of_any (AMap [(''AWS'', AStr ''*'')]) = mustJSON_entry ''AWS'' (json_string ''*'')"
    by (simp add: mustJSON_entry_def)
  ultimately have "decode_any_map (mustJSON_entry ''AWS'' (json_string ''*'')) = Some (Some [(''AWS'', AStr ''*'')])"
    by (metis decode_any_map_entries)
  then show ?thesis
    by (subst principal_aws [where v = "AStr ''*''" and xs = "[''*'']"])
      (simp_all add: anyToStrings_def mustJSON_entry_def json_object_def decode_string_def)
qed

lemma valid_default_actions: "\<forall>x \<in> set default_actions. valid_utf8 x"
  by (auto simp: default_actions_def byte_value_def intro!: valid_utf8_ascii)

lemma default_statement_matches:
  assumes "valid_utf8 arn"
  shows "statementMatches (default_statement arn acct) req =
    Inr (matchesAny default_actions (Req_Action req) \<and> matchesAny [arn] (Req_Resource req) \<and>
         matchesAny [acct] (lookup_context (Req_Context req) ''AWS:SourceOwner''))"
  using assms
  by (simp add: statementMatches_def default_statement_def parseStringList_list [OF valid_default_actions]
      parseStringList_string principal_entry_star conditionsMatch_def candidates_of_def anyToStrings_def)

lemma permission_statement_matches:
  assumes "valid_utf8 arn" "\<forall>x \<in> set accts. valid_utf8 x" "\<forall>x \<in> set (normalize_actions acts). valid_utf8 x"
  shows "statementMatches (permission_statement label accts acts arn) req =
    Inr (matchesAny (normalize_actions acts) (Req_Action req) \<and> matchesAny [arn] (Req_Resource req) \<and>
         matchesAny accts (Req_Principal req))"
  using assms
  by (simp add: statementMatches_def permission_statement_def parseStringList_list
      parseStringList_string principal_entry_list conditionsMatch_def)

lemma EqualFold_Allow [simp]: "EqualFold ''Allow'' ''Allow''" "\<not> EqualFold ''Allow'' ''Deny''"
  using EqualFold_Deny_Allow [of "''Allow''"] by auto

lemma default_effects [simp]:
  "St_Effect (default_statement arn acct) = ''Allow''" "St_Effect (permission_statement l a n arn) = ''Allow''"
  "St_Sid (permission_statement l a n arn) = l"
  by (simp_all add: default_statement_def permission_statement_def)

lemma evaluate_loop_snoc:
  assumes "EqualFold (St_Effect st) ''Allow''"
  shows "evaluate_loop (sts @ [st]) req a \<longleftrightarrow>
    evaluate_loop sts req a \<or>
    \<not> (\<exists>x \<in> set sts. statementMatches x req = Inr True \<and> EqualFold (St_Effect x) ''Deny'') \<and>
    statementMatches st req = Inr True"
proof -
  have "\<not> EqualFold (St_Effect st) ''Deny''" using assms EqualFold_Deny_Allow by blast
  with assms show ?thesis unfolding evaluate_loop_iff by auto
qed

subsection \<open>What the package guarantees\<close>


lemma Evaluate_Marshal:
  assumes "plain_document doc"
  shows "Evaluate (Marshal doc) req owner = Inr (evaluate_loop (Doc_Statement doc) req (Req_Principal req = owner))"
  using Parse_Marshal [OF assms] by (simp add: Evaluate_def)

lemma plain_default_document:
  "valid_utf8 acct \<Longrightarrow>
     plain_document \<lparr>Doc_Version = ''2012-10-17'', Doc_Statement = [default_statement arn acct]\<rparr>"
  by (simp add: plain_document_def plain_default_statement valid_ascii_names)


text \<open>C19: adding a permission to a policy and removing it by its label gives back the same text,
  and the policy with the permission admits exactly what it admitted before or what the new
  statement grants: the listed accounts, the listed actions (with the \<^verbatim>\<open>SNS:\<close> prefix supplied), this topic;
  a Deny of the old policy still wins.\<close>

theorem permission_added_and_removed:
  assumes "plain_document doc" "valid_utf8 label" "valid_utf8 topicARN" "\<forall>x \<in> set accountIDs. valid_utf8 x"
    "\<forall>x \<in> set (normalize_actions actionNames). valid_utf8 x"
    "\<forall>st \<in> set (Doc_Statement doc). St_Sid st \<noteq> label"
  shows "\<exists>raw'. AddPermission (Marshal doc) label accountIDs actionNames topicARN = Inr raw' \<and>
    RemovePermission raw' label = Inr (Marshal doc) \<and>
    (\<forall>req owner before. Evaluate (Marshal doc) req owner = Inr before \<longrightarrow>
       Evaluate raw' req owner =
         Inr (before \<or>
              (\<not> (\<exists>st \<in> set (Doc_Statement doc). statementMatches st req = Inr True \<and> EqualFold (St_Effect st) ''Deny'') \<and>
               matchesAny (normalize_actions actionNames) (Req_Action req) \<and> matchesAny [topicARN] (Req_Resource req) \<and>
               matchesAny accountIDs (Req_Principal req))))"
proof -
  let ?st = "permission_statement label accountIDs actionNames topicARN"
  let ?doc = "doc\<lparr>Doc_Statement := Doc_Statement doc @ [?st]\<rparr>"
  have plain: "plain_document ?doc"
    using assms(1,2) by (auto simp: plain_document_def plain_permission_statement)
  have none: "\<not> list_ex (\<lambda>stmt. St_Sid stmt = label) (Doc_Statement doc)"
    using assms(6) by (simp add: list_ex_iff)
  have "AddPermission (Marshal doc) label accountIDs actionNames topicARN = Inr (Marshal ?doc)"
    using none by (simp add: AddPermission_def Parse_Marshal(1) [OF assms(1)])
  moreover have "filter (\<lambda>stmt. St_Sid stmt \<noteq> label) (Doc_Statement doc) = Doc_Statement doc"
    using assms(6) by simp
  then have "RemovePermission (Marshal ?doc) label = Inr (Marshal doc)"
    by (simp add: RemovePermission_def Parse_Marshal(1) [OF plain])
  moreover have "Evaluate (Marshal ?doc) req owner =
      Inr (before \<or>
        (\<not> (\<exists>st \<in> set (Doc_Statement doc). statementMatches st req = Inr True \<and> EqualFold (St_Effect st) ''Deny'') \<and>
         matchesAny (normalize_actions actionNames) (Req_Action req) \<and> matchesAny [topicARN] (Req_Resource req) \<and>
         matchesAny accountIDs (Req_Principal req)))"
    if "Evaluate (Marshal doc) req owner = Inr before" for req owner before
    using that permission_statement_matches [OF assms(3-5), of label req]
    unfolding Evaluate_Marshal [OF plain] Evaluate_Marshal [OF assms(1)]
    by (simp add: evaluate_loop_snoc del: matchesAny.simps)
  ultimately show ?thesis by blast
qed

text \<open>When every \<^verbatim>\<open>AWS\<close> and \<^verbatim>\<open>Service\<close> member of a principal object is a string or a list
  of strings, the order in which \<^verbatim>\<open>range\<close> visits the members does not change the outcome.\<close>

theorem principal_order_irrelevant:
  assumes "\<And>k v. (k, v) \<in> set m \<Longrightarrow> k = ''AWS'' \<or> k = ''Service'' \<Longrightarrow> \<exists>xs. anyToStrings v = Inr xs"
    "set m' = set m"
  shows "principal_entries m' req = principal_entries m req"
proof -
  have "principal_entries m' req = Inr (\<exists>(k, v) \<in> set m'.
      (k = ''AWS'' \<and> matchesAny (candidates_of v) (Req_Principal req)) \<or>
      (k = ''Service'' \<and> matchesAny (candidates_of v) (Req_ServicePrincipal req)))"
    by (rule principal_entries_ok) (use assms in auto)
  then show ?thesis using principal_entries_ok [of m req, OF assms(1)] assms(2) by simp
qed

text \<open>A request that names no service principal is matched by the principal members \<^verbatim>\<open>null\<close>
  and the empty string, as it is by the wildcard; and condition operators other than
  \<^verbatim>\<open>StringEquals\<close> and \<^verbatim>\<open>ArnEquals\<close> never prevent a match.\<close>

theorem lenient_matches:
  assumes "Req_ServicePrincipal req = []" "\<forall>c \<in> set conds. fst c \<noteq> ''StringEquals'' \<and> fst c \<noteq> ''ArnEquals''"
  shows "principalMatches JNull req = Inr True \<and> principalMatches (JStr []) req = Inr True \<and>
    conditionsMatch conds (Req_Context req)"
  using assms
  by (auto simp: principalMatches_def decode_string_def unquote.simps conditionsMatch_def list_all_iff)

subsection \<open>Concrete instances\<close>

definition sample_request :: "string \<Rightarrow> string \<Rightarrow> Request" where
  "sample_request account action =
     \<lparr>Req_Principal = account, Req_ServicePrincipal = [], Req_Action = action, Req_Resource = ''arn'',
      Req_Context = fmap_of_list [(''AWS:SourceOwner'', account)]\<rparr>"

lemma sample_valid: "valid_utf8 ''arn''" "valid_utf8 ''1''" "valid_utf8 ''2''" "valid_utf8 ''L''" "valid_utf8 ''SNS:Publish''"
  by (rule valid_utf8_ascii, simp add: byte_value_def)+



theorem permission_added_and_removed_witness:
  "\<exists>raw'. AddPermission (DefaultTopicPolicy ''arn'' ''1'') ''L'' [''2''] [''Publish''] ''arn'' = Inr raw' \<and>
     RemovePermission raw' ''L'' = Inr (DefaultTopicPolicy ''arn'' ''1'') \<and>
     Evaluate raw' (sample_request ''2'' ''SNS:Publish'') ''9'' = Inr True"
proof -
  let ?doc = "\<lparr>Doc_Version = ''2012-10-17'', Doc_Statement = [default_statement ''arn'' ''1'']\<rparr>"
  have n: "normalize_actions [''Publish''] = [''SNS:Publish'']"
    by (subst normalize_actions.simps, subst TrimSpace_plain)
      (simp_all add: plain_char_def byte_value_def HasPrefix_def ToUpper_def upper_char_def)
  obtain raw' where r: "AddPermission (Marshal ?doc) ''L'' [''2''] [''Publish''] ''arn'' = Inr raw'"
      "RemovePermission raw' ''L'' = Inr (Marshal ?doc)"
    and ev: "\<forall>req owner before. Evaluate (Marshal ?doc) req owner = Inr before \<longrightarrow>
       Evaluate raw' req owner =
         Inr (before \<or>
              (\<not> (\<exists>st \<in> set (Doc_Statement ?doc). statementMatches st req = Inr True \<and> EqualFold (St_Effect st) ''Deny'') \<and>
               matchesAny (normalize_actions [''Publish'']) (Req_Action req) \<and> matchesAny [''arn''] (Req_Resource req) \<and>
               matchesAny [''2''] (Req_Principal req)))"
    using permission_added_and_removed [OF plain_default_document [OF sample_valid(2), of "''arn''"] sample_valid(4,1),
        of "[''2'']" "[''Publish'']"] sample_valid n
    by (auto simp: default_statement_def)
  have "\<exists>b. Evaluate (Marshal ?doc) (sample_request ''2'' ''SNS:Publish'') ''9'' = Inr b"
    using Evaluate_Marshal [OF plain_default_document [OF sample_valid(2), of "''arn''"]] by blast
  with ev have "Evaluate raw' (sample_request ''2'' ''SNS:Publish'') ''9'' = Inr True"
    by (auto simp: n sample_request_def simp del: normalize_actions.simps)
  with r show ?thesis by (auto simp: DefaultTopicPolicy_def)
qed

theorem principal_order_irrelevant_witness:
  "principal_entries [(''Service'', AStr ''s''), (''AWS'', AStr ''1'')] (sample_request ''1'' ''a'') =
   principal_entries [(''AWS'', AStr ''1''), (''Service'', AStr ''s'')] (sample_request ''1'' ''a'')"
  by (rule principal_order_irrelevant) (auto simp: anyToStrings_def)

theorem lenient_matches_witness:
  "principalMatches JNull (sample_request ''1'' ''a'') = Inr True \<and>
   conditionsMatch [(''StringNotEquals'', Some [(''AWS:SourceOwner'', AStr ''1'')])] (Req_Context (sample_request ''1'' ''a''))"
  using lenient_matches [of "sample_request ''1'' ''a''" "[(''StringNotEquals'', Some [(''AWS:SourceOwner'', AStr ''1'')])]"]
  by (simp add: sample_request_def)

end
