(* ===== verification/Service_Base.thy ===== *)
theory Service_Base
  imports Memory_Store HTTP_Adapter Filter_Policy Policy
begin

text \<open>
  The ground of the service layer (\<^verbatim>\<open>internal/service\<close>): its configuration and collaborators, the
  world its operations act on beside the store, and the sequencing of effects.

  The collaborators are what the Go code reaches through interfaces and the operating system: the
  clock (\<open>Clock_Now n\<close> is its \<open>n\<close>-th reading), \<^verbatim>\<open>time.Now\<close> of the sequence numbers, the random
  source (\<open>rand_Read k n\<close> are the \<open>n\<close> bytes of its \<open>k\<close>-th read), the SQS client (an interface,
  \<^verbatim>\<open>internal/protocol/sqs/adapter.go\<close>), the HTTP transport and the signing key.  The answers of
  a remote party may depend on the number of calls made before, so every behaviour of the network over
  time is some instance of the model.  The world counts the readings and logs the calls.
\<close>

subsection \<open>Collaborators\<close>

record Config =
  Region :: string
  AccountID :: string
  BaseURL :: string
  PageSize :: int
  DeliveryPollInterval :: duration

record QueueAttributes =
  Q_ARN :: string
  Q_URL :: string
  Q_FIFO :: bool
  Q_Policy :: string
  Q_Region :: string
  Q_Account :: string
  Q_Name :: string

record SendRequest =
  SR_QueueARN :: string
  SR_Body :: string
  SR_MessageAttributes :: "MessageAttributeValue ranged"
  SR_MessageGroupID :: string
  SR_MessageDeduplicationID :: string

record SqsClient =
  ResolveQueue :: "nat \<Rightarrow> string \<Rightarrow> QueueAttributes res"
  SendMessage :: "nat \<Rightarrow> SendRequest \<Rightarrow> unit res"
  QueueAllowsTopic :: "nat \<Rightarrow> string \<Rightarrow> string \<Rightarrow> string \<Rightarrow> bool res"

datatype SqsCall =
    CallResolve string
  | CallAllows string string string
  | CallSend SendRequest

record Service =
  cfg :: Config
  Clock_Now :: "nat \<Rightarrow> time"
  time_Now :: "nat \<Rightarrow> int"
  rand_Read :: "nat \<Rightarrow> nat \<Rightarrow> string"
  signer :: Provider
  httpAdapter :: "transport option"
  sqsClient :: "SqsClient option"
  unicode_EqualFold :: "string \<Rightarrow> string \<Rightarrow> bool"

record world =
  W_ticks :: nat
  W_nanos :: nat
  W_draws :: nat
  W_sqs :: "SqsCall list"
  W_http :: "HttpRequest list"

definition start_world :: world where
  "start_world = \<lparr>W_ticks = 0, W_nanos = 0, W_draws = 0, W_sqs = [], W_http = []\<rparr>"

definition now :: "Service \<Rightarrow> world \<Rightarrow> time \<times> world" where
  "now svc w = (Clock_Now svc (W_ticks w), w\<lparr>W_ticks := Suc (W_ticks w)\<rparr>)"

definition newUUID :: "Service \<Rightarrow> world \<Rightarrow> string \<times> world" where
  "newUUID svc w = (UUID (rand_Read svc (W_draws w) 16), w\<lparr>W_draws := Suc (W_draws w)\<rparr>)"

definition newRandomHex :: "Service \<Rightarrow> int \<Rightarrow> world \<Rightarrow> string \<times> world" where
  "newRandomHex svc n w =
     (RandomHex n (rand_Read svc (W_draws w) (nat ((n + 1) div 2))), w\<lparr>W_draws := Suc (W_draws w)\<rparr>)"

text \<open>\<^verbatim>\<open>NextSequence\<close> reads the time only for a group without a prefix.\<close>

definition nextSequence :: "Service \<Rightarrow> SequenceState \<Rightarrow> world \<Rightarrow> (SequenceState \<times> string) \<times> world" where
  "nextSequence svc st w =
     (NextSequence (time_Now svc (W_nanos w)) st,
      if Seq_Prefix st = [] then w\<lparr>W_nanos := Suc (W_nanos w)\<rparr> else w)"

definition protocolAdapter :: "Service \<Rightarrow> string \<Rightarrow> transport option" where
  "protocolAdapter svc protocol = (if protocol \<in> set Protocols then httpAdapter svc else None)"

subsection \<open>Sequencing\<close>

text \<open>An operation runs on the store and the world and ends with a value or an error; a panic is the
  error \<^verbatim>\<open>Panic\<close>, which no \<^verbatim>\<open>if err != nil\<close> intercepts.\<close>

type_synonym 'a M = "mstate \<Rightarrow> world \<Rightarrow> 'a res \<times> mstate \<times> world"

named_theorems monad_simps \<open>equations that run an operation\<close>

definition returnM :: "'a \<Rightarrow> 'a M" where
  "returnM a s w = (Inr a, s, w)"

definition throwM :: "go_error \<Rightarrow> 'a M" where
  "throwM e s w = (Inl e, s, w)"

definition resM :: "'a res \<Rightarrow> 'a M" where
  "resM r s w = (r, s, w)"

definition readM :: "(mstate \<Rightarrow> 'a res) \<Rightarrow> 'a M" where
  "readM f s w = (f s, s, w)"

definition worldM :: "(world \<Rightarrow> 'a \<times> world) \<Rightarrow> 'a M" where
  "worldM f s w = (case f w of (a, w') \<Rightarrow> (Inr a, s, w'))"

definition bindM :: "'a M \<Rightarrow> ('a \<Rightarrow> 'b M) \<Rightarrow> 'b M" where
  "bindM m k s w = (case m s w of (Inl e, s', w') \<Rightarrow> (Inl e, s', w') | (Inr a, s', w') \<Rightarrow> k a s' w')"

definition tryM :: "'a M \<Rightarrow> ('a res \<Rightarrow> 'b M) \<Rightarrow> 'b M" where
  "tryM m k s w =
     (case m s w of
        (Inl (Panic p), s', w') \<Rightarrow> (Inl (Panic p), s', w')
      | (r, s', w') \<Rightarrow> k r s' w')"

text \<open>Replacing an error, as in \<^verbatim>\<open>if err != nil { return domain.NewNotFound(...) }\<close>.\<close>

definition mapErr :: "(go_error \<Rightarrow> go_error) \<Rightarrow> 'a M \<Rightarrow> 'a M" where
  "mapErr g m = tryM m (\<lambda>r. case r of Inl e \<Rightarrow> throwM (g e) | Inr a \<Rightarrow> returnM a)"

definition guardM :: "bool \<Rightarrow> go_error \<Rightarrow> unit M" where
  "guardM ok e = (if ok then returnM () else throwM e)"

lemma run_basic [monad_simps]:
  "returnM a s w = (Inr a, s, w)"
  "throwM e s w = (Inl e, s, w)"
  "resM r s w = (r, s, w)"
  "readM f s w = (f s, s, w)"
  by (simp_all add: returnM_def throwM_def resM_def readM_def)

lemma bind_return [simp]: "bindM (returnM a) k = k a"
  by (rule ext)+ (simp add: bindM_def returnM_def)

lemma bind_throw [simp]: "bindM (throwM e) k = throwM e"
  by (rule ext)+ (simp add: bindM_def throwM_def)

lemma bind_assoc: "bindM (bindM m k) h = bindM m (\<lambda>a. bindM (k a) h)"
  by (rule ext)+ (auto simp: bindM_def split: prod.splits sum.splits)

lemma bindM_Inr:
  "bindM m k s w = (Inr b, s', w') \<longleftrightarrow> (\<exists>a s1 w1. m s w = (Inr a, s1, w1) \<and> k a s1 w1 = (Inr b, s', w'))"
  by (auto simp: bindM_def split: prod.splits sum.splits)

lemma bindM_Inl:
  "bindM m k s w = (Inl e, s', w') \<longleftrightarrow>
     m s w = (Inl e, s', w') \<or> (\<exists>a s1 w1. m s w = (Inr a, s1, w1) \<and> k a s1 w1 = (Inl e, s', w'))"
  by (auto simp: bindM_def split: prod.splits sum.splits)

subsection \<open>Invariants of operations\<close>

text \<open>
  \<open>triple P m Q E\<close>: run from a store that satisfies \<open>P\<close>, \<open>m\<close> ends with a value and a store that
  satisfy \<open>Q\<close>, or with an error and a store that satisfies \<open>E\<close>.
\<close>

definition triple :: "(mstate \<Rightarrow> bool) \<Rightarrow> 'a M \<Rightarrow> ('a \<Rightarrow> mstate \<Rightarrow> bool) \<Rightarrow> (mstate \<Rightarrow> bool) \<Rightarrow> bool" where
  "triple P m Q E \<longleftrightarrow>
     (\<forall>s w. P s \<longrightarrow> (case m s w of (Inr a, s', w') \<Rightarrow> Q a s' | (Inl e, s', w') \<Rightarrow> E s'))"

lemma tripleI:
  assumes "\<And>s w a s' w'. P s \<Longrightarrow> m s w = (Inr a, s', w') \<Longrightarrow> Q a s'"
    "\<And>s w e s' w'. P s \<Longrightarrow> m s w = (Inl e, s', w') \<Longrightarrow> E s'"
  shows "triple P m Q E"
  using assms by (auto simp: triple_def split: prod.split sum.split)

named_theorems triple_intros \<open>rules that prove triples\<close>

lemma triple_return [triple_intros]: "(\<And>s. P s \<Longrightarrow> Q a s) \<Longrightarrow> triple P (returnM a) Q E"
  by (simp add: triple_def returnM_def)

lemma triple_throw [triple_intros]: "(\<And>s. P s \<Longrightarrow> E s) \<Longrightarrow> triple P (throwM e) Q E"
  by (simp add: triple_def throwM_def)

lemma triple_res [triple_intros]:
  "(\<And>s a. P s \<Longrightarrow> r = Inr a \<Longrightarrow> Q a s) \<Longrightarrow> (\<And>s e. P s \<Longrightarrow> r = Inl e \<Longrightarrow> E s) \<Longrightarrow> triple P (resM r) Q E"
  by (auto simp: triple_def resM_def split: sum.split)

lemma triple_read [triple_intros]:
  "(\<And>s a. P s \<Longrightarrow> f s = Inr a \<Longrightarrow> Q a s) \<Longrightarrow> (\<And>s e. P s \<Longrightarrow> f s = Inl e \<Longrightarrow> E s) \<Longrightarrow> triple P (readM f) Q E"
  by (auto simp: triple_def readM_def split: sum.split)

lemma triple_world [triple_intros]:
  "(\<And>s w a w'. P s \<Longrightarrow> f w = (a, w') \<Longrightarrow> Q a s) \<Longrightarrow> triple P (worldM f) Q E"
  by (auto simp: triple_def worldM_def split: prod.split)

text \<open>An operation that leaves the store alone.\<close>

definition pure_op :: "'a M \<Rightarrow> bool" where
  "pure_op m \<longleftrightarrow> (\<forall>s w. fst (snd (m s w)) = s)"

lemma pure_opD: "pure_op m \<Longrightarrow> m s w = (r, s', w') \<Longrightarrow> s' = s"
  by (metis pure_op_def fst_conv snd_conv)

lemma pure_opI:
  assumes "\<And>s w r s' w'. m s w = (r, s', w') \<Longrightarrow> s' = s"
  shows "pure_op m"
  unfolding pure_op_def by (metis assms prod.collapse)

lemma triple_pure: "pure_op m \<Longrightarrow> (\<And>s. P s \<Longrightarrow> E s) \<Longrightarrow> triple P m (\<lambda>_. P) E"
  by (rule tripleI) (auto dest: pure_opD)

lemma pure_basic [simp]:
  "pure_op (returnM a)" "pure_op (throwM e)" "pure_op (resM r)" "pure_op (readM f)" "pure_op (worldM g)"
  "pure_op (guardM b e)"
  by (auto simp: pure_op_def returnM_def throwM_def resM_def readM_def worldM_def guardM_def split: prod.split)

lemma pure_bind: "pure_op m \<Longrightarrow> (\<And>a. pure_op (k a)) \<Longrightarrow> pure_op (bindM m k)"
  by (rule pure_opI) (auto simp: bindM_def split: prod.splits sum.splits dest!: pure_opD)

lemma pure_try: "pure_op m \<Longrightarrow> (\<And>r. pure_op (k r)) \<Longrightarrow> pure_op (tryM m k)"
  by (rule pure_opI) (auto simp: tryM_def split: prod.splits sum.splits go_error.splits dest!: pure_opD)

lemma pure_mapErr: "pure_op m \<Longrightarrow> pure_op (mapErr g m)"
  unfolding mapErr_def by (rule pure_try) (auto split: sum.split)

lemma triple_guard [triple_intros]:
  "(\<And>s. P s \<Longrightarrow> ok \<Longrightarrow> Q () s) \<Longrightarrow> (\<And>s. P s \<Longrightarrow> E s) \<Longrightarrow> triple P (guardM ok e) Q E"
  by (auto simp: guardM_def triple_def returnM_def throwM_def)

lemma triple_assume: "(\<phi> \<Longrightarrow> triple P m Q E) \<Longrightarrow> triple (\<lambda>s. P s \<and> \<phi>) m Q E"
  by (auto simp: triple_def)

lemma triple_bind:
  assumes "triple P m R E" "\<And>a. triple (R a) (k a) Q E"
  shows "triple P (bindM m k) Q E"
  using assms unfolding triple_def bindM_def by (fastforce split: prod.splits sum.splits)

lemma triple_try:
  assumes "triple P m R R'" "\<And>a. triple (R a) (k (Inr a)) Q E" "\<And>e. triple R' (k (Inl e)) Q E" "\<And>s. R' s \<Longrightarrow> E s"
  shows "triple P (tryM m k) Q E"
  using assms unfolding triple_def tryM_def by (fastforce split: prod.splits sum.splits go_error.splits)

lemma triple_mapErr: "triple P m Q E \<Longrightarrow> triple P (mapErr g m) Q E"
  unfolding mapErr_def by (rule triple_try) (auto intro: triple_intros)

lemma triple_Tx:
  assumes "triple P m Q (\<lambda>_. True)" "\<And>s. P s \<Longrightarrow> E s"
  shows "triple P (Tx m) Q E"
  using assms unfolding triple_def Tx_def by (fastforce split: prod.splits sum.splits)

lemma triple_weaken:
  assumes "triple P m Q E" "\<And>s. P' s \<Longrightarrow> P s" "\<And>a s. Q a s \<Longrightarrow> Q' a s" "\<And>s. E s \<Longrightarrow> E' s"
  shows "triple P' m Q' E'"
  using assms unfolding triple_def by (fastforce split: prod.splits sum.splits)

lemma triple_run:
  assumes "triple P m Q E" "P s" "m s w = (r, s', w')"
  shows "case r of Inr a \<Rightarrow> Q a s' | Inl e \<Rightarrow> E s'"
proof -
  have "case m s w of (Inr a, s', w') \<Rightarrow> Q a s' | (Inl e, s', w') \<Rightarrow> E s'"
    using assms(1,2) by (simp add: triple_def)
  with assms(3) show ?thesis by (auto split: sum.splits)
qed

lemma triple_state:
  assumes "triple P m (\<lambda>_. I) I" "P s"
  shows "I (fst (snd (m s w)))"
proof -
  obtain r s' w' where m: "m s w = (r, s', w')" by (metis prod_cases3)
  from triple_run [OF assms m] m show ?thesis by (auto split: sum.splits)
qed

subsection \<open>A concrete service\<close>

text \<open>The collaborators of the examples: a clock that advances by a second per reading, a random source
  whose reads differ, a signer that signs nothing.\<close>

definition sample_service :: "transport option \<Rightarrow> SqsClient option \<Rightarrow> Service" where
  "sample_service tr client =
     \<lparr>cfg = \<lparr>Region = ''us-east-1'', AccountID = ''1'', BaseURL = ''http://localhost'', PageSize = 100,
             DeliveryPollInterval = 0\<rparr>,
      Clock_Now = (\<lambda>i. 1000000000 * int i), time_Now = (\<lambda>i. int i),
      rand_Read = (\<lambda>k n. replicate n (byte_of (k mod 256))),
      signer = \<lparr>Prov_SignPKCS1v15 = (\<lambda>_ _. Inl (Plain ''no key'')), Prov_SigningCertURL = (\<lambda>u. u @ ''/cert.pem'')\<rparr>,
      httpAdapter = tr, sqsClient = client, unicode_EqualFold = EqualFold\<rparr>"

end
