(* ===== verification/SQS_Adapter.thy ===== *)
theory SQS_Adapter
  imports Service_Base Go_URL
begin

text \<open>
  The HTTP client of SQS queues (\<^verbatim>\<open>internal/protocol/sqs/adapter.go\<close>), which provides the client interface
  of the service.  The network is a parameter: whether a request to a URL can be made, and what the
  \<open>i\<close>-th request of the \<open>n\<close>-th call of the interface is answered, a transport error or a status with a
  body that is read or fails to be.
\<close>

subsection \<open>Requests\<close>

record SqsHttp =
  SQ_Endpoint :: string
  SQ_NewRequest :: "string \<Rightarrow> unit res"
  SQ_Do :: "nat \<Rightarrow> nat \<Rightarrow> string \<Rightarrow> string \<Rightarrow> (int \<times> string res) res"

definition NewHTTPClient ::
    "string \<Rightarrow> (string \<Rightarrow> unit res) \<Rightarrow> (nat \<Rightarrow> nat \<Rightarrow> string \<Rightarrow> string \<Rightarrow> (int \<times> string res) res) \<Rightarrow> SqsHttp" where
  "NewHTTPClient endpoint newRequest client =
     \<lparr>SQ_Endpoint = TrimRight endpoint (CHR ''/''), SQ_NewRequest = newRequest, SQ_Do = client\<rparr>"

definition sqs_do :: "SqsHttp \<Rightarrow> nat \<Rightarrow> nat \<Rightarrow> string \<Rightarrow> url_values \<Rightarrow> string res" where
  "sqs_do c n i endpoint form =
     (let target = (if endpoint = [] then SQ_Endpoint c else endpoint)
      in case SQ_NewRequest c target of
           Inl e \<Rightarrow> Inl e
         | Inr _ \<Rightarrow>
             (case SQ_Do c n i target (Values_Encode form) of
                Inl e \<Rightarrow> Inl e
              | Inr (status, body) \<Rightarrow> body))"

subsection \<open>Reading answers\<close>

text \<open>\<^verbatim>\<open>body[i:j]\<close>.\<close>

definition slice :: "string \<Rightarrow> nat \<Rightarrow> nat \<Rightarrow> string res" where
  "slice s i j =
     (if i \<le> j \<and> j \<le> length s then Inr (take (j - i) (drop i s)) else Inl (Panic ''slice bounds out of range''))"

definition readTag :: "string \<Rightarrow> string \<Rightarrow> string res" where
  "readTag body tag =
     (let start = ''<'' @ tag @ ''>'' in
      case (Index body start, Index body (''</'' @ tag @ ''>'')) of
        (Some si, Some ei) \<Rightarrow> if ei \<le> si then Inr [] else slice body (si + length start) ei
      | _ \<Rightarrow> Inr [])"

text \<open>One turn of the loop of \<^verbatim>\<open>parseAttributeEntries\<close>: the next name and value, and what follows them.\<close>

definition next_entry :: "string \<Rightarrow> ((string \<times> string) \<times> string) option" where
  "next_entry body =
     (case Index body ''<Name>'' of
        None \<Rightarrow> None
      | Some keyIdx \<Rightarrow>
          let body = drop (keyIdx + 6) body in
          case Index body ''</Name>'' of
            None \<Rightarrow> None
          | Some endKey \<Rightarrow>
              let name = take endKey body in
              case Index (drop endKey body) ''<Value>'' of
                None \<Rightarrow> None
              | Some valueIdx \<Rightarrow>
                  let body = drop (endKey + valueIdx + 7) body in
                  case Index body ''</Value>'' of
                    None \<Rightarrow> None
                  | Some endValue \<Rightarrow> Some ((name, take endValue body), drop (endValue + 8) body))"

lemma next_entry_shorter: "next_entry body = Some (e, rest) \<Longrightarrow> length rest < length body"
  by (auto simp: next_entry_def Let_def dest!: Index_bound split: option.splits)

function attribute_entries :: "string \<Rightarrow> (string, string) fmap \<Rightarrow> (string, string) fmap" where
  "attribute_entries body out =
     (case next_entry body of
        None \<Rightarrow> out
      | Some ((name, v), rest) \<Rightarrow> attribute_entries rest (fmupd name v out))"
  by pat_completeness auto
termination
  by (relation "measure (length \<circ> fst)") (auto dest: next_entry_shorter)

declare attribute_entries.simps [simp del]

definition parseAttributeEntries :: "string \<Rightarrow> (string, string) fmap" where
  "parseAttributeEntries body = attribute_entries body fmempty"

definition attr_of :: "(string, string) fmap \<Rightarrow> string \<Rightarrow> string" where
  "attr_of m k = (case fmlookup m k of None \<Rightarrow> [] | Some v \<Rightarrow> v)"

subsection \<open>The client\<close>

definition queue_url_form :: "ARN \<Rightarrow> url_values" where
  "queue_url_form arn =
     fmap_of_list [(''Action'', [''GetQueueUrl'']), (''Version'', [''2012-11-05'']), (''QueueName'', [ARN_Resource arn]),
       (''QueueOwnerAWSAccountId'', [ARN_AccountID arn])]"

definition queue_attributes_form :: "string \<Rightarrow> url_values" where
  "queue_attributes_form queueURL =
     fmap_of_list [(''Action'', [''GetQueueAttributes'']), (''Version'', [''2012-11-05'']), (''QueueUrl'', [queueURL]),
       (''AttributeName.1'', [''QueueArn'']), (''AttributeName.2'', [''FifoQueue'']), (''AttributeName.3'', [''Policy''])]"

definition http_ResolveQueue :: "SqsHttp \<Rightarrow> nat \<Rightarrow> string \<Rightarrow> QueueAttributes res" where
  "http_ResolveQueue c n queueARN =
     (case ParseARN queueARN of
        Inl e \<Rightarrow> Inl e
      | Inr arn \<Rightarrow>
          (case sqs_do c n 0 [] (queue_url_form arn) of
             Inl e \<Rightarrow> Inl e
           | Inr body \<Rightarrow>
               (case readTag body ''QueueUrl'' of
                  Inl e \<Rightarrow> Inl e
                | Inr queueURL \<Rightarrow>
                    if queueURL = [] then Inl (Plain ''queue URL not found'')
                    else case sqs_do c n 1 queueURL (queue_attributes_form queueURL) of
                           Inl e \<Rightarrow> Inl e
                         | Inr body \<Rightarrow>
                             let attrs = parseAttributeEntries body in
                             Inr \<lparr>Q_ARN = attr_of attrs ''QueueArn'', Q_URL = queueURL,
                                  Q_FIFO = EqualFold (attr_of attrs ''FifoQueue'') ''true'',
                                  Q_Policy = attr_of attrs ''Policy'', Q_Region = ARN_Region arn,
                                  Q_Account = ARN_AccountID arn, Q_Name = ARN_Resource arn\<rparr>)))"

definition attr_key :: "nat \<Rightarrow> string \<Rightarrow> string" where
  "attr_key i field = ''MessageAttribute.'' @ Itoa (int i) @ ''.'' @ field"

definition set_attribute :: "nat \<Rightarrow> string \<times> MessageAttributeValue \<Rightarrow> url_values \<Rightarrow> url_values" where
  "set_attribute i p form =
     (let (key, v) = p;
          form = Values_Set form (attr_key i ''Name'') key;
          form = Values_Set form (attr_key i ''Value.DataType'') (MA_DataType v);
          form = (if MA_StringValue v \<noteq> [] then Values_Set form (attr_key i ''Value.StringValue'') (MA_StringValue v) else form)
      in if length (bytes_of (MA_BinaryValue v)) > 0
         then Values_Set form (attr_key i ''Value.BinaryValue'') (b64_std_encode (bytes_of (MA_BinaryValue v))) else form)"

fun set_attributes :: "nat \<Rightarrow> MessageAttributeValue ranged \<Rightarrow> url_values \<Rightarrow> url_values" where
  "set_attributes i [] form = form"
| "set_attributes i (p # ps) form = set_attributes (Suc i) ps (set_attribute i p form)"

definition send_form :: "QueueAttributes \<Rightarrow> SendRequest \<Rightarrow> url_values" where
  "send_form queue req =
     (let form = fmap_of_list [(''Action'', [''SendMessage'']), (''Version'', [''2012-11-05'']), (''QueueUrl'', [Q_URL queue]),
                   (''MessageBody'', [SR_Body req])];
          form = (if SR_MessageGroupID req \<noteq> [] then Values_Set form ''MessageGroupId'' (SR_MessageGroupID req) else form);
          form = (if Q_FIFO queue
                  then if SR_MessageDeduplicationID req \<noteq> []
                       then Values_Set form ''MessageDeduplicationId'' (SR_MessageDeduplicationID req) else form
                  else form)
      in set_attributes 1 (SR_MessageAttributes req) form)"

definition http_SendMessage :: "SqsHttp \<Rightarrow> nat \<Rightarrow> SendRequest \<Rightarrow> unit res" where
  "http_SendMessage c n req =
     (case http_ResolveQueue c n (SR_QueueARN req) of
        Inl e \<Rightarrow> Inl e
      | Inr queue \<Rightarrow>
          (case sqs_do c n 2 (Q_URL queue) (send_form queue req) of
             Inl e \<Rightarrow> Inl e
           | Inr _ \<Rightarrow> Inr ()))"

definition http_QueueAllowsTopic :: "SqsHttp \<Rightarrow> nat \<Rightarrow> string \<Rightarrow> string \<Rightarrow> string \<Rightarrow> bool res" where
  "http_QueueAllowsTopic c n queueARN topicARN topicOwner =
     (case http_ResolveQueue c n queueARN of
        Inl e \<Rightarrow> Inl e
      | Inr queue \<Rightarrow>
          if TrimSpace (Q_Policy queue) = [] then Inr False
          else Evaluate (Q_Policy queue)
                 \<lparr>Req_Principal = [], Req_ServicePrincipal = ''sns.amazonaws.com'', Req_Action = ''SQS:SendMessage'',
                  Req_Resource = Q_ARN queue,
                  Req_Context = fmap_of_list [(''aws:SourceArn'', topicARN), (''AWS:SourceOwner'', topicOwner),
                                 (''aws:SourceAccount'', topicOwner)]\<rparr>
                 (Q_Account queue))"

text \<open>The client as the service sees it.\<close>

definition http_sqs_client :: "SqsHttp \<Rightarrow> SqsClient" where
  "http_sqs_client c =
     \<lparr>ResolveQueue = http_ResolveQueue c, SendMessage = http_SendMessage c, QueueAllowsTopic = http_QueueAllowsTopic c\<rparr>"

subsection \<open>Answers are read without panics\<close>

lemma readTag_ok:
  assumes "CHR ''<'' \<notin> set tag"
  shows "\<exists>v. readTag body tag = Inr v"
proof -
  have "si + length (''<'' @ tag @ ''>'') \<le> ei \<and> ei \<le> length body"
    if si: "Index body (''<'' @ tag @ ''>'') = Some si" and ei: "Index body (''</'' @ tag @ ''>'') = Some ei" and less: "si < ei" for si ei
  proof (rule conjI, rule ccontr)
    let ?start = "''<'' @ tag @ ''>''"
    assume "\<not> si + length ?start \<le> ei"
    then have k: "ei - si < length ?start" "0 < ei - si" using less by auto
    have "?start ! (ei - si) = body ! (si + (ei - si))" by (rule Index_nth [OF si k(1), symmetric])
    also have "\<dots> = body ! (ei + 0)" using less by simp
    also have "\<dots> = (''</'' @ tag @ ''>'') ! 0" by (rule Index_nth [OF ei]) simp
    finally have "(tag @ ''>'') ! (ei - si - 1) = CHR ''<''" using k(2) by (simp add: nth_Cons')
    moreover have "ei - si - 1 < length (tag @ ''>'')" using k by simp
    ultimately have "CHR ''<'' \<in> set (tag @ ''>'')" by (metis nth_mem)
    then show False using assms by simp
  qed (use Index_bound [OF ei] in simp)
  then show ?thesis unfolding readTag_def Let_def slice_def by (auto split: option.split)
qed

text \<open>How SQS writes an attribute in its answer.\<close>

definition render_entry :: "string \<times> string \<Rightarrow> string" where
  "render_entry e = ''<Attribute><Name>'' @ fst e @ ''</Name><Value>'' @ snd e @ ''</Value></Attribute>''"

definition tag_free :: "string \<times> string \<Rightarrow> bool" where
  "tag_free e \<longleftrightarrow> CHR ''<'' \<notin> set (fst e) \<and> CHR ''<'' \<notin> set (snd e)"

lemma next_rendered:
  assumes "tag_free e" "pre \<in> {''<GetQueueAttributesResult>'', ''</Attribute>''}"
  shows "next_entry (pre @ render_entry e @ rest) = Some (e, ''</Attribute>'' @ rest)"
proof -
  obtain n v where e: "e = (n, v)" "CHR ''<'' \<notin> set n" "CHR ''<'' \<notin> set v" using assms(1) by (cases e) (auto simp: tag_free_def)
  have 1: "Index (pre @ render_entry e @ rest) ''<Name>'' = Some (length pre + 11)"
    using assms(2) by (auto simp: render_entry_def HasPrefix_def)
  have "drop (length pre + 11 + 6) (pre @ render_entry e @ rest) = n @ ''</Name><Value>'' @ v @ ''</Value>'' @ ''</Attribute>'' @ rest"
    by (simp add: render_entry_def e)
  moreover have "Index (n @ ''</Name><Value>'' @ x) ''</Name>'' = Some (length n)" for x
    using Index_text [OF e(2)] by (simp add: HasPrefix_def)
  moreover have "Index (''</Name><Value>'' @ x) ''<Value>'' = Some 7" for x by (simp add: HasPrefix_def)
  moreover have "Index (v @ ''</Value>'' @ x) ''</Value>'' = Some (length v)" for x
    using Index_text [OF e(3)] by (simp add: HasPrefix_def)
  ultimately show ?thesis unfolding next_entry_def 1 by (simp add: e)
qed

definition render_answer :: "(string \<times> string) list \<Rightarrow> string" where
  "render_answer es =
     ''<GetQueueAttributesResult>'' @ concat (map render_entry es) @ ''</GetQueueAttributesResult>''"

lemma entries_rendered:
  assumes "\<forall>e \<in> set es. tag_free e" "pre \<in> {''<GetQueueAttributesResult>'', ''</Attribute>''}"
  shows "attribute_entries (pre @ concat (map render_entry es) @ ''</GetQueueAttributesResult>'') out =
    fold (\<lambda>(k, v). fmupd k v) es out"
  using assms
proof (induction es arbitrary: pre out)
  case Nil
  then have "next_entry (pre @ ''</GetQueueAttributesResult>'') = None" by (auto simp: next_entry_def HasPrefix_def)
  then show ?case by (simp add: attribute_entries.simps)
next
  case (Cons e es)
  obtain k v where e: "e = (k, v)" by fastforce
  have "next_entry (pre @ concat (map render_entry (e # es)) @ ''</GetQueueAttributesResult>'') =
      Some ((k, v), ''</Attribute>'' @ concat (map render_entry es) @ ''</GetQueueAttributesResult>'')"
    using next_rendered [of e pre "concat (map render_entry es) @ ''</GetQueueAttributesResult>''"] Cons.prems by (simp add: e)
  then show ?case using Cons.IH [of "''</Attribute>''"] Cons.prems(1) by (subst attribute_entries.simps) (simp add: e)
qed

lemma lookup_fold_upd:
  "distinct (map fst es) \<Longrightarrow> fmlookup (fold (\<lambda>(k, v). fmupd k v) es m) x = (case map_of es x of None \<Rightarrow> fmlookup m x | Some v \<Rightarrow> Some v)"
proof (induction es arbitrary: m)
  case (Cons e es)
  then show ?case by (cases e) (auto split: option.splits dest: map_of_SomeD simp: rev_image_eqI)
qed simp

text \<open>C36: The attributes of a queue are read back from the answer SQS writes for them, for any attributes with different names
  and no markup in them.  Values are taken as they stand in the text: an attribute that SQS had to escape, such as a
  policy with quotes written as \<^verbatim>\<open>&quot;\<close>, is stored escaped.\<close>

theorem queue_attributes_read:
  assumes "distinct (map fst es)" "\<forall>e \<in> set es. CHR ''<'' \<notin> set (fst e) \<and> CHR ''<'' \<notin> set (snd e)"
  shows "fmlookup (parseAttributeEntries (render_answer es)) name = map_of es name"
proof -
  have "parseAttributeEntries (render_answer es) = fold (\<lambda>(k, v). fmupd k v) es fmempty"
    unfolding parseAttributeEntries_def render_answer_def using assms(2) by (intro entries_rendered) (auto simp: tag_free_def)
  then show ?thesis by (simp add: lookup_fold_upd [OF assms(1)] split: option.split)
qed

subsection \<open>The form that is sent\<close>

definition singles :: "url_values \<Rightarrow> bool" where
  "singles v \<longleftrightarrow> (\<forall>k vs. fmlookup v k = Some vs \<longrightarrow> length vs = 1)"

lemma singles_set [simp]: "singles v \<Longrightarrow> singles (Values_Set v k x)"
  by (auto simp: singles_def Values_Set_def)

lemma singles_pairs: "singles v \<Longrightarrow> length (value_pairs v) = size (fmdom v)"
proof -
  assume s: "singles v"
  have "length (concat (map (\<lambda>k. map (Pair k) (values_of v k)) ks)) = length ks" if "set ks \<subseteq> fset (fmdom v)" for ks
    using that
  proof (induction ks)
    case (Cons k ks)
    then obtain vs where "fmlookup v k = Some vs" by (auto simp: fmlookup_dom_iff)
    with s Cons show ?case by (auto simp: values_of_def singles_def)
  qed simp
  then show ?thesis by (simp add: value_pairs_def sorted_keys_def sorted_list_of_fset.rep_eq)
qed

lemma size_set: "card (fset (fmdom v)) \<le> n \<Longrightarrow> card (fset (fmdom (Values_Set v k x))) \<le> Suc n"
  by (simp add: Values_Set_def card_insert_if)

lemma set_attribute_singles: "singles v \<Longrightarrow> singles (set_attribute i p v)"
  by (simp add: set_attribute_def Let_def split: prod.split)

lemma set_attribute_size: "card (fset (fmdom (set_attribute i p v))) \<le> Suc (Suc (Suc (Suc (card (fset (fmdom v))))))"
  by (auto simp: set_attribute_def Let_def split: prod.split intro: size_set le_SucI)

lemma set_attributes_form:
  "singles v \<Longrightarrow> singles (set_attributes i ps v) \<and> size (fmdom (set_attributes i ps v)) \<le> 4 * length ps + size (fmdom v)"
proof (induction ps arbitrary: i v)
  case (Cons p ps)
  from Cons.IH [OF set_attribute_singles [OF Cons.prems], of "Suc i" i p] set_attribute_size [of i p v] show ?case by simp
qed simp

lemma Itoa_nat: "Itoa (int i) = digits_of 10 i"
  by (simp add: Itoa_def)

lemma digits_no_dot: "CHR ''.'' \<notin> set (Itoa (int i))"
  using set_digits_of [of 10 i] by (auto simp: Itoa_nat digit_alphabet_def)

lemma Itoa_nat_inj:
  assumes "Itoa (int i) = Itoa (int j)"
  shows "i = j"
proof -
  have v: "digits_value 10 0 (digits_of 10 k) = Some k" for k by (rule digits_value_digits_of) simp_all
  have "Some i = digits_value 10 0 (digits_of 10 j)" using v [of i] assms by (simp only: Itoa_nat)
  then show ?thesis by (simp only: v option.inject)
qed

lemma attr_key_inj: "attr_key i f = attr_key j g \<longleftrightarrow> i = j \<and> f = g"
proof
  assume "attr_key i f = attr_key j g"
  then have "Itoa (int i) @ CHR ''.'' # f = Itoa (int j) @ CHR ''.'' # g" by (simp add: attr_key_def)
  then have "Cut (CHR ''.'') (Itoa (int i) @ CHR ''.'' # f) = Cut (CHR ''.'') (Itoa (int j) @ CHR ''.'' # g)" by simp
  then show "i = j \<and> f = g" using digits_no_dot by (auto dest: Itoa_nat_inj)
qed simp

text \<open>Later attributes leave the fields of earlier ones alone, and none of them touches another parameter.\<close>

lemma values_set [simp]: "fmlookup (Values_Set v k x) k' = (if k = k' then Some [x] else fmlookup v k')"
  by (simp add: Values_Set_def)

lemma set_attribute_other:
  "(\<forall>f. k \<noteq> attr_key i f) \<Longrightarrow> fmlookup (set_attribute i p v) k = fmlookup v k"
  by (auto simp: set_attribute_def Let_def split: prod.split)

lemma set_attributes_other:
  "(\<forall>j f. i \<le> j \<longrightarrow> k \<noteq> attr_key j f) \<Longrightarrow> fmlookup (set_attributes i ps v) k = fmlookup v k"
  by (induction ps arbitrary: i v) (simp_all add: set_attribute_other)

definition attribute_fields :: "nat \<Rightarrow> string \<times> MessageAttributeValue \<Rightarrow> url_values \<Rightarrow> bool" where
  "attribute_fields i p form \<longleftrightarrow>
     Values_Get form (attr_key i ''Name'') = fst p \<and>
     Values_Get form (attr_key i ''Value.DataType'') = MA_DataType (snd p) \<and>
     Values_Get form (attr_key i ''Value.StringValue'') = MA_StringValue (snd p) \<and>
     Values_Get form (attr_key i ''Value.BinaryValue'') = b64_std_encode (bytes_of (MA_BinaryValue (snd p)))"

lemma attribute_fields_cong:
  "(\<And>f. fmlookup v (attr_key i f) = fmlookup w (attr_key i f)) \<Longrightarrow> attribute_fields i p v = attribute_fields i p w"
  by (simp add: attribute_fields_def Values_Get_def values_of_def)

lemma set_attribute_fields:
  assumes "\<And>f. fmlookup v (attr_key i f) = None"
  shows "attribute_fields i p (set_attribute i p v)"
  using assms
  by (auto simp: attribute_fields_def set_attribute_def Let_def Values_Get_def values_of_def attr_key_inj b64_std_encode_def
      split: prod.split)

lemma set_attributes_fields:
  assumes "\<And>j f. i \<le> j \<Longrightarrow> fmlookup v (attr_key j f) = None" "n < length ps"
  shows "attribute_fields (i + n) (ps ! n) (set_attributes i ps v)"
  using assms
proof (induction ps arbitrary: i v n)
  case (Cons p ps)
  show ?case
  proof (cases n)
    case 0
    have "attribute_fields i p (set_attributes (Suc i) ps (set_attribute i p v)) = attribute_fields i p (set_attribute i p v)"
      by (rule attribute_fields_cong, rule set_attributes_other) (auto simp: attr_key_inj)
    then show ?thesis using 0 Cons.prems(1) by (simp add: set_attribute_fields)
  next
    case (Suc m)
    have "fmlookup (set_attribute i p v) (attr_key j f) = None" if "Suc i \<le> j" for j f
      using that Cons.prems(1) by (subst set_attribute_other) (auto simp: attr_key_inj)
    then have "attribute_fields (Suc i + m) (ps ! m) (set_attributes (Suc i) ps (set_attribute i p v))"
      using Cons.prems(2) Suc by (intro Cons.IH) auto
    then show ?thesis using Suc by simp
  qed
qed simp

lemma attr_key_plain [simp]:
  "''Action'' \<noteq> attr_key i f" "''Version'' \<noteq> attr_key i f" "''QueueUrl'' \<noteq> attr_key i f" "''MessageBody'' \<noteq> attr_key i f"
  "''MessageGroupId'' \<noteq> attr_key i f" "''MessageDeduplicationId'' \<noteq> attr_key i f"
  by (simp_all add: attr_key_def)

lemma send_form_fields:
  "Values_Get (send_form q r) ''Action'' = ''SendMessage''"
  "Values_Get (send_form q r) ''QueueUrl'' = Q_URL q"
  "Values_Get (send_form q r) ''MessageBody'' = SR_Body r"
  "Values_Get (send_form q r) ''MessageGroupId'' = SR_MessageGroupID r"
  "Values_Get (send_form q r) ''MessageDeduplicationId'' = (if Q_FIFO q then SR_MessageDeduplicationID r else [])"
  by (simp_all add: send_form_def Let_def Values_Get_def values_of_def set_attributes_other)

lemma send_form_attributes:
  assumes "n < length (SR_MessageAttributes r)"
  shows "attribute_fields (n + 1) (SR_MessageAttributes r ! n) (send_form q r)"
  unfolding send_form_def Let_def add.commute [of n 1]
  by (rule set_attributes_fields [OF _ assms]) simp

lemma send_form_ok:
  assumes "length (SR_MessageAttributes r) \<le> 10"
  shows "form_ok (send_form q r)"
proof -
  define base where "base = (let form = fmap_of_list [(''Action'', [''SendMessage'']), (''Version'', [''2012-11-05'']), (''QueueUrl'', [Q_URL q]),
                   (''MessageBody'', [SR_Body r])];
          form = (if SR_MessageGroupID r \<noteq> [] then Values_Set form ''MessageGroupId'' (SR_MessageGroupID r) else form)
     in if Q_FIFO q then if SR_MessageDeduplicationID r \<noteq> [] then Values_Set form ''MessageDeduplicationId'' (SR_MessageDeduplicationID r) else form
                  else form)"
  have s: "singles base" by (simp add: base_def Let_def) (auto simp: singles_def)
  have "card (fset (fmdom base)) \<le> 6"
    by (auto simp: base_def Let_def Values_Set_def)
  then have "singles (send_form q r)" "card (fset (fmdom (send_form q r))) \<le> 46"
    using set_attributes_form [OF s, of 1 "SR_MessageAttributes r"] assms
    by (auto simp: send_form_def base_def [symmetric] base_def Let_def)
  then show ?thesis using singles_pairs [of "send_form q r"] by (force simp: form_ok_def singles_def max_params_def)
qed

text \<open>C35: The message reaches the queue unaltered.  Whenever sending succeeds, some queue was resolved and the body posted
  to its URL is a form that parses back to the message: its text, its group, its deduplication identifier when
  the queue is a FIFO queue, and the name, type and value of every attribute, binary values in base64, whatever bytes they hold.\<close>

theorem sent_message_readable:
  assumes "http_SendMessage c n req = Inr ()" "length (SR_MessageAttributes req) \<le> 10"
  shows "\<exists>queue form. http_ResolveQueue c n (SR_QueueARN req) = Inr queue \<and>
    (\<exists>answer. SQ_Do c n 2 (if Q_URL queue = [] then SQ_Endpoint c else Q_URL queue) (Values_Encode (send_form queue req)) = Inr answer) \<and>
    ParseQuery (Values_Encode (send_form queue req)) = (form, None) \<and>
    Values_Get form ''Action'' = ''SendMessage'' \<and> Values_Get form ''MessageBody'' = SR_Body req \<and>
    Values_Get form ''MessageGroupId'' = SR_MessageGroupID req \<and>
    Values_Get form ''MessageDeduplicationId'' = (if Q_FIFO queue then SR_MessageDeduplicationID req else []) \<and>
    (\<forall>i < length (SR_MessageAttributes req). attribute_fields (i + 1) (SR_MessageAttributes req ! i) form)"
proof -
  from assms(1) obtain queue where q: "http_ResolveQueue c n (SR_QueueARN req) = Inr queue"
    and "\<exists>answer. SQ_Do c n 2 (if Q_URL queue = [] then SQ_Endpoint c else Q_URL queue) (Values_Encode (send_form queue req)) = Inr answer"
    by (auto simp: http_SendMessage_def sqs_do_def Let_def split: sum.splits)
  moreover have "ParseQuery (Values_Encode (send_form queue req)) = (send_form queue req, None)"
    by (rule parse_encode [OF send_form_ok [OF assms(2)]])
  ultimately show ?thesis using send_form_fields send_form_attributes by blast
qed

text \<open>The client does not look at the status of an answer.  A queue that answers the send with an error status, say 403
  or 503, has the message counted as delivered, so neither a retry nor a redrive to the dead-letter queue follows.\<close>

theorem send_ignores_status:
  assumes "http_ResolveQueue c n (SR_QueueARN req) = Inr queue" "Q_URL queue \<noteq> []" "SQ_NewRequest c (Q_URL queue) = Inr ()"
    "SQ_Do c n 2 (Q_URL queue) (Values_Encode (send_form queue req)) = Inr (status, Inr answer)"
  shows "SendMessage (http_sqs_client c) n req = Inr ()"
  using assms by (simp add: http_sqs_client_def http_SendMessage_def sqs_do_def)

subsection \<open>Concrete instances\<close>

definition sample_sqs :: SqsHttp where
  "sample_sqs =
     NewHTTPClient ''http://sqs/'' (\<lambda>_. Inr ())
       (\<lambda>n i target body.
          if i = 0 then Inr (200, Inr ''<QueueUrl>http://sqs/1/q</QueueUrl>'')
          else if i = 1 then Inr (200, Inr (render_answer [(''QueueArn'', ''arn:aws:sqs:us-east-1:1:q'')]))
          else Inr (503, Inr ''<Error>''))"

definition sample_send :: SendRequest where
  "sample_send =
     \<lparr>SR_QueueARN = ''arn:aws:sqs:us-east-1:1:q'', SR_Body = ''a&b=c d'',
      SR_MessageAttributes = [(''k'', \<lparr>MA_DataType = ''String'', MA_StringValue = ''v'', MA_BinaryValue = None\<rparr>)],
      SR_MessageGroupID = [], SR_MessageDeduplicationID = ''d''\<rparr>"

definition sample_queue_attributes :: QueueAttributes where
  "sample_queue_attributes =
     \<lparr>Q_ARN = ''arn:aws:sqs:us-east-1:1:q'', Q_URL = ''http://sqs/1/q'', Q_FIFO = False, Q_Policy = [], Q_Region = ''us-east-1'',
      Q_Account = ''1'', Q_Name = ''q''\<rparr>"

lemma sample_resolved: "http_ResolveQueue sample_sqs n (SR_QueueARN sample_send) = Inr sample_queue_attributes"
proof -
  have arn: "ParseARN (SR_QueueARN sample_send) =
      Inr \<lparr>ARN_Partition = ''aws'', ARN_Service = ''sqs'', ARN_Region = ''us-east-1'', ARN_AccountID = ''1'', ARN_Resource = ''q''\<rparr>"
    by code_simp
  have url: "readTag ''<QueueUrl>http://sqs/1/q</QueueUrl>'' ''QueueUrl'' = Inr ''http://sqs/1/q''" by code_simp
  have entries: "parseAttributeEntries (render_answer [(''QueueArn'', v)]) = fmupd ''QueueArn'' v fmempty" if "CHR ''<'' \<notin> set v" for v
    unfolding parseAttributeEntries_def render_answer_def using that
    by (subst entries_rendered) (auto simp: tag_free_def)
  have fifo: "\<not> EqualFold [] ''true''" by code_simp
  show ?thesis unfolding http_ResolveQueue_def arn
    by (simp add: sqs_do_def sample_sqs_def NewHTTPClient_def url entries attr_of_def fifo sample_queue_attributes_def)
qed

lemma sample_sent:
  "SQ_Do sample_sqs n 2 target body = Inr (503, Inr ''<Error>'')" "SQ_NewRequest sample_sqs target = Inr ()"
  by (simp_all add: sample_sqs_def NewHTTPClient_def)

theorem queue_attributes_read_witness:
  "fmlookup (parseAttributeEntries (render_answer [(''QueueArn'', ''q''), (''FifoQueue'', ''true'')])) ''FifoQueue'' = Some ''true''"
  using queue_attributes_read [of "[(''QueueArn'', ''q''), (''FifoQueue'', ''true'')]" "''FifoQueue''"] by simp

theorem send_ignores_status_witness:
  "SQ_Do sample_sqs 0 2 (Q_URL sample_queue_attributes) (Values_Encode (send_form sample_queue_attributes sample_send)) =
     Inr (503, Inr ''<Error>'') \<and>
   SendMessage (http_sqs_client sample_sqs) 0 sample_send = Inr ()"
  using send_ignores_status [OF sample_resolved _ sample_sent(2) sample_sent(1)] sample_sent(1)
  by (simp add: sample_queue_attributes_def)

theorem sent_message_readable_witness:
  "Values_Get (fst (ParseQuery (Values_Encode (send_form sample_queue_attributes sample_send)))) ''MessageBody'' = ''a&b=c d''"
proof -
  have "http_SendMessage sample_sqs 0 sample_send = Inr ()"
    by (simp add: http_SendMessage_def sample_resolved sqs_do_def sample_sent)
  moreover have "length (SR_MessageAttributes sample_send) \<le> 10" "SR_Body sample_send = ''a&b=c d''" by (simp_all add: sample_send_def)
  ultimately show ?thesis using sent_message_readable [of sample_sqs 0 sample_send] by (auto simp: sample_resolved)
qed

end
