(* ===== verification/API_Parse.thy ===== *)
theory API_Parse
  imports SQS_Adapter
begin

text \<open>
  Reading the parameters of a request (\<^verbatim>\<open>internal/api/server.go\<close>): the numbered entries in which the query
  protocol carries attributes, tags, lists, message attributes and the entries of a batch.

  The code ranges over Go maps, whose order is open and differs from loop to loop: \<open>ord n\<close> arranges the
  keys of the \<open>n\<close>-th loop of a function.  A fair order visits every key, each once.
\<close>

subsection \<open>Ranging over a map\<close>

definition range_map :: "(string list \<Rightarrow> string list) \<Rightarrow> (string, 'v) fmap \<Rightarrow> 'v ranged" where
  "range_map f m = List.map_filter (\<lambda>k. map_option (Pair k) (fmlookup m k)) (f (sorted_keys m))"

definition fair :: "(string list \<Rightarrow> string list) \<Rightarrow> bool" where
  "fair f \<longleftrightarrow> (\<forall>ks. distinct ks \<longrightarrow> distinct (f ks) \<and> set (f ks) = set ks)"

lemma fair_id [simp]: "fair (\<lambda>ks. ks)" "fair rev"
  by (simp_all add: fair_def)

lemma range_map_keys: "fair f \<Longrightarrow> map fst (range_map f m) = f (sorted_keys m)"
proof -
  assume f: "fair f"
  have "set (f (sorted_keys m)) = fset (fmdom m)" using f by (simp add: fair_def)
  moreover have "map fst (List.map_filter (\<lambda>k. map_option (Pair k) (fmlookup m k)) ks) = ks" if "set ks \<subseteq> fset (fmdom m)" for ks
    using that
  proof (induction ks)
    case (Cons k ks)
    then obtain v where "fmlookup m k = Some v" using fmdom_fmap_Some [of k m] by auto
    with Cons show ?case by (simp add: List.map_filter_simps)
  qed (simp add: List.map_filter_simps)
  ultimately show ?thesis by (simp add: range_map_def)
qed

lemma distinct_range_map: "fair f \<Longrightarrow> distinct (map fst (range_map f m))"
  by (simp add: range_map_keys) (simp add: fair_def)

lemma map_of_range_map: "fair f \<Longrightarrow> map_of (range_map f m) k = fmlookup m k"
proof -
  assume f: "fair f"
  have "map_of (List.map_filter (\<lambda>k. map_option (Pair k) (fmlookup m k)) ks) k = (if k \<in> set ks then fmlookup m k else None)" for ks
    by (induction ks) (auto simp: List.map_filter_simps split: option.split)
  moreover have "set (f (sorted_keys m)) = fset (fmdom m)" using f by (simp add: fair_def)
  ultimately show ?thesis by (simp add: range_map_def fmdom_notD)
qed

lemma in_range_map: "fair f \<Longrightarrow> (k, v) \<in> set (range_map f m) \<longleftrightarrow> fmlookup m k = Some v"
  by (metis distinct_range_map map_of_eq_Some_iff map_of_range_map)

text \<open>A loop whose steps either leave a part of the result or set it to the same value does so in any order.\<close>

lemma fold_const:
  assumes "\<And>e s. e \<in> set es \<Longrightarrow> \<pi> (step e s) = (if T e then c else \<pi> s)"
  shows "\<pi> (fold step es s) = (if \<exists>e \<in> set es. T e then c else \<pi> s)"
  using assms by (induction es arbitrary: s) auto

subsection \<open>Keys and values\<close>

fun first :: "string list \<Rightarrow> string" where
  "first [] = []"
| "first (v # vs) = v"

text \<open>Which entry a form key belongs to, and whether it holds the name (\<open>True\<close>) or the value of it.\<close>

definition strip_entry :: "string \<Rightarrow> string \<Rightarrow> string \<Rightarrow> string option" where
  "strip_entry pre suf key =
     (if HasPrefix key pre \<and> HasSuffix key suf then Some (TrimSuffix (TrimPrefix key pre) suf) else None)"

definition kv_match ::
    "string \<Rightarrow> string \<Rightarrow> string \<Rightarrow> string \<Rightarrow> string \<Rightarrow> string \<Rightarrow> string \<Rightarrow> (bool \<times> string) option" where
  "kv_match pre1 keySuffix1 valueSuffix1 pre2 keySuffix2 valueSuffix2 key =
     (case strip_entry pre1 keySuffix1 key of Some idx \<Rightarrow> Some (True, idx) | None \<Rightarrow>
      case strip_entry pre1 valueSuffix1 key of Some idx \<Rightarrow> Some (False, idx) | None \<Rightarrow>
      if pre2 = [] then None else
      case strip_entry pre2 keySuffix2 key of Some idx \<Rightarrow> Some (True, idx) | None \<Rightarrow>
      case strip_entry pre2 valueSuffix2 key of Some idx \<Rightarrow> Some (False, idx) | None \<Rightarrow> None)"

type_synonym kv_items = "(string, string \<times> string) fmap"

definition kv_item :: "kv_items \<Rightarrow> string \<Rightarrow> string \<times> string" where
  "kv_item items idx = (case fmlookup items idx of None \<Rightarrow> ([], []) | Some e \<Rightarrow> e)"

definition kv_step :: "(string \<Rightarrow> (bool \<times> string) option) \<Rightarrow> string \<times> string list \<Rightarrow> kv_items \<Rightarrow> kv_items" where
  "kv_step match e items =
     (case match (fst e) of
        None \<Rightarrow> items
      | Some (is_key, idx) \<Rightarrow>
          (case kv_item items idx of
             (k, v) \<Rightarrow> fmupd idx (if is_key then (first (snd e), v) else (k, first (snd e))) items))"

definition kv_out :: "string \<times> (string \<times> string) \<Rightarrow> (string, string) fmap \<Rightarrow> (string, string) fmap" where
  "kv_out e out = (case snd e of (k, v) \<Rightarrow> if k \<noteq> [] then fmupd k v out else out)"

definition parseKeyValueEntries ::
    "(nat \<Rightarrow> string list \<Rightarrow> string list) \<Rightarrow> url_values \<Rightarrow>
     string \<Rightarrow> string \<Rightarrow> string \<Rightarrow> string \<Rightarrow> string \<Rightarrow> string \<Rightarrow> (string, string) fmap" where
  "parseKeyValueEntries ord form pre1 keySuffix1 valueSuffix1 pre2 keySuffix2 valueSuffix2 =
     (let items = fold (kv_step (kv_match pre1 keySuffix1 valueSuffix1 pre2 keySuffix2 valueSuffix2))
                    (range_map (ord 0) form) fmempty
      in fold kv_out (range_map (ord 1) items) fmempty)"

definition parseAttributes :: "(nat \<Rightarrow> string list \<Rightarrow> string list) \<Rightarrow> url_values \<Rightarrow> (string, string) fmap" where
  "parseAttributes ord form =
     parseKeyValueEntries ord form ''Attributes.entry.'' ''.key'' ''.value'' ''Attributes.member.'' ''.Name'' ''.Value''"

definition parseTags :: "(nat \<Rightarrow> string list \<Rightarrow> string list) \<Rightarrow> url_values \<Rightarrow> (string, string) fmap" where
  "parseTags ord form =
     (let tags = parseKeyValueEntries ord form ''Tags.member.'' ''.Key'' ''.Value'' ''Tags.Tag.'' ''.Key'' ''.Value''
      in if tags = fmempty
         then parseKeyValueEntries (\<lambda>n. ord (n + 2)) form ''Tags.entry.'' ''.key'' ''.value'' [] [] []
         else tags)"

subsection \<open>Lists\<close>

definition member_step ::
    "string \<Rightarrow> string \<times> string list \<Rightarrow> int list \<times> (int, string) fmap \<Rightarrow> int list \<times> (int, string) fmap" where
  "member_step pre e st =
     (if HasPrefix (fst e) pre
      then (case Atoi (TrimPrefix (fst e) pre) of
              None \<Rightarrow> st
            | Some index \<Rightarrow> (fst st @ [index], fmupd index (first (snd e)) (snd st)))
      else st)"

definition parseStringMembers :: "(nat \<Rightarrow> string list \<Rightarrow> string list) \<Rightarrow> url_values \<Rightarrow> string \<Rightarrow> string list" where
  "parseStringMembers ord form pre =
     (case fold (member_step pre) (range_map (ord 0) form) ([], fmempty) of
        (indices, items) \<Rightarrow>
          map (\<lambda>idx. case fmlookup items idx of None \<Rightarrow> [] | Some x \<Rightarrow> x) (sort indices))"

subsection \<open>Message attributes\<close>

text \<open>\<^verbatim>\<open>base64.StdEncoding.DecodeString\<close> with its error dropped: the bytes decoded before the first fault.
  Newlines are skipped, and decoding stops after padding.\<close>

fun b64_std_quanta :: "string \<Rightarrow> string" where
  "b64_std_quanta (a # b # c # d # s) =
     (case (b64_std_value a, b64_std_value b, b64_std_value c, b64_std_value d) of
        (Some p, Some q, Some r, Some t) \<Rightarrow>
          (let n = p * 262144 + q * 4096 + r * 64 + t in
             [byte_of (n div 65536), byte_of (n div 256 mod 256), byte_of (n mod 256)] @ b64_std_quanta s)
      | (Some p, Some q, Some r, None) \<Rightarrow>
          if d = CHR ''=''
          then (let n = p * 1024 + q * 16 + r div 4 in [byte_of (n div 256), byte_of (n mod 256)]) else []
      | (Some p, Some q, None, _) \<Rightarrow>
          if c = CHR ''='' \<and> d = CHR ''='' then [byte_of (p * 4 + q div 16)] else []
      | _ \<Rightarrow> [])"
| "b64_std_quanta s = []"

definition b64_std_decoded :: "string \<Rightarrow> string" where
  "b64_std_decoded s = b64_std_quanta (filter (\<lambda>c. c \<noteq> CHR 0x0A \<and> c \<noteq> CHR 0x0D) s)"

definition empty_attr :: MessageAttributeValue where
  "empty_attr = \<lparr>MA_DataType = [], MA_StringValue = [], MA_BinaryValue = None\<rparr>"

definition ensureAttr :: "(string, MessageAttributeValue) fmap \<Rightarrow> string \<Rightarrow> MessageAttributeValue" where
  "ensureAttr items idx = (case fmlookup items idx of None \<Rightarrow> empty_attr | Some a \<Rightarrow> a)"

definition attr_entry :: string where "attr_entry = ''MessageAttributes.entry.''"

definition attr_step ::
    "string \<times> string list \<Rightarrow> (string, MessageAttributeValue) fmap \<times> (string, string) fmap \<Rightarrow>
     (string, MessageAttributeValue) fmap \<times> (string, string) fmap" where
  "attr_step e st =
     (case st of (items, names) \<Rightarrow>
      let x = first (snd e) in
      case strip_entry attr_entry ''.Name'' (fst e) of Some idx \<Rightarrow> (items, fmupd idx x names) | None \<Rightarrow>
      case strip_entry attr_entry ''.Value.DataType'' (fst e) of
        Some idx \<Rightarrow> (fmupd idx ((ensureAttr items idx)\<lparr>MA_DataType := x\<rparr>) items, names) | None \<Rightarrow>
      case strip_entry attr_entry ''.Value.StringValue'' (fst e) of
        Some idx \<Rightarrow> (fmupd idx ((ensureAttr items idx)\<lparr>MA_StringValue := x\<rparr>) items, names) | None \<Rightarrow>
      case strip_entry attr_entry ''.Value.BinaryValue'' (fst e) of
        Some idx \<Rightarrow> (fmupd idx ((ensureAttr items idx)\<lparr>MA_BinaryValue := Some (b64_std_decoded x)\<rparr>) items, names)
      | None \<Rightarrow> st)"

definition attr_out ::
    "(string, MessageAttributeValue) fmap \<Rightarrow> string \<times> string \<Rightarrow> (string, MessageAttributeValue) fmap \<Rightarrow>
     (string, MessageAttributeValue) fmap" where
  "attr_out items e out =
     (case fmlookup items (fst e) of
        Some attr \<Rightarrow> if snd e \<noteq> [] then fmupd (snd e) (DeepCopy attr) out else out
      | None \<Rightarrow> out)"

definition parseMessageAttributes ::
    "(nat \<Rightarrow> string list \<Rightarrow> string list) \<Rightarrow> url_values \<Rightarrow> (string, MessageAttributeValue) fmap" where
  "parseMessageAttributes ord form =
     (case fold attr_step (range_map (ord 0) form) (fmempty, fmempty) of
        (items, names) \<Rightarrow> fold (attr_out items) (range_map (ord 1) names) fmempty)"

text \<open>The attributes of an input are handed on as the service will range over them.\<close>

definition parsePublishInput :: "(nat \<Rightarrow> string list \<Rightarrow> string list) \<Rightarrow> url_values \<Rightarrow> PublishInput" where
  "parsePublishInput ord form =
     \<lparr>PI_TopicARN = Values_Get form ''TopicArn'', PI_Message = Values_Get form ''Message'',
      PI_Subject = Values_Get form ''Subject'', PI_MessageStructure = Values_Get form ''MessageStructure'',
      PI_MessageAttributes = range_map (ord 2) (parseMessageAttributes ord form),
      PI_MessageGroupID = Values_Get form ''MessageGroupId'',
      PI_MessageDeduplicationID = Values_Get form ''MessageDeduplicationId''\<rparr>"

subsection \<open>Batches\<close>

definition batch_prefix :: string where "batch_prefix = ''PublishBatchRequestEntries.member.''"

text \<open>An entry while it is collected: its fields, and its attributes beside the names of them.\<close>

type_synonym batch_item = "PublishBatchEntry \<times> (string, MessageAttributeValue) fmap"

definition empty_item :: batch_item where
  "empty_item = (\<lparr>BE_ID = [], BE_Message = [], BE_Subject = [], BE_MessageStructure = [], BE_MessageAttributes = [],
     BE_MessageGroupID = [], BE_MessageDeduplicationID = []\<rparr>, fmempty)"

definition name_holder :: "string \<Rightarrow> string" where
  "name_holder idx = ''__name__:'' @ idx"

definition set_attr :: "string \<Rightarrow> string \<Rightarrow> string \<Rightarrow> (string, MessageAttributeValue) fmap \<Rightarrow> (string, MessageAttributeValue) fmap" where
  "set_attr attrIndex field x attrs =
     (let attr = ensureAttr attrs attrIndex in
      if field = ''Name'' then fmupd (name_holder attrIndex) (empty_attr\<lparr>MA_StringValue := x\<rparr>) attrs
      else if field = ''Value.DataType'' then fmupd attrIndex (attr\<lparr>MA_DataType := x\<rparr>) attrs
      else if field = ''Value.StringValue'' then fmupd attrIndex (attr\<lparr>MA_StringValue := x\<rparr>) attrs
      else if field = ''Value.BinaryValue'' then fmupd attrIndex (attr\<lparr>MA_BinaryValue := Some (b64_std_decoded x)\<rparr>) attrs
      else attrs)"

definition set_field :: "string \<Rightarrow> string \<Rightarrow> batch_item \<Rightarrow> batch_item" where
  "set_field field x item =
     (case item of (entry, attrs) \<Rightarrow>
      if field = ''Id'' then (entry\<lparr>BE_ID := x\<rparr>, attrs)
      else if field = ''Message'' then (entry\<lparr>BE_Message := x\<rparr>, attrs)
      else if field = ''Subject'' then (entry\<lparr>BE_Subject := x\<rparr>, attrs)
      else if field = ''MessageStructure'' then (entry\<lparr>BE_MessageStructure := x\<rparr>, attrs)
      else if field = ''MessageGroupId'' then (entry\<lparr>BE_MessageGroupID := x\<rparr>, attrs)
      else if field = ''MessageDeduplicationId'' then (entry\<lparr>BE_MessageDeduplicationID := x\<rparr>, attrs)
      else if HasPrefix field attr_entry then
        (case Cut (CHR ''.'') (TrimPrefix field attr_entry) of
           None \<Rightarrow> item
         | Some (attrIndex, f) \<Rightarrow> (entry, set_attr attrIndex f x attrs))
      else item)"

definition batch_item_of :: "(string, batch_item) fmap \<Rightarrow> string \<Rightarrow> batch_item" where
  "batch_item_of items idx = (case fmlookup items idx of None \<Rightarrow> empty_item | Some e \<Rightarrow> e)"

text \<open>\<^verbatim>\<open>strings.SplitN(rest, ".", 2)\<close> has two parts exactly when \<^verbatim>\<open>Cut\<close> finds the separator.\<close>

definition batch_step :: "string \<times> string list \<Rightarrow> (string, batch_item) fmap \<Rightarrow> (string, batch_item) fmap" where
  "batch_step e items =
     (if HasPrefix (fst e) batch_prefix
      then (case Cut (CHR ''.'') (TrimPrefix (fst e) batch_prefix) of
              None \<Rightarrow> items
            | Some (idx, field) \<Rightarrow> fmupd idx (set_field field (first (snd e)) (batch_item_of items idx)) items)
      else items)"

definition resolve_step ::
    "(string, MessageAttributeValue) fmap \<Rightarrow> string \<times> MessageAttributeValue \<Rightarrow>
     (string, MessageAttributeValue) fmap \<Rightarrow> (string, MessageAttributeValue) fmap" where
  "resolve_step attrs e resolved =
     (if HasPrefix (fst e) (name_holder []) then resolved
      else case fmlookup attrs (name_holder (fst e)) of
             None \<Rightarrow> resolved
           | Some nameHolder \<Rightarrow>
               if MA_StringValue nameHolder = [] then resolved
               else fmupd (MA_StringValue nameHolder) (snd e) resolved)"

definition finish_entry :: "(nat \<Rightarrow> string list \<Rightarrow> string list) \<Rightarrow> nat \<Rightarrow> batch_item \<Rightarrow> PublishBatchEntry" where
  "finish_entry ord n item =
     (case item of (entry, attrs) \<Rightarrow>
      entry\<lparr>BE_MessageAttributes :=
        range_map (ord (n + 1)) (fold (resolve_step attrs) (range_map (ord n) attrs) fmempty)\<rparr>)"

text \<open>The entry of an index that is not written the way \<^verbatim>\<open>strconv.Itoa\<close> writes it is a nil pointer.\<close>

fun batch_out ::
    "(nat \<Rightarrow> string list \<Rightarrow> string list) \<Rightarrow> (string, batch_item) fmap \<Rightarrow> nat \<Rightarrow> int list \<Rightarrow> PublishBatchEntry list res" where
  "batch_out ord items n [] = Inr []"
| "batch_out ord items n (idx # keys) =
     (case fmlookup items (Itoa idx) of
        None \<Rightarrow> Inl (Panic ''nil pointer dereference'')
      | Some item \<Rightarrow>
          (case batch_out ord items (n + 2) keys of
             Inl e \<Rightarrow> Inl e
           | Inr out \<Rightarrow> Inr (finish_entry ord n item # out)))"

definition parseBatchEntries :: "(nat \<Rightarrow> string list \<Rightarrow> string list) \<Rightarrow> url_values \<Rightarrow> PublishBatchEntry list res" where
  "parseBatchEntries ord form =
     (let indices = fold batch_step (range_map (ord 0) form) fmempty;
          keys = List.map_filter (\<lambda>e. Atoi (fst e)) (range_map (ord 1) indices)
      in batch_out ord indices 2 (sort keys))"

subsection \<open>What a client sends\<close>

text \<open>The entries of a list of pairs, numbered from \<open>n\<close>.\<close>

definition entry_key :: "string \<Rightarrow> nat \<Rightarrow> string \<Rightarrow> string" where
  "entry_key pre n suf = pre @ Itoa (int n) @ suf"

fun kv_pairs :: "string \<Rightarrow> string \<Rightarrow> string \<Rightarrow> nat \<Rightarrow> (string \<times> string) list \<Rightarrow> (string \<times> string list) list" where
  "kv_pairs pre ks vs n [] = []"
| "kv_pairs pre ks vs n (e # es) =
     (entry_key pre n ks, [fst e]) # (entry_key pre n vs, [snd e]) # kv_pairs pre ks vs (Suc n) es"

definition with_entries :: "string \<Rightarrow> string \<Rightarrow> string \<Rightarrow> (string \<times> string) list \<Rightarrow> url_values \<Rightarrow> url_values" where
  "with_entries pre ks vs es form = fold (\<lambda>(k, v). fmupd k v) (kv_pairs pre ks vs 1 es) form"

lemma entry_key_eq [simp]: "entry_key pre n suf = entry_key pre m suf \<longleftrightarrow> n = m"
  by (auto simp: entry_key_def dest: Itoa_nat_inj)

lemma entry_key_last: "suf \<noteq> [] \<Longrightarrow> last (entry_key pre n suf) = last suf"
  by (simp add: entry_key_def)

lemma entry_key_prefix [simp]: "HasPrefix (entry_key pre n suf) pre"
  by (simp add: entry_key_def)

lemma HasSuffix_last: "HasSuffix s p \<Longrightarrow> p \<noteq> [] \<Longrightarrow> last s = last p"
  by (auto simp: HasSuffix_iff)

lemma strip_entry_hit: "strip_entry pre suf (entry_key pre n suf) = Some (Itoa (int n))"
  by (simp add: strip_entry_def HasPrefix_def HasSuffix_def TrimPrefix_def TrimSuffix_def entry_key_def)

lemma strip_entry_suffix: "suf \<noteq> [] \<Longrightarrow> last suf \<noteq> last key \<Longrightarrow> strip_entry pre suf key = None"
  using HasSuffix_last by (fastforce simp: strip_entry_def)

lemma strip_entry_prefix: "\<not> HasPrefix key pre \<Longrightarrow> strip_entry pre suf key = None"
  by (simp add: strip_entry_def)

lemma kv_pairs_iff:
  "(key, x) \<in> set (kv_pairs pre ks vs n es) \<longleftrightarrow>
     (\<exists>i < length es. key = entry_key pre (n + i) ks \<and> x = [fst (es ! i)] \<or>
                      key = entry_key pre (n + i) vs \<and> x = [snd (es ! i)])"
  by (induction es arbitrary: n) (auto simp: Ex_less_Suc2)

lemma distinct_kv_pairs:
  assumes "ks \<noteq> []" "vs \<noteq> []" "last ks \<noteq> last vs"
  shows "distinct (map fst (kv_pairs pre ks vs n es))"
proof (induction es arbitrary: n)
  case (Cons e es)
  have neq: "entry_key pre i ks \<noteq> entry_key pre j vs" for i j
    using assms by (metis entry_key_last)
  have "entry_key pre n ks \<notin> fst ` set (kv_pairs pre ks vs (Suc n) es)"
    "entry_key pre n vs \<notin> fst ` set (kv_pairs pre ks vs (Suc n) es)"
    using neq neq [symmetric] by (auto simp: kv_pairs_iff)
  then show ?case using Cons [of "Suc n"] neq by simp
qed simp

lemma with_entries_lookup:
  assumes "ks \<noteq> []" "vs \<noteq> []" "last ks \<noteq> last vs" "\<And>k. k |\<in>| fmdom form \<Longrightarrow> \<not> HasPrefix k pre"
  shows "fmlookup (with_entries pre ks vs es form) key = Some x \<longleftrightarrow>
    (key, x) \<in> set (kv_pairs pre ks vs 1 es) \<or> fmlookup form key = Some x"
proof -
  note d = distinct_kv_pairs [OF assms(1-3), of pre 1 es]
  have "fmlookup form key = None" if "(key, y) \<in> set (kv_pairs pre ks vs 1 es)" for y
    using that assms(4) unfolding kv_pairs_iff by (metis entry_key_prefix fmdom_notD)
  then show ?thesis
    unfolding with_entries_def lookup_fold_upd [OF d]
    by (cases "map_of (kv_pairs pre ks vs 1 es) key") (use map_of_eq_Some_iff [OF d, of key] in fastforce)+
qed

definition indexed :: "(string \<times> string) list \<Rightarrow> (string \<times> (string \<times> string)) list" where
  "indexed es = map (\<lambda>i. (Itoa (int (Suc i)), es ! i)) [0..<length es]"

lemma indexed_iff: "(idx, e) \<in> set (indexed es) \<longleftrightarrow> (\<exists>i < length es. idx = Itoa (int (Suc i)) \<and> e = es ! i)"
  by (auto simp: indexed_def)

lemma distinct_indexed: "distinct (map fst (indexed es))"
proof -
  have "inj (\<lambda>i. Itoa (int (Suc i)))" by (rule injI) (metis Itoa_nat_inj nat.inject)
  then show ?thesis by (auto simp: indexed_def distinct_map o_def inj_def inj_on_def)
qed

lemma indexed_lookup: "fmlookup (fmap_of_list (indexed es)) idx = Some e \<longleftrightarrow> (\<exists>i < length es. idx = Itoa (int (Suc i)) \<and> e = es ! i)"
  by (simp only: fmlookup_of_list map_of_eq_Some_iff [OF distinct_indexed] indexed_iff)

lemma kv_step_item:
  "kv_item (kv_step match e items) idx =
     (case match (fst e) of
        Some (b, j) \<Rightarrow>
          if j = idx then (if b then (first (snd e), snd (kv_item items idx)) else (fst (kv_item items idx), first (snd e)))
          else kv_item items idx
      | None \<Rightarrow> kv_item items idx)"
  by (auto simp: kv_step_def kv_item_def split: option.split prod.split)

lemma kv_step_dom: "idx |\<in>| fmdom (kv_step match e items) \<longleftrightarrow> (\<exists>b. match (fst e) = Some (b, idx)) \<or> idx |\<in>| fmdom items"
  by (auto simp: kv_step_def split: option.split prod.split)

definition part :: "bool \<Rightarrow> string \<times> string \<Rightarrow> string" where
  "part is_key e = (if is_key then fst e else snd e)"

text \<open>The loop over the form collects the entries, whatever its order.\<close>

lemma collect_entries:
  assumes "fair f"
    and sound: "\<And>k x b idx. fmlookup form k = Some x \<Longrightarrow> match k = Some (b, idx) \<Longrightarrow>
      \<exists>i < length es. idx = Itoa (int (Suc i)) \<and> x = [part b (es ! i)]"
    and complete: "\<And>i b. i < length es \<Longrightarrow> \<exists>k x. fmlookup form k = Some x \<and> match k = Some (b, Itoa (int (Suc i)))"
  shows "fold (kv_step match) (range_map f form) fmempty = fmap_of_list (indexed es)" (is "?items = _")
proof (rule fmap_ext)
  fix idx
  note iff = in_range_map [OF assms(1)]
  have dom: "idx |\<in>| fmdom ?items \<longleftrightarrow> (\<exists>e \<in> set (range_map f form). \<exists>b. match (fst e) = Some (b, idx))"
    using fold_const [of "range_map f form" "\<lambda>s. idx |\<in>| fmdom s" "kv_step match" "\<lambda>e. \<exists>b. match (fst e) = Some (b, idx)" True fmempty]
    by (simp add: kv_step_dom)
  show "fmlookup ?items idx = fmlookup (fmap_of_list (indexed es)) idx"
  proof (cases "\<exists>i < length es. idx = Itoa (int (Suc i))")
    case False
    then have "idx |\<notin>| fmdom ?items" using sound unfolding dom by (metis iff prod.collapse)
    moreover have "fmlookup (fmap_of_list (indexed es)) idx = None"
      using False indexed_lookup [of es idx] by (cases "fmlookup (fmap_of_list (indexed es)) idx") auto
    ultimately show ?thesis by (simp add: fmdom_notD)
  next
    case True
    then obtain i where i: "i < length es" "idx = Itoa (int (Suc i))" by blast
    have own: "x = [part b (es ! i)]" if "(k, x) \<in> set (range_map f form)" "match k = Some (b, idx)" for k x b
      using sound [of k x b idx] that i(2) by (metis Itoa_nat_inj iff nat.inject)
    have hit: "\<exists>e \<in> set (range_map f form). match (fst e) = Some (b, idx)" for b
      using complete [OF i(1), of b] i(2) iff by (metis fst_conv)
    have step: "part b (kv_item (kv_step match e s) idx) =
        (if match (fst e) = Some (b, idx) then part b (es ! i) else part b (kv_item s idx))"
      if "e \<in> set (range_map f form)" for e s b
    proof (cases "match (fst e)")
      case (Some m)
      obtain c j where m: "m = (c, j)" by (cases m)
      have "j = idx \<Longrightarrow> snd e = [part c (es ! i)]" using own [of "fst e" "snd e" c] that Some m by simp
      then show ?thesis by (simp add: kv_step_item Some m part_def)
    qed (simp add: kv_step_item)
    have "part b (kv_item ?items idx) = part b (es ! i)" for b
      using fold_const [of "range_map f form" "\<lambda>s. part b (kv_item s idx)" "kv_step match" "\<lambda>e. match (fst e) = Some (b, idx)" "part b (es ! i)" fmempty]
        hit [of b] step by simp
    from this [of True] this [of False]
    have "fst (kv_item ?items idx) = fst (es ! i)" "snd (kv_item ?items idx) = snd (es ! i)" by (simp_all add: part_def)
    moreover have "idx |\<in>| fmdom ?items" using dom hit by blast
    ultimately have "fmlookup ?items idx = Some (es ! i)" by (auto simp: kv_item_def fmdom_fmap_Some prod_eq_iff)
    moreover have "fmlookup (fmap_of_list (indexed es)) idx = Some (es ! i)" using i indexed_lookup [of es idx "es ! i"] by blast
    ultimately show ?thesis by simp
  qed
qed

text \<open>The loop over the entries writes the map out, whatever its order.\<close>

lemma write_entries:
  assumes "fair f" "distinct (map fst es)" "[] \<notin> fst ` set es"
  shows "fold kv_out (range_map f (fmap_of_list (indexed es))) fmempty = fmap_of_list es"
proof (rule fmap_ext)
  fix name
  let ?L = "range_map f (fmap_of_list (indexed es))"
  have mem: "(idx, e) \<in> set ?L \<longleftrightarrow> (\<exists>i < length es. idx = Itoa (int (Suc i)) \<and> e = es ! i)" for idx e
    by (simp only: in_range_map [OF assms(1)] indexed_lookup)
  have snd_mem: "snd e \<in> set es" if "e \<in> set ?L" for e using that mem [of "fst e" "snd e"] by auto
  have step: "fmlookup (kv_out e out) name = (if fst (snd e) = name then map_of es name else fmlookup out name)"
    if "e \<in> set ?L" for e out
  proof -
    obtain k v where kv: "snd e = (k, v)" by (cases "snd e")
    with snd_mem [OF that] assms have "k \<noteq> []" "map_of es k = Some v" by (force, simp)
    then show ?thesis by (auto simp: kv_out_def kv)
  qed
  have "fmlookup (fold kv_out ?L fmempty) name = (if \<exists>e \<in> set ?L. fst (snd e) = name then map_of es name else None)"
    using fold_const [of ?L "\<lambda>s. fmlookup s name" kv_out "\<lambda>e. fst (snd e) = name" "map_of es name" fmempty] step by simp
  moreover have "map_of es name = None" if "\<not> (\<exists>e \<in> set ?L. fst (snd e) = name)"
  proof (rule ccontr)
    assume "map_of es name \<noteq> None"
    then obtain v where "(name, v) \<in> set es" by (auto dest: map_of_SomeD)
    then obtain i where "i < length es" "es ! i = (name, v)" by (auto simp: in_set_conv_nth)
    then have "(Itoa (int (Suc i)), (name, v)) \<in> set ?L" unfolding mem by force
    with that show False by force
  qed
  ultimately show "fmlookup (fold kv_out ?L fmempty) name = fmlookup (fmap_of_list es) name"
    by (auto simp: fmlookup_of_list)
qed

text \<open>A form with entries under the first prefix and nothing under the second.\<close>

lemma parse_entries:
  assumes fair: "\<And>n. fair (ord n)" and names: "distinct (map fst es)" "[] \<notin> fst ` set es"
    and suffixes: "ks \<noteq> []" "vs \<noteq> []" "last ks \<noteq> last vs"
    and found: "\<And>k x. fmlookup form k = Some x \<longleftrightarrow> (k, x) \<in> set (kv_pairs pre1 ks vs 1 es) \<or> fmlookup base k = Some x"
    and other: "\<And>k. k |\<in>| fmdom base \<Longrightarrow> kv_match pre1 ks vs pre2 ks2 vs2 k = None"
  shows "parseKeyValueEntries ord form pre1 ks vs pre2 ks2 vs2 = fmap_of_list es"
proof -
  let ?m = "kv_match pre1 ks vs pre2 ks2 vs2"
  have name: "?m (entry_key pre1 n ks) = Some (True, Itoa (int n))" for n
    by (simp add: kv_match_def strip_entry_hit)
  have val: "?m (entry_key pre1 n vs) = Some (False, Itoa (int n))" for n
    using suffixes by (simp add: kv_match_def strip_entry_hit strip_entry_suffix entry_key_last)
  have "fold (kv_step ?m) (range_map (ord 0) form) fmempty = fmap_of_list (indexed es)"
  proof (rule collect_entries [OF fair])
    fix k x b idx
    assume f: "fmlookup form k = Some x" and m: "?m k = Some (b, idx)"
    have "k |\<notin>| fmdom base" using m other [of k] by auto
    then have "(k, x) \<in> set (kv_pairs pre1 ks vs 1 es)" using f found [of k x] by (auto dest: fmdomI)
    then show "\<exists>i < length es. idx = Itoa (int (Suc i)) \<and> x = [part b (es ! i)]"
      unfolding kv_pairs_iff using m by (auto simp: name val part_def)
  next
    fix i b
    assume "i < length es"
    then have "(entry_key pre1 (Suc i) ks, [fst (es ! i)]) \<in> set (kv_pairs pre1 ks vs 1 es)"
      "(entry_key pre1 (Suc i) vs, [snd (es ! i)]) \<in> set (kv_pairs pre1 ks vs 1 es)"
      by (auto simp: kv_pairs_iff)
    then have "fmlookup form (entry_key pre1 (Suc i) ks) = Some [fst (es ! i)]"
      "fmlookup form (entry_key pre1 (Suc i) vs) = Some [snd (es ! i)]"
      by (simp_all only: found simp_thms)
    with name [of "Suc i"] val [of "Suc i"]
    show "\<exists>k x. fmlookup form k = Some x \<and> ?m k = Some (b, Itoa (int (Suc i)))"
      by (cases b) (simp only: exI conjI; blast)+
  qed
  then show ?thesis by (simp add: parseKeyValueEntries_def write_entries fair names)
qed

lemma no_match: "\<not> HasPrefix k pre1 \<Longrightarrow> pre2 = [] \<or> \<not> HasPrefix k pre2 \<Longrightarrow> kv_match pre1 ks1 vs1 pre2 ks2 vs2 k = None"
  by (auto simp: kv_match_def strip_entry_prefix)

lemma prefix_part: "\<not> HasPrefix k p \<Longrightarrow> \<not> HasPrefix k (p @ q)"
  by (auto simp: HasPrefix_iff)

lemma prefix_clash: "HasPrefix k (c # p) \<Longrightarrow> c \<noteq> d \<Longrightarrow> \<not> HasPrefix k (d # q)"
  by (auto simp: HasPrefix_iff)

text \<open>C38: The attributes and the tags that a client numbers from one in a form are what the server reads from
  it once it has gone over the wire, for any names and values and in whatever order the server ranges over the form:
  no pair is lost, mixed up with another or with the other parameters.\<close>

theorem attributes_and_tags_read:
  assumes "\<And>n. fair (ord n)" "\<And>k. k |\<in>| fmdom base \<Longrightarrow> \<not> HasPrefix k ''Attributes.'' \<and> \<not> HasPrefix k ''Tags.''"
    and "distinct (map fst attrs)" "[] \<notin> fst ` set attrs" "distinct (map fst tags)" "[] \<notin> fst ` set tags"
    and "form = with_entries ''Attributes.entry.'' ''.key'' ''.value'' attrs (with_entries ''Tags.member.'' ''.Key'' ''.Value'' tags base)"
    and "form_ok form"
  shows "parseAttributes ord (fst (ParseQuery (Values_Encode form))) = fmap_of_list attrs \<and>
    parseTags ord (fst (ParseQuery (Values_Encode form))) = fmap_of_list tags"
proof -
  define Ae where "Ae = ''Attributes.entry.''"
  define Tm where "Tm = ''Tags.member.''"
  let ?a = "kv_pairs Ae ''.key'' ''.value'' 1 attrs" and ?t = "kv_pairs Tm ''.Key'' ''.Value'' 1 tags"
  let ?fa = "with_entries Ae ''.key'' ''.value'' attrs base" and ?ft = "with_entries Tm ''.Key'' ''.Value'' tags base"
  have prefixes: "\<not> HasPrefix k Ae" "\<not> HasPrefix k ''Attributes.member.''" "\<not> HasPrefix k Tm"
    "\<not> HasPrefix k ''Tags.Tag.''" "\<not> HasPrefix k ''Tags.entry.''" if "k |\<in>| fmdom base" for k
    using assms(2) [OF that] prefix_part [of k "''Attributes.''"] prefix_part [of k "''Tags.''"]
    by (force simp: Ae_def Tm_def)+
  have fa: "fmlookup ?fa k = Some x \<longleftrightarrow> (k, x) \<in> set ?a \<or> fmlookup base k = Some x" for k x
    by (rule with_entries_lookup) (simp_all add: prefixes)
  have ft: "fmlookup ?ft k = Some x \<longleftrightarrow> (k, x) \<in> set ?t \<or> fmlookup base k = Some x" for k x
    by (rule with_entries_lookup) (simp_all add: prefixes)
  have fa_keys: "HasPrefix k Ae \<or> k |\<in>| fmdom base" if "k |\<in>| fmdom ?fa" for k
    using that fa by (auto simp: fmdom_fmap_Some kv_pairs_iff)
  have ft_keys: "HasPrefix k Tm \<or> k |\<in>| fmdom base" if "k |\<in>| fmdom ?ft" for k
    using that ft by (auto simp: fmdom_fmap_Some kv_pairs_iff)
  have clash: "\<not> HasPrefix k Ae" "\<not> HasPrefix k ''Attributes.member.''" if "HasPrefix k Tm" for k
    using that unfolding Tm_def Ae_def by (rule prefix_clash, simp)+
  have clash': "\<not> HasPrefix k Tm" "\<not> HasPrefix k ''Tags.Tag.''" "\<not> HasPrefix k ''Tags.entry.''" if "HasPrefix k Ae" for k
    using that unfolding Tm_def Ae_def by (rule prefix_clash, simp)+
  have no_attr: "\<not> HasPrefix k Ae" "\<not> HasPrefix k ''Attributes.member.''" if "k |\<in>| fmdom ?ft" for k
    using ft_keys [OF that] prefixes clash by blast+
  have no_tag: "\<not> HasPrefix k Tm" "\<not> HasPrefix k ''Tags.Tag.''" "\<not> HasPrefix k ''Tags.entry.''" if "k |\<in>| fmdom ?fa" for k
    using fa_keys [OF that] prefixes clash' by blast+
  have form: "fmlookup form k = Some x \<longleftrightarrow> (k, x) \<in> set ?a \<or> fmlookup ?ft k = Some x" for k x
    unfolding assms(7) Ae_def [symmetric] Tm_def [symmetric] by (rule with_entries_lookup) (simp_all add: no_attr)
  have "parseAttributes ord form = fmap_of_list attrs"
    unfolding parseAttributes_def Ae_def [symmetric]
    by (rule parse_entries [where base = ?ft]) (simp_all add: assms(1,3,4) form no_match no_attr del: One_nat_def)
  moreover have "parseTags ord form = fmap_of_list tags"
  proof -
    have F: "fmlookup form k = Some x \<longleftrightarrow> (k, x) \<in> set ?t \<or> fmlookup ?fa k = Some x" for k x by (auto simp: form fa ft)
    have 1: "parseKeyValueEntries ord form Tm ''.Key'' ''.Value'' ''Tags.Tag.'' ''.Key'' ''.Value'' = fmap_of_list tags"
      by (rule parse_entries [where base = ?fa]) (auto simp: assms(1,5,6) F no_match no_tag simp del: One_nat_def)
    have "parseKeyValueEntries (\<lambda>n. ord (n + 2)) form ''Tags.entry.'' ''.key'' ''.value'' [] [] [] = fmap_of_list []" if "tags = []"
      by (rule parse_entries [where base = ?fa]) (simp_all add: assms(1) F no_match no_tag that)
    moreover have "tags = []" if "fmap_of_list tags = fmempty"
      using arg_cong [OF that, of fmdom] by (cases tags) auto
    ultimately show ?thesis using 1 unfolding parseTags_def Let_def Tm_def [symmetric] by (cases "tags = []") auto
  qed
  ultimately show ?thesis using parse_encode [OF assms(8)] by simp
qed

subsection \<open>The entries of a batch\<close>

text \<open>The fields of an entry that are parameters of their own.\<close>

definition batch_fields :: "(string \<times> (PublishBatchEntry \<Rightarrow> string)) list" where
  "batch_fields =
     [(''Id'', BE_ID), (''Message'', BE_Message), (''Subject'', BE_Subject), (''MessageStructure'', BE_MessageStructure),
      (''MessageGroupId'', BE_MessageGroupID), (''MessageDeduplicationId'', BE_MessageDeduplicationID)]"

definition batch_key :: "string \<Rightarrow> string \<Rightarrow> string" where
  "batch_key idx field = batch_prefix @ idx @ ''.'' @ field"

text \<open>The indices that occur in a form.\<close>

definition batch_index :: "url_values \<Rightarrow> string \<Rightarrow> bool" where
  "batch_index form idx \<longleftrightarrow> CHR ''.'' \<notin> set idx \<and> (\<exists>field. batch_key idx field |\<in>| fmdom form)"

lemma batch_key_eq:
  assumes "CHR ''.'' \<notin> set idx" "CHR ''.'' \<notin> set idx'"
  shows "batch_key idx field = batch_key idx' field' \<longleftrightarrow> idx = idx' \<and> field = field'"
proof -
  have "Cut (CHR ''.'') (idx @ CHR ''.'' # field) = Some (idx, field)"
    "Cut (CHR ''.'') (idx' @ CHR ''.'' # field') = Some (idx', field')"
    using assms by (simp_all add: Cut_Some_iff)
  then have "idx @ CHR ''.'' # field = idx' @ CHR ''.'' # field' \<Longrightarrow> (idx, field) = (idx', field')" by (metis option.inject)
  then show ?thesis by (auto simp: batch_key_def)
qed

lemma batch_step_cases:
  obtains idx field where "CHR ''.'' \<notin> set idx" "fst e = batch_key idx field"
    "\<And>s. batch_step e s = fmupd idx (set_field field (first (snd e)) (batch_item_of s idx)) s"
  | "\<And>idx field. CHR ''.'' \<notin> set idx \<Longrightarrow> fst e \<noteq> batch_key idx field" "\<And>s. batch_step e s = s"
proof (cases "HasPrefix (fst e) batch_prefix")
  case True
  then obtain r where r: "fst e = batch_prefix @ r" by (auto simp: HasPrefix_iff)
  then have t: "TrimPrefix (fst e) batch_prefix = r" by (simp add: TrimPrefix_def)
  show thesis
  proof (cases "Cut (CHR ''.'') r")
    case None
    then have "CHR ''.'' \<notin> set r" by (simp add: Cut_None_iff)
    then have "fst e \<noteq> batch_key idx field" for idx field by (auto simp: r batch_key_def)
    then show thesis using that(2) None t True by (simp add: batch_step_def)
  next
    case (Some p)
    obtain idx field where p: "p = (idx, field)" by (cases p)
    with Some have "CHR ''.'' \<notin> set idx" "r = idx @ CHR ''.'' # field" by (simp_all add: Cut_Some_iff)
    then show thesis using that(1) [of idx field] Some p r t True by (simp add: batch_step_def batch_key_def)
  qed
next
  case False
  then have "fst e \<noteq> batch_key idx field" for idx field by (auto simp: batch_key_def HasPrefix_iff)
  then show thesis using that(2) False by (simp add: batch_step_def)
qed

lemma set_field_get:
  assumes "(name, get) \<in> set batch_fields"
  shows "get (fst (set_field field x item)) = (if field = name then x else get (fst item))"
proof -
  obtain entry attrs where i: "item = (entry, attrs)" by (cases item)
  show ?thesis using assms unfolding batch_fields_def i
    by (auto; simp add: set_field_def split: option.split prod.split)
qed

lemma batch_items:
  fixes form :: url_values
  assumes "fair f" "CHR ''.'' \<notin> set idx"
  defines "items \<equiv> fold batch_step (range_map f form) fmempty"
  shows "idx |\<in>| fmdom items \<longleftrightarrow> batch_index form idx"
    and "(name, get) \<in> set batch_fields \<Longrightarrow> get (fst (batch_item_of items idx)) = Values_Get form (batch_key idx name)"
proof -
  let ?L = "range_map f form"
  have key: "fst e = batch_key idx field \<Longrightarrow> e \<in> set ?L \<Longrightarrow> fmlookup form (batch_key idx field) = Some (snd e)" for e field
    by (metis in_range_map [OF assms(1)] prod.collapse)
  have "(idx |\<in>| fmdom (batch_step e s)) = (if \<exists>field. fst e = batch_key idx field then True else idx |\<in>| fmdom s)" for e s
    by (rule batch_step_cases [of e]) (use assms(2) batch_key_eq in auto)
  then have "idx |\<in>| fmdom items \<longleftrightarrow> (\<exists>e \<in> set ?L. \<exists>field. fst e = batch_key idx field)"
    unfolding items_def
    using fold_const [of ?L "\<lambda>s. idx |\<in>| fmdom s" batch_step "\<lambda>e. \<exists>field. fst e = batch_key idx field" True fmempty] by simp
  then show "idx |\<in>| fmdom items \<longleftrightarrow> batch_index form idx"
    using assms(2) in_range_map [OF assms(1)] by (fastforce simp: batch_index_def fmdom_fmap_Some)
  assume get: "(name, get) \<in> set batch_fields"
  let ?k = "batch_key idx name"
  have "get (fst (batch_item_of (batch_step e s) idx)) =
      (if fst e = ?k then Values_Get form ?k else get (fst (batch_item_of s idx)))" if "e \<in> set ?L" for e s
  proof (rule batch_step_cases [of e])
    fix j field
    assume e: "CHR ''.'' \<notin> set j" "fst e = batch_key j field"
      "\<And>s. batch_step e s = fmupd j (set_field field (first (snd e)) (batch_item_of s j)) s"
    have "fst e = ?k \<Longrightarrow> Values_Get form ?k = first (snd e)"
      using key [OF _ that] by (cases "snd e") (simp_all add: Values_Get_def values_of_def)
    then show ?thesis
      using e assms(2) by (auto simp: batch_item_of_def [of "fmupd _ _ _"] set_field_get [OF get] batch_key_eq) (simp add: batch_item_of_def)
  qed (use assms(2) in auto)
  then have "get (fst (batch_item_of items idx)) = (if \<exists>e \<in> set ?L. fst e = ?k then Values_Get form ?k else get (fst empty_item))"
    unfolding items_def
    using fold_const [of ?L "\<lambda>s. get (fst (batch_item_of s idx))" batch_step "\<lambda>e. fst e = ?k" "Values_Get form ?k" fmempty]
    by (simp add: batch_item_of_def)
  moreover have "Values_Get form ?k = []" if "\<not> (\<exists>e \<in> set ?L. fst e = ?k)"
    using that in_range_map [OF assms(1), of ?k _ form] by (cases "fmlookup form ?k") (force simp: Values_Get_def values_of_def)+
  moreover have "get (fst empty_item) = []" using get by (auto simp: batch_fields_def empty_item_def)
  ultimately show "get (fst (batch_item_of items idx)) = Values_Get form ?k" by auto
qed

lemma batch_out_run:
  assumes "\<forall>idx \<in> set keys. Itoa idx |\<in>| fmdom items"
  shows "\<exists>out. batch_out ord items n keys = Inr out \<and> length out = length keys \<and>
    (\<forall>i < length keys. \<exists>m. out ! i = finish_entry ord m (batch_item_of items (Itoa (keys ! i))))"
  using assms
proof (induction keys arbitrary: n)
  case (Cons idx keys)
  obtain item where item: "fmlookup items (Itoa idx) = Some item" using Cons.prems by (auto simp: fmdom_fmap_Some)
  obtain out where out: "batch_out ord items (n + 2) keys = Inr out" "length out = length keys"
    "\<forall>i < length keys. \<exists>m. out ! i = finish_entry ord m (batch_item_of items (Itoa (keys ! i)))"
    using Cons.IH [of "n + 2"] Cons.prems by auto
  have "batch_out ord items n (idx # keys) = Inr (finish_entry ord n item # out)" using out(1) item by simp
  moreover have "item = batch_item_of items (Itoa idx)" by (simp add: batch_item_of_def item)
  ultimately show ?case using out(2,3) by (auto simp: nth_Cons split: nat.split)
qed simp

lemma batch_out_panic: "Itoa idx |\<notin>| fmdom items \<Longrightarrow> idx \<in> set keys \<Longrightarrow> batch_out ord items n keys = Inl (Panic ''nil pointer dereference'')"
  by (induction keys arbitrary: n) (auto simp: fmdom_notD split: option.split sum.split)

lemma Itoa_dot: "CHR ''.'' \<notin> set (Itoa n)"
  using digits_no_dot [of "nat n"] digits_no_dot [of "nat (- n)"] by (auto simp: Itoa_def)

lemma finish_get: "(name, get) \<in> set batch_fields \<Longrightarrow> get (finish_entry ord n item) = get (fst item)"
  by (cases item) (auto simp: batch_fields_def finish_entry_def)

lemma Atoi_dot:
  assumes "Atoi idx = Some n"
  shows "CHR ''.'' \<notin> set idx" "in_int64 n"
proof -
  have dot: "digit_value 10 (CHR ''.'') = None" by code_simp
  have digits: "digits_value 10 acc ds = Some m \<Longrightarrow> CHR ''.'' \<notin> set ds" for acc ds m
    by (induction ds arbitrary: acc) (auto simp: dot split: option.splits)
  show "CHR ''.'' \<notin> set idx" "in_int64 n"
    using assms by (auto simp: Atoi_def Let_def dot split: list.splits if_splits option.splits dest: digits)
qed

lemma in_map_filter: "a \<in> set (List.map_filter g xs) \<longleftrightarrow> (\<exists>x \<in> set xs. g x = Some a)"
  by (force simp: List.map_filter_def)

lemma distinct_map_filter:
  "distinct xs \<Longrightarrow> (\<And>x y a. x \<in> set xs \<Longrightarrow> y \<in> set xs \<Longrightarrow> g x = Some a \<Longrightarrow> g y = Some a \<Longrightarrow> x = y) \<Longrightarrow>
   distinct (List.map_filter g xs)"
proof (induction xs)
  case (Cons x xs)
  have "distinct (List.map_filter g xs)" using Cons by auto
  moreover have "a \<notin> set (List.map_filter g xs)" if "g x = Some a" for a
    using that Cons.prems by (auto simp: in_map_filter)
  ultimately show ?case by (simp add: List.map_filter_simps split: option.split)
qed (simp add: List.map_filter_simps)

text \<open>C39: The entries of a batch come out in the numerical order of their indices, one per index, each with the fields
  that the form has under its index, in whatever order the server ranges over the form; indices that are no numbers
  are dropped.  This needs every numeric index to be written without leading zeros or a plus sign.\<close>

theorem batch_entries_read:
  assumes "\<And>n. fair (ord n)" "\<And>idx n. batch_index form idx \<Longrightarrow> Atoi idx = Some n \<Longrightarrow> idx = Itoa n"
  shows "\<exists>keys entries. parseBatchEntries ord form = Inr entries \<and> sorted_wrt (<) keys \<and>
    set keys = {n. in_int64 n \<and> batch_index form (Itoa n)} \<and> length entries = length keys \<and>
    (\<forall>i < length keys. \<forall>(name, get) \<in> set batch_fields.
      get (entries ! i) = Values_Get form (batch_key (Itoa (keys ! i)) name))"
proof -
  define items where "items = fold batch_step (range_map (ord 0) form) fmempty"
  define found where "found = List.map_filter (\<lambda>e. Atoi (fst e)) (range_map (ord 1) items)"
  note stored = batch_items [OF assms(1) [of 0], where form = form, folded items_def]
  have own: "fst e = Itoa n" if "e \<in> set (range_map (ord 1) items)" "Atoi (fst e) = Some n" for e n
    using that assms(2) [of "fst e" n] stored(1) [OF Atoi_dot(1)] in_range_map [OF assms(1)]
    by (metis fmdomI prod.collapse)
  have "distinct found" unfolding found_def
  proof (rule distinct_map_filter)
    show "distinct (range_map (ord 1) items)" using distinct_range_map [OF assms(1)] by (metis distinct_map)
    fix x y a
    assume "x \<in> set (range_map (ord 1) items)" "y \<in> set (range_map (ord 1) items)" "Atoi (fst x) = Some a" "Atoi (fst y) = Some a"
    then show "x = y" using own in_range_map [OF assms(1)] by (metis option.inject prod.collapse)
  qed
  then have sorted: "sorted_wrt (<) (sort found)" by (simp add: strict_sorted_iff)
  have set: "set found = {n. in_int64 n \<and> batch_index form (Itoa n)}"
  proof -
    have "n \<in> set found \<longleftrightarrow> in_int64 n \<and> Itoa n |\<in>| fmdom items" for n
      unfolding found_def in_map_filter
      using own in_range_map [OF assms(1), where m = items] Atoi_dot(2) Atoi_Itoa
      by (auto simp: fmdom_fmap_Some) (metis fst_conv prod.collapse)+
    then show ?thesis using stored(1) [OF Itoa_dot] by blast
  qed
  obtain entries where out: "batch_out ord items 2 (sort found) = Inr entries" "length entries = length (sort found)"
    "\<forall>i < length (sort found). \<exists>m. entries ! i = finish_entry ord m (batch_item_of items (Itoa (sort found ! i)))"
    using batch_out_run [of "sort found" items ord 2] set stored(1) [OF Itoa_dot] by auto
  have "parseBatchEntries ord form = Inr entries"
    using out(1) by (simp add: parseBatchEntries_def Let_def items_def found_def)
  moreover have "get (entries ! i) = Values_Get form (batch_key (Itoa (sort found ! i)) name)"
    if "i < length (sort found)" "(name, get) \<in> set batch_fields" for i name get
    using out(3) that stored(2) [OF Itoa_dot that(2)] by (metis finish_get)
  ultimately show ?thesis using sorted set out(2) by (intro exI [of _ "sort found"] exI [of _ entries]) auto
qed

text \<open>An index such as \<open>01\<close> alone makes the server dereference a nil pointer.\<close>

theorem odd_batch_index_panics:
  assumes "\<And>n. fair (ord n)" "batch_index form idx" "Atoi idx = Some n" "\<not> batch_index form (Itoa n)"
  shows "parseBatchEntries ord form = Inl (Panic ''nil pointer dereference'')"
proof -
  define items where "items = fold batch_step (range_map (ord 0) form) fmempty"
  note stored = batch_items(1) [OF assms(1) [of 0], where form = form, folded items_def]
  obtain item where "fmlookup items idx = Some item" using stored [of idx] assms(2) by (auto simp: batch_index_def fmdom_fmap_Some)
  then have "(idx, item) \<in> set (range_map (ord 1) items)" by (simp add: in_range_map assms(1))
  then have "n \<in> set (sort (List.map_filter (\<lambda>e. Atoi (fst e)) (range_map (ord 1) items)))"
    using assms(3) by (force simp: in_map_filter)
  moreover have "Itoa n |\<notin>| fmdom items" using stored [OF Itoa_dot] assms(4) by simp
  ultimately show ?thesis by (simp add: parseBatchEntries_def Let_def items_def batch_out_panic)
qed

subsection \<open>Examples\<close>

definition sample_base :: url_values where
  "sample_base = fmap_of_list [(''Action'', [''CreateTopic'']), (''Name'', [''t''])]"

definition sample_form :: url_values where
  "sample_form = with_entries ''Attributes.entry.'' ''.key'' ''.value'' [(''DisplayName'', ''a&b'')]
     (with_entries ''Tags.member.'' ''.Key'' ''.Value'' [(''env'', ''dev'')] sample_base)"

lemma sample_form_ok: "form_ok sample_form"
proof -
  have "fmlookup sample_form k \<noteq> Some []" for k
    by (simp add: sample_form_def sample_base_def with_entries_def fmlookup_of_list)
  moreover have "length (value_pairs sample_form) \<le> max_params" by code_simp
  ultimately show ?thesis by (simp add: form_ok_def)
qed

theorem attributes_and_tags_read_witness:
  "parseAttributes (\<lambda>_. rev) (fst (ParseQuery (Values_Encode sample_form))) = fmap_of_list [(''DisplayName'', ''a&b'')] \<and>
   parseTags (\<lambda>_. rev) (fst (ParseQuery (Values_Encode sample_form))) = fmap_of_list [(''env'', ''dev'')]"
  by (rule attributes_and_tags_read [OF _ _ _ _ _ _ sample_form_def sample_form_ok])
    (auto simp: sample_base_def HasPrefix_def fset_of_list_elem)

definition sample_batch :: url_values where
  "sample_batch = fmap_of_list
     [(batch_key ''10'' ''Id'', [''b'']), (batch_key ''2'' ''Id'', [''a'']), (batch_key ''2'' ''Message'', [''hello''])]"

theorem batch_entries_read_witness:
  "\<exists>keys entries. parseBatchEntries (\<lambda>_. rev) sample_batch = Inr entries \<and> sorted_wrt (<) keys \<and>
    set keys = {n. in_int64 n \<and> batch_index sample_batch (Itoa n)} \<and> length entries = length keys \<and>
    (\<forall>i < length keys. \<forall>(name, get) \<in> set batch_fields.
      get (entries ! i) = Values_Get sample_batch (batch_key (Itoa (keys ! i)) name))"
proof (rule batch_entries_read)
  fix idx n
  assume a: "batch_index sample_batch idx" "Atoi idx = Some n"
  have "idx = ''10'' \<or> idx = ''2''"
    using a(1) by (auto simp: batch_index_def sample_batch_def batch_key_eq)
  moreover have "Atoi ''10'' = Some 10" "Atoi ''2'' = Some 2" "Itoa 10 = ''10''" "Itoa 2 = ''2''" by code_simp+
  ultimately show "idx = Itoa n" using a(2) by auto
qed simp

end
