(* ===== verification/Service.thy ===== *)
theory Service
  imports Service_Base
begin

text \<open>
  The operations of the service (\<^verbatim>\<open>internal/service/service.go\<close> and the job construction of
  \<^verbatim>\<open>worker.go\<close>), one definition per Go function, each with its guards and early returns in the order
  of the source.  Maps whose \<^verbatim>\<open>range\<close> order can be observed are lists of entries.
\<close>

subsection \<open>Authorization\<close>

definition authorizeTopic :: "Identity \<Rightarrow> Topic \<Rightarrow> string \<Rightarrow> unit res" where
  "authorizeTopic identity topic action =
     (case Evaluate (TA_Policy (Topic_Attributes topic))
             \<lparr>Req_Principal = Id_AccountID identity, Req_ServicePrincipal = [], Req_Action = action,
              Req_Resource = Topic_ARN topic,
              Req_Context = fmap_of_list [(''AWS:SourceOwner'', Id_AccountID identity)]\<rparr>
             (Topic_Owner topic) of
        Inl _ \<Rightarrow> Inl (NewInvalidParameter ''Invalid topic policy'')
      | Inr allowed \<Rightarrow> if allowed then Inr () else Inl (NewAuthorization ''Access denied''))"

subsection \<open>Attributes\<close>

definition unsupported_attributes :: "string list" where
  "unsupported_attributes =
     [''KmsMasterKeyId'',
      ''HTTPSuccessFeedbackRoleArn'', ''HTTPSuccessFeedbackSampleRate'', ''HTTPFailureFeedbackRoleArn'',
      ''SQSSuccessFeedbackRoleArn'', ''SQSSuccessFeedbackSampleRate'', ''SQSFailureFeedbackRoleArn'',
      ''LambdaSuccessFeedbackRoleArn'', ''LambdaSuccessFeedbackSampleRate'', ''LambdaFailureFeedbackRoleArn'',
      ''FirehoseSuccessFeedbackRoleArn'', ''FirehoseSuccessFeedbackSampleRate'', ''FirehoseFailureFeedbackRoleArn'',
      ''ApplicationSuccessFeedbackRoleArn'', ''ApplicationSuccessFeedbackSampleRate'', ''ApplicationFailureFeedbackRoleArn'']"

definition invalid_attribute :: "string \<Rightarrow> go_error" where
  "invalid_attribute name = NewInvalidParameter (''Invalid parameter: '' @ name)"

text \<open>One pass of the loop of \<^verbatim>\<open>applyTopicAttributes\<close>.\<close>

definition applyTopicAttribute :: "bool \<Rightarrow> string \<Rightarrow> string \<Rightarrow> TopicAttributes \<Rightarrow> TopicAttributes res" where
  "applyTopicAttribute creating name v a =
     (if name = ''Policy'' then
        (if is_err (Parse v) then Inl (invalid_attribute ''Policy'') else Inr (a\<lparr>TA_Policy := v\<rparr>))
      else if name = ''DeliveryPolicy'' then
        (if is_err (ValidateTopicPolicy v) then Inl (invalid_attribute ''DeliveryPolicy'')
         else Inr (a\<lparr>TA_DeliveryPolicy := v\<rparr>))
      else if name = ''FifoTopic'' then
        (if \<not> creating then Inl (NewInvalidParameter ''FifoTopic can only be specified at topic creation time'')
         else Inr (a\<lparr>TA_FifoTopic := EqualFold v ''true''\<rparr>))
      else if name = ''ContentBasedDeduplication'' then
        (if \<not> TA_FifoTopic a
         then Inl (NewInvalidParameter ''ContentBasedDeduplication is only valid for FIFO topics'')
         else Inr (a\<lparr>TA_ContentBasedDeduplication := EqualFold v ''true''\<rparr>))
      else if name = ''FifoThroughputScope'' then
        (if \<not> TA_FifoTopic a
         then Inl (NewInvalidParameter ''FifoThroughputScope is only valid for FIFO topics'')
         else if v \<noteq> FifoThroughputTopic \<and> v \<noteq> FifoThroughputMessageGroup
         then Inl (invalid_attribute ''FifoThroughputScope'')
         else if TA_FifoThroughputScope a = FifoThroughputMessageGroup \<and> v = FifoThroughputTopic
         then Inl (NewInvalidParameter ''FifoThroughputScope cannot be reverted from MessageGroup to Topic'')
         else Inr (a\<lparr>TA_FifoThroughputScope := v\<rparr>))
      else if name = ''ArchivePolicy'' then
        (if TrimSpace v \<noteq> [] \<and> \<not> Valid v then Inl (invalid_attribute ''ArchivePolicy'')
         else Inr (a\<lparr>TA_ArchivePolicy := v\<rparr>))
      else if name = ''SignatureVersion'' then
        (if v \<noteq> ''1'' \<and> v \<noteq> ''2'' then Inl (invalid_attribute ''SignatureVersion'')
         else Inr (a\<lparr>TA_SignatureVersion := v\<rparr>))
      else if name = ''TracingConfig'' then
        (if v \<noteq> ''PassThrough'' \<and> v \<noteq> ''Active'' then Inl (invalid_attribute ''TracingConfig'')
         else Inr (a\<lparr>TA_TracingConfig := v\<rparr>))
      else if name = ''DisplayName'' then Inr (a\<lparr>TA_DisplayName := v\<rparr>)
      else if name \<in> set unsupported_attributes then Inr (a\<lparr>TA_Unsupported := fmupd name v (TA_Unsupported a)\<rparr>)
      else if name = ''DataProtectionPolicy'' then Inl (invalid_attribute ''DataProtectionPolicy'')
      else Inl (invalid_attribute name))"

fun applyTopicAttributeList :: "bool \<Rightarrow> string ranged \<Rightarrow> TopicAttributes \<Rightarrow> TopicAttributes res" where
  "applyTopicAttributeList creating [] a = Inr a"
| "applyTopicAttributeList creating ((name, v) # attrs) a =
     (case applyTopicAttribute creating name v a of
        Inl e \<Rightarrow> Inl e
      | Inr a' \<Rightarrow> applyTopicAttributeList creating attrs a')"

definition applyTopicAttributes ::
    "Service \<Rightarrow> Topic \<Rightarrow> string ranged \<Rightarrow> bool \<Rightarrow> world \<Rightarrow> Topic res \<times> world" where
  "applyTopicAttributes svc topic attrs creating w =
     (case applyTopicAttributeList creating attrs (Topic_Attributes topic) of
        Inl e \<Rightarrow> (Inl e, w)
      | Inr a \<Rightarrow> (case now svc w of (t, w') \<Rightarrow> (Inr (topic\<lparr>Topic_Attributes := a, Topic_UpdatedAt := t\<rparr>), w')))"

text \<open>One pass of the loop of \<^verbatim>\<open>applySubscriptionAttributes\<close>.\<close>

definition applySubscriptionAttribute ::
    "string \<Rightarrow> string \<Rightarrow> string \<Rightarrow> SubscriptionAttributes \<Rightarrow> SubscriptionAttributes res" where
  "applySubscriptionAttribute protocol name v a =
     (if name = ''DeliveryPolicy'' then
        (if protocol \<noteq> ProtocolHTTP \<and> protocol \<noteq> ProtocolHTTPS then Inl (invalid_attribute ''DeliveryPolicy'')
         else if is_err (ValidateSubscriptionPolicy v) then Inl (invalid_attribute ''DeliveryPolicy'')
         else Inr (a\<lparr>SA_DeliveryPolicy := v\<rparr>))
      else if name = ''FilterPolicy'' then
        (if TrimSpace v \<noteq> [] \<and> \<not> Valid v then Inl (invalid_attribute ''FilterPolicy'')
         else if is_err (Validate v) then Inl (invalid_attribute ''FilterPolicy'')
         else Inr (a\<lparr>SA_FilterPolicy := v\<rparr>))
      else if name = ''FilterPolicyScope'' then
        (if v \<noteq> FilterScopeMessageAttributes \<and> v \<noteq> FilterScopeMessageBody
         then Inl (invalid_attribute ''FilterPolicyScope'')
         else Inr (a\<lparr>SA_FilterPolicyScope := v\<rparr>))
      else if name = ''RawMessageDelivery'' then Inr (a\<lparr>SA_RawMessageDelivery := EqualFold v ''true''\<rparr>)
      else if name = ''RedrivePolicy'' then
        (if is_err (ParseRedrivePolicy v) then Inl (invalid_attribute ''RedrivePolicy'')
         else Inr (a\<lparr>SA_RedrivePolicy := v\<rparr>))
      else Inl (invalid_attribute name))"

fun applySubscriptionAttributeList ::
    "string \<Rightarrow> string ranged \<Rightarrow> SubscriptionAttributes \<Rightarrow> SubscriptionAttributes res" where
  "applySubscriptionAttributeList protocol [] a = Inr a"
| "applySubscriptionAttributeList protocol ((name, v) # attrs) a =
     (case applySubscriptionAttribute protocol name v a of
        Inl e \<Rightarrow> Inl e
      | Inr a' \<Rightarrow> applySubscriptionAttributeList protocol attrs a')"

definition refreshEffectivePolicy :: "Topic \<Rightarrow> SubscriptionAttributes \<Rightarrow> SubscriptionAttributes" where
  "refreshEffectivePolicy topic a =
     (case EffectivePolicy (TA_DeliveryPolicy (Topic_Attributes topic)) (SA_DeliveryPolicy a) of
        Inl _ \<Rightarrow> a
      | Inr (_, effective) \<Rightarrow> a\<lparr>SA_EffectiveDeliveryPolicy := effective\<rparr>)"

definition applySubscriptionAttributes :: "Subscription \<Rightarrow> Topic \<Rightarrow> string ranged \<Rightarrow> Subscription res" where
  "applySubscriptionAttributes sub topic attrs =
     (case applySubscriptionAttributeList (Sub_Protocol sub) attrs (Sub_Attributes sub) of
        Inl e \<Rightarrow> Inl e
      | Inr a \<Rightarrow> Inr (sub\<lparr>Sub_Attributes := refreshEffectivePolicy topic a\<rparr>))"

subsection \<open>Validation of messages\<close>

fun validateMessageAttributes :: "MessageAttributeValue ranged \<Rightarrow> unit res" where
  "validateMessageAttributes [] = Inr ()"
| "validateMessageAttributes ((key, v) # attrs) =
     (if HasPrefix (ToLower key) ''aws.'' \<or> HasPrefix (ToLower key) ''amazon.''
      then Inl (NewInvalidParameter ''Message attribute names cannot start with AWS. or Amazon.'')
      else if MA_DataType v \<notin> set [''String'', ''String.Array'', ''Number'', ''Binary'']
      then Inl (NewInvalidParameter ''Invalid message attribute type'')
      else validateMessageAttributes attrs)"

definition wrap_invalid :: "unit res \<Rightarrow> unit res" where
  "wrap_invalid r = (case r of Inl e \<Rightarrow> Inl (NewInvalidParameter (error_text e)) | Inr u \<Rightarrow> Inr u)"

definition validateGroup :: "Topic \<Rightarrow> PublishInput \<Rightarrow> unit res" where
  "validateGroup topic input =
     (if TA_FifoTopic (Topic_Attributes topic) then
        (case wrap_invalid (ValidateFIFOIdentifier (PI_MessageGroupID input) ''MessageGroupId'') of
           Inl e \<Rightarrow> Inl e
         | Inr _ \<Rightarrow>
             if \<not> TA_ContentBasedDeduplication (Topic_Attributes topic)
             then wrap_invalid (ValidateFIFOIdentifier (PI_MessageDeduplicationID input) ''MessageDeduplicationId'')
             else Inr ())
      else if PI_MessageGroupID input \<noteq> []
      then wrap_invalid (ValidateFIFOIdentifier (PI_MessageGroupID input) ''MessageGroupId'')
      else Inr ())"

definition validatePublishInput :: "Topic \<Rightarrow> PublishInput \<Rightarrow> unit res" where
  "validatePublishInput topic input =
     (if length (PI_Message input) = 0 \<or> length (PI_Message input) > 262144
      then Inl (NewInvalidParameter ''Invalid parameter: Message'')
      else if PI_MessageStructure input \<noteq> [] \<and> PI_MessageStructure input \<noteq> ''json''
      then Inl (NewInvalidParameter ''Invalid parameter: MessageStructure'')
      else if PI_MessageStructure input = ''json'' \<and> length (PI_MessageAttributes input) > 0
      then Inl (NewInvalidParameter ''Message attributes are only supported when MessageStructure is String'')
      else case validateGroup topic input of
             Inl e \<Rightarrow> Inl e
           | Inr _ \<Rightarrow>
               if PI_Subject input \<noteq> [] \<and>
                  (length (PI_Subject input) \<ge> 100 \<or> CHR 0x0D \<in> set (PI_Subject input) \<or> CHR 0x0A \<in> set (PI_Subject input))
               then Inl (NewInvalidParameter ''Invalid parameter: Subject'')
               else validateMessageAttributes (PI_MessageAttributes input))"

text \<open>The message per protocol.  Members that are not strings are dropped.\<close>

definition lookup_message :: "(string \<times> string) list \<Rightarrow> string \<Rightarrow> string" where
  "lookup_message m k = (case map_of m k of None \<Rightarrow> [] | Some v \<Rightarrow> v)"

definition resolveProtocolMessages :: "string \<Rightarrow> string \<Rightarrow> (string \<times> string) list res" where
  "resolveProtocolMessages message structure =
     (if structure = [] then Inr [(''default'', message)]
      else case unmarshal (\<lambda>j _. decode_any_map j) message None of
             Inl _ \<Rightarrow> Inl (Plain ''Invalid parameter: Message'')
           | Inr payload \<Rightarrow>
               let result = List.map_filter (\<lambda>(k, v). case v of AStr s \<Rightarrow> Some (k, s) | _ \<Rightarrow> None)
                              (case payload of None \<Rightarrow> [] | Some m \<Rightarrow> m)
               in if lookup_message result ''default'' = [] then Inl (Plain ''Invalid parameter: Message'')
                  else Inr result)"

subsection \<open>Delivery attempts and jobs\<close>

definition action_url :: "Service \<Rightarrow> string \<Rightarrow> string" where
  "action_url svc query = TrimRight (BaseURL (cfg svc)) (CHR ''/'') @ ''/?Action='' @ query"

definition buildNotificationAttempt ::
    "Service \<Rightarrow> Topic \<Rightarrow> Subscription \<Rightarrow> string \<Rightarrow> PublishInput \<Rightarrow> string \<Rightarrow> string \<Rightarrow> string \<Rightarrow> world \<Rightarrow>
     (DeliveryAttempt \<times> string) res \<times> world" where
  "buildNotificationAttempt svc topic sub protocolMessage input messageID dedupID sequenceNumber w =
     (case EffectivePolicy (TA_DeliveryPolicy (Topic_Attributes topic)) (SA_DeliveryPolicy (Sub_Attributes sub)) of
        Inl e \<Rightarrow> (Inl e, w)
      | Inr (_, effectiveJSON) \<Rightarrow>
          (case now svc w of (t, w') \<Rightarrow>
             (Inr (\<lparr>Att_Subscription = sub, Att_Topic = topic, Att_MessageID = messageID,
                    Att_Subject = PI_Subject input, Att_Message = PI_Message input,
                    Att_ProtocolMessage = protocolMessage, Att_Timestamp = t, Att_Type = ''Notification'',
                    Att_Token = [], Att_SubscribeURL = [],
                    Att_UnsubscribeURL = action_url svc (''Unsubscribe&SubscriptionArn='' @ Sub_ARN sub),
                    Att_SignatureVersion = TA_SignatureVersion (Topic_Attributes topic), Att_Signature = [],
                    Att_SigningCertURL = Prov_SigningCertURL (signer svc) (BaseURL (cfg svc)),
                    Att_MessageAttributes = PI_MessageAttributes input, Att_GroupID = PI_MessageGroupID input,
                    Att_DeduplicationID = dedupID, Att_SequenceNumber = sequenceNumber, Att_Headers = fmempty\<rparr>,
                   effectiveJSON), w')))"

definition confirmation_message :: "Subscription \<Rightarrow> string \<Rightarrow> string" where
  "confirmation_message sub messageType =
     (if messageType = ''UnsubscribeConfirmation''
      then ''You have chosen to deactivate subscription '' @ Sub_ARN sub @ ''.'' @ [CHR 0x0A] @
           ''To cancel this operation and restore the subscription, visit the SubscribeURL included in this message.''
      else ''You have chosen to subscribe to the topic. To confirm the subscription, visit the SubscribeURL included in this message.'')"

definition buildConfirmationAttempt ::
    "Service \<Rightarrow> Topic \<Rightarrow> Subscription \<Rightarrow> ConfirmationToken \<Rightarrow> string \<Rightarrow> world \<Rightarrow>
     (DeliveryAttempt \<times> string) res \<times> world" where
  "buildConfirmationAttempt svc topic sub token messageType w =
     (case EffectivePolicy (TA_DeliveryPolicy (Topic_Attributes topic)) (SA_DeliveryPolicy (Sub_Attributes sub)) of
        Inl e \<Rightarrow> (Inl e, w)
      | Inr (_, effectiveJSON) \<Rightarrow>
          (case newUUID svc w of (messageID, w1) \<Rightarrow>
           case now svc w1 of (t, w2) \<Rightarrow>
             (Inr (\<lparr>Att_Subscription = sub, Att_Topic = topic, Att_MessageID = messageID,
                    Att_Subject = [], Att_Message = [], Att_ProtocolMessage = confirmation_message sub messageType,
                    Att_Timestamp = t, Att_Type = messageType, Att_Token = Tok_Token token,
                    Att_SubscribeURL =
                      action_url svc (''ConfirmSubscription&TopicArn='' @ Topic_ARN topic @ ''&Token='' @ Tok_Token token),
                    Att_UnsubscribeURL = [],
                    Att_SignatureVersion = TA_SignatureVersion (Topic_Attributes topic), Att_Signature = [],
                    Att_SigningCertURL = Prov_SigningCertURL (signer svc) (BaseURL (cfg svc)),
                    Att_MessageAttributes = [], Att_GroupID = [], Att_DeduplicationID = [],
                    Att_SequenceNumber = [], Att_Headers = fmempty\<rparr>,
                   effectiveJSON), w2)))"

definition payloadFromAttempt :: "DeliveryAttempt \<Rightarrow> DeliveryJobPayload" where
  "payloadFromAttempt attempt =
     \<lparr>Pay_Type = Att_Type attempt, Pay_TopicARN = Topic_ARN (Att_Topic attempt),
      Pay_TopicOwner = Topic_Owner (Att_Topic attempt), Pay_SubscriptionARN = Sub_ARN (Att_Subscription attempt),
      Pay_Protocol = Sub_Protocol (Att_Subscription attempt), Pay_Endpoint = Sub_Endpoint (Att_Subscription attempt),
      Pay_MessageID = Att_MessageID attempt, Pay_Subject = Att_Subject attempt, Pay_Message = Att_Message attempt,
      Pay_ProtocolMessage = Att_ProtocolMessage attempt, Pay_Timestamp = Att_Timestamp attempt,
      Pay_Token = Att_Token attempt, Pay_SubscribeURL = Att_SubscribeURL attempt,
      Pay_UnsubscribeURL = Att_UnsubscribeURL attempt, Pay_SignatureVersion = Att_SignatureVersion attempt,
      Pay_Signature = Att_Signature attempt, Pay_SigningCertURL = Att_SigningCertURL attempt,
      Pay_MessageAttributes = cloneMessageAttributes (Att_MessageAttributes attempt),
      Pay_GroupID = Att_GroupID attempt, Pay_DeduplicationID = Att_DeduplicationID attempt,
      Pay_SequenceNumber = Att_SequenceNumber attempt, Pay_Headers = Att_Headers attempt\<rparr>"

text \<open>\<^verbatim>\<open>prepareDeliveryJob\<close>; it never fails, an error of the signer leaves the signature empty.\<close>

definition prepareDeliveryJob ::
    "Service \<Rightarrow> string \<Rightarrow> DeliveryAttempt \<Rightarrow> string \<Rightarrow> bool \<Rightarrow> string \<Rightarrow> world \<Rightarrow> DeliveryJob \<times> world" where
  "prepareDeliveryJob svc kind attempt effectivePolicyJSON raw redrivePolicy w =
     (let attempt = (case Sign (signer svc) attempt of Inl _ \<Rightarrow> attempt | Inr sig \<Rightarrow> attempt\<lparr>Att_Signature := sig\<rparr>) in
      case now svc w of (t, w1) \<Rightarrow>
      case newUUID svc w1 of (jobID, w2) \<Rightarrow>
        (\<lparr>Job_ID = jobID, Job_Kind = kind, Job_Payload = payloadFromAttempt attempt,
          Job_EffectiveDeliveryJSON = effectivePolicyJSON, Job_RawMessageDelivery = raw,
          Job_RedrivePolicy = redrivePolicy, Job_AttemptCount = 0, Job_NextAttemptAt = t, Job_LastError = [],
          Job_CreatedAt = t, Job_UpdatedAt = t\<rparr>, w2))"

subsection \<open>SQS\<close>

definition sqsCall :: "SqsCall \<Rightarrow> (nat \<Rightarrow> 'a res) \<Rightarrow> 'a M" where
  "sqsCall call answer s w = (answer (length (W_sqs w)), s, w\<lparr>W_sqs := W_sqs w @ [call]\<rparr>)"

definition attemptM :: "(world \<Rightarrow> 'a res \<times> world) \<Rightarrow> 'a M" where
  "attemptM f s w = (case f w of (r, w') \<Rightarrow> (r, s, w'))"

text \<open>\<^verbatim>\<open>json.Marshal\<close> of a Go map: the members come in key order.\<close>

definition json_map :: "(string \<times> json) list \<Rightarrow> json" where
  "json_map ms = json_object (sort_key fst ms)"

definition json_attribute :: "MessageAttributeValue \<Rightarrow> json" where
  "json_attribute v =
     json_object
       [(''DataType'', json_string (MA_DataType v)), (''StringValue'', json_string (MA_StringValue v)),
        (''BinaryValue'', case MA_BinaryValue v of None \<Rightarrow> JNull | Some b \<Rightarrow> json_string (b64_std_encode b))]"

definition sqs_envelope ::
    "Service \<Rightarrow> Topic \<Rightarrow> Subscription \<Rightarrow> string \<Rightarrow> PublishInput \<Rightarrow> string \<Rightarrow> time \<Rightarrow> string \<Rightarrow> (string \<times> json) list" where
  "sqs_envelope svc topic sub protocolMessage input messageID t signature =
     [(''Type'', json_string ''Notification''), (''MessageId'', json_string messageID),
      (''TopicArn'', json_string (Topic_ARN topic)), (''Message'', json_string protocolMessage),
      (''Timestamp'', json_string (DefaultTimestamp t)),
      (''SignatureVersion'', json_string (TA_SignatureVersion (Topic_Attributes topic))),
      (''Signature'', json_string signature),
      (''SigningCertURL'', json_string (Prov_SigningCertURL (signer svc) (BaseURL (cfg svc)))),
      (''UnsubscribeURL'', json_string (action_url svc (''Unsubscribe&SubscriptionArn='' @ Sub_ARN sub))),
      (''SubscriptionArn'', json_string (Sub_ARN sub))] @
     (if PI_Subject input \<noteq> [] then [(''Subject'', json_string (PI_Subject input))] else []) @
     (if length (PI_MessageAttributes input) > 0
      then [(''MessageAttributes'', json_map (map (\<lambda>(k, v). (k, json_attribute v)) (PI_MessageAttributes input)))]
      else [])"

text \<open>The body of an SQS message that is not raw: the attempt is signed, then the clock is read
  again for the timestamp of the envelope.\<close>

definition sqs_body ::
    "Service \<Rightarrow> Topic \<Rightarrow> Subscription \<Rightarrow> string \<Rightarrow> PublishInput \<Rightarrow> string \<Rightarrow> string \<Rightarrow> string \<Rightarrow> world \<Rightarrow> string \<times> world" where
  "sqs_body svc topic sub protocolMessage input messageID dedupID sequenceNumber w =
     (case buildNotificationAttempt svc topic sub protocolMessage input messageID dedupID sequenceNumber w of (r, w1) \<Rightarrow>
        let signature = (case r of
                           Inl _ \<Rightarrow> []
                         | Inr (attempt, _) \<Rightarrow> (case Sign (signer svc) attempt of Inl _ \<Rightarrow> [] | Inr sig \<Rightarrow> sig))
        in case now svc w1 of (t, w2) \<Rightarrow>
             (print_json (json_map (sqs_envelope svc topic sub protocolMessage input messageID t signature)), w2))"

definition deliverToSQS ::
    "Service \<Rightarrow> Topic \<Rightarrow> Subscription \<Rightarrow> string \<Rightarrow> PublishInput \<Rightarrow> string \<Rightarrow> string \<Rightarrow> string \<Rightarrow> unit M" where
  "deliverToSQS svc topic sub protocolMessage input messageID dedupID sequenceNumber =
     (case sqsClient svc of
        None \<Rightarrow> throwM (Plain ''sqs adapter not configured'')
      | Some client \<Rightarrow>
          bindM (sqsCall (CallAllows (Sub_Endpoint sub) (Topic_ARN topic) (Topic_Owner topic))
                   (\<lambda>n. QueueAllowsTopic client n (Sub_Endpoint sub) (Topic_ARN topic) (Topic_Owner topic))) (\<lambda>allowed.
          bindM (guardM allowed (NewAuthorization ''Queue policy does not allow SNS delivery'')) (\<lambda>_.
          bindM (if \<not> SA_RawMessageDelivery (Sub_Attributes sub)
                 then bindM (worldM (sqs_body svc topic sub protocolMessage input messageID dedupID sequenceNumber))
                        (\<lambda>body. returnM (body, []))
                 else bindM (guardM (length (PI_MessageAttributes input) \<le> 10)
                               (NewInvalidParameter ''Raw SQS delivery supports at most 10 message attributes''))
                        (\<lambda>_. returnM (protocolMessage, PI_MessageAttributes input))) (\<lambda>(body, attrs).
          let req = \<lparr>SR_QueueARN = Sub_Endpoint sub, SR_Body = body, SR_MessageAttributes = attrs,
                     SR_MessageGroupID = PI_MessageGroupID input, SR_MessageDeduplicationID = dedupID\<rparr>
          in sqsCall (CallSend req) (\<lambda>n. SendMessage client n req)))))"

text \<open>\<^verbatim>\<open>redrivePayload\<close> of \<^verbatim>\<open>worker.go\<close>: the message goes to the dead-letter queue; whether it
  arrived is not looked at.\<close>

definition redrive_envelope :: "DeliveryJobPayload \<Rightarrow> (string \<times> json) list" where
  "redrive_envelope payload =
     [(''Type'', json_string ''Notification''), (''MessageId'', json_string (Pay_MessageID payload)),
      (''TopicArn'', json_string (Pay_TopicARN payload)), (''Message'', json_string (Pay_ProtocolMessage payload)),
      (''Timestamp'', json_string (DefaultTimestamp (Pay_Timestamp payload))),
      (''SubscriptionArn'', json_string (Pay_SubscriptionARN payload))]"

definition redrivePayload :: "Service \<Rightarrow> DeliveryJobPayload \<Rightarrow> string \<Rightarrow> unit M" where
  "redrivePayload svc payload redrivePolicy =
     (case sqsClient svc of
        None \<Rightarrow> returnM ()
      | Some client \<Rightarrow>
          if redrivePolicy = [] then returnM ()
          else case ParseRedrivePolicy redrivePolicy of
                 Inl _ \<Rightarrow> returnM ()
               | Inr rp \<Rightarrow>
                   if RDP_DeadLetterTargetArn rp = [] then returnM ()
                   else let req = \<lparr>SR_QueueARN = RDP_DeadLetterTargetArn rp,
                                   SR_Body = print_json (json_map (redrive_envelope payload)),
                                   SR_MessageAttributes = [], SR_MessageGroupID = Pay_GroupID payload,
                                   SR_MessageDeduplicationID = Pay_DeduplicationID payload\<rparr>
                        in tryM (sqsCall (CallSend req) (\<lambda>n. SendMessage client n req)) (\<lambda>_. returnM ()))"

end
