(* ===== verification/Service_Ops.thy ===== *)
theory Service_Ops
  imports Service
begin

text \<open>
  The API operations of the service (\<^verbatim>\<open>internal/service/service.go\<close>), from \<^verbatim>\<open>CreateTopic\<close> to
  \<^verbatim>\<open>PublishBatch\<close>, on the memory store.
\<close>

subsection \<open>Access to the store\<close>

text \<open>An update whose callback returns no captured value, and one that only looks at the record.\<close>

definition plainUpdate :: "('t \<Rightarrow> 't) \<Rightarrow> ('t, unit, world) callback" where
  "plainUpdate f t w = (Inr (f t, ()), w)"

definition topicM :: "string \<Rightarrow> Topic M" where
  "topicM topicARN = mapErr (\<lambda>_. NewNotFound ''Topic does not exist'') (readM (\<lambda>s. getTopic s topicARN))"

definition subscriptionM :: "string \<Rightarrow> Subscription M" where
  "subscriptionM arn = mapErr (\<lambda>_. NewNotFound ''Subscription does not exist'') (readM (\<lambda>s. getSubscription s arn))"

definition tagLimitExceeded :: go_error where
  "tagLimitExceeded = mkAPIError ''TagLimitExceeded'' 400 ''Can't add more than 50 tags to a topic.''"

definition pageSize :: "Service \<Rightarrow> int" where
  "pageSize svc = (if PageSize (cfg svc) \<le> 0 then 100 else PageSize (cfg svc))"

definition SetBaseURL :: "Service \<Rightarrow> string \<Rightarrow> Service" where
  "SetBaseURL svc baseURL = svc\<lparr>cfg := (cfg svc)\<lparr>BaseURL := TrimRight baseURL (CHR ''/'')\<rparr>\<rparr>"

definition SortedTags :: "(string, string) fmap \<Rightarrow> (string \<times> string) list" where
  "SortedTags tags = List.map_filter (\<lambda>k. map_option (\<lambda>v. (k, v)) (fmlookup tags k)) (sorted_keys tags)"

subsection \<open>Topics\<close>

definition attribute_lookup :: "string ranged \<Rightarrow> string \<Rightarrow> string" where
  "attribute_lookup attrs k = (case map_of attrs k of None \<Rightarrow> [] | Some v \<Rightarrow> v)"

definition new_topic :: "Service \<Rightarrow> string \<Rightarrow> bool \<Rightarrow> (string, string) fmap \<Rightarrow> time \<Rightarrow> Topic" where
  "new_topic svc name fifo tags t =
     \<lparr>Topic_ARN = FormatARN ''sns'' (Region (cfg svc)) (AccountID (cfg svc)) name, Topic_Name = name,
      Topic_Owner = AccountID (cfg svc), Topic_Region = Region (cfg svc), Topic_CreatedAt = t, Topic_UpdatedAt = t,
      Topic_Attributes =
        \<lparr>TA_DeliveryPolicy = [],
         TA_Policy = DefaultTopicPolicy (FormatARN ''sns'' (Region (cfg svc)) (AccountID (cfg svc)) name)
                       (AccountID (cfg svc)),
         TA_DisplayName = [], TA_SignatureVersion = ''1'', TA_TracingConfig = ''PassThrough'', TA_ArchivePolicy = [],
         TA_FifoTopic = fifo, TA_ContentBasedDeduplication = False, TA_FifoThroughputScope = FifoThroughputTopic,
         TA_Unsupported = fmempty\<rparr>,
      Topic_Tags = tags, Topic_Subscriptions = {||}, Topic_GroupSequences = fmempty, Topic_DedupRecords = fmempty,
      Topic_ConfirmedCount = 0, Topic_DeletedCount = 0, Topic_PendingCount = 0\<rparr>"

text \<open>\<^verbatim>\<open>CreateTopic\<close> returns the topic and whether it existed.  The existing topic is a pointer, nil
  when the name index is stale.\<close>

definition CreateTopic ::
    "Service \<Rightarrow> Identity \<Rightarrow> string \<Rightarrow> string ranged \<Rightarrow> (string, string) fmap \<Rightarrow> (Topic option \<times> bool) M" where
  "CreateTopic svc identity name attrs tags =
     (let fifo = EqualFold (attribute_lookup attrs ''FifoTopic'') ''true'' in
      bindM (resM (wrap_invalid (ValidateTopicName name fifo))) (\<lambda>_.
      tryM (readM (\<lambda>s. findTopicByName s name)) (\<lambda>found.
        case found of
          Inr existing \<Rightarrow> returnM (existing, True)
        | Inl _ \<Rightarrow>
            bindM (worldM (now svc)) (\<lambda>t.
            bindM (attemptM (applyTopicAttributes svc (new_topic svc name fifo tags t) attrs True)) (\<lambda>topic.
            bindM (guardM (\<not> size (fmdom (Topic_Tags topic)) > 50) tagLimitExceeded) (\<lambda>_.
            bindM (Store_CreateTopic topic) (\<lambda>_. returnM (Some topic, False))))))))"

text \<open>\<^verbatim>\<open>DeleteTopic\<close> reports success whatever the store says, and asks no policy.\<close>

definition DeleteTopic :: "Identity \<Rightarrow> string \<Rightarrow> unit M" where
  "DeleteTopic identity topicARN = tryM (Store_DeleteTopic topicARN) (\<lambda>_. returnM ())"

definition authorizedTopic :: "Identity \<Rightarrow> string \<Rightarrow> string \<Rightarrow> Topic M" where
  "authorizedTopic identity topicARN action =
     bindM (topicM topicARN) (\<lambda>topic.
     bindM (resM (authorizeTopic identity topic action)) (\<lambda>_. returnM topic))"

definition GetTopic :: "Identity \<Rightarrow> string \<Rightarrow> Topic M" where
  "GetTopic identity topicARN = authorizedTopic identity topicARN ''SNS:GetTopicAttributes''"

definition SetTopicAttribute :: "Service \<Rightarrow> Identity \<Rightarrow> string \<Rightarrow> string \<Rightarrow> string \<Rightarrow> Topic M" where
  "SetTopicAttribute svc identity topicARN name v =
     bindM (authorizedTopic identity topicARN ''SNS:SetTopicAttributes'') (\<lambda>_.
     bindM (Store_UpdateTopic topicARN
              (\<lambda>topic w. case applyTopicAttributes svc topic [(name, v)] False w of
                 (Inl e, w') \<Rightarrow> (Inl e, w')
               | (Inr t, w') \<Rightarrow> (Inr (t, ()), w'))) (\<lambda>(updated, _). returnM updated))"

definition ListTopics :: "Service \<Rightarrow> Identity \<Rightarrow> string \<Rightarrow> (Topic option list \<times> string) M" where
  "ListTopics svc identity nextToken = readM (\<lambda>s. listTopics s nextToken (pageSize svc))"

definition TagTopic :: "Identity \<Rightarrow> string \<Rightarrow> (string, string) fmap \<Rightarrow> unit M" where
  "TagTopic identity topicARN tags =
     bindM (authorizedTopic identity topicARN ''SNS:TagResource'') (\<lambda>topic.
     bindM (guardM (\<not> size (fmdom (Topic_Tags topic)) + size (fmdom tags) > 50) tagLimitExceeded) (\<lambda>_.
     bindM (Store_UpdateTopic topicARN (plainUpdate (\<lambda>topic. topic\<lparr>Topic_Tags := Topic_Tags topic ++\<^sub>f tags\<rparr>)))
       (\<lambda>_. returnM ())))"

definition UntagTopic :: "Identity \<Rightarrow> string \<Rightarrow> string list \<Rightarrow> unit M" where
  "UntagTopic identity topicARN tagKeys =
     bindM (authorizedTopic identity topicARN ''SNS:UntagResource'') (\<lambda>_.
     bindM (Store_UpdateTopic topicARN
              (plainUpdate (\<lambda>topic. topic\<lparr>Topic_Tags := fold fmdrop tagKeys (Topic_Tags topic)\<rparr>)))
       (\<lambda>_. returnM ()))"

definition updatePolicy :: "string \<Rightarrow> string \<Rightarrow> unit M" where
  "updatePolicy topicARN newPolicy =
     bindM (Store_UpdateTopic topicARN
              (plainUpdate (\<lambda>topic. topic\<lparr>Topic_Attributes := (Topic_Attributes topic)\<lparr>TA_Policy := newPolicy\<rparr>\<rparr>)))
       (\<lambda>_. returnM ())"

definition Service_AddPermission :: "Identity \<Rightarrow> string \<Rightarrow> string \<Rightarrow> string list \<Rightarrow> string list \<Rightarrow> unit M" where
  "Service_AddPermission identity topicARN label accountIDs actionNames =
     bindM (authorizedTopic identity topicARN ''SNS:AddPermission'') (\<lambda>topic.
     bindM (resM (case AddPermission (TA_Policy (Topic_Attributes topic)) label accountIDs actionNames topicARN of
                    Inl e \<Rightarrow> Inl (NewInvalidParameter (error_text e))
                  | Inr p \<Rightarrow> Inr p)) (updatePolicy topicARN))"

definition Service_RemovePermission :: "Identity \<Rightarrow> string \<Rightarrow> string \<Rightarrow> unit M" where
  "Service_RemovePermission identity topicARN label =
     bindM (authorizedTopic identity topicARN ''SNS:RemovePermission'') (\<lambda>topic.
     bindM (resM (case RemovePermission (TA_Policy (Topic_Attributes topic)) label of
                    Inl e \<Rightarrow> Inl (NewNotFound ''Statement not found'')
                  | Inr p \<Rightarrow> Inr p)) (updatePolicy topicARN))"

subsection \<open>Subscriptions\<close>

definition nil_panic :: go_error where
  "nil_panic = Panic ''nil pointer dereference''"

fun find_endpoint :: "string \<Rightarrow> string \<Rightarrow> Subscription option list \<Rightarrow> Subscription option res" where
  "find_endpoint protocolName endpoint [] = Inr None"
| "find_endpoint protocolName endpoint (None # items) = Inl nil_panic"
| "find_endpoint protocolName endpoint (Some item # items) =
     (if Sub_Protocol item = protocolName \<and> Sub_Endpoint item = endpoint then Inr (Some item)
      else find_endpoint protocolName endpoint items)"

definition findExistingSubscription :: "string \<Rightarrow> string \<Rightarrow> string \<Rightarrow> Subscription option M" where
  "findExistingSubscription topicARN protocolName endpoint =
     readM (\<lambda>s. case listSubscriptionsByTopic s topicARN [] 10000 of
                  Inl e \<Rightarrow> Inl e
                | Inr (items, _) \<Rightarrow> find_endpoint protocolName endpoint items)"

definition validateSQSSubscription :: "Service \<Rightarrow> Topic \<Rightarrow> Subscription \<Rightarrow> unit M" where
  "validateSQSSubscription svc topic sub =
     (case sqsClient svc of
        None \<Rightarrow> throwM (NewInvalidParameter ''SQS integration is not configured'')
      | Some client \<Rightarrow>
          bindM (mapErr (\<lambda>_. NewInvalidParameter ''Invalid parameter: Endpoint'')
                   (sqsCall (CallResolve (Sub_Endpoint sub)) (\<lambda>n. ResolveQueue client n (Sub_Endpoint sub)))) (\<lambda>queue.
          bindM (guardM (Q_Region queue = Topic_Region topic) (NewInvalidParameter ''Invalid parameter: Endpoint'')) (\<lambda>_.
          if TA_FifoTopic (Topic_Attributes topic) then returnM ()
          else guardM (\<not> Q_FIFO queue) (NewInvalidParameter ''Standard SNS topics cannot subscribe FIFO SQS queues''))))"

definition new_subscription ::
    "Service \<Rightarrow> string \<Rightarrow> string \<Rightarrow> string \<Rightarrow> time \<Rightarrow> string \<Rightarrow> Subscription" where
  "new_subscription svc topicARN protocolName endpoint t subID =
     \<lparr>Sub_ARN = topicARN @ '':'' @ subID, Sub_TopicARN = topicARN, Sub_Owner = AccountID (cfg svc),
      Sub_Protocol = protocolName, Sub_Endpoint = endpoint, Sub_CreatedAt = t, Sub_UpdatedAt = t,
      Sub_Confirmed = (protocolName = ProtocolSQS), Sub_PendingConfirmation = (protocolName \<noteq> ProtocolSQS),
      Sub_ConfirmationWasAuthenticated = False, Sub_AuthenticateOnUnsubscribe = False,
      Sub_Attributes =
        \<lparr>SA_DeliveryPolicy = [], SA_FilterPolicy = [], SA_FilterPolicyScope = FilterScopeMessageAttributes,
         SA_RawMessageDelivery = False, SA_RedrivePolicy = [], SA_EffectiveDeliveryPolicy = []\<rparr>\<rparr>"

definition Hour :: duration where "Hour = 3600000000000"
definition Minute :: duration where "Minute = 60000000000"

definition confirmation_token ::
    "Subscription \<Rightarrow> string \<Rightarrow> time \<Rightarrow> bool \<Rightarrow> string \<Rightarrow> Subscription option \<Rightarrow> ConfirmationToken" where
  "confirmation_token sub token expires auth kind restore =
     \<lparr>Tok_Token = token, Tok_SubscriptionARN = Sub_ARN sub, Tok_TopicARN = Sub_TopicARN sub,
      Tok_Endpoint = Sub_Endpoint sub, Tok_Protocol = Sub_Protocol sub, Tok_ExpiresAt = expires,
      Tok_AuthenticateOnUnsubscribe = auth, Tok_Kind = kind, Tok_Restore = restore\<rparr>"

definition enqueueM :: "DeliveryJob \<Rightarrow> unit M" where
  "enqueueM job s w = (case tx_EnqueueDeliveryJob job s of (r, s') \<Rightarrow> (r, s', w))"

definition stateM :: "(mstate \<Rightarrow> 'a res \<times> mstate) \<Rightarrow> 'a M" where
  "stateM f s w = (case f s of (r, s') \<Rightarrow> (r, s', w))"

text \<open>A new HTTP subscription is stored together with a confirmation token and the job that sends it; an
  SQS subscription needs no confirmation.\<close>

definition registerSubscription :: "Service \<Rightarrow> Topic \<Rightarrow> string \<Rightarrow> time \<Rightarrow> Subscription \<Rightarrow> unit M" where
  "registerSubscription svc topic protocolName t sub =
     (if protocolName \<noteq> ProtocolSQS then
        bindM (worldM (newRandomHex svc 160)) (\<lambda>hex.
        let token = confirmation_token sub hex (t + 48 * Hour) False ''subscribe'' None in
        bindM (attemptM (buildConfirmationAttempt svc topic sub token ''SubscriptionConfirmation'')) (\<lambda>(attempt, effectiveJSON).
        bindM (worldM (prepareDeliveryJob svc ''subscription_confirmation'' attempt effectiveJSON False [])) (\<lambda>job.
        Tx (bindM (stateM (tx_CreateSubscription sub)) (\<lambda>_.
            bindM (stateM (\<lambda>s. (Inr (), tx_PutConfirmationToken token s))) (\<lambda>_.
            enqueueM job))))))
      else Store_CreateSubscription sub)"

text \<open>What \<^verbatim>\<open>Subscribe\<close> does once it has found no subscription of that endpoint: build the
  subscription, check the endpoint and register it.\<close>

definition createSubscription ::
    "Service \<Rightarrow> Topic \<Rightarrow> string \<Rightarrow> string \<Rightarrow> string \<Rightarrow> string ranged \<Rightarrow> Subscription M" where
  "createSubscription svc topic topicARN protocolName endpoint attrs =
     bindM (worldM (now svc)) (\<lambda>t.
     bindM (worldM (newUUID svc)) (\<lambda>subID.
     bindM (resM (applySubscriptionAttributes (new_subscription svc topicARN protocolName endpoint t subID) topic attrs)) (\<lambda>sub.
     bindM (if protocolName = ProtocolSQS then validateSQSSubscription svc topic sub
            else case protocolAdapter svc protocolName of
                   None \<Rightarrow> returnM ()
                 | Some adapter \<Rightarrow> resM (ValidateEndpoint endpoint)) (\<lambda>_.
     let sub = sub\<lparr>Sub_Attributes := refreshEffectivePolicy topic (Sub_Attributes sub)\<rparr> in
     bindM (registerSubscription svc topic protocolName t sub) (\<lambda>_. returnM sub)))))"

definition pending_reply :: "Subscription \<Rightarrow> bool \<Rightarrow> string" where
  "pending_reply sub returnARN =
     (if Sub_PendingConfirmation sub \<and> \<not> returnARN then ''pending confirmation'' else Sub_ARN sub)"

definition Subscribe ::
    "Service \<Rightarrow> Identity \<Rightarrow> string \<Rightarrow> string \<Rightarrow> string \<Rightarrow> string ranged \<Rightarrow> bool \<Rightarrow> string M" where
  "Subscribe svc identity topicARN protocol endpoint attrs returnARN =
     bindM (authorizedTopic identity topicARN ''SNS:Subscribe'') (\<lambda>topic.
     let protocolName = ToLower protocol in
     bindM (guardM (protocolName = ProtocolSQS \<or> protocolName = ProtocolHTTP \<or> protocolName = ProtocolHTTPS)
              (NewInvalidParameter ''Invalid parameter: Protocol'')) (\<lambda>_.
     bindM (guardM (\<not> (TA_FifoTopic (Topic_Attributes topic) \<and> protocolName \<noteq> ProtocolSQS))
              (NewInvalidParameter ''Invalid parameter: protocol'')) (\<lambda>_.
     bindM (findExistingSubscription topicARN protocolName endpoint) (\<lambda>existing.
     case existing of
       Some sub \<Rightarrow> returnM (pending_reply sub returnARN)
     | None \<Rightarrow>
         bindM (createSubscription svc topic topicARN protocolName endpoint attrs) (\<lambda>sub.
         returnM (pending_reply sub returnARN))))))"

definition confirm :: "bool \<Rightarrow> Subscription \<Rightarrow> Subscription" where
  "confirm auth sub =
     sub\<lparr>Sub_PendingConfirmation := False, Sub_Confirmed := True, Sub_AuthenticateOnUnsubscribe := auth,
         Sub_ConfirmationWasAuthenticated := auth\<rparr>"

definition ConfirmSubscription :: "Service \<Rightarrow> Identity \<Rightarrow> string \<Rightarrow> string \<Rightarrow> bool \<Rightarrow> string M" where
  "ConfirmSubscription svc identity topicARN token authOnUnsubscribe =
     bindM (mapErr (\<lambda>_. NewNotFound ''Token does not exist'') (readM (\<lambda>s. getConfirmationToken s token))) (\<lambda>record.
     bindM (guardM (Tok_TopicARN record = topicARN) (NewInvalidParameter ''Invalid parameter: Token'')) (\<lambda>_.
     bindM (worldM (now svc)) (\<lambda>t.
     bindM (guardM (\<not> t > Tok_ExpiresAt record) (NewInvalidParameter ''Invalid parameter: Token'')) (\<lambda>_.
     if Tok_Kind record = ''subscribe'' then
       bindM (mapErr (\<lambda>_. NewNotFound ''Subscription does not exist'')
                (Store_UpdateSubscription (Tok_SubscriptionARN record) (plainUpdate (confirm authOnUnsubscribe)))) (\<lambda>(sub, _).
       bindM (Store_DeleteConfirmationToken token) (\<lambda>_. returnM (Sub_ARN sub)))
     else if Tok_Kind record = ''unsubscribe'' then
       (case Tok_Restore record of
          None \<Rightarrow> throwM nil_panic
        | Some sub \<Rightarrow>
            let restore = sub\<lparr>Sub_PendingConfirmation := False, Sub_Confirmed := True,
                              Sub_AuthenticateOnUnsubscribe := Tok_AuthenticateOnUnsubscribe record\<rparr> in
            bindM (Store_CreateSubscription restore) (\<lambda>_.
            bindM (Store_DeleteConfirmationToken token) (\<lambda>_. returnM (Sub_ARN restore))))
     else throwM (NewInvalidParameter ''Invalid parameter: Token'')))))"

definition Unsubscribe :: "Service \<Rightarrow> Identity \<Rightarrow> string \<Rightarrow> unit M" where
  "Unsubscribe svc identity subscriptionARN =
     bindM (subscriptionM subscriptionARN) (\<lambda>sub.
     bindM (guardM (\<not> (Sub_AuthenticateOnUnsubscribe sub \<and> Id_AccountID identity \<noteq> AccountID (cfg svc)))
              (NewAuthorization ''Authorization required'')) (\<lambda>_.
     bindM (topicM (Sub_TopicARN sub)) (\<lambda>topic.
     if Sub_Protocol sub = ProtocolHTTP \<or> Sub_Protocol sub = ProtocolHTTPS then
       bindM (worldM (newRandomHex svc 160)) (\<lambda>hex.
       bindM (worldM (now svc)) (\<lambda>t.
       let token = confirmation_token sub hex (t + 48 * Hour) (Sub_AuthenticateOnUnsubscribe sub) ''unsubscribe'' (Some sub) in
       bindM (attemptM (buildConfirmationAttempt svc topic sub token ''UnsubscribeConfirmation'')) (\<lambda>(attempt, effectiveJSON).
       bindM (worldM (prepareDeliveryJob svc ''unsubscribe_confirmation'' attempt effectiveJSON False [])) (\<lambda>job.
       Tx (bindM (mapErr (\<lambda>_. NewNotFound ''Subscription does not exist'') (stateM (tx_DeleteSubscription subscriptionARN))) (\<lambda>_.
           bindM (stateM (\<lambda>s. (Inr (), tx_PutConfirmationToken token s))) (\<lambda>_.
           enqueueM job)))))))
     else
       bindM (mapErr (\<lambda>_. NewNotFound ''Subscription does not exist'') (Store_DeleteSubscription subscriptionARN))
         (\<lambda>_. returnM ()))))"

definition GetSubscription :: "Identity \<Rightarrow> string \<Rightarrow> (Subscription \<times> Topic) M" where
  "GetSubscription identity subscriptionARN =
     bindM (subscriptionM subscriptionARN) (\<lambda>sub.
     bindM (topicM (Sub_TopicARN sub)) (\<lambda>topic. returnM (sub, topic)))"

text \<open>\<^verbatim>\<open>SetSubscriptionAttribute\<close> stores the effective policy once more; the result of that second
  update is a pointer, nil when it failed.\<close>

definition SetSubscriptionAttribute :: "Identity \<Rightarrow> string \<Rightarrow> string \<Rightarrow> string \<Rightarrow> Subscription option M" where
  "SetSubscriptionAttribute identity subscriptionARN name v =
     bindM (subscriptionM subscriptionARN) (\<lambda>sub.
     bindM (topicM (Sub_TopicARN sub)) (\<lambda>topic.
     bindM (Store_UpdateSubscription subscriptionARN
              (\<lambda>sub w. case applySubscriptionAttributes sub topic [(name, v)] of
                 Inl e \<Rightarrow> (Inl e, w)
               | Inr u \<Rightarrow> (Inr (u, ()), w))) (\<lambda>(updated, _).
     case EffectivePolicy (TA_DeliveryPolicy (Topic_Attributes topic)) (SA_DeliveryPolicy (Sub_Attributes updated)) of
       Inl _ \<Rightarrow> returnM (Some updated)
     | Inr (_, effective) \<Rightarrow>
         tryM (Store_UpdateSubscription subscriptionARN
                 (plainUpdate (\<lambda>sub. sub\<lparr>Sub_Attributes :=
                    (Sub_Attributes sub)\<lparr>SA_EffectiveDeliveryPolicy := effective\<rparr>\<rparr>)))
           (\<lambda>r. case r of Inl _ \<Rightarrow> returnM None | Inr (u, _) \<Rightarrow> returnM (Some u)))))"

definition ListSubscriptions :: "Service \<Rightarrow> Identity \<Rightarrow> string \<Rightarrow> (Subscription option list \<times> string) M" where
  "ListSubscriptions svc identity nextToken = readM (\<lambda>s. listSubscriptions s nextToken (pageSize svc))"

definition ListSubscriptionsByTopic ::
    "Service \<Rightarrow> Identity \<Rightarrow> string \<Rightarrow> string \<Rightarrow> (Subscription option list \<times> string) M" where
  "ListSubscriptionsByTopic svc identity topicARN nextToken =
     readM (\<lambda>s. listSubscriptionsByTopic s topicARN nextToken (pageSize svc))"

subsection \<open>Publishing\<close>

text \<open>The loop of \<^verbatim>\<open>dispatchPublish\<close> over the subscriptions, inside the transaction: HTTP
  notifications become jobs, SQS deliveries are collected for later.\<close>

fun dispatch_subs ::
    "Service \<Rightarrow> Topic \<Rightarrow> PublishInput \<Rightarrow> string \<Rightarrow> string \<Rightarrow> string \<Rightarrow> (string \<times> string) list \<Rightarrow>
     Subscription option list \<Rightarrow> (Subscription \<times> string) list M" where
  "dispatch_subs svc topic input messageID dedupID seq selected [] = returnM []"
| "dispatch_subs svc topic input messageID dedupID seq selected (None # subs) = throwM nil_panic"
| "dispatch_subs svc topic input messageID dedupID seq selected (Some sub # subs) =
     (if \<not> Sub_Confirmed sub \<or> Sub_PendingConfirmation sub
      then dispatch_subs svc topic input messageID dedupID seq selected subs
      else if Matches (unicode_EqualFold svc) (SA_FilterPolicy (Sub_Attributes sub))
                (SA_FilterPolicyScope (Sub_Attributes sub)) (lookup_message selected ''default'')
                (PI_MessageAttributes input) \<noteq> Inr True
      then dispatch_subs svc topic input messageID dedupID seq selected subs
      else
        let protocolMessage = lookup_message selected (Sub_Protocol sub);
            protocolMessage = (if protocolMessage = [] then lookup_message selected ''default'' else protocolMessage)
        in if Sub_Protocol sub = ProtocolSQS
           then bindM (dispatch_subs svc topic input messageID dedupID seq selected subs)
                  (\<lambda>rest. returnM ((sub, protocolMessage) # rest))
           else
             bindM (attemptM (buildNotificationAttempt svc topic sub protocolMessage input messageID dedupID seq))
               (\<lambda>(attempt, effectiveJSON).
             bindM (worldM (prepareDeliveryJob svc ''notification'' attempt effectiveJSON
                              (SA_RawMessageDelivery (Sub_Attributes sub)) (SA_RedrivePolicy (Sub_Attributes sub)))) (\<lambda>job.
             bindM (enqueueM job) (\<lambda>_.
             dispatch_subs svc topic input messageID dedupID seq selected subs))))"

text \<open>An SQS delivery that fails is redriven to the dead-letter queue of the subscription.\<close>

definition failed_payload ::
    "Topic \<Rightarrow> Subscription \<Rightarrow> string \<Rightarrow> PublishInput \<Rightarrow> string \<Rightarrow> string \<Rightarrow> time \<Rightarrow> DeliveryJobPayload" where
  "failed_payload topic sub protocolMessage input messageID dedupID t =
     \<lparr>Pay_Type = [], Pay_TopicARN = Topic_ARN topic, Pay_TopicOwner = [], Pay_SubscriptionARN = Sub_ARN sub,
      Pay_Protocol = [], Pay_Endpoint = [], Pay_MessageID = messageID, Pay_Subject = [], Pay_Message = [],
      Pay_ProtocolMessage = protocolMessage, Pay_Timestamp = t, Pay_Token = [], Pay_SubscribeURL = [],
      Pay_UnsubscribeURL = [], Pay_SignatureVersion = [], Pay_Signature = [], Pay_SigningCertURL = [],
      Pay_MessageAttributes = [], Pay_GroupID = PI_MessageGroupID input, Pay_DeduplicationID = dedupID,
      Pay_SequenceNumber = [], Pay_Headers = fmempty\<rparr>"

fun deliver_all ::
    "Service \<Rightarrow> Topic \<Rightarrow> PublishInput \<Rightarrow> string \<Rightarrow> string \<Rightarrow> string \<Rightarrow> (Subscription \<times> string) list \<Rightarrow> unit M" where
  "deliver_all svc topic input messageID dedupID seq [] = returnM ()"
| "deliver_all svc topic input messageID dedupID seq ((sub, protocolMessage) # items) =
     bindM (tryM (deliverToSQS svc topic sub protocolMessage input messageID dedupID seq)
       (\<lambda>r. case r of
          Inr _ \<Rightarrow> returnM ()
        | Inl _ \<Rightarrow>
            bindM (worldM (now svc)) (\<lambda>t.
            redrivePayload svc (failed_payload topic sub protocolMessage input messageID dedupID t)
              (SA_RedrivePolicy (Sub_Attributes sub)))))
     (\<lambda>_. deliver_all svc topic input messageID dedupID seq items)"

definition dispatchPublish ::
    "Service \<Rightarrow> Topic \<Rightarrow> PublishInput \<Rightarrow> string \<Rightarrow> string \<Rightarrow> string \<Rightarrow> unit M" where
  "dispatchPublish svc topic input messageID dedupID seq =
     bindM (resM (case resolveProtocolMessages (PI_Message input) (PI_MessageStructure input) of
                    Inl e \<Rightarrow> Inl (NewInvalidParameter (error_text e))
                  | Inr m \<Rightarrow> Inr m)) (\<lambda>selected.
     bindM (Tx (bindM (readM (\<lambda>s. listSubscriptionsByTopic s (Topic_ARN topic) [] 10000))
                  (\<lambda>(subs, _). dispatch_subs svc topic input messageID dedupID seq selected subs))) (\<lambda>items.
     deliver_all svc topic input messageID dedupID seq items))"

definition dedup_scope :: "Topic \<Rightarrow> PublishInput \<Rightarrow> string" where
  "dedup_scope topic input =
     (if TA_FifoThroughputScope (Topic_Attributes topic) = FifoThroughputMessageGroup
      then Topic_ARN topic @ '':'' @ PI_MessageGroupID input else Topic_ARN topic)"

definition zeroSequence :: SequenceState where
  "zeroSequence = \<lparr>Seq_Prefix = [], Seq_Counter = 0\<rparr>"

text \<open>The update that \<^verbatim>\<open>Publish\<close> runs on a FIFO topic: a live deduplication record gives the earlier
  identifiers back; otherwise the group takes its next sequence number and a record is filed for five
  minutes.  The captured values are the message id, the sequence number and whether this was a
  duplicate.\<close>

definition fifo_update ::
    "Service \<Rightarrow> PublishInput \<Rightarrow> string \<Rightarrow> string \<Rightarrow> (Topic, string \<times> string \<times> bool, world) callback" where
  "fifo_update svc input messageID dedupID topic w =
     (let key = dedup_scope topic input @ '':'' @ dedupID;
          (duplicate, w) =
            (case fmlookup (Topic_DedupRecords topic) key of
               None \<Rightarrow> (None, w)
             | Some rec \<Rightarrow>
                 (case now svc w of (t, w') \<Rightarrow> (if Dedup_ExpiresAt rec > t then Some rec else None, w')))
      in case duplicate of
           Some rec \<Rightarrow> (Inr (topic, (Dedup_MessageID rec, Dedup_SequenceNumber rec, True)), w)
         | None \<Rightarrow>
             let state = (case fmlookup (Topic_GroupSequences topic) (PI_MessageGroupID input) of
                            None \<Rightarrow> zeroSequence | Some st \<Rightarrow> st) in
             case nextSequence svc state w of ((next, seq), w) \<Rightarrow>
             case now svc w of (t, w) \<Rightarrow>
               (Inr (topic\<lparr>Topic_GroupSequences := fmupd (PI_MessageGroupID input) next (Topic_GroupSequences topic),
                           Topic_DedupRecords :=
                             fmupd key \<lparr>Dedup_MessageID = messageID, Dedup_SequenceNumber = seq,
                                        Dedup_ExpiresAt = t + 5 * Minute\<rparr> (Topic_DedupRecords topic)\<rparr>,
                     (messageID, seq, False)), w))"

definition publish_dedup_id :: "Topic \<Rightarrow> PublishInput \<Rightarrow> string" where
  "publish_dedup_id topic input =
     (if TA_FifoTopic (Topic_Attributes topic) \<and> PI_MessageDeduplicationID input = [] \<and>
         TA_ContentBasedDeduplication (Topic_Attributes topic)
      then sha256_hex (PI_Message input) else PI_MessageDeduplicationID input)"

definition Publish :: "Service \<Rightarrow> Identity \<Rightarrow> PublishInput \<Rightarrow> PublishOutput M" where
  "Publish svc identity input =
     bindM (authorizedTopic identity (PI_TopicARN input) ''SNS:Publish'') (\<lambda>topic.
     bindM (resM (validatePublishInput topic input)) (\<lambda>_.
     bindM (worldM (newUUID svc)) (\<lambda>fresh.
     let dedupID = publish_dedup_id topic input in
     bindM (if TA_FifoTopic (Topic_Attributes topic)
            then Store_UpdateTopic (Topic_ARN topic) (fifo_update svc input fresh dedupID)
            else returnM (topic, (fresh, [], False))) (\<lambda>(topic, (messageID, seq, deduplicated)).
     bindM (if \<not> deduplicated then dispatchPublish svc topic input messageID dedupID seq else returnM ()) (\<lambda>_.
     returnM \<lparr>PO_MessageID = messageID, PO_SequenceNumber = seq, PO_Deduplicated = deduplicated\<rparr>)))))"

subsection \<open>Batches\<close>

definition entry_input :: "string \<Rightarrow> PublishBatchEntry \<Rightarrow> PublishInput" where
  "entry_input topicARN entry =
     \<lparr>PI_TopicARN = topicARN, PI_Message = BE_Message entry, PI_Subject = BE_Subject entry,
      PI_MessageStructure = BE_MessageStructure entry, PI_MessageAttributes = BE_MessageAttributes entry,
      PI_MessageGroupID = BE_MessageGroupID entry, PI_MessageDeduplicationID = BE_MessageDeduplicationID entry\<rparr>"

definition batch_failure :: "string \<Rightarrow> go_error \<Rightarrow> PublishBatchFailure" where
  "batch_failure entryID err =
     (case err of
        API e \<Rightarrow> \<lparr>BF_ID = entryID, BF_Code = Err_Code e, BF_Message = Err_Message e, BF_SenderFault = Err_Sender e\<rparr>
      | _ \<Rightarrow> \<lparr>BF_ID = entryID, BF_Code = ''InternalError'', BF_Message = error_text err, BF_SenderFault = False\<rparr>)"

fun batch_loop ::
    "Service \<Rightarrow> Identity \<Rightarrow> string \<Rightarrow> PublishBatchEntry list \<Rightarrow>
     (BatchDeliveryResult list \<times> PublishBatchFailure list) M" where
  "batch_loop svc identity topicARN [] = returnM ([], [])"
| "batch_loop svc identity topicARN (entry # entries) =
     tryM (Publish svc identity (entry_input topicARN entry)) (\<lambda>r.
     bindM (batch_loop svc identity topicARN entries) (\<lambda>(success, failed).
     returnM
       (case r of
          Inl e \<Rightarrow> (success, batch_failure (BE_ID entry) e # failed)
        | Inr out \<Rightarrow>
            (\<lparr>BR_ID = BE_ID entry, BR_MessageID = PO_MessageID out, BR_SequenceNumber = PO_SequenceNumber out\<rparr> # success,
             failed))))"

fun batch_ids_distinct :: "string list \<Rightarrow> PublishBatchEntry list \<Rightarrow> bool" where
  "batch_ids_distinct seen [] = True"
| "batch_ids_distinct seen (entry # entries) =
     (BE_ID entry \<notin> set seen \<and> batch_ids_distinct (BE_ID entry # seen) entries)"

definition totalBytes :: "PublishBatchEntry list \<Rightarrow> nat" where
  "totalBytes entries = sum_list (map (\<lambda>entry. length (BE_Message entry)) entries)"

definition PublishBatch ::
    "Service \<Rightarrow> Identity \<Rightarrow> string \<Rightarrow> PublishBatchEntry list \<Rightarrow>
     (BatchDeliveryResult list \<times> PublishBatchFailure list) M" where
  "PublishBatch svc identity topicARN entries =
     bindM (authorizedTopic identity topicARN ''SNS:Publish'') (\<lambda>_.
     bindM (guardM (length entries \<noteq> 0)
              (mkAPIError ''EmptyBatchRequest'' 400 ''The batch request doesn't contain any entries.'')) (\<lambda>_.
     bindM (guardM (\<not> length entries > 10)
              (mkAPIError ''TooManyEntriesInBatchRequest'' 400
                 ''The batch request contains more entries than permissible (more than 10).'')) (\<lambda>_.
     bindM (guardM (batch_ids_distinct [] entries)
              (mkAPIError ''BatchEntryIdsNotDistinct'' 400
                 ''Two or more batch entries in the request have the same Id.'')) (\<lambda>_.
     bindM (guardM (\<not> totalBytes entries > 262144)
              (mkAPIError ''BatchRequestTooLong'' 400
                 ''The length of all the batch messages put together is more than the limit.'')) (\<lambda>_.
     batch_loop svc identity topicARN entries)))))"

end
