(* ===== verification/Worker.thy ===== *)
theory Worker
  imports Service_Ops
begin

text \<open>
  The delivery worker (\<^verbatim>\<open>internal/service/worker.go\<close>): a goroutine that polls the store for due
  jobs and attempts each of them, then deletes the job, schedules a retry or gives it up to the
  dead-letter queue.  \<open>runDeliveryWorker svc n\<close> is what the worker does before it is stopped after its
  \<open>n\<close>-th poll; the waiting between polls only lets the clock advance.
\<close>

subsection \<open>Operations\<close>

definition zeroTime :: time where "zeroTime = - 62135596800000000000"

definition zeroTopic :: Topic where
  "zeroTopic =
     \<lparr>Topic_ARN = [], Topic_Name = [], Topic_Owner = [], Topic_Region = [], Topic_CreatedAt = zeroTime,
      Topic_UpdatedAt = zeroTime,
      Topic_Attributes =
        \<lparr>TA_DeliveryPolicy = [], TA_Policy = [], TA_DisplayName = [], TA_SignatureVersion = [], TA_TracingConfig = [],
         TA_ArchivePolicy = [], TA_FifoTopic = False, TA_ContentBasedDeduplication = False,
         TA_FifoThroughputScope = [], TA_Unsupported = fmempty\<rparr>,
      Topic_Tags = fmempty, Topic_Subscriptions = {||}, Topic_GroupSequences = fmempty, Topic_DedupRecords = fmempty,
      Topic_ConfirmedCount = 0, Topic_DeletedCount = 0, Topic_PendingCount = 0\<rparr>"

definition zeroSubscription :: Subscription where
  "zeroSubscription =
     \<lparr>Sub_ARN = [], Sub_TopicARN = [], Sub_Owner = [], Sub_Protocol = [], Sub_Endpoint = [], Sub_CreatedAt = zeroTime,
      Sub_UpdatedAt = zeroTime, Sub_Confirmed = False, Sub_PendingConfirmation = False,
      Sub_ConfirmationWasAuthenticated = False, Sub_AuthenticateOnUnsubscribe = False,
      Sub_Attributes =
        \<lparr>SA_DeliveryPolicy = [], SA_FilterPolicy = [], SA_FilterPolicyScope = [], SA_RawMessageDelivery = False,
         SA_RedrivePolicy = [], SA_EffectiveDeliveryPolicy = []\<rparr>\<rparr>"

definition attemptFromPayload :: "DeliveryJobPayload \<Rightarrow> DeliveryAttempt" where
  "attemptFromPayload payload =
     \<lparr>Att_Subscription =
        zeroSubscription\<lparr>Sub_ARN := Pay_SubscriptionARN payload, Sub_Protocol := Pay_Protocol payload,
                         Sub_Endpoint := Pay_Endpoint payload\<rparr>,
      Att_Topic = zeroTopic\<lparr>Topic_ARN := Pay_TopicARN payload, Topic_Owner := Pay_TopicOwner payload\<rparr>,
      Att_MessageID = Pay_MessageID payload, Att_Subject = Pay_Subject payload, Att_Message = Pay_Message payload,
      Att_ProtocolMessage = Pay_ProtocolMessage payload, Att_Timestamp = Pay_Timestamp payload,
      Att_Type = Pay_Type payload, Att_Token = Pay_Token payload, Att_SubscribeURL = Pay_SubscribeURL payload,
      Att_UnsubscribeURL = Pay_UnsubscribeURL payload, Att_SignatureVersion = Pay_SignatureVersion payload,
      Att_Signature = Pay_Signature payload, Att_SigningCertURL = Pay_SigningCertURL payload,
      Att_MessageAttributes = cloneMessageAttributes (Pay_MessageAttributes payload), Att_GroupID = Pay_GroupID payload,
      Att_DeduplicationID = Pay_DeduplicationID payload, Att_SequenceNumber = Pay_SequenceNumber payload,
      Att_Headers = Pay_Headers payload\<rparr>"

definition Second :: duration where "Second = 1000000000"
definition Millisecond :: duration where "Millisecond = 1000000"

definition deliveryPollInterval :: "Service \<Rightarrow> duration" where
  "deliveryPollInterval svc =
     (if DeliveryPollInterval (cfg svc) > 0 then DeliveryPollInterval (cfg svc) else 200 * Millisecond)"

text \<open>The update of \<^verbatim>\<open>rescheduleDeliveryJob\<close>; its error, that the job is gone, is ignored.\<close>

definition reschedule_update :: "Service \<Rightarrow> duration \<Rightarrow> string \<Rightarrow> (DeliveryJob, unit, world) callback" where
  "reschedule_update svc delay lastError current w =
     (case now svc w of (t1, w1) \<Rightarrow>
      case now svc w1 of (t2, w2) \<Rightarrow>
        (Inr (current\<lparr>Job_AttemptCount := wrap64 (Job_AttemptCount current + 1), Job_LastError := lastError,
                      Job_NextAttemptAt := t1 + delay, Job_UpdatedAt := t2\<rparr>, ()), w2))"

definition rescheduleDeliveryJob :: "Service \<Rightarrow> DeliveryJob \<Rightarrow> duration \<Rightarrow> string \<Rightarrow> unit M" where
  "rescheduleDeliveryJob svc job delay lastError =
     tryM (Store_UpdateDeliveryJob (Job_ID job) (reschedule_update svc delay lastError)) (\<lambda>_. returnM ())"

definition enqueueDeliveryJob :: "Service \<Rightarrow> string \<Rightarrow> DeliveryAttempt \<Rightarrow> string \<Rightarrow> bool \<Rightarrow> string \<Rightarrow> unit M" where
  "enqueueDeliveryJob svc kind attempt effectivePolicyJSON raw redrivePolicy =
     bindM (worldM (prepareDeliveryJob svc kind attempt effectivePolicyJSON raw redrivePolicy)) Store_EnqueueDeliveryJob"

definition deliverM :: "transport \<Rightarrow> DeliveryAttempt \<Rightarrow> SubscriptionPolicy \<Rightarrow> bool \<Rightarrow> DeliveryResult M" where
  "deliverM adapter attempt policy raw s w =
     (case Deliver adapter (length (W_http w)) attempt policy raw of
        (result, reqs) \<Rightarrow> (Inr result, s, w\<lparr>W_http := W_http w @ reqs\<rparr>))"

definition deleteJobM :: "string \<Rightarrow> unit M" where
  "deleteJobM jid s w = (Inr (), Store_DeleteDeliveryJob jid s, w)"

definition job_policy :: "DeliveryJob \<Rightarrow> SubscriptionPolicy" where
  "job_policy job =
     (case ParseSubscriptionPolicy (Job_EffectiveDeliveryJSON job) of Inl _ \<Rightarrow> DefaultPolicy | Inr p \<Rightarrow> p)"

definition job_delays :: "DeliveryJob \<Rightarrow> duration list" where
  "job_delays job = (case RetryDelays (job_policy job) of Inl _ \<Rightarrow> [] | Inr delays \<Rightarrow> delays)"

definition processDeliveryJob :: "Service \<Rightarrow> DeliveryJob \<Rightarrow> unit M" where
  "processDeliveryJob svc job =
     (let payload = CopyDeliveryJobPayload (Job_Payload job) in
      case protocolAdapter svc (Pay_Protocol payload) of
        None \<Rightarrow> rescheduleDeliveryJob svc job (5 * Second) ''protocol adapter not configured''
      | Some adapter \<Rightarrow>
          bindM (deliverM adapter (attemptFromPayload payload) (job_policy job) (Job_RawMessageDelivery job)) (\<lambda>result.
          if DR_Success result then deleteJobM (Job_ID job)
          else if \<not> DR_Retryable result \<or> Job_AttemptCount job \<ge> int (length (job_delays job)) then
            bindM (deleteJobM (Job_ID job)) (\<lambda>_.
            if Job_Kind job = ''notification'' then redrivePayload svc payload (Job_RedrivePolicy job) else returnM ())
          else if Job_AttemptCount job < 0 then throwM (Panic ''index out of range'')
          else rescheduleDeliveryJob svc job (job_delays job ! nat (Job_AttemptCount job)) (DR_ErrorMessage result)))"

fun processDeliveryJobs :: "Service \<Rightarrow> DeliveryJob list \<Rightarrow> unit M" where
  "processDeliveryJobs svc [] = returnM ()"
| "processDeliveryJobs svc (job # jobs) = bindM (processDeliveryJob svc job) (\<lambda>_. processDeliveryJobs svc jobs)"

definition processReadyDeliveryJobs :: "Service \<Rightarrow> int \<Rightarrow> unit M" where
  "processReadyDeliveryJobs svc limit =
     bindM (worldM (now svc)) (\<lambda>t.
     bindM (readM (\<lambda>s. Inr (ListReadyDeliveryJobs s t limit))) (processDeliveryJobs svc))"

fun runDeliveryWorker :: "Service \<Rightarrow> nat \<Rightarrow> unit M" where
  "runDeliveryWorker svc 0 = returnM ()"
| "runDeliveryWorker svc (Suc n) = bindM (processReadyDeliveryJobs svc 32) (\<lambda>_. runDeliveryWorker svc n)"

subsection \<open>What one job does\<close>

definition retried :: "Service \<Rightarrow> world \<Rightarrow> duration \<Rightarrow> string \<Rightarrow> DeliveryJob \<Rightarrow> DeliveryJob" where
  "retried svc w delay lastError job =
     job\<lparr>Job_AttemptCount := wrap64 (Job_AttemptCount job + 1), Job_LastError := lastError,
         Job_NextAttemptAt := Clock_Now svc (W_ticks w) + delay, Job_UpdatedAt := Clock_Now svc (Suc (W_ticks w))\<rparr>"

lemma reschedule_run:
  assumes "fmlookup (deliveryJobs s) (Job_ID job) = Some job"
  shows "rescheduleDeliveryJob svc job delay e s w =
    (Inr (), s\<lparr>deliveryJobs := fmupd (Job_ID job) (retried svc w delay e job) (deliveryJobs s)\<rparr>,
     w\<lparr>W_ticks := W_ticks w + 2\<rparr>)"
  using assms
  by (simp add: rescheduleDeliveryJob_def tryM_def Store_UpdateDeliveryJob_def Tx_def reschedule_update_def now_def
      retried_def returnM_def)

lemma attempt_of_copy [simp]: "attemptFromPayload (CopyDeliveryJobPayload p) = attemptFromPayload p"
  by (simp add: attemptFromPayload_def CopyDeliveryJobPayload_def)

text \<open>The queue a failed notification is given up to, and the message it gets.\<close>

definition dead_letter :: "Service \<Rightarrow> DeliveryJob \<Rightarrow> string option" where
  "dead_letter svc job =
     (if Job_Kind job \<noteq> ''notification'' \<or> sqsClient svc = None \<or> Job_RedrivePolicy job = [] then None
      else case ParseRedrivePolicy (Job_RedrivePolicy job) of
             Inl _ \<Rightarrow> None
           | Inr rp \<Rightarrow> if RDP_DeadLetterTargetArn rp = [] then None else Some (RDP_DeadLetterTargetArn rp))"

definition dead_message :: "DeliveryJob \<Rightarrow> string \<Rightarrow> SendRequest" where
  "dead_message job target =
     \<lparr>SR_QueueARN = target, SR_Body = print_json (json_map (redrive_envelope (Job_Payload job))),
      SR_MessageAttributes = [], SR_MessageGroupID = Pay_GroupID (Job_Payload job),
      SR_MessageDeduplicationID = Pay_DeduplicationID (Job_Payload job)\<rparr>"

definition given_up :: "Service \<Rightarrow> DeliveryJob \<Rightarrow> SqsCall list" where
  "given_up svc job = (case dead_letter svc job of None \<Rightarrow> [] | Some target \<Rightarrow> [CallSend (dead_message job target)])"

text \<open>A send of the SQS client ends with an answer or an error.\<close>

definition sends_return :: "Service \<Rightarrow> bool" where
  "sends_return svc \<longleftrightarrow> (\<forall>client n req p. sqsClient svc = Some client \<longrightarrow> SendMessage client n req \<noteq> Inl (Panic p))"

lemma redrive_run:
  assumes "sends_return svc" "Job_Kind job = ''notification''"
  shows "redrivePayload svc (CopyDeliveryJobPayload (Job_Payload job)) (Job_RedrivePolicy job) s w =
    (Inr (), s, w\<lparr>W_sqs := W_sqs w @ given_up svc job\<rparr>)"
proof -
  have e: "redrive_envelope (CopyDeliveryJobPayload p) = redrive_envelope p" for p
    by (simp add: redrive_envelope_def CopyDeliveryJobPayload_def)
  have c: "Pay_GroupID (CopyDeliveryJobPayload p) = Pay_GroupID p"
    "Pay_DeduplicationID (CopyDeliveryJobPayload p) = Pay_DeduplicationID p" for p
    by (simp_all add: CopyDeliveryJobPayload_def)
  show ?thesis
    using assms
    by (auto simp: redrivePayload_def returnM_def given_up_def dead_letter_def dead_message_def tryM_def sqsCall_def
        sends_return_def e c Let_def split: option.split sum.split go_error.split)
qed

lemma given_up_other: "Job_Kind job \<noteq> ''notification'' \<Longrightarrow> given_up svc job = []"
  by (simp add: given_up_def dead_letter_def)

lemma process_run:
  assumes stored: "fmlookup (deliveryJobs s) (Job_ID job) = Some job"
    and adapter: "protocolAdapter svc (Pay_Protocol (Job_Payload job)) = Some adapter"
    and d: "Deliver adapter (length (W_http w)) (attemptFromPayload (Job_Payload job)) (job_policy job)
      (Job_RawMessageDelivery job) = (result, reqs)"
    and "sends_return svc" "0 \<le> Job_AttemptCount job"
  shows "processDeliveryJob svc job s w =
    (if DR_Success result
     then (Inr (), Store_DeleteDeliveryJob (Job_ID job) s, w\<lparr>W_http := W_http w @ reqs\<rparr>)
     else if DR_Retryable result \<and> Job_AttemptCount job < int (length (job_delays job))
     then (Inr (), s\<lparr>deliveryJobs := fmupd (Job_ID job)
             (retried svc w (job_delays job ! nat (Job_AttemptCount job)) (DR_ErrorMessage result) job) (deliveryJobs s)\<rparr>,
           w\<lparr>W_http := W_http w @ reqs, W_ticks := W_ticks w + 2\<rparr>)
     else (Inr (), Store_DeleteDeliveryJob (Job_ID job) s,
           w\<lparr>W_http := W_http w @ reqs, W_sqs := W_sqs w @ given_up svc job\<rparr>))"
proof -
  have p: "Pay_Protocol (CopyDeliveryJobPayload (Job_Payload job)) = Pay_Protocol (Job_Payload job)"
    by (simp add: CopyDeliveryJobPayload_def)
  have r: "retried svc (w\<lparr>W_http := h\<rparr>) = retried svc w" for h by (simp add: retried_def fun_eq_iff)
  have m: "deliverM adapter (attemptFromPayload (Job_Payload job)) (job_policy job) (Job_RawMessageDelivery job) s w =
      (Inr result, s, w\<lparr>W_http := W_http w @ reqs\<rparr>)" by (simp add: deliverM_def d)
  show ?thesis
    using assms(4,5) reschedule_run [OF stored]
    by (auto simp: processDeliveryJob_def p adapter Let_def bindM_def m deleteJobM_def redrive_run given_up_other
        returnM_def r)
qed

subsection \<open>Work left in the queue\<close>

text \<open>A job is worth the attempts it may still take; its slice of delays is one that Go can hold.\<close>

definition weight :: "DeliveryJob \<Rightarrow> nat" where
  "weight job = Suc (length (job_delays job) - nat (Job_AttemptCount job))"

definition job_ok :: "Service \<Rightarrow> DeliveryJob \<Rightarrow> bool" where
  "job_ok svc job \<longleftrightarrow> protocolAdapter svc (Pay_Protocol (Job_Payload job)) \<noteq> None \<and>
     0 \<le> Job_AttemptCount job \<and> length (job_delays job) < 2 ^ 63"

definition jobs_ok :: "Service \<Rightarrow> mstate \<Rightarrow> bool" where
  "jobs_ok svc s \<longleftrightarrow> (\<forall>k job. fmlookup (deliveryJobs s) k = Some job \<longrightarrow> Job_ID job = k \<and> job_ok svc job)"

definition work :: "(string, DeliveryJob) fmap \<Rightarrow> nat" where
  "work m = (\<Sum>k \<in> fset (fmdom m). weight (the (fmlookup m k)))"

lemma work_drop: "fmlookup m k = Some job \<Longrightarrow> work m = weight job + work (fmdrop k m)"
proof -
  assume k: "fmlookup m k = Some job"
  have "work (fmdrop k m) = (\<Sum>i \<in> fset (fmdom m) - {k}. weight (the (fmlookup m i)))"
    unfolding work_def by (intro sum.cong) auto
  moreover have "k \<in> fset (fmdom m)" using k by (simp add: fmdomI)
  ultimately show ?thesis using k by (simp add: work_def sum.remove)
qed

lemma work_upd: "work (fmupd k job m) = weight job + work (fmdrop k m)"
proof -
  have "fmdrop k (fmupd k job m) = fmdrop k m" by (rule fmap_ext) simp
  with work_drop [of "fmupd k job m" k job] show ?thesis by simp
qed

lemma retried_ok:
  assumes "job_ok svc job" "Job_AttemptCount job < int (length (job_delays job))"
  shows "job_ok svc (retried svc w d e job)" "weight (retried svc w d e job) < weight job"
    "Job_ID (retried svc w d e job) = Job_ID job" "Job_Payload (retried svc w d e job) = Job_Payload job"
proof -
  have "wrap64 (Job_AttemptCount job + 1) = Job_AttemptCount job + 1"
    using assms by (intro wrap64_id) (auto simp: job_ok_def in_int64_def)
  moreover have "job_delays (retried svc w d e job) = job_delays job"
    by (simp add: retried_def job_delays_def job_policy_def)
  ultimately show "job_ok svc (retried svc w d e job)" "weight (retried svc w d e job) < weight job"
    using assms by (auto simp: job_ok_def weight_def retried_def nat_add_distrib)
qed (simp_all add: retried_def)

lemma delete_job_ok:
  assumes "jobs_ok svc s" "wf_store s" "fmlookup (deliveryJobs s) k = Some job"
  shows "jobs_ok svc (Store_DeleteDeliveryJob k s)" "wf_store (Store_DeleteDeliveryJob k s)"
    "work (deliveryJobs (Store_DeleteDeliveryJob k s)) < work (deliveryJobs s)"
proof -
  show "wf_store (Store_DeleteDeliveryJob k s)" using assms(2) mem.good_delete_job by (simp add: wf_store_good)
  show "jobs_ok svc (Store_DeleteDeliveryJob k s)"
    using assms(1) unfolding jobs_ok_def Store_DeleteDeliveryJob_def by simp
  show "work (deliveryJobs (Store_DeleteDeliveryJob k s)) < work (deliveryJobs s)"
    using work_drop [OF assms(3)] by (simp add: Store_DeleteDeliveryJob_def weight_def)
qed

lemma replace_job_ok:
  assumes "jobs_ok svc s" "wf_store s" "fmlookup (deliveryJobs s) (Job_ID job) = Some job"
    "job_ok svc new" "weight new < weight job" "Job_ID new = Job_ID job" "Job_Payload new = Job_Payload job"
  shows "jobs_ok svc (s\<lparr>deliveryJobs := fmupd (Job_ID job) new (deliveryJobs s)\<rparr>)"
    "wf_store (s\<lparr>deliveryJobs := fmupd (Job_ID job) new (deliveryJobs s)\<rparr>)"
    "work (fmupd (Job_ID job) new (deliveryJobs s)) < work (deliveryJobs s)"
proof -
  have "fmlookup (topics s) (Pay_TopicARN (Job_Payload job)) \<noteq> None"
    using assms(2,3) by (simp add: wf_store_def integrity_def refs_ok_def)
  then show "wf_store (s\<lparr>deliveryJobs := fmupd (Job_ID job) new (deliveryJobs s)\<rparr>)"
    using mem.good_enqueue [of s new] assms(2,6,7) by (simp add: wf_store_good tx_EnqueueDeliveryJob_def)
  show "jobs_ok svc (s\<lparr>deliveryJobs := fmupd (Job_ID job) new (deliveryJobs s)\<rparr>)"
    using assms(1,4,6) unfolding jobs_ok_def by simp
  show "work (fmupd (Job_ID job) new (deliveryJobs s)) < work (deliveryJobs s)"
    using work_drop [OF assms(3)] assms(5) by (simp add: work_upd)
qed

text \<open>Processing a stored job uses up at least one unit of its work and leaves every other record alone.\<close>

lemma process_progress:
  assumes "jobs_ok svc s" "wf_store s" "sends_return svc" "fmlookup (deliveryJobs s) (Job_ID job) = Some job"
  obtains s' w' where "processDeliveryJob svc job s w = (Inr (), s', w')" "jobs_ok svc s'" "wf_store s'"
    "work (deliveryJobs s') < work (deliveryJobs s)" "W_ticks w \<le> W_ticks w'"
    "length (W_http w') \<le> Suc (length (W_http w))"
    "\<And>k. k \<noteq> Job_ID job \<Longrightarrow> fmlookup (deliveryJobs s') k = fmlookup (deliveryJobs s) k"
proof -
  have ok: "job_ok svc job" using assms(1,4) by (simp add: jobs_ok_def)
  then obtain adapter where a: "protocolAdapter svc (Pay_Protocol (Job_Payload job)) = Some adapter"
    by (auto simp: job_ok_def)
  obtain result reqs where d: "Deliver adapter (length (W_http w)) (attemptFromPayload (Job_Payload job))
      (job_policy job) (Job_RawMessageDelivery job) = (result, reqs)" by fastforce
  have reqs: "length reqs \<le> 1"
    using d by (auto simp: Deliver_def Let_def split: sum.splits prod.splits)
  let ?del = "Store_DeleteDeliveryJob (Job_ID job) s"
  let ?new = "retried svc w (job_delays job ! nat (Job_AttemptCount job)) (DR_ErrorMessage result) job"
  let ?upd = "s\<lparr>deliveryJobs := fmupd (Job_ID job) ?new (deliveryJobs s)\<rparr>"
  note run = process_run [OF assms(4) a d assms(3)]
  note del = delete_job_ok [OF assms(1,2,4)]
  show thesis
  proof (cases "\<not> DR_Success result \<and> DR_Retryable result \<and> Job_AttemptCount job < int (length (job_delays job))")
    case True
    then have "processDeliveryJob svc job s w = (Inr (), ?upd, w\<lparr>W_http := W_http w @ reqs, W_ticks := W_ticks w + 2\<rparr>)"
      using run ok by (simp add: job_ok_def)
    moreover have "Job_AttemptCount job < int (length (job_delays job))" using True by simp
    note r = retried_ok [OF ok this, of w "job_delays job ! nat (Job_AttemptCount job)" "DR_ErrorMessage result"]
    ultimately show thesis using that [of ?upd] replace_job_ok [OF assms(1,2,4) r] reqs by simp
  next
    case False
    then have "\<exists>calls. processDeliveryJob svc job s w =
        (Inr (), ?del, w\<lparr>W_http := W_http w @ reqs, W_sqs := W_sqs w @ calls\<rparr>)"
      using run ok by (auto simp: job_ok_def intro: exI [of _ "[]"])
    then show thesis using that [of ?del] del reqs by (auto simp: Store_DeleteDeliveryJob_def)
  qed
qed

subsection \<open>Polls\<close>

lemma processDeliveryJobs_progress:
  assumes "jobs_ok svc s" "wf_store s" "sends_return svc" "distinct (map Job_ID jobs)"
    "\<forall>job \<in> set jobs. fmlookup (deliveryJobs s) (Job_ID job) = Some job"
  shows "\<exists>s' w'. processDeliveryJobs svc jobs s w = (Inr (), s', w') \<and> jobs_ok svc s' \<and> wf_store s' \<and>
    work (deliveryJobs s') + length jobs \<le> work (deliveryJobs s) \<and> W_ticks w \<le> W_ticks w' \<and>
    length (W_http w') \<le> length (W_http w) + length jobs"
  using assms
proof (induction jobs arbitrary: s w)
  case (Cons job jobs)
  have stored: "fmlookup (deliveryJobs s) (Job_ID job) = Some job" using Cons.prems(5) by simp
  obtain s1 w1 where 1: "processDeliveryJob svc job s w = (Inr (), s1, w1)" "jobs_ok svc s1" "wf_store s1"
    "work (deliveryJobs s1) < work (deliveryJobs s)" "W_ticks w \<le> W_ticks w1"
    "length (W_http w1) \<le> Suc (length (W_http w))"
    "\<And>k. k \<noteq> Job_ID job \<Longrightarrow> fmlookup (deliveryJobs s1) k = fmlookup (deliveryJobs s) k"
    using process_progress [OF Cons.prems(1,2,3) stored, of w] by blast
  have "\<forall>j \<in> set jobs. fmlookup (deliveryJobs s1) (Job_ID j) = Some j"
    using Cons.prems(4,5) 1(7) by (metis image_eqI list.set_intros(2) list.set_map distinct.simps(2) list.simps(9))
  from Cons.IH [OF 1(2,3) Cons.prems(3) _ this, of w1] Cons.prems(4) 1 show ?case
    by (fastforce simp: bindM_def)
qed (simp add: returnM_def)

lemma poll_run:
  "processReadyDeliveryJobs svc limit s w =
     processDeliveryJobs svc (ListReadyDeliveryJobs s (Clock_Now svc (W_ticks w)) limit) s (w\<lparr>W_ticks := Suc (W_ticks w)\<rparr>)"
  by (simp add: processReadyDeliveryJobs_def bindM_def worldM_def now_def readM_def)

lemma poll_progress:
  assumes "jobs_ok svc s" "wf_store s" "sends_return svc"
  shows "\<exists>s' w'. processReadyDeliveryJobs svc limit s w = (Inr (), s', w') \<and> jobs_ok svc s' \<and> wf_store s' \<and>
    work (deliveryJobs s') + length (ListReadyDeliveryJobs s (Clock_Now svc (W_ticks w)) limit) \<le> work (deliveryJobs s) \<and>
    W_ticks w < W_ticks w' \<and>
    length (W_http w') + work (deliveryJobs s') \<le> length (W_http w) + work (deliveryJobs s)"
  using processDeliveryJobs_progress [OF assms, of "ListReadyDeliveryJobs s (Clock_Now svc (W_ticks w)) limit"
      "w\<lparr>W_ticks := Suc (W_ticks w)\<rparr>"] ListReady_sound [OF wf_job_keyed [OF assms(2)]]
  unfolding poll_run by fastforce

lemma worker_progress:
  assumes "jobs_ok svc s" "wf_store s" "sends_return svc"
  shows "\<exists>s' w'. runDeliveryWorker svc n s w = (Inr (), s', w') \<and> jobs_ok svc s' \<and> wf_store s' \<and>
    length (W_http w') + work (deliveryJobs s') \<le> length (W_http w) + work (deliveryJobs s)"
  using assms
proof (induction n arbitrary: s w)
  case (Suc n)
  from poll_progress [OF Suc.prems, of 32 w] obtain s1 w1 where
    "processReadyDeliveryJobs svc 32 s w = (Inr (), s1, w1)" "jobs_ok svc s1" "wf_store s1"
    "length (W_http w1) + work (deliveryJobs s1) \<le> length (W_http w) + work (deliveryJobs s)" by blast
  with Suc.IH [of s1 w1] Suc.prems(3) show ?case by (fastforce simp: bindM_def)
qed (simp add: returnM_def)

lemma worker_add:
  assumes "runDeliveryWorker svc m s w = (Inr (), s1, w1)"
  shows "runDeliveryWorker svc (m + n) s w = runDeliveryWorker svc n s1 w1"
  using assms
proof (induction m arbitrary: s w)
  case (Suc m)
  from Suc.prems obtain s0 w0 where "processReadyDeliveryJobs svc 32 s w = (Inr (), s0, w0)"
    "runDeliveryWorker svc m s0 w0 = (Inr (), s1, w1)" by (auto simp: bindM_Inr)
  with Suc.IH show ?case by (simp add: bindM_def)
qed (simp add: returnM_def)

lemma work_0_iff: "work m = 0 \<longleftrightarrow> m = fmempty"
proof
  assume "work m = 0"
  then have "fmlookup m k = None" for k using work_drop [of m k] by (cases "fmlookup m k") (auto simp: weight_def)
  then show "m = fmempty" by (intro fmap_ext) simp
qed (simp add: work_def)

text \<open>A clock that goes on for ever passes every time and stays beyond it.\<close>

definition clock_runs :: "Service \<Rightarrow> bool" where
  "clock_runs svc \<longleftrightarrow> (\<forall>t. \<exists>i. \<forall>k \<ge> i. t \<le> Clock_Now svc k)"

lemma worker_eventually_works:
  assumes "jobs_ok svc s" "wf_store s" "sends_return svc" "fmlookup (deliveryJobs s) k = Some job"
    "\<forall>n \<ge> i. Job_NextAttemptAt job \<le> Clock_Now svc n"
  shows "\<exists>n s' w'. runDeliveryWorker svc n s w = (Inr (), s', w') \<and> jobs_ok svc s' \<and> wf_store s' \<and>
    work (deliveryJobs s') < work (deliveryJobs s)"
proof (induction "i - W_ticks w" arbitrary: w rule: less_induct)
  case less
  let ?due = "ListReadyDeliveryJobs s (Clock_Now svc (W_ticks w)) 32"
  from poll_progress [OF assms(1-3), of 32 w] obtain s1 w1 where
    p: "processReadyDeliveryJobs svc 32 s w = (Inr (), s1, w1)" "jobs_ok svc s1" "wf_store s1"
    "work (deliveryJobs s1) + length ?due \<le> work (deliveryJobs s)" "W_ticks w < W_ticks w1" by blast
  have one: "runDeliveryWorker svc (Suc n) s w = runDeliveryWorker svc n s1 w1" for n
    using p(1) by (simp add: bindM_def)
  show ?case
  proof (cases "?due = []")
    case True
    then have "\<not> i \<le> W_ticks w" using ListReady_nonempty [OF assms(4)] assms(5) by blast
    moreover have "s1 = s" using p(1) True by (simp add: poll_run returnM_def)
    ultimately show ?thesis using less [of w1] p(5) one by (metis diff_less_mono2 linorder_not_less)
  next
    case False
    have "runDeliveryWorker svc (Suc 0) s w = (Inr (), s1, w1)" unfolding one by (simp add: returnM_def)
    moreover have "work (deliveryJobs s1) < work (deliveryJobs s)" using p(4) False by (cases ?due) auto
    ultimately show ?thesis using p by blast
  qed
qed

lemma worker_drains:
  assumes "jobs_ok svc s" "wf_store s" "sends_return svc" "clock_runs svc"
  shows "\<exists>n s' w'. runDeliveryWorker svc n s w = (Inr (), s', w') \<and> jobs_ok svc s' \<and> wf_store s' \<and>
    deliveryJobs s' = fmempty"
  using assms(1,2)
proof (induction "work (deliveryJobs s)" arbitrary: s w rule: less_induct)
  case less
  show ?case
  proof (cases "deliveryJobs s = fmempty")
    case True
    then show ?thesis using less.prems by (intro exI [of _ 0]) (simp add: returnM_def)
  next
    case False
    then obtain k job where k: "fmlookup (deliveryJobs s) k = Some job" by (metis fmap_ext fmempty_lookup option.exhaust)
    obtain i where "\<forall>n \<ge> i. Job_NextAttemptAt job \<le> Clock_Now svc n" using assms(4) by (auto simp: clock_runs_def)
    from worker_eventually_works [OF less.prems assms(3) k this, of w] obtain n s1 w1 where
      1: "runDeliveryWorker svc n s w = (Inr (), s1, w1)" "jobs_ok svc s1" "wf_store s1"
      "work (deliveryJobs s1) < work (deliveryJobs s)" by blast
    from less.hyps [OF 1(4,2,3), of w1] worker_add [OF 1(1)] show ?thesis by metis
  qed
qed

subsection \<open>Without an adapter\<close>

definition no_adapter :: "Service \<Rightarrow> mstate \<Rightarrow> bool" where
  "no_adapter svc s \<longleftrightarrow> (\<forall>k job. fmlookup (deliveryJobs s) k = Some job \<longrightarrow>
     Job_ID job = k \<and> protocolAdapter svc (Pay_Protocol (Job_Payload job)) = None)"

lemma processDeliveryJobs_no_adapter:
  assumes "no_adapter svc s" "\<forall>job \<in> set jobs. fmlookup (deliveryJobs s) (Job_ID job) = Some job" "distinct (map Job_ID jobs)"
  shows "\<exists>s' w'. processDeliveryJobs svc jobs s w = (Inr (), s', w') \<and> no_adapter svc s' \<and>
    fmdom (deliveryJobs s') = fmdom (deliveryJobs s) \<and> W_http w' = W_http w \<and> W_sqs w' = W_sqs w"
  using assms
proof (induction jobs arbitrary: s w)
  case (Cons job jobs)
  have stored: "fmlookup (deliveryJobs s) (Job_ID job) = Some job" using Cons.prems(2) by simp
  have "protocolAdapter svc (Pay_Protocol (CopyDeliveryJobPayload (Job_Payload job))) = None"
    using stored Cons.prems(1) by (simp add: no_adapter_def CopyDeliveryJobPayload_def)
  define new where "new = retried svc w (5 * Second) ''protocol adapter not configured'' job"
  define s1 where "s1 = s\<lparr>deliveryJobs := fmupd (Job_ID job) new (deliveryJobs s)\<rparr>"
  have p: "processDeliveryJob svc job s w = (Inr (), s1, w\<lparr>W_ticks := W_ticks w + 2\<rparr>)"
    using \<open>protocolAdapter svc _ = None\<close>
    by (simp add: processDeliveryJob_def reschedule_run [OF stored] s1_def new_def)
  have new: "Job_ID new = Job_ID job" "Job_Payload new = Job_Payload job" by (simp_all add: new_def retried_def)
  have "protocolAdapter svc (Pay_Protocol (Job_Payload job)) = None" using stored Cons.prems(1) by (simp add: no_adapter_def)
  with Cons.prems(1) have "no_adapter svc s1" unfolding no_adapter_def s1_def by (simp add: new)
  moreover have "\<forall>j \<in> set jobs. fmlookup (deliveryJobs s1) (Job_ID j) = Some j" using Cons.prems(2,3) by (auto simp: s1_def)
  moreover have "distinct (map Job_ID jobs)" using Cons.prems(3) by simp
  ultimately have "\<exists>s' w'. processDeliveryJobs svc jobs s1 (w\<lparr>W_ticks := W_ticks w + 2\<rparr>) = (Inr (), s', w') \<and> no_adapter svc s' \<and>
    fmdom (deliveryJobs s') = fmdom (deliveryJobs s1) \<and> W_http w' = W_http w \<and> W_sqs w' = W_sqs w"
    using Cons.IH [of s1 "w\<lparr>W_ticks := W_ticks w + 2\<rparr>"] by simp
  moreover have "fmdom (deliveryJobs s1) = fmdom (deliveryJobs s)" using stored by (simp add: s1_def fmdomI finsert_absorb)
  ultimately show ?case by (simp add: bindM_def p)
qed (simp add: returnM_def)

lemma worker_no_adapter:
  assumes "no_adapter svc s"
  shows "\<exists>s' w'. runDeliveryWorker svc n s w = (Inr (), s', w') \<and> no_adapter svc s' \<and>
    fmdom (deliveryJobs s') = fmdom (deliveryJobs s) \<and> W_http w' = W_http w \<and> W_sqs w' = W_sqs w"
  using assms
proof (induction n arbitrary: s w)
  case (Suc n)
  have "distinct (map Job_ID (ListReadyDeliveryJobs s t 32)) \<and>
    (\<forall>job \<in> set (ListReadyDeliveryJobs s t 32). fmlookup (deliveryJobs s) (Job_ID job) = Some job)" for t
    using ListReady_sound [of s] Suc.prems by (simp add: no_adapter_def)
  then obtain s1 w1 where "processReadyDeliveryJobs svc 32 s w = (Inr (), s1, w1)" "no_adapter svc s1"
    "fmdom (deliveryJobs s1) = fmdom (deliveryJobs s)" "W_http w1 = W_http w" "W_sqs w1 = W_sqs w"
    using processDeliveryJobs_no_adapter [OF Suc.prems, of "ListReadyDeliveryJobs s (Clock_Now svc (W_ticks w)) 32"
      "w\<lparr>W_ticks := Suc (W_ticks w)\<rparr>"] unfolding poll_run by fastforce
  with Suc.IH [of s1 w1] show ?case by (fastforce simp: bindM_def)
qed (simp add: returnM_def)

subsection \<open>What the worker guarantees\<close>


text \<open>C28: when every queued job has an adapter, the worker makes a bounded number of delivery attempts
  however long it runs: each request is paid for by the retries the queue has left.\<close>

theorem worker_bounded:
  assumes "jobs_ok svc s" "wf_store s" "sends_return svc"
  shows "\<exists>s' w'. runDeliveryWorker svc n s w = (Inr (), s', w') \<and> wf_store s' \<and>
    length (W_http w') + work (deliveryJobs s') \<le> length (W_http w) + work (deliveryJobs s)"
  using worker_progress [OF assms] by blast

text \<open>C27: if moreover the clock goes on for ever, every queued job is sooner or later delivered or given
  up: after enough polls the queue is empty, whatever the endpoints answer.\<close>

theorem worker_empties_queue:
  assumes "jobs_ok svc s" "wf_store s" "sends_return svc" "clock_runs svc"
  shows "\<exists>n s' w'. runDeliveryWorker svc n s w = (Inr (), s', w') \<and> deliveryJobs s' = fmempty"
  using worker_drains [OF assms] by blast

text \<open>Without an adapter for its protocol a job is never given up, whatever its retry policy says: after
  any number of polls it is still queued, and no message was ever sent for any job.\<close>

theorem missing_adapter_keeps_jobs:
  assumes "no_adapter svc s"
  shows "\<exists>s' w'. runDeliveryWorker svc n s w = (Inr (), s', w') \<and>
    fmdom (deliveryJobs s') = fmdom (deliveryJobs s) \<and> W_http w' = W_http w \<and> W_sqs w' = W_sqs w"
  using worker_no_adapter [OF assms] by blast

text \<open>C29: a job stores all that a later attempt needs: the attempt rebuilt from its payload signs the same
  text and produces the same request as the attempt the job was made from.\<close>

theorem stored_attempt_same_request:
  "let again = attemptFromPayload (payloadFromAttempt attempt) in
     stringToSign again = stringToSign attempt \<and>
     bodyForAttempt again policy raw = bodyForAttempt attempt policy raw \<and>
     request_for again body contentType raw = request_for attempt body contentType raw \<and>
     payloadFromAttempt again = payloadFromAttempt attempt"
proof -
  have e: "attribute_entry (DeepCopy v) = attribute_entry v" for v
    by (auto simp: attribute_entry_def DeepCopy_def bytes_of_def split: option.splits)
  have m: "marshalAttributes (cloneMessageAttributes a) = marshalAttributes a" for a
    by (simp add: marshalAttributes_def cloneMessageAttributes_def e case_prod_beta)
  have l: "length (cloneMessageAttributes a) = length a" for a by (simp add: cloneMessageAttributes_def)
  let ?again = "attemptFromPayload (payloadFromAttempt attempt)"
  have "http_payload ?again = http_payload attempt"
    by (simp add: http_payload_def attemptFromPayload_def payloadFromAttempt_def m l)
  moreover have "Att_ProtocolMessage ?again = Att_ProtocolMessage attempt"
    by (simp add: attemptFromPayload_def payloadFromAttempt_def)
  ultimately have "bodyForAttempt ?again policy raw = bodyForAttempt attempt policy raw"
    by (simp only: bodyForAttempt_def)
  moreover have "stringToSign ?again = stringToSign attempt"
    by (simp add: stringToSign_def signed_fields_def attemptFromPayload_def payloadFromAttempt_def)
  moreover have "request_for ?again body contentType raw = request_for attempt body contentType raw"
    by (simp add: request_for_def attemptFromPayload_def payloadFromAttempt_def)
  moreover have "payloadFromAttempt ?again = payloadFromAttempt attempt"
    by (simp add: attemptFromPayload_def payloadFromAttempt_def)
  ultimately show ?thesis by (simp add: Let_def)
qed


subsection \<open>Concrete instances\<close>

definition answering :: "int \<Rightarrow> transport" where
  "answering code = \<lparr>NewRequest = \<lambda>_. Inr (), Do = \<lambda>_ _. Inr (code, ''status'')\<rparr>"

lemma sample_delays: "length (job_delays (sample_job i due)) = 3"
proof -
  have "ParseSubscriptionPolicy [] = Inr DefaultPolicy" by code_simp
  moreover have "map_sum id length (RetryDelays DefaultPolicy) = Inr 3" by code_simp
  ultimately show ?thesis
    by (cases "RetryDelays DefaultPolicy") (simp_all add: job_delays_def job_policy_def sample_job_def)
qed

lemma sample_queue_jobs:
  "deliveryJobs sample_queue = fmupd ''j2'' (sample_job ''j2'' 9) (fmupd ''j1'' (sample_job ''j1'' 5) fmempty)"
  by (simp add: sample_queue_def tx_EnqueueDeliveryJob_def sample_job_def sample_store_maps)

lemma sample_jobs_ok: "jobs_ok (sample_service (Some tr) client) sample_queue"
proof -
  have "Job_ID (sample_job i d) = i" "Job_AttemptCount (sample_job i d) = 0" "Pay_Protocol (Job_Payload (sample_job i d)) = ProtocolHTTP"
    for i d by (simp_all add: sample_job_def)
  then show ?thesis
    unfolding jobs_ok_def job_ok_def sample_queue_jobs
    by (simp add: sample_delays protocolAdapter_def Protocols_def sample_service_def)
qed

lemma sample_sends: "sends_return (sample_service tr None)"
  by (simp add: sends_return_def sample_service_def)


theorem worker_bounded_witness:
  "\<exists>s' w'. runDeliveryWorker (sample_service (Some (answering 503)) None) 1000 sample_queue start_world = (Inr (), s', w') \<and>
     length (W_http w') \<le> 8"
proof -
  have "work (deliveryJobs sample_queue) = 8"
  proof -
    have "weight (sample_job i d) = 4" for i d by (simp add: weight_def sample_delays) (simp add: sample_job_def)
    moreover have "fmdrop ''j2'' (fmupd ''j1'' (sample_job ''j1'' 5) fmempty) = fmupd ''j1'' (sample_job ''j1'' 5) fmempty"
      by (rule fmap_ext) simp
    ultimately show ?thesis unfolding sample_queue_jobs by (simp add: work_upd work_def)
  qed
  with worker_bounded [OF sample_jobs_ok wf_sample_queue sample_sends, of "answering 503" 1000 start_world]
  show ?thesis by (fastforce simp: start_world_def)
qed

theorem worker_empties_queue_witness:
  "\<exists>n s' w'. runDeliveryWorker (sample_service (Some (answering 503)) None) n sample_queue start_world = (Inr (), s', w') \<and>
     deliveryJobs s' = fmempty"
proof (rule worker_empties_queue [OF sample_jobs_ok wf_sample_queue sample_sends])
  show "clock_runs (sample_service (Some (answering 503)) None)" unfolding clock_runs_def
  proof
    fix t
    have "\<forall>k \<ge> nat t. t \<le> 1000000000 * int k" by auto
    then show "\<exists>i. \<forall>k \<ge> i. t \<le> Clock_Now (sample_service (Some (answering 503)) None) k"
      by (auto simp: sample_service_def)
  qed
qed

theorem missing_adapter_keeps_jobs_witness:
  "\<exists>s' w'. runDeliveryWorker (sample_service None None) 1000 sample_queue start_world = (Inr (), s', w') \<and>
     fmlookup (deliveryJobs s') ''j1'' \<noteq> None \<and> W_http w' = []"
proof -
  have "Job_ID (sample_job i d) = i" for i d by (simp add: sample_job_def)
  then have "no_adapter (sample_service None None) sample_queue"
    unfolding no_adapter_def sample_queue_jobs by (simp add: protocolAdapter_def sample_service_def)
  from missing_adapter_keeps_jobs [OF this, of 1000 start_world] obtain s' w' where
    r: "runDeliveryWorker (sample_service None None) 1000 sample_queue start_world = (Inr (), s', w')"
    "fmdom (deliveryJobs s') = fmdom (deliveryJobs sample_queue)" "W_http w' = []" by (auto simp: start_world_def)
  then have "''j1'' |\<in>| fmdom (deliveryJobs s')" unfolding sample_queue_jobs by simp
  with r show ?thesis by (auto simp: fmlookup_dom_iff)
qed

end
