(* ===== verification/Service_Inv.thy ===== *)
theory Service_Inv
  imports Worker
begin

text \<open>
  The invariant of the whole emulator: what is true of the store in every state that API requests and
  worker polls can reach from an empty store, in any order and with any behaviour of the collaborators.
  Each operation keeps it; the proofs are Hoare triples over the sequencing of \<^verbatim>\<open>Service_Base\<close>,
  and the triples of the store operations rest on the interpretation of the store contract.
\<close>

subsection \<open>Well-formed records\<close>

definition attributes_ok :: "TopicAttributes \<Rightarrow> bool" where
  "attributes_ok a \<longleftrightarrow>
     TA_SignatureVersion a \<in> {''1'', ''2''} \<and> TA_TracingConfig a \<in> {''PassThrough'', ''Active''} \<and>
     TA_FifoThroughputScope a \<in> {FifoThroughputTopic, FifoThroughputMessageGroup} \<and>
     (\<not> TA_FifoTopic a \<longrightarrow> \<not> TA_ContentBasedDeduplication a \<and> TA_FifoThroughputScope a = FifoThroughputTopic)"

definition topic_ok :: "Service \<Rightarrow> Topic \<Rightarrow> bool" where
  "topic_ok svc t \<longleftrightarrow>
     Topic_ARN t = FormatARN ''sns'' (Region (cfg svc)) (AccountID (cfg svc)) (Topic_Name t) \<and>
     Topic_Owner t = AccountID (cfg svc) \<and> Topic_Region t = Region (cfg svc) \<and>
     ValidateTopicName (Topic_Name t) (TA_FifoTopic (Topic_Attributes t)) = Inr () \<and>
     size (fmdom (Topic_Tags t)) \<le> 50 \<and> attributes_ok (Topic_Attributes t)"

definition fifo_arn :: "string \<Rightarrow> bool" where
  "fifo_arn arn \<longleftrightarrow> HasSuffix arn ''.fifo''"

definition sub_ok :: "Subscription \<Rightarrow> bool" where
  "sub_ok u \<longleftrightarrow>
     Sub_Protocol u \<in> {ProtocolSQS, ProtocolHTTP, ProtocolHTTPS} \<and>
     (fifo_arn (Sub_TopicARN u) \<longrightarrow> Sub_Protocol u = ProtocolSQS) \<and>
     (Sub_PendingConfirmation u \<longleftrightarrow> \<not> Sub_Confirmed u) \<and>
     (Sub_Protocol u = ProtocolSQS \<longrightarrow> Sub_Confirmed u \<and> SA_DeliveryPolicy (Sub_Attributes u) = []) \<and>
     (\<exists>i. Sub_ARN u = Sub_TopicARN u @ '':'' @ i \<and> CHR '':'' \<notin> set i) \<and>
     \<not> is_err (Validate (SA_FilterPolicy (Sub_Attributes u))) \<and>
     SA_FilterPolicyScope (Sub_Attributes u) \<in> {FilterScopeMessageAttributes, FilterScopeMessageBody} \<and>
     \<not> is_err (ParseRedrivePolicy (SA_RedrivePolicy (Sub_Attributes u)))"

definition token_ok :: "ConfirmationToken \<Rightarrow> bool" where
  "token_ok c \<longleftrightarrow> Tok_Kind c \<in> {''subscribe'', ''unsubscribe''} \<and> (\<forall>u. Tok_Restore c = Some u \<longrightarrow> sub_ok u)"

definition queued_ok :: "DeliveryJob \<Rightarrow> bool" where
  "queued_ok j \<longleftrightarrow> Pay_Protocol (Job_Payload j) \<in> set Protocols"

definition svc_inv :: "Service \<Rightarrow> mstate \<Rightarrow> bool" where
  "svc_inv svc s \<longleftrightarrow> wf_store s \<and>
     (\<forall>k t. fmlookup (topics s) k = Some t \<longrightarrow> topic_ok svc t) \<and>
     (\<forall>k u. fmlookup (subscriptions s) k = Some u \<longrightarrow> sub_ok u) \<and>
     (\<forall>k c. fmlookup (confirmation s) k = Some c \<longrightarrow> token_ok c) \<and>
     (\<forall>k j. fmlookup (deliveryJobs s) k = Some j \<longrightarrow> queued_ok j)"

lemma svc_invD:
  assumes "svc_inv svc s"
  shows "wf_store s" "fmlookup (topics s) k = Some t \<Longrightarrow> topic_ok svc t \<and> Topic_ARN t = k"
    "fmlookup (subscriptions s) k = Some u \<Longrightarrow> sub_ok u \<and> Sub_ARN u = k \<and> fmlookup (topics s) (Sub_TopicARN u) \<noteq> None"
    "fmlookup (confirmation s) k = Some c \<Longrightarrow> token_ok c \<and> fmlookup (topics s) (Tok_TopicARN c) \<noteq> None"
    "fmlookup (deliveryJobs s) k = Some j \<Longrightarrow> queued_ok j \<and> fmlookup (topics s) (Pay_TopicARN (Job_Payload j)) \<noteq> None"
  using assms unfolding svc_inv_def wf_store_def integrity_def keyed_def refs_ok_def by simp_all

lemma svc_inv_records:
  assumes "svc_inv svc s"
  shows "fmlookup (topics s) k = Some t \<Longrightarrow> topic_ok svc t" "fmlookup (subscriptions s) k = Some u \<Longrightarrow> sub_ok u"
    "fmlookup (confirmation s) k = Some c \<Longrightarrow> token_ok c" "fmlookup (deliveryJobs s) k = Some j \<Longrightarrow> queued_ok j"
  using assms unfolding svc_inv_def by simp_all

lemma svc_invI:
  assumes "wf_store s" "\<And>k t. fmlookup (topics s) k = Some t \<Longrightarrow> topic_ok svc t"
    "\<And>k u. fmlookup (subscriptions s) k = Some u \<Longrightarrow> sub_ok u"
    "\<And>k c. fmlookup (confirmation s) k = Some c \<Longrightarrow> token_ok c"
    "\<And>k j. fmlookup (deliveryJobs s) k = Some j \<Longrightarrow> queued_ok j"
  shows "svc_inv svc s"
  using assms by (simp add: svc_inv_def)

lemma svc_inv_NewStore: "svc_inv svc NewStore"
  using wf_NewStore by (simp add: svc_inv_def NewStore_def)

text \<open>The ARN of a subscription determines its topic.\<close>

lemma last_part:
  assumes "a @ c # i = b @ c # j" "c \<notin> set i" "c \<notin> set j"
  shows "a = b"
proof -
  have "takeWhile (\<lambda>x. x \<noteq> c) (rev (x @ c # y)) = rev y" if "c \<notin> set y" for x y
    using that by (auto simp: takeWhile_append)
  then have "i = j" using assms by (metis rev_is_rev_conv)
  with assms(1) show ?thesis by simp
qed

lemma sub_arn_topic:
  assumes "sub_ok u" "sub_ok v" "Sub_ARN u = Sub_ARN v"
  shows "Sub_TopicARN u = Sub_TopicARN v"
proof -
  obtain i j where "Sub_ARN u = Sub_TopicARN u @ CHR '':'' # i" "CHR '':'' \<notin> set i"
    "Sub_ARN v = Sub_TopicARN v @ CHR '':'' # j" "CHR '':'' \<notin> set j"
    using assms(1,2) by (auto simp: sub_ok_def)
  with assms(3) show ?thesis using last_part by metis
qed

lemma topic_name_unique:
  assumes "topic_ok svc t'" "topic_ok svc t" "Topic_ARN t' = Topic_ARN t"
  shows "Topic_Name t' = Topic_Name t"
proof -
  have "FormatARN ''sns'' (Region (cfg svc)) (AccountID (cfg svc)) (Topic_Name t') = Topic_ARN t'"
    "FormatARN ''sns'' (Region (cfg svc)) (AccountID (cfg svc)) (Topic_Name t) = Topic_ARN t"
    using assms(1,2) unfolding topic_ok_def by simp_all
  with assms(3) have "FormatARN ''sns'' (Region (cfg svc)) (AccountID (cfg svc)) (Topic_Name t') =
    FormatARN ''sns'' (Region (cfg svc)) (AccountID (cfg svc)) (Topic_Name t)" by (simp only:)
  then show ?thesis by (rule FormatARN_inj [THEN iffD1])
qed

text \<open>Whether a topic is FIFO can be read off its ARN.\<close>

lemma fifo_arn_Format:
  assumes "ValidateTopicName name fifo = Inr ()"
  shows "fifo_arn (FormatARN a b c name) \<longleftrightarrow> fifo"
proof -
  have "HasSuffix (x @ CHR '':'' # name) ''.fifo'' \<longleftrightarrow> HasSuffix name ''.fifo''" for x
  proof
    assume "HasSuffix (x @ CHR '':'' # name) ''.fifo''"
    then obtain r where r: "x @ CHR '':'' # name = r @ ''.fifo''" by (auto simp: HasSuffix_iff)
    then consider us where "CHR '':'' # name = us @ ''.fifo''" | us where "us @ CHR '':'' # name = ''.fifo''"
      by (auto simp: append_eq_append_conv2)
    then show "HasSuffix name ''.fifo''"
    proof cases
      case (1 us)
      then show ?thesis by (cases us) (auto simp: HasSuffix_iff)
    next
      case (2 us)
      then have "CHR '':'' \<in> set ''.fifo''" unfolding 2 [symmetric] by simp
      then show ?thesis by simp
    qed
  next
    assume "HasSuffix name ''.fifo''"
    then show "HasSuffix (x @ CHR '':'' # name) ''.fifo''" unfolding HasSuffix_iff by (metis append_Cons append_assoc)
  qed
  from this [of "''arn:aws:'' @ a @ '':'' @ b @ '':'' @ c"]
  have "fifo_arn (FormatARN a b c name) \<longleftrightarrow> HasSuffix name ''.fifo''" by (simp add: fifo_arn_def FormatARN_def)
  with ValidateTopicName_fifo_iff [OF assms] show ?thesis by simp
qed

lemma topic_fifo_arn: "topic_ok svc t \<Longrightarrow> fifo_arn (Topic_ARN t) \<longleftrightarrow> TA_FifoTopic (Topic_Attributes t)"
  by (simp add: topic_ok_def fifo_arn_Format)

subsection \<open>The store operations\<close>

lemma triple_CreateTopic:
  assumes "topic_ok svc t"
  shows "triple (svc_inv svc) (Store_CreateTopic t) (\<lambda>_. svc_inv svc) (svc_inv svc)"
  unfolding triple_def
proof (intro allI impI)
  fix s and w :: world
  assume I: "svc_inv svc s"
  obtain r s1 where c: "mem_create_topic t s = (r, s1)" by fastforce
  then have run: "Store_CreateTopic t s w = (case r of Inl e \<Rightarrow> (Inl e, s, w) | Inr a \<Rightarrow> (Inr a, s1, w))"
    by (auto simp: Store_CreateTopic_def Tx_def mem_create_topic_def split: prod.splits sum.split)
  have "svc_inv svc s1" if "r = Inr ()"
  proof -
    have s1: "s1 = s\<lparr>topics := fmupd (Topic_ARN t) t (topics s),
        topicsByName := fmupd (Topic_Name t) (Topic_ARN t) (topicsByName s)\<rparr>"
      and n: "\<not> (\<exists>arn \<in> set (sorted_keys (topics s)). named (mem_abs s) (Topic_Name t) arn)"
      using c that mem_create_topic_cases [of s t] I by (auto simp: svc_inv_def wf_store_def split: if_splits)
    have "fmlookup (topics s) (Topic_ARN t) = None"
    proof (rule ccontr)
      assume "fmlookup (topics s) (Topic_ARN t) \<noteq> None"
      then obtain t' where t': "fmlookup (topics s) (Topic_ARN t) = Some t'" by blast
      then have "Topic_Name t' = Topic_Name t"
        using svc_invD(2) [OF I t'] by (intro topic_name_unique [OF _ assms]) simp_all
      with t' n show False by (auto simp: named_iff fmlookup_dom_iff)
    qed
    then have "wf_store s1" using mem.good_create_topic [of s t r s1] I c by (simp add: wf_store_good svc_inv_def)
    then show ?thesis by (rule svc_invI) (auto simp: s1 assms intro: svc_inv_records [OF I] split: if_splits)
  qed
  with run I show "case Store_CreateTopic t s w of (Inl e, s', w') \<Rightarrow> svc_inv svc s' | (Inr a, s', w') \<Rightarrow> svc_inv svc s'"
    by (auto split: sum.splits)
qed

lemma inv_delete_topic: "svc_inv svc s \<Longrightarrow> svc_inv svc (snd (tx_DeleteTopic arn s))"
proof -
  assume I: "svc_inv svc s"
  then have "wf_store (snd (tx_DeleteTopic arn s))" using mem.good_delete_topic by (simp add: svc_inv_def wf_store_good)
  then show ?thesis
    by (rule svc_invI)
      (auto simp: tx_DeleteTopic_def Let_def intro: svc_inv_records [OF I] split: option.splits if_splits)
qed

lemma inv_create_sub:
  assumes I: "svc_inv svc s" and u: "sub_ok u" "fmlookup (topics s) (Sub_TopicARN u) \<noteq> None"
  shows "svc_inv svc (snd (tx_CreateSubscription u s))"
proof -
  have "Sub_TopicARN old = Sub_TopicARN u" if "fmlookup (subscriptions s) (Sub_ARN u) = Some old" for old
    using svc_invD(3) [OF I that] u(1) by (intro sub_arn_topic) simp_all
  then have "wf_store (snd (tx_CreateSubscription u s))"
    using mem.good_create_sub [of s u] I u(2) by (simp add: svc_inv_def wf_store_good)
  then show ?thesis
    by (rule svc_invI) (auto simp: tx_CreateSubscription_def u intro: svc_inv_records [OF I] split: if_splits)
qed

lemma inv_delete_sub: "svc_inv svc s \<Longrightarrow> svc_inv svc (snd (tx_DeleteSubscription arn s))"
proof -
  assume I: "svc_inv svc s"
  then have "wf_store (snd (tx_DeleteSubscription arn s))"
    using mem.good_delete_sub [of s arn] by (simp add: svc_inv_def wf_store_good) (metis prod.collapse)
  then show ?thesis
    by (rule svc_invI)
      (auto simp: tx_DeleteSubscription_def intro: svc_inv_records [OF I] split: option.splits if_splits)
qed

lemma inv_put_token:
  assumes I: "svc_inv svc s" and "token_ok c" "fmlookup (topics s) (Tok_TopicARN c) \<noteq> None"
    "Tok_Kind c = ''subscribe'' \<Longrightarrow>
       \<exists>u. fmlookup (subscriptions s) (Tok_SubscriptionARN c) = Some u \<and> Sub_TopicARN u = Tok_TopicARN c"
    "Tok_Kind c = ''unsubscribe'' \<Longrightarrow>
       \<exists>u. Tok_Restore c = Some u \<and> Sub_ARN u = Tok_SubscriptionARN c \<and> Sub_TopicARN u = Tok_TopicARN c"
  shows "svc_inv svc (tx_PutConfirmationToken c s)"
proof -
  have "wf_store (tx_PutConfirmationToken c s)"
    using mem.good_put_token [of s c] assms by (simp add: svc_inv_def wf_store_good)
  then show ?thesis
    by (rule svc_invI) (auto simp: tx_PutConfirmationToken_def assms(2) intro: svc_inv_records [OF I] split: if_splits)
qed

lemma inv_delete_token: "svc_inv svc s \<Longrightarrow> svc_inv svc (tx_DeleteConfirmationToken c s)"
proof -
  assume I: "svc_inv svc s"
  then have "wf_store (tx_DeleteConfirmationToken c s)"
    using mem.good_delete_token by (simp add: svc_inv_def wf_store_good)
  then show ?thesis
    by (rule svc_invI) (auto simp: tx_DeleteConfirmationToken_def intro: svc_inv_records [OF I] split: if_splits)
qed

lemma inv_enqueue:
  assumes I: "svc_inv svc s" and "queued_ok j" "fmlookup (topics s) (Pay_TopicARN (Job_Payload j)) \<noteq> None"
  shows "svc_inv svc (snd (tx_EnqueueDeliveryJob j s))"
proof -
  have "wf_store (snd (tx_EnqueueDeliveryJob j s))"
    using mem.good_enqueue [of s j] assms by (simp add: svc_inv_def wf_store_good)
  then show ?thesis
    by (rule svc_invI) (auto simp: tx_EnqueueDeliveryJob_def assms(2) intro: svc_inv_records [OF I] split: if_splits)
qed

lemma inv_delete_job: "svc_inv svc s \<Longrightarrow> svc_inv svc (Store_DeleteDeliveryJob i s)"
proof -
  assume I: "svc_inv svc s"
  then have "wf_store (Store_DeleteDeliveryJob i s)" using mem.good_delete_job by (simp add: svc_inv_def wf_store_good)
  then show ?thesis
    by (rule svc_invI) (auto simp: Store_DeleteDeliveryJob_def intro: svc_inv_records [OF I] split: if_splits)
qed

lemma inv_update_topic:
  assumes I: "svc_inv svc s" and keeps: "keeps_topic fn"
    and ok: "\<And>t t' x w1. fmlookup (topics s) arn = Some t \<Longrightarrow> topic_ok svc t \<Longrightarrow> fn t w = (Inr (t', x), w1) \<Longrightarrow> topic_ok svc t'"
    and run: "tx_UpdateTopic arn fn s w = (r, s', w')"
  shows "svc_inv svc s'"
proof -
  have wf: "wf_store s'" using mem.good_update_topic [OF _ keeps run] I by (simp add: svc_inv_def wf_store_good)
  show ?thesis
  proof (cases "fmlookup (topics s) arn")
    case (Some t)
    obtain x w1 where x: "fn t w = (x, w1)" by fastforce
    show ?thesis
    proof (cases x)
      case (Inr p)
      then obtain t' y where p: "p = (t', y)" by fastforce
      have "topic_ok svc t'" using ok [OF Some] x Inr p svc_inv_records(1) [OF I Some] by blast
      moreover have "s' = s\<lparr>topics := fmupd arn t' (topics s)\<rparr>" using run Some x Inr p by (simp add: tx_UpdateTopic_def)
      ultimately show ?thesis
        by (intro svc_invI [OF wf]) (auto intro: svc_inv_records [OF I] split: if_splits)
    qed (use run Some x I in \<open>simp add: tx_UpdateTopic_def\<close>)
  qed (use run I in \<open>simp add: tx_UpdateTopic_def\<close>)
qed

lemma inv_update_sub:
  assumes I: "svc_inv svc s" and keeps: "keeps_sub fn"
    and ok: "\<And>u u' x w1. sub_ok u \<Longrightarrow> fn u w = (Inr (u', x), w1) \<Longrightarrow> sub_ok u'"
    and run: "tx_UpdateSubscription arn fn s w = (r, s', w')"
  shows "svc_inv svc s'"
proof -
  have wf: "wf_store s'" using mem.good_update_sub [OF _ keeps run] I by (simp add: svc_inv_def wf_store_good)
  show ?thesis
  proof (cases "fmlookup (subscriptions s) arn")
    case (Some u)
    obtain x w1 where x: "fn u w = (x, w1)" by fastforce
    show ?thesis
    proof (cases x)
      case (Inr p)
      then obtain u' y where p: "p = (u', y)" by fastforce
      have "sub_ok u'" using ok x Inr p svc_inv_records(2) [OF I Some] by blast
      moreover have "s' = s\<lparr>subscriptions := fmupd arn u' (subscriptions s)\<rparr>"
        using run Some x Inr p by (simp add: tx_UpdateSubscription_def)
      ultimately show ?thesis
        by (intro svc_invI [OF wf]) (auto intro: svc_inv_records [OF I] split: if_splits)
    qed (use run Some x I in \<open>simp add: tx_UpdateSubscription_def\<close>)
  qed (use run I in \<open>simp add: tx_UpdateSubscription_def\<close>)
qed

subsection \<open>Triples\<close>

lemma triple_stateM:
  assumes "\<And>s a s'. P s \<Longrightarrow> f s = (Inr a, s') \<Longrightarrow> Q a s'" "\<And>s e s'. P s \<Longrightarrow> f s = (Inl e, s') \<Longrightarrow> E s'"
  shows "triple P (stateM f) Q E"
  using assms by (auto simp: triple_def stateM_def split: prod.split sum.split)

lemma triple_attemptM:
  assumes "\<And>s w a w'. P s \<Longrightarrow> f w = (Inr a, w') \<Longrightarrow> Q a s" "\<And>s. P s \<Longrightarrow> E s"
  shows "triple P (attemptM f) Q E"
  using assms by (auto simp: triple_def attemptM_def split: prod.split sum.split)

lemma stateM_fun: "stateM f = (\<lambda>s w. case f s of (r, s') \<Rightarrow> (r, s', w))"
  by (rule ext)+ (simp add: stateM_def)

lemma Store_as_stateM:
  "Store_DeleteTopic arn = Tx (stateM (tx_DeleteTopic arn))"
  "Store_CreateSubscription u = Tx (stateM (tx_CreateSubscription u))"
  "Store_DeleteSubscription arn = Tx (stateM (tx_DeleteSubscription arn))"
  "Store_DeleteConfirmationToken c = Tx (stateM (\<lambda>s. (Inr (), tx_DeleteConfirmationToken c s)))"
proof -
  show "Store_DeleteTopic arn = Tx (stateM (tx_DeleteTopic arn))"
    "Store_CreateSubscription u = Tx (stateM (tx_CreateSubscription u))"
    "Store_DeleteSubscription arn = Tx (stateM (tx_DeleteSubscription arn))"
    "Store_DeleteConfirmationToken c = Tx (stateM (\<lambda>s. (Inr (), tx_DeleteConfirmationToken c s)))"
    by (simp_all add: stateM_fun Store_DeleteTopic_def Store_CreateSubscription_def Store_DeleteSubscription_def
      Store_DeleteConfirmationToken_def)
qed

lemma triple_UpdateTopic:
  assumes "keeps_topic fn" "\<And>s. P s \<Longrightarrow> svc_inv svc s"
    "\<And>s t w t' x w1. P s \<Longrightarrow> fmlookup (topics s) arn = Some t \<Longrightarrow> topic_ok svc t \<Longrightarrow> fn t w = (Inr (t', x), w1) \<Longrightarrow> topic_ok svc t'"
  shows "triple P (Store_UpdateTopic arn fn)
    (\<lambda>(t', x) s. svc_inv svc s \<and> fmlookup (topics s) arn = Some t') (svc_inv svc)"
  unfolding Store_UpdateTopic_def
proof (rule triple_Tx)
  show "triple P (tx_UpdateTopic arn fn) (\<lambda>(t', x) s. svc_inv svc s \<and> fmlookup (topics s) arn = Some t') (\<lambda>_. True)"
  proof (rule tripleI)
    fix s w a s' w'
    assume P: "P s" and run: "tx_UpdateTopic arn fn s w = (Inr a, s', w')"
    have "svc_inv svc s'" by (rule inv_update_topic [OF assms(2) [OF P] assms(1) assms(3) [OF P] run])
    then show "(case a of (t', x) \<Rightarrow> \<lambda>s. svc_inv svc s \<and> fmlookup (topics s) arn = Some t') s'"
      using run by (auto simp: tx_UpdateTopic_def split: option.splits prod.splits sum.splits)
  qed simp
qed (rule assms(2))

lemma triple_UpdateSubscription:
  assumes "keeps_sub fn" "\<And>u w u' x w1. sub_ok u \<Longrightarrow> fn u w = (Inr (u', x), w1) \<Longrightarrow> sub_ok u'"
  shows "triple (svc_inv svc) (Store_UpdateSubscription arn fn) (\<lambda>_. svc_inv svc) (svc_inv svc)"
  unfolding Store_UpdateSubscription_def
proof (rule triple_Tx)
  show "triple (svc_inv svc) (tx_UpdateSubscription arn fn) (\<lambda>_. svc_inv svc) (\<lambda>_. True)"
    by (rule tripleI) (auto intro: inv_update_sub [OF _ assms(1) assms(2)])
qed simp

lemma triple_topicM:
  assumes "\<And>s. P s \<Longrightarrow> E s"
  shows "triple P (topicM arn) (\<lambda>t s. P s \<and> fmlookup (topics s) arn = Some t) E"
  unfolding topicM_def
  by (intro triple_mapErr triple_read) (auto simp: getTopic_def assms split: option.splits)

lemma triple_subscriptionM:
  assumes "\<And>s. P s \<Longrightarrow> E s"
  shows "triple P (subscriptionM arn) (\<lambda>u s. P s \<and> fmlookup (subscriptions s) arn = Some u) E"
  unfolding subscriptionM_def
  by (intro triple_mapErr triple_read) (auto simp: getSubscription_def assms split: option.splits)

lemma triple_authorizedTopic:
  "triple (svc_inv svc) (authorizedTopic identity arn action)
     (\<lambda>t s. svc_inv svc s \<and> fmlookup (topics s) arn = Some t) (svc_inv svc)"
  unfolding authorizedTopic_def
  by (rule triple_bind [OF triple_topicM], simp, rule triple_bind [OF triple_pure]) (auto intro: triple_intros)

lemma triple_pre: "triple P m Q E \<Longrightarrow> (\<And>s. P' s \<Longrightarrow> P s) \<Longrightarrow> triple P' m Q E"
  by (erule triple_weaken) auto

lemma triple_conseq:
  "triple P m Q E \<Longrightarrow> (\<And>s. P' s \<Longrightarrow> P s) \<Longrightarrow> (\<And>a s. Q a s \<Longrightarrow> Q' a s) \<Longrightarrow> triple P' m Q' E"
  by (erule triple_weaken) auto

subsection \<open>Operations on topics\<close>

text \<open>An outcome that keeps the attributes well-formed and the kind of the topic.\<close>

definition attribute_outcome :: "TopicAttributes \<Rightarrow> TopicAttributes res \<Rightarrow> bool" where
  "attribute_outcome a r \<longleftrightarrow>
     (case r of Inl _ \<Rightarrow> True | Inr a' \<Rightarrow> attributes_ok a' \<and> TA_FifoTopic a' = TA_FifoTopic a)"

lemma attribute_outcome_name:
  "(name = c \<Longrightarrow> attribute_outcome a x) \<Longrightarrow> attribute_outcome a y \<Longrightarrow> attribute_outcome a (if name = c then x else y)"
  by simp

lemma attribute_outcome_if:
  "(b \<Longrightarrow> attribute_outcome a x) \<Longrightarrow> (\<not> b \<Longrightarrow> attribute_outcome a y) \<Longrightarrow> attribute_outcome a (if b then x else y)"
  by simp

lemma attribute_outcome_Inl [simp]: "attribute_outcome a (Inl e)"
  by (simp add: attribute_outcome_def)

lemma apply_attribute_outcome:
  assumes "attributes_ok a" "creating \<Longrightarrow> name = ''FifoTopic'' \<Longrightarrow> EqualFold v ''true'' = TA_FifoTopic a"
  shows "attribute_outcome a (applyTopicAttribute creating name v a)"
  unfolding applyTopicAttribute_def
  by (intro attribute_outcome_name attribute_outcome_if)
    (use assms in \<open>auto simp: attribute_outcome_def attributes_ok_def\<close>)

lemma apply_attribute_ok:
  assumes "applyTopicAttribute creating name v a = Inr a'" "attributes_ok a"
    "creating \<Longrightarrow> name = ''FifoTopic'' \<Longrightarrow> EqualFold v ''true'' = TA_FifoTopic a"
  shows "attributes_ok a' \<and> TA_FifoTopic a' = TA_FifoTopic a"
  using apply_attribute_outcome [of a creating name v] assms by (simp add: attribute_outcome_def)

lemma apply_attributes_ok:
  assumes "applyTopicAttributeList creating attrs a = Inr a'" "attributes_ok a"
    "\<And>v. creating \<Longrightarrow> (''FifoTopic'', v) \<in> set attrs \<Longrightarrow> EqualFold v ''true'' = TA_FifoTopic a"
  shows "attributes_ok a' \<and> TA_FifoTopic a' = TA_FifoTopic a"
  using assms
proof (induction creating attrs a rule: applyTopicAttributeList.induct)
  case (2 creating name v attrs a)
  from 2(2) obtain a1 where a1: "applyTopicAttribute creating name v a = Inr a1"
    "applyTopicAttributeList creating attrs a1 = Inr a'" by (auto split: sum.splits)
  have "attributes_ok a1 \<and> TA_FifoTopic a1 = TA_FifoTopic a"
    using apply_attribute_ok [OF a1(1) 2(3)] 2(4) by (simp add: list.set_intros(1))
  with 2(1) [OF a1(1,2)] 2(4) show ?case by (simp add: list.set_intros)
qed simp

lemma SetTopicAttribute_inv:
  "triple (svc_inv svc) (SetTopicAttribute svc identity arn name v) (\<lambda>_. svc_inv svc) (svc_inv svc)"
proof -
  let ?fn = "\<lambda>topic w. case applyTopicAttributes svc topic [(name, v)] False w of
      (Inl e, w') \<Rightarrow> (Inl e, w') | (Inr t, w') \<Rightarrow> (Inr (t, ()), w')"
  have fn: "\<exists>a tm. applyTopicAttributeList False [(name, v)] (Topic_Attributes t) = Inr a \<and>
      t' = t\<lparr>Topic_Attributes := a, Topic_UpdatedAt := tm\<rparr>" if "?fn t w = (Inr (t', x), w1)" for t w t' x w1
    using that by (auto simp: applyTopicAttributes_def split: sum.splits prod.splits)
  have keeps: "keeps_topic ?fn" unfolding keeps_topic_def using fn by fastforce
  have ok: "topic_ok svc t'" if r: "?fn t w = (Inr (t', x), w1)" and t: "topic_ok svc t" for t w t' x w1
  proof -
    from fn [OF r] obtain a tm where a: "applyTopicAttributeList False [(name, v)] (Topic_Attributes t) = Inr a"
      "t' = t\<lparr>Topic_Attributes := a, Topic_UpdatedAt := tm\<rparr>" by blast
    from t have "attributes_ok (Topic_Attributes t)" by (simp add: topic_ok_def)
    from apply_attributes_ok [OF a(1) this] t show ?thesis unfolding a(2) topic_ok_def by simp
  qed
  show ?thesis unfolding SetTopicAttribute_def
    by (rule triple_bind [OF triple_authorizedTopic], rule triple_bind [OF triple_UpdateTopic [OF keeps, where svc = svc]])
      (auto intro: ok triple_intros)
qed

lemma keeps_plain: "keeps_topic (plainUpdate f) \<longleftrightarrow> (\<forall>t. Topic_ARN (f t) = Topic_ARN t \<and> Topic_Name (f t) = Topic_Name t)"
  by (auto simp: keeps_topic_def plainUpdate_def)

lemma TagTopic_inv: "triple (svc_inv svc) (TagTopic identity arn tags) (\<lambda>_. svc_inv svc) (svc_inv svc)"
proof -
  let ?f = "\<lambda>topic :: Topic. topic\<lparr>Topic_Tags := Topic_Tags topic ++\<^sub>f tags\<rparr>"
  have ok: "topic_ok svc (?f t)" if "topic_ok svc t" "size (fmdom (Topic_Tags t)) + size (fmdom tags) \<le> 50" for t
  proof -
    have "size (fmdom (Topic_Tags t ++\<^sub>f tags)) \<le> size (fmdom (Topic_Tags t)) + size (fmdom tags)"
      using card_Un_le [of "fset (fmdom (Topic_Tags t))" "fset (fmdom tags)"] by simp
    with that show ?thesis by (simp add: topic_ok_def)
  qed
  show ?thesis unfolding TagTopic_def
  proof (rule triple_bind [OF triple_authorizedTopic])
    fix topic
    let ?P = "\<lambda>s. svc_inv svc s \<and> fmlookup (topics s) arn = Some topic"
    let ?small = "size (fmdom (Topic_Tags topic)) + size (fmdom tags) \<le> 50"
    have g: "triple ?P (guardM (\<not> 50 < size (fmdom (Topic_Tags topic)) + size (fmdom tags)) tagLimitExceeded)
        (\<lambda>_ s. ?P s \<and> ?small) (svc_inv svc)"
      by (rule triple_guard) auto
    show "triple ?P (bindM (guardM (\<not> 50 < size (fmdom (Topic_Tags topic)) + size (fmdom tags)) tagLimitExceeded)
        (\<lambda>_. bindM (Store_UpdateTopic arn (plainUpdate ?f)) (\<lambda>_. returnM ()))) (\<lambda>_. svc_inv svc) (svc_inv svc)"
      by (rule triple_bind [OF g], rule triple_bind [OF triple_UpdateTopic [where svc = svc]])
        (auto simp: keeps_plain plainUpdate_def intro!: ok triple_intros)
  qed
qed

lemma update_existing_inv:
  assumes "\<And>t. Topic_ARN (f t) = Topic_ARN t \<and> Topic_Name (f t) = Topic_Name t" "\<And>t. topic_ok svc t \<Longrightarrow> topic_ok svc (f t)"
  shows "triple (svc_inv svc) (bindM (Store_UpdateTopic arn (plainUpdate f)) (\<lambda>_. returnM ())) (\<lambda>_. svc_inv svc) (svc_inv svc)"
  by (rule triple_bind [OF triple_UpdateTopic [where svc = svc]])
    (auto simp: keeps_plain plainUpdate_def assms intro!: triple_intros)

lemma UntagTopic_inv: "triple (svc_inv svc) (UntagTopic identity arn tagKeys) (\<lambda>_. svc_inv svc) (svc_inv svc)"
proof -
  have fold: "fset (fmdom (fold fmdrop ks m)) \<subseteq> fset (fmdom m)" for ks and m :: "(string, string) fmap"
    by (induction ks arbitrary: m) (simp, fastforce)
  have "topic_ok svc (t\<lparr>Topic_Tags := fold fmdrop tagKeys (Topic_Tags t)\<rparr>)" if "topic_ok svc t" for t
    using that card_mono [OF _ fold [of tagKeys "Topic_Tags t"]] by (simp add: topic_ok_def)
  then show ?thesis unfolding UntagTopic_def
    by (intro triple_bind [OF triple_authorizedTopic] triple_conseq [OF update_existing_inv]) auto
qed

lemma updatePolicy_inv: "triple (svc_inv svc) (updatePolicy arn p) (\<lambda>_. svc_inv svc) (svc_inv svc)"
  unfolding updatePolicy_def by (rule update_existing_inv) (auto simp: topic_ok_def attributes_ok_def)

lemma AddPermission_inv:
  "triple (svc_inv svc) (Service_AddPermission identity arn label accounts actions) (\<lambda>_. svc_inv svc) (svc_inv svc)"
  unfolding Service_AddPermission_def
  by (rule triple_bind [OF triple_authorizedTopic], rule triple_bind [OF triple_pure])
    (auto intro: triple_conseq [OF updatePolicy_inv])

lemma RemovePermission_inv:
  "triple (svc_inv svc) (Service_RemovePermission identity arn label) (\<lambda>_. svc_inv svc) (svc_inv svc)"
  unfolding Service_RemovePermission_def
  by (rule triple_bind [OF triple_authorizedTopic], rule triple_bind [OF triple_pure])
    (auto intro: triple_conseq [OF updatePolicy_inv])

lemma DeleteTopic_inv: "triple (svc_inv svc) (DeleteTopic identity arn) (\<lambda>_. svc_inv svc) (svc_inv svc)"
  unfolding DeleteTopic_def Store_as_stateM
proof (rule triple_try)
  show "triple (svc_inv svc) (Tx (stateM (tx_DeleteTopic arn))) (\<lambda>_. svc_inv svc) (svc_inv svc)"
    by (rule triple_Tx, rule triple_stateM) (auto dest: inv_delete_topic [of svc _ arn])
qed (auto intro: triple_intros)

text \<open>The attributes of a request are a Go map: no key comes twice.\<close>

lemma CreateTopic_inv:
  assumes "distinct (map fst attrs)"
  shows "triple (svc_inv svc) (CreateTopic svc identity name attrs tags) (\<lambda>_. svc_inv svc) (svc_inv svc)"
proof -
  let ?fifo = "EqualFold (attribute_lookup attrs ''FifoTopic'') ''true''"
  let ?ok = "\<lambda>t. Topic_ARN t = FormatARN ''sns'' (Region (cfg svc)) (AccountID (cfg svc)) (Topic_Name t) \<and>
     Topic_Owner t = AccountID (cfg svc) \<and> Topic_Region t = Region (cfg svc) \<and>
     Topic_Name t = name \<and> TA_FifoTopic (Topic_Attributes t) = ?fifo \<and> attributes_ok (Topic_Attributes t)"
  have fifo: "EqualFold v ''true'' = ?fifo" if "(''FifoTopic'', v) \<in> set attrs" for v
    using assms that by (simp add: attribute_lookup_def map_of_is_SomeI)
  have new: "attributes_ok (Topic_Attributes (new_topic svc name ?fifo tags t))" for t
    by (simp add: new_topic_def attributes_ok_def)
  have applied: "?ok topic" if "applyTopicAttributes svc (new_topic svc name ?fifo tags t) attrs True w = (Inr topic, w')" for t w topic w'
  proof -
    from that obtain a tm where a: "applyTopicAttributeList True attrs (Topic_Attributes (new_topic svc name ?fifo tags t)) = Inr a"
      "topic = (new_topic svc name ?fifo tags t)\<lparr>Topic_Attributes := a, Topic_UpdatedAt := tm\<rparr>"
      by (auto simp: applyTopicAttributes_def split: sum.splits prod.splits)
    have "TA_FifoTopic (Topic_Attributes (new_topic svc name ?fifo tags t)) = ?fifo" by (simp add: new_topic_def)
    with apply_attributes_ok [OF a(1) new] fifo show ?thesis unfolding a(2) by (simp add: new_topic_def)
  qed
  let ?J = "\<lambda>s. svc_inv svc s \<and> ValidateTopicName name ?fifo = Inr ()"
  have validate: "triple (svc_inv svc) (resM (wrap_invalid (ValidateTopicName name ?fifo))) (\<lambda>_. ?J) (svc_inv svc)"
    by (rule triple_res) (auto simp: wrap_invalid_def split: sum.splits)
  have store: "triple ?J (bindM (worldM (now svc)) (\<lambda>t.
      bindM (attemptM (applyTopicAttributes svc (new_topic svc name ?fifo tags t) attrs True)) (\<lambda>topic.
      bindM (guardM (\<not> size (fmdom (Topic_Tags topic)) > 50) tagLimitExceeded) (\<lambda>_.
      bindM (Store_CreateTopic topic) (\<lambda>_. returnM (Some topic, False)))))) (\<lambda>_. svc_inv svc) (svc_inv svc)"
  proof (rule triple_bind [OF triple_pure], simp, simp)
    fix t
    show "triple ?J (bindM (attemptM (applyTopicAttributes svc (new_topic svc name ?fifo tags t) attrs True)) (\<lambda>topic.
      bindM (guardM (\<not> size (fmdom (Topic_Tags topic)) > 50) tagLimitExceeded) (\<lambda>_.
      bindM (Store_CreateTopic topic) (\<lambda>_. returnM (Some topic, False))))) (\<lambda>_. svc_inv svc) (svc_inv svc)"
    proof (rule triple_bind [where R = "\<lambda>topic s. ?J s \<and> ?ok topic"])
      show "triple ?J (attemptM (applyTopicAttributes svc (new_topic svc name ?fifo tags t) attrs True))
        (\<lambda>topic s. ?J s \<and> ?ok topic) (svc_inv svc)"
        by (rule triple_attemptM) (use applied in blast)+
      fix topic
      show "triple (\<lambda>s. ?J s \<and> ?ok topic) (bindM (guardM (\<not> size (fmdom (Topic_Tags topic)) > 50) tagLimitExceeded) (\<lambda>_.
        bindM (Store_CreateTopic topic) (\<lambda>_. returnM (Some topic, False)))) (\<lambda>_. svc_inv svc) (svc_inv svc)"
      proof (cases "topic_ok svc topic")
        case True
        then show ?thesis
          by (rule_tac triple_bind [OF triple_pure], simp, blast,
              rule_tac triple_bind [OF triple_pre [OF triple_CreateTopic [OF True]]])
            (auto intro: triple_intros)
      next
        case False
        show ?thesis
          by (rule triple_bind [where R = "\<lambda>_ _. False"], rule triple_guard)
            (use False in \<open>auto simp: topic_ok_def triple_def\<close>)
      qed
    qed
  qed
  show ?thesis unfolding CreateTopic_def Let_def
  proof (rule triple_bind [OF validate])
    fix u :: unit
    show "triple ?J (tryM (readM (\<lambda>s. findTopicByName s name)) (\<lambda>found.
        case found of Inr existing \<Rightarrow> returnM (existing, True) | Inl _ \<Rightarrow> bindM (worldM (now svc)) (\<lambda>t.
            bindM (attemptM (applyTopicAttributes svc (new_topic svc name ?fifo tags t) attrs True)) (\<lambda>topic.
            bindM (guardM (\<not> size (fmdom (Topic_Tags topic)) > 50) tagLimitExceeded) (\<lambda>_.
            bindM (Store_CreateTopic topic) (\<lambda>_. returnM (Some topic, False))))))) (\<lambda>_. svc_inv svc) (svc_inv svc)"
      by (rule triple_try [where R = "\<lambda>_. ?J" and R' = ?J]) (use store in \<open>auto intro: triple_intros\<close>)
  qed
qed

end
