(* ===== verification/Service_Safety.thy ===== *)
theory Service_Safety
  imports Service_Inv
begin

text \<open>
  The remaining operations keep the invariant of \<^verbatim>\<open>Service_Inv\<close>: subscriptions and their confirmation,
  publishing, and the polls of the worker.  Then the transition system of the emulator, one step per
  request or poll, and what holds in every state it reaches.
\<close>

subsection \<open>Operations on subscriptions\<close>

lemma apply_sub_attribute_ok:
  assumes "applySubscriptionAttribute (Sub_Protocol u) name v (Sub_Attributes u) = Inr a" "sub_ok u"
  shows "sub_ok (u\<lparr>Sub_Attributes := a\<rparr>)"
proof -
  have "ProtocolSQS \<noteq> ProtocolHTTP" "ProtocolSQS \<noteq> ProtocolHTTPS" by (simp_all add: go_eval)
  with assms show ?thesis
    unfolding applySubscriptionAttribute_def sub_ok_def by (simp split: if_splits) force+
qed

lemma apply_sub_attributes_ok:
  assumes "applySubscriptionAttributeList (Sub_Protocol u) attrs (Sub_Attributes u) = Inr a" "sub_ok u"
  shows "sub_ok (u\<lparr>Sub_Attributes := a\<rparr>)"
  using assms
proof (induction attrs arbitrary: u)
  case (Cons p attrs)
  obtain name v where p: "p = (name, v)" by fastforce
  from Cons.prems(1) obtain a1 where a1: "applySubscriptionAttribute (Sub_Protocol u) name v (Sub_Attributes u) = Inr a1"
    "applySubscriptionAttributeList (Sub_Protocol u) attrs a1 = Inr a" by (auto simp: p split: sum.splits)
  from Cons.IH [of "u\<lparr>Sub_Attributes := a1\<rparr>"] apply_sub_attribute_ok [OF a1(1) Cons.prems(2)] a1(2) show ?case by simp
qed auto

lemma refresh_ok: "sub_ok u \<Longrightarrow> sub_ok (u\<lparr>Sub_Attributes := refreshEffectivePolicy topic (Sub_Attributes u)\<rparr>)"
  by (simp add: sub_ok_def refreshEffectivePolicy_def split: sum.split prod.split)

lemma applySubscriptionAttributes_ok:
  assumes "applySubscriptionAttributes u topic attrs = Inr u'"
  shows "\<exists>a. u' = u\<lparr>Sub_Attributes := a\<rparr>" "sub_ok u \<Longrightarrow> sub_ok u'"
proof -
  from assms obtain a where a: "applySubscriptionAttributeList (Sub_Protocol u) attrs (Sub_Attributes u) = Inr a"
    "u' = u\<lparr>Sub_Attributes := refreshEffectivePolicy topic a\<rparr>"
    by (auto simp: applySubscriptionAttributes_def split: sum.splits)
  then show "\<exists>a. u' = u\<lparr>Sub_Attributes := a\<rparr>" by blast
  show "sub_ok u \<Longrightarrow> sub_ok u'"
    using refresh_ok [OF apply_sub_attributes_ok [OF a(1)], of topic] by (simp add: a(2))
qed

lemma new_subscription_ok:
  assumes "protocolName \<in> {ProtocolSQS, ProtocolHTTP, ProtocolHTTPS}" "fifo_arn arn \<longrightarrow> protocolName = ProtocolSQS"
    "CHR '':'' \<notin> set subID"
  shows "sub_ok (new_subscription svc arn protocolName endpoint t subID)"
proof -
  have "\<not> is_err (Validate [])" "\<not> is_err (ParseRedrivePolicy [])" by code_simp+
  with assms show ?thesis by (auto simp: sub_ok_def new_subscription_def)
qed

lemma attempt_parts:
  "buildConfirmationAttempt svc topic sub token ty w = (Inr (attempt, j), w') \<Longrightarrow>
     Att_Subscription attempt = sub \<and> Att_Topic attempt = topic"
  "buildNotificationAttempt svc topic sub m input i d q w = (Inr (attempt, j), w') \<Longrightarrow>
     Att_Subscription attempt = sub \<and> Att_Topic attempt = topic"
  by (auto simp: buildConfirmationAttempt_def buildNotificationAttempt_def split: sum.splits prod.splits)

lemma job_parts:
  assumes "prepareDeliveryJob svc kind attempt j raw rp w = (job, w')"
  shows "Pay_Protocol (Job_Payload job) = Sub_Protocol (Att_Subscription attempt)"
    "Pay_TopicARN (Job_Payload job) = Topic_ARN (Att_Topic attempt)"
  using assms
  by (auto simp: prepareDeliveryJob_def payloadFromAttempt_def Let_def split: sum.splits prod.splits)

lemma pure_sqsCall [simp]: "pure_op (sqsCall c f)"
  by (simp add: pure_op_def sqsCall_def)

lemma pure_attemptM [simp]: "pure_op (attemptM f)"
  by (simp add: pure_op_def attemptM_def split: prod.split)

lemma pure_validateSQS: "pure_op (validateSQSSubscription svc topic sub)"
  unfolding validateSQSSubscription_def by (auto intro!: pure_bind pure_mapErr split: option.split)

definition has_topic :: "Service \<Rightarrow> string \<Rightarrow> Topic \<Rightarrow> mstate \<Rightarrow> bool" where
  "has_topic svc arn topic s \<longleftrightarrow> svc_inv svc s \<and> fmlookup (topics s) arn = Some topic"

lemma has_topic_inv: "has_topic svc arn topic s \<Longrightarrow> svc_inv svc s"
  by (simp add: has_topic_def)

lemma register_inv:
  assumes "sub_ok sub" "Sub_TopicARN sub = arn" "queued_ok job" "Pay_TopicARN (Job_Payload job) = arn"
  shows "triple (has_topic svc arn topic)
    (Tx (bindM (stateM (tx_CreateSubscription sub)) (\<lambda>_.
         bindM (stateM (\<lambda>s. (Inr (), tx_PutConfirmationToken (confirmation_token sub hex e auth ''subscribe'' None) s))) (\<lambda>_.
         enqueueM job)))) (\<lambda>_. svc_inv svc) (svc_inv svc)"
proof (rule triple_Tx, rule tripleI)
  fix s w a s' w'
  let ?token = "confirmation_token sub hex e auth ''subscribe'' None"
  let ?s1 = "snd (tx_CreateSubscription sub s)" and ?s2 = "tx_PutConfirmationToken ?token (snd (tx_CreateSubscription sub s))"
  assume h: "has_topic svc arn topic s"
    and run: "bindM (stateM (tx_CreateSubscription sub)) (\<lambda>_.
      bindM (stateM (\<lambda>s. (Inr (), tx_PutConfirmationToken ?token s))) (\<lambda>_. enqueueM job)) s w = (Inr a, s', w')"
  have s': "s' = snd (tx_EnqueueDeliveryJob job ?s2)"
    using run by (auto simp: bindM_def stateM_def enqueueM_def tx_CreateSubscription_def tx_EnqueueDeliveryJob_def)
  have top: "topics ?s1 = topics s" "topics ?s2 = topics s"
    by (simp_all add: tx_CreateSubscription_def tx_PutConfirmationToken_def)
  have 1: "svc_inv svc ?s1" using h assms(1,2) by (intro inv_create_sub) (simp_all add: has_topic_def)
  have "fmlookup (subscriptions ?s1) (Sub_ARN sub) = Some sub" by (simp add: tx_CreateSubscription_def)
  then have "svc_inv svc ?s2"
    using h assms(2) top by (intro inv_put_token [OF 1]) (auto simp: token_ok_def confirmation_token_def has_topic_def)
  then show "svc_inv svc s'" unfolding s' using assms(3,4) h top by (intro inv_enqueue) (simp_all add: has_topic_def)
qed (auto simp: has_topic_def)

lemma registerSubscription_inv:
  assumes "sub_ok sub" "Sub_TopicARN sub = arn" "Sub_Protocol sub = protocolName" "Topic_ARN topic = arn"
  shows "triple (has_topic svc arn topic) (registerSubscription svc topic protocolName t sub) (\<lambda>_. svc_inv svc) (svc_inv svc)"
proof (cases "protocolName = ProtocolSQS")
  case True
  have "triple (has_topic svc arn topic) (stateM (tx_CreateSubscription sub)) (\<lambda>_. svc_inv svc) (\<lambda>_. True)"
    using inv_create_sub [OF _ assms(1)] assms(2) by (intro triple_stateM) (fastforce simp: has_topic_def)+
  then show ?thesis using True unfolding registerSubscription_def Store_as_stateM
    by (auto intro: triple_Tx has_topic_inv)
next
  case False
  let ?H = "has_topic svc arn topic"
  let ?token = "\<lambda>hex. confirmation_token sub hex (t + 48 * Hour) False ''subscribe'' None"
  have queued: "queued_ok job \<and> Pay_TopicARN (Job_Payload job) = arn"
    if "prepareDeliveryJob svc kind attempt j raw rp w = (job, w')" "Att_Subscription attempt = sub \<and> Att_Topic attempt = topic"
    for kind attempt j raw rp w job w'
    using job_parts [OF that(1)] that(2) assms False by (auto simp: queued_ok_def Protocols_def sub_ok_def)
  show ?thesis unfolding registerSubscription_def if_P [OF False] Let_def
  proof (rule triple_bind [OF triple_pure], simp, erule has_topic_inv,
      rule triple_bind [where R = "\<lambda>(attempt, j) s. ?H s \<and> Att_Subscription attempt = sub \<and> Att_Topic attempt = topic"])
    fix hex
    show "triple ?H (attemptM (buildConfirmationAttempt svc topic sub (?token hex) ''SubscriptionConfirmation''))
      (\<lambda>(attempt, j) s. ?H s \<and> Att_Subscription attempt = sub \<and> Att_Topic attempt = topic) (svc_inv svc)"
      by (rule triple_attemptM) (auto dest: attempt_parts intro: has_topic_inv)
    fix pair :: "DeliveryAttempt \<times> string"
    obtain attempt j where pair: "pair = (attempt, j)" by fastforce
    show "triple ((case pair of (attempt, j) \<Rightarrow> \<lambda>s. ?H s \<and> Att_Subscription attempt = sub \<and> Att_Topic attempt = topic))
      (case pair of (attempt, j) \<Rightarrow>
        bindM (worldM (prepareDeliveryJob svc ''subscription_confirmation'' attempt j False [])) (\<lambda>job.
        Tx (bindM (stateM (tx_CreateSubscription sub)) (\<lambda>_.
            bindM (stateM (\<lambda>s. (Inr (), tx_PutConfirmationToken (?token hex) s))) (\<lambda>_. enqueueM job)))))
      (\<lambda>_. svc_inv svc) (svc_inv svc)"
      unfolding pair prod.case
    proof (rule triple_assume, rule triple_bind [where R = "\<lambda>job s. ?H s \<and> (queued_ok job \<and> Pay_TopicARN (Job_Payload job) = arn)"])
      assume a: "Att_Subscription attempt = sub \<and> Att_Topic attempt = topic"
      show "triple ?H (worldM (prepareDeliveryJob svc ''subscription_confirmation'' attempt j False []))
        (\<lambda>job s. ?H s \<and> (queued_ok job \<and> Pay_TopicARN (Job_Payload job) = arn)) (svc_inv svc)"
        by (rule triple_world) (use queued [OF _ a] in blast)
    qed (rule triple_assume, rule register_inv [OF assms(1,2)], simp_all)
  qed
qed

lemma createSubscription_inv:
  assumes "protocolName \<in> {ProtocolSQS, ProtocolHTTP, ProtocolHTTPS}" "fifo_arn arn \<longrightarrow> protocolName = ProtocolSQS"
    "Topic_ARN topic = arn"
  shows "triple (has_topic svc arn topic) (createSubscription svc topic arn protocolName endpoint attrs)
    (\<lambda>_. svc_inv svc) (svc_inv svc)"
proof -
  let ?H = "has_topic svc arn topic"
  let ?good = "\<lambda>sub. sub_ok sub \<and> Sub_TopicARN sub = arn \<and> Sub_Protocol sub = protocolName"
  have uuid: "triple ?H (worldM (newUUID svc)) (\<lambda>subID s. ?H s \<and> CHR '':'' \<notin> set subID) (svc_inv svc)"
    by (rule triple_world) (auto simp: newUUID_def UUID_no_colon)
  have "?good sub" if "applySubscriptionAttributes (new_subscription svc arn protocolName endpoint t subID) topic attrs = Inr sub"
    "CHR '':'' \<notin> set subID" for t subID sub
    using applySubscriptionAttributes_ok [OF that(1)] new_subscription_ok [OF assms(1,2) that(2)]
    by (auto simp: new_subscription_def)
  then have build: "triple (\<lambda>s. ?H s \<and> CHR '':'' \<notin> set subID)
      (resM (applySubscriptionAttributes (new_subscription svc arn protocolName endpoint t subID) topic attrs))
      (\<lambda>sub s. ?H s \<and> ?good sub) (svc_inv svc)" for t subID
    by (intro triple_res) (auto intro: has_topic_inv)
  have check: "pure_op (if protocolName = ProtocolSQS then validateSQSSubscription svc topic sub
     else case protocolAdapter svc protocolName of None \<Rightarrow> returnM () | Some adapter \<Rightarrow> resM (ValidateEndpoint endpoint))" for sub
    by (simp add: pure_validateSQS split: option.split)
  have finish: "triple (\<lambda>s. ?H s \<and> ?good sub)
      (bindM (registerSubscription svc topic protocolName t (sub\<lparr>Sub_Attributes := refreshEffectivePolicy topic (Sub_Attributes sub)\<rparr>))
        (\<lambda>_. returnM (sub\<lparr>Sub_Attributes := refreshEffectivePolicy topic (Sub_Attributes sub)\<rparr>))) (\<lambda>_. svc_inv svc) (svc_inv svc)"
    for sub t
    by (rule triple_assume, rule triple_bind [OF registerSubscription_inv])
      (auto simp: assms(3) intro: refresh_ok triple_intros)
  show ?thesis unfolding createSubscription_def Let_def
    by (rule triple_bind [OF triple_pure], simp, erule has_topic_inv, rule triple_bind [OF uuid], rule triple_bind [OF build],
        rule triple_bind [OF triple_pure [OF check]], blast intro: has_topic_inv, rule finish)
qed

lemma Subscribe_inv:
  "triple (svc_inv svc) (Subscribe svc identity arn protocol endpoint attrs returnARN) (\<lambda>_. svc_inv svc) (svc_inv svc)"
proof -
  let ?p = "ToLower protocol"
  have known: "triple (\<lambda>s. svc_inv svc s \<and> fmlookup (topics s) arn = Some topic)
      (guardM (?p = ProtocolSQS \<or> ?p = ProtocolHTTP \<or> ?p = ProtocolHTTPS) e)
      (\<lambda>_ s. has_topic svc arn topic s \<and> ?p \<in> {ProtocolSQS, ProtocolHTTP, ProtocolHTTPS}) (svc_inv svc)" for topic e
    by (rule triple_guard) (auto simp: has_topic_def)
  have fifo: "triple (has_topic svc arn topic)
      (guardM (\<not> (TA_FifoTopic (Topic_Attributes topic) \<and> ?p \<noteq> ProtocolSQS)) e)
      (\<lambda>_ s. has_topic svc arn topic s \<and> ((fifo_arn arn \<longrightarrow> ?p = ProtocolSQS) \<and> Topic_ARN topic = arn)) (svc_inv svc)" for topic e
  proof (rule triple_guard)
    fix s
    assume h: "has_topic svc arn topic s" and ok: "\<not> (TA_FifoTopic (Topic_Attributes topic) \<and> ?p \<noteq> ProtocolSQS)"
    have "topic_ok svc topic \<and> Topic_ARN topic = arn" using h svc_invD(2) unfolding has_topic_def by blast
    with h ok topic_fifo_arn show "has_topic svc arn topic s \<and> ((fifo_arn arn \<longrightarrow> ?p = ProtocolSQS) \<and> Topic_ARN topic = arn)"
      by blast
  qed (rule has_topic_inv)
  have pure: "pure_op (findExistingSubscription arn ?p endpoint)" by (simp add: findExistingSubscription_def)
  have create: "triple (has_topic svc arn topic)
      (case existing of Some sub \<Rightarrow> returnM (pending_reply sub returnARN)
       | None \<Rightarrow> bindM (createSubscription svc topic arn ?p endpoint attrs) (\<lambda>sub. returnM (pending_reply sub returnARN)))
      (\<lambda>_. svc_inv svc) (svc_inv svc)"
    if "?p \<in> {ProtocolSQS, ProtocolHTTP, ProtocolHTTPS}" "(fifo_arn arn \<longrightarrow> ?p = ProtocolSQS) \<and> Topic_ARN topic = arn"
    for topic existing
    using that by (cases existing)
      (auto intro: triple_intros has_topic_inv triple_bind [OF createSubscription_inv])
  show ?thesis unfolding Subscribe_def Let_def
    by (rule triple_bind [OF triple_authorizedTopic], rule triple_bind [OF known], rule triple_assume,
        rule triple_bind [OF fifo], rule triple_assume, rule triple_bind [OF triple_pure [OF pure]],
        erule has_topic_inv, rule create)
qed

lemma confirmed_ok: "sub_ok u \<Longrightarrow> sub_ok (confirm auth u)"
  by (simp add: sub_ok_def confirm_def)

lemma keeps_sub_plain: "(\<And>u. Sub_ARN (f u) = Sub_ARN u \<and> Sub_TopicARN (f u) = Sub_TopicARN u) \<Longrightarrow> keeps_sub (plainUpdate f)"
  by (simp add: keeps_sub_def plainUpdate_def)

lemma delete_token_triple: "triple (svc_inv svc) (Store_DeleteConfirmationToken c) (\<lambda>_. svc_inv svc) (svc_inv svc)"
  unfolding Store_as_stateM by (rule triple_Tx, rule triple_stateM) (auto intro: inv_delete_token)

lemma create_sub_triple:
  assumes "sub_ok u"
  shows "triple (\<lambda>s. svc_inv svc s \<and> fmlookup (topics s) (Sub_TopicARN u) \<noteq> None) (Store_CreateSubscription u)
    (\<lambda>_. svc_inv svc) (svc_inv svc)"
  unfolding Store_as_stateM
  by (rule triple_Tx, rule triple_stateM) (use inv_create_sub [OF _ assms] in \<open>fastforce simp: tx_CreateSubscription_def\<close>)+

lemma token_subject:
  assumes "svc_inv svc s" "fmlookup (confirmation s) k = Some c"
  shows "Tok_Kind c = ''subscribe'' \<Longrightarrow>
      \<exists>u. fmlookup (subscriptions s) (Tok_SubscriptionARN c) = Some u \<and> Sub_TopicARN u = Tok_TopicARN c"
    "Tok_Kind c = ''unsubscribe'' \<Longrightarrow>
      \<exists>u. Tok_Restore c = Some u \<and> Sub_ARN u = Tok_SubscriptionARN c \<and> Sub_TopicARN u = Tok_TopicARN c"
proof -
  have "tokens_ok (mem_abs s)" using assms(1) by (simp add: svc_inv_def wf_store_def integrity_def)
  from this [unfolded tokens_ok_def mem_abs_simps, rule_format, OF assms(2)]
  show "Tok_Kind c = ''subscribe'' \<Longrightarrow>
      \<exists>u. fmlookup (subscriptions s) (Tok_SubscriptionARN c) = Some u \<and> Sub_TopicARN u = Tok_TopicARN c"
    "Tok_Kind c = ''unsubscribe'' \<Longrightarrow>
      \<exists>u. Tok_Restore c = Some u \<and> Sub_ARN u = Tok_SubscriptionARN c \<and> Sub_TopicARN u = Tok_TopicARN c"
    by blast+
qed

lemma ConfirmSubscription_inv:
  "triple (svc_inv svc) (ConfirmSubscription svc identity arn token auth) (\<lambda>_. svc_inv svc) (svc_inv svc)"
proof -
  let ?P = "\<lambda>tok s. svc_inv svc s \<and> fmlookup (confirmation s) token = Some tok"
  have read: "triple (svc_inv svc) (mapErr (\<lambda>_. NewNotFound ''Token does not exist'') (readM (\<lambda>s. getConfirmationToken s token)))
      ?P (svc_inv svc)"
    by (intro triple_mapErr triple_read) (auto simp: getConfirmationToken_def split: option.splits)
  have update: "triple (svc_inv svc) (Store_UpdateSubscription a (plainUpdate (confirm auth))) (\<lambda>_. svc_inv svc) (svc_inv svc)" for a
  proof (rule triple_UpdateSubscription)
    show "keeps_sub (plainUpdate (confirm auth))" by (rule keeps_sub_plain) (simp add: confirm_def)
  qed (auto simp: plainUpdate_def intro: confirmed_ok)
  have delete: "triple (svc_inv svc) (case p of (sub, _) \<Rightarrow> bindM (Store_DeleteConfirmationToken token) (\<lambda>_. returnM (Sub_ARN sub)))
      (\<lambda>_. svc_inv svc) (svc_inv svc)" for p :: "Subscription \<times> unit"
    by (cases p) (auto intro!: triple_bind [OF delete_token_triple] triple_return)
  have confirm: "triple (?P tok)
      (bindM (mapErr g (Store_UpdateSubscription (Tok_SubscriptionARN tok) (plainUpdate (confirm auth)))) (\<lambda>(sub, _).
       bindM (Store_DeleteConfirmationToken token) (\<lambda>_. returnM (Sub_ARN sub)))) (\<lambda>_. svc_inv svc) (svc_inv svc)" for tok g
    by (rule triple_bind [OF triple_mapErr [OF triple_pre [OF update]] delete]) simp
  have restore: "triple (?P tok)
      (case Tok_Restore tok of
          None \<Rightarrow> throwM nil_panic
        | Some sub \<Rightarrow>
            let restore = sub\<lparr>Sub_PendingConfirmation := False, Sub_Confirmed := True,
                              Sub_AuthenticateOnUnsubscribe := Tok_AuthenticateOnUnsubscribe tok\<rparr> in
            bindM (Store_CreateSubscription restore) (\<lambda>_.
            bindM (Store_DeleteConfirmationToken token) (\<lambda>_. returnM (Sub_ARN restore)))) (\<lambda>_. svc_inv svc) (svc_inv svc)"
    if k: "Tok_Kind tok = ''unsubscribe''" for tok
  proof (cases "Tok_Restore tok")
    case (Some u)
    let ?u = "u\<lparr>Sub_PendingConfirmation := False, Sub_Confirmed := True,
      Sub_AuthenticateOnUnsubscribe := Tok_AuthenticateOnUnsubscribe tok\<rparr>"
    have pre: "svc_inv svc s \<and> fmlookup (topics s) (Sub_TopicARN ?u) \<noteq> None \<and> sub_ok ?u" if P: "?P tok s" for s
    proof -
      have t: "token_ok tok \<and> fmlookup (topics s) (Tok_TopicARN tok) \<noteq> None" using P svc_invD(4) by blast
      have "Sub_TopicARN u = Tok_TopicARN tok"
        using token_subject(2) [of svc s token tok] P k Some by auto
      moreover have "sub_ok ?u" using t Some by (auto simp: token_ok_def sub_ok_def)
      ultimately show ?thesis using t P by simp
    qed
    show ?thesis
    proof (cases "sub_ok ?u")
      case True
      show ?thesis unfolding Some option.case Let_def
        by (rule triple_bind [OF triple_pre [OF create_sub_triple [OF True]]], use pre in blast,
            rule triple_bind [OF delete_token_triple]) (auto intro: triple_intros)
    qed (use pre in \<open>auto simp: triple_def\<close>)
  qed (auto intro: triple_intros)
  show ?thesis unfolding ConfirmSubscription_def
    by (rule triple_bind [OF read], rule triple_bind [OF triple_pure], simp, blast,
        rule triple_bind [OF triple_pure], simp, blast, rule triple_bind [OF triple_pure], simp, blast)
      (auto intro: confirm restore triple_intros)
qed

lemma triple_if:
  "(b \<Longrightarrow> triple P m Q E) \<Longrightarrow> (\<not> b \<Longrightarrow> triple P m' Q E) \<Longrightarrow> triple P (if b then m else m') Q E"
  by simp

lemma retire_inv:
  assumes "queued_ok job" "Pay_TopicARN (Job_Payload job) = Sub_TopicARN sub"
  shows "triple (\<lambda>s. svc_inv svc s \<and> fmlookup (subscriptions s) arn = Some sub)
    (Tx (bindM (mapErr g (stateM (tx_DeleteSubscription arn))) (\<lambda>_.
         bindM (stateM (\<lambda>s. (Inr (), tx_PutConfirmationToken (confirmation_token sub hex e auth ''unsubscribe'' (Some sub)) s))) (\<lambda>_.
         enqueueM job)))) (\<lambda>_. svc_inv svc) (svc_inv svc)"
proof (rule triple_Tx, rule tripleI)
  fix s w a s' w'
  let ?token = "confirmation_token sub hex e auth ''unsubscribe'' (Some sub)"
  let ?s1 = "snd (tx_DeleteSubscription arn s)"
  assume P: "svc_inv svc s \<and> fmlookup (subscriptions s) arn = Some sub"
    and run: "bindM (mapErr g (stateM (tx_DeleteSubscription arn))) (\<lambda>_.
      bindM (stateM (\<lambda>s. (Inr (), tx_PutConfirmationToken ?token s))) (\<lambda>_. enqueueM job)) s w = (Inr a, s', w')"
  have s': "s' = snd (tx_EnqueueDeliveryJob job (tx_PutConfirmationToken ?token ?s1))"
    using run P
    by (auto simp: bindM_def stateM_def enqueueM_def mapErr_def tryM_def returnM_def tx_DeleteSubscription_def tx_EnqueueDeliveryJob_def)
  have u: "sub_ok sub" "Sub_ARN sub = arn" "fmlookup (topics s) (Sub_TopicARN sub) \<noteq> None"
    using P svc_invD(3) by blast+
  have top: "topics ?s1 = topics s" by (simp add: tx_DeleteSubscription_def split: option.split)
  have "svc_inv svc (tx_PutConfirmationToken ?token ?s1)"
    using P u top by (intro inv_put_token inv_delete_sub) (auto simp: token_ok_def confirmation_token_def)
  then show "svc_inv svc s'" unfolding s'
    using assms u(3) top by (intro inv_enqueue) (simp_all add: tx_PutConfirmationToken_def)
qed auto

lemma Unsubscribe_inv: "triple (svc_inv svc) (Unsubscribe svc identity arn) (\<lambda>_. svc_inv svc) (svc_inv svc)"
proof -
  let ?P = "\<lambda>sub s. svc_inv svc s \<and> fmlookup (subscriptions s) arn = Some sub"
  have plain: "triple (?P sub) (bindM (mapErr g (Store_DeleteSubscription arn)) (\<lambda>_. returnM ()))
      (\<lambda>_. svc_inv svc) (svc_inv svc)" for sub g
  proof (rule triple_bind [OF triple_mapErr])
    show "triple (?P sub) (Store_DeleteSubscription arn) (\<lambda>_. svc_inv svc) (svc_inv svc)"
      unfolding Store_as_stateM
      by (rule triple_Tx, rule triple_stateM) (use inv_delete_sub [of svc _ arn] in \<open>fastforce+\<close>)
  qed (auto intro: triple_intros)
  let ?Q = "\<lambda>sub topic s. ?P sub s \<and> fmlookup (topics s) (Sub_TopicARN sub) = Some topic"
  have http: "triple (?Q sub topic)
     (bindM (worldM (newRandomHex svc 160)) (\<lambda>hex.
       bindM (worldM (now svc)) (\<lambda>t.
       let token = confirmation_token sub hex (t + 48 * Hour) (Sub_AuthenticateOnUnsubscribe sub) ''unsubscribe'' (Some sub) in
       bindM (attemptM (buildConfirmationAttempt svc topic sub token ''UnsubscribeConfirmation'')) (\<lambda>(attempt, effectiveJSON).
       bindM (worldM (prepareDeliveryJob svc ''unsubscribe_confirmation'' attempt effectiveJSON False [])) (\<lambda>job.
       Tx (bindM (mapErr (\<lambda>_. NewNotFound ''Subscription does not exist'') (stateM (tx_DeleteSubscription arn))) (\<lambda>_.
           bindM (stateM (\<lambda>s. (Inr (), tx_PutConfirmationToken token s))) (\<lambda>_.
           enqueueM job))))))))
     (\<lambda>_. svc_inv svc) (svc_inv svc)"
    if p: "Sub_Protocol sub = ProtocolHTTP \<or> Sub_Protocol sub = ProtocolHTTPS" for sub topic
    unfolding Let_def
  proof (rule triple_bind [OF triple_pure], simp, blast, rule triple_bind [OF triple_pure], simp, blast,
      rule triple_bind [where R = "\<lambda>(attempt, j) s. ?Q sub topic s \<and> (Att_Subscription attempt = sub \<and> Att_Topic attempt = topic)"])
    fix hex t
    let ?token = "confirmation_token sub hex (t + 48 * Hour) (Sub_AuthenticateOnUnsubscribe sub) ''unsubscribe'' (Some sub)"
    show "triple (?Q sub topic) (attemptM (buildConfirmationAttempt svc topic sub ?token ''UnsubscribeConfirmation''))
      (\<lambda>(attempt, j) s. ?Q sub topic s \<and> (Att_Subscription attempt = sub \<and> Att_Topic attempt = topic)) (svc_inv svc)"
      by (rule triple_attemptM) (auto dest: attempt_parts)
    fix pair :: "DeliveryAttempt \<times> string"
    obtain attempt j where pair: "pair = (attempt, j)" by fastforce
    have queued: "queued_ok job \<and> Pay_TopicARN (Job_Payload job) = Sub_TopicARN sub"
      if "prepareDeliveryJob svc ''unsubscribe_confirmation'' attempt j False [] w = (job, w')" "?Q sub topic s"
        "Att_Subscription attempt = sub \<and> Att_Topic attempt = topic" for w job w' s
      using job_parts [OF that(1)] that(2,3) p svc_invD(2) [of svc s "Sub_TopicARN sub" topic]
      by (auto simp: queued_ok_def Protocols_def)
    show "triple (case pair of (attempt, j) \<Rightarrow> \<lambda>s. ?Q sub topic s \<and> (Att_Subscription attempt = sub \<and> Att_Topic attempt = topic))
      (case pair of (attempt, j) \<Rightarrow>
        bindM (worldM (prepareDeliveryJob svc ''unsubscribe_confirmation'' attempt j False [])) (\<lambda>job.
        Tx (bindM (mapErr (\<lambda>_. NewNotFound ''Subscription does not exist'') (stateM (tx_DeleteSubscription arn))) (\<lambda>_.
           bindM (stateM (\<lambda>s. (Inr (), tx_PutConfirmationToken ?token s))) (\<lambda>_. enqueueM job)))))
      (\<lambda>_. svc_inv svc) (svc_inv svc)"
      unfolding pair prod.case
    proof (rule triple_assume, rule triple_bind [where R = "\<lambda>job s. ?P sub s \<and> (queued_ok job \<and> Pay_TopicARN (Job_Payload job) = Sub_TopicARN sub)"])
      assume a: "Att_Subscription attempt = sub \<and> Att_Topic attempt = topic"
      show "triple (?Q sub topic) (worldM (prepareDeliveryJob svc ''unsubscribe_confirmation'' attempt j False []))
        (\<lambda>job s. ?P sub s \<and> (queued_ok job \<and> Pay_TopicARN (Job_Payload job) = Sub_TopicARN sub)) (svc_inv svc)"
        by (rule triple_world) (use queued [OF _ _ a] in blast)
    qed (rule triple_assume, rule retire_inv, simp_all)
  qed
  have subM: "triple (svc_inv svc) (subscriptionM arn) ?P (svc_inv svc)" by (rule triple_subscriptionM) simp
  have topM: "triple (?P sub) (topicM (Sub_TopicARN sub)) (?Q sub) (svc_inv svc)" for sub
    by (rule triple_topicM) simp
  show ?thesis unfolding Unsubscribe_def
    by (rule triple_bind [OF subM], rule triple_bind [OF triple_pure], simp, blast, rule triple_bind [OF topM],
        rule triple_if, erule http, rule triple_pre [OF plain], blast)
qed

lemma SetSubscriptionAttribute_inv:
  "triple (svc_inv svc) (SetSubscriptionAttribute identity arn name v) (\<lambda>_. svc_inv svc) (svc_inv svc)"
proof -
  let ?fn = "\<lambda>topic sub w. case applySubscriptionAttributes sub topic [(name, v)] of Inl e \<Rightarrow> (Inl e, w) | Inr u \<Rightarrow> (Inr (u, ()), w)"
  have first: "triple (svc_inv svc) (Store_UpdateSubscription arn (?fn topic)) (\<lambda>_. svc_inv svc) (svc_inv svc)" for topic
  proof (rule triple_UpdateSubscription)
    show "keeps_sub (?fn topic)"
      unfolding keeps_sub_def by (fastforce dest: applySubscriptionAttributes_ok(1) split: sum.splits)
  qed (auto intro: applySubscriptionAttributes_ok(2) split: sum.splits)
  have second: "triple (svc_inv svc) (Store_UpdateSubscription arn (plainUpdate (\<lambda>sub. sub\<lparr>Sub_Attributes :=
      (Sub_Attributes sub)\<lparr>SA_EffectiveDeliveryPolicy := p\<rparr>\<rparr>))) (\<lambda>_. svc_inv svc) (svc_inv svc)" for p
    by (rule triple_UpdateSubscription) (auto simp: plainUpdate_def sub_ok_def intro!: keeps_sub_plain)
  have again: "triple (svc_inv svc) (tryM (Store_UpdateSubscription arn (plainUpdate (\<lambda>sub. sub\<lparr>Sub_Attributes :=
      (Sub_Attributes sub)\<lparr>SA_EffectiveDeliveryPolicy := p\<rparr>\<rparr>))) (\<lambda>r. case r of Inl _ \<Rightarrow> returnM None | Inr (u, _) \<Rightarrow> returnM (Some u)))
      (\<lambda>_. svc_inv svc) (svc_inv svc)" for p
    by (rule triple_try [OF second]) (auto intro: triple_intros split: prod.split)
  have sub: "triple (svc_inv svc) (subscriptionM arn) (\<lambda>_. svc_inv svc) (svc_inv svc)"
    by (rule triple_conseq [OF triple_subscriptionM [where P = "svc_inv svc"]]) auto
  have topic: "triple (svc_inv svc) (topicM a) (\<lambda>_. svc_inv svc) (svc_inv svc)" for a
    by (rule triple_conseq [OF triple_topicM [where P = "svc_inv svc"]]) auto
  show ?thesis unfolding SetSubscriptionAttribute_def
    by (rule triple_bind [OF sub], rule triple_bind [OF topic], rule triple_bind [OF first])
      (auto intro: again triple_intros split: sum.split prod.split)
qed

subsection \<open>Publishing\<close>

definition topic_stored :: "Service \<Rightarrow> string \<Rightarrow> mstate \<Rightarrow> bool" where
  "topic_stored svc arn s \<longleftrightarrow> svc_inv svc s \<and> fmlookup (topics s) arn \<noteq> None"

lemma enqueue_triple:
  assumes "queued_ok job" "Pay_TopicARN (Job_Payload job) = arn"
  shows "triple (topic_stored svc arn) (enqueueM job) (\<lambda>_. topic_stored svc arn) (\<lambda>_. True)"
proof (rule tripleI)
  fix s w a s' w'
  assume "topic_stored svc arn s" "enqueueM job s w = (Inr a, s', w')"
  moreover from this have "s' = snd (tx_EnqueueDeliveryJob job s)" by (simp add: enqueueM_def split: prod.splits)
  ultimately show "topic_stored svc arn s'"
    using inv_enqueue [of svc s job] assms by (simp add: topic_stored_def tx_EnqueueDeliveryJob_def)
qed simp

lemma dispatch_subs_inv:
  assumes "\<forall>u. Some u \<in> set subs \<longrightarrow> sub_ok u"
  shows "triple (topic_stored svc (Topic_ARN topic)) (dispatch_subs svc topic input messageID dedupID seq selected subs)
    (\<lambda>_. topic_stored svc (Topic_ARN topic)) (\<lambda>_. True)"
  using assms
proof (induction subs)
  case (Cons entry subs)
  let ?T = "topic_stored svc (Topic_ARN topic)"
  let ?rest = "dispatch_subs svc topic input messageID dedupID seq selected subs"
  have rest: "triple ?T ?rest (\<lambda>_. ?T) (\<lambda>_. True)" using Cons by simp
  show ?case
  proof (cases entry)
    case (Some sub)
    have ok: "sub_ok sub" using Cons.prems Some by simp
    define pm where "pm = (let protocolMessage = lookup_message selected (Sub_Protocol sub) in
      if protocolMessage = [] then lookup_message selected ''default'' else protocolMessage)"
    have sqs: "triple ?T (bindM ?rest (\<lambda>rest. returnM ((sub, pm) # rest))) (\<lambda>_. ?T) (\<lambda>_. True)"
      by (rule triple_bind [OF rest]) (auto intro: triple_intros)
    have http: "triple ?T (bindM (attemptM (buildNotificationAttempt svc topic sub pm input messageID dedupID seq))
        (\<lambda>(attempt, effectiveJSON).
         bindM (worldM (prepareDeliveryJob svc ''notification'' attempt effectiveJSON
                          (SA_RawMessageDelivery (Sub_Attributes sub)) (SA_RedrivePolicy (Sub_Attributes sub)))) (\<lambda>job.
         bindM (enqueueM job) (\<lambda>_. ?rest)))) (\<lambda>_. ?T) (\<lambda>_. True)"
      if p: "Sub_Protocol sub \<noteq> ProtocolSQS"
    proof (rule triple_bind [where R = "\<lambda>(attempt, j) s. ?T s \<and> (Att_Subscription attempt = sub \<and> Att_Topic attempt = topic)"])
      show "triple ?T (attemptM (buildNotificationAttempt svc topic sub pm input messageID dedupID seq))
        (\<lambda>(attempt, j) s. ?T s \<and> (Att_Subscription attempt = sub \<and> Att_Topic attempt = topic)) (\<lambda>_. True)"
        by (rule triple_attemptM) (auto dest: attempt_parts)
      fix pair :: "DeliveryAttempt \<times> string"
      obtain attempt j where pair: "pair = (attempt, j)" by fastforce
      let ?job = "prepareDeliveryJob svc ''notification'' attempt j (SA_RawMessageDelivery (Sub_Attributes sub))
        (SA_RedrivePolicy (Sub_Attributes sub))"
      have "queued_ok job \<and> Pay_TopicARN (Job_Payload job) = Topic_ARN topic"
        if "?job w = (job, w')" "Att_Subscription attempt = sub \<and> Att_Topic attempt = topic" for w job w'
        using job_parts [OF that(1)] that(2) p ok by (auto simp: queued_ok_def Protocols_def sub_ok_def)
      then have job: "triple (\<lambda>s. ?T s \<and> (Att_Subscription attempt = sub \<and> Att_Topic attempt = topic)) (worldM ?job)
        (\<lambda>job s. ?T s \<and> (queued_ok job \<and> Pay_TopicARN (Job_Payload job) = Topic_ARN topic)) (\<lambda>_. True)"
        by (intro triple_world) blast
      have "triple (\<lambda>s. ?T s \<and> (queued_ok job \<and> Pay_TopicARN (Job_Payload job) = Topic_ARN topic))
        (bindM (enqueueM job) (\<lambda>_. ?rest)) (\<lambda>_. ?T) (\<lambda>_. True)" for job
        by (rule triple_assume, rule triple_bind [OF enqueue_triple rest]) auto
      from triple_bind [OF job this]
      show "triple (case pair of (attempt, j) \<Rightarrow> \<lambda>s. ?T s \<and> (Att_Subscription attempt = sub \<and> Att_Topic attempt = topic))
        (case pair of (attempt, effectiveJSON) \<Rightarrow>
           bindM (worldM (prepareDeliveryJob svc ''notification'' attempt effectiveJSON
                          (SA_RawMessageDelivery (Sub_Attributes sub)) (SA_RedrivePolicy (Sub_Attributes sub)))) (\<lambda>job.
           bindM (enqueueM job) (\<lambda>_. ?rest))) (\<lambda>_. ?T) (\<lambda>_. True)"
        unfolding pair prod.case .
    qed
    show ?thesis unfolding Some dispatch_subs.simps
      by (rule triple_if [OF rest], rule triple_if [OF rest]) (use sqs http in \<open>auto simp: pm_def Let_def\<close>)
  qed (auto intro: triple_intros)
qed (auto intro: triple_intros)

lemma pure_redrive: "pure_op (redrivePayload svc payload rp)"
  unfolding redrivePayload_def by (auto intro!: pure_try simp: Let_def split: option.split sum.split)

lemma pure_deliverToSQS: "pure_op (deliverToSQS svc topic sub pm input messageID dedupID seq)"
  unfolding deliverToSQS_def by (auto intro!: pure_bind simp: Let_def split: option.split prod.split)

lemma pure_deliver_all: "pure_op (deliver_all svc topic input messageID dedupID seq items)"
proof (induction items)
  case (Cons item items)
  then show ?case
    by (cases item) (auto intro!: pure_bind pure_try pure_deliverToSQS pure_redrive split: sum.split)
qed simp

lemma listed_subs_ok:
  assumes "svc_inv svc s" "listSubscriptionsByTopic s arn token n = Inr (subs, t)" "Some u \<in> set subs"
  shows "sub_ok u"
  using assms(2,3) svc_inv_records(2) [OF assms(1)]
  by (auto simp: listSubscriptionsByTopic_def page_of_def split: sum.splits)

lemma dispatchPublish_inv:
  "triple (topic_stored svc (Topic_ARN topic)) (dispatchPublish svc topic input messageID dedupID seq)
     (\<lambda>_. svc_inv svc) (svc_inv svc)"
proof -
  let ?T = "topic_stored svc (Topic_ARN topic)"
  have inv: "?T s \<Longrightarrow> svc_inv svc s" for s by (simp add: topic_stored_def)
  have read: "triple ?T (readM (\<lambda>s. listSubscriptionsByTopic s (Topic_ARN topic) [] 10000))
      (\<lambda>(subs, t) s. ?T s \<and> (\<forall>u. Some u \<in> set subs \<longrightarrow> sub_ok u)) (\<lambda>_. True)"
    by (rule triple_read) (auto dest: listed_subs_ok [OF inv])
  have loop: "triple (case p of (subs, t) \<Rightarrow> \<lambda>s. ?T s \<and> (\<forall>u. Some u \<in> set subs \<longrightarrow> sub_ok u))
      (case p of (subs, _) \<Rightarrow> dispatch_subs svc topic input messageID dedupID seq selected subs) (\<lambda>_. ?T) (\<lambda>_. True)"
    for p and selected :: "(string \<times> string) list"
    by (cases p) (auto intro: triple_assume dispatch_subs_inv)
  show ?thesis unfolding dispatchPublish_def
    by (rule triple_bind [OF triple_pure], simp, erule inv, rule triple_bind [OF triple_Tx [OF triple_bind [OF read loop]]],
        erule inv, rule triple_conseq [OF triple_pure [OF pure_deliver_all]]) (auto simp: topic_stored_def)
qed

lemma fifo_update_topic:
  assumes "fifo_update svc input messageID dedupID t w = (Inr (t', x), w')"
  shows "\<exists>g d. t' = t\<lparr>Topic_GroupSequences := g, Topic_DedupRecords := d\<rparr>"
proof -
  have [simp]: "\<exists>g d. t = t\<lparr>Topic_GroupSequences := g, Topic_DedupRecords := d\<rparr>" for t :: Topic
    by (rule exI [of _ "Topic_GroupSequences t"], rule exI [of _ "Topic_DedupRecords t"]) simp
  have [simp]: "\<exists>g d. t\<lparr>Topic_GroupSequences := a, Topic_DedupRecords := b\<rparr> = t\<lparr>Topic_GroupSequences := g, Topic_DedupRecords := d\<rparr>"
    for a b by blast
  from assms show ?thesis
    by (auto simp: fifo_update_def Let_def split: option.splits prod.splits if_splits)
qed

lemma Publish_inv: "triple (svc_inv svc) (Publish svc identity input) (\<lambda>_. svc_inv svc) (svc_inv svc)"
proof -
  let ?S = "\<lambda>p :: Topic \<times> string \<times> string \<times> bool. topic_stored svc (Topic_ARN (fst p))"
  have keep: "keeps_topic (fifo_update svc input m d)" for m d
    unfolding keeps_topic_def by (fastforce dest: fifo_update_topic)
  have ok: "topic_ok svc t'" if "fifo_update svc input m d t w = (Inr (t', x), w')" "topic_ok svc t" for m d t w t' x w'
    using fifo_update_topic [OF that(1)] that(2) by (auto simp: topic_ok_def)
  have "triple (\<lambda>s. svc_inv svc s \<and> fmlookup (topics s) arn = Some topic) (Store_UpdateTopic arn' (fifo_update svc input m d))
      (\<lambda>(t', x) s. svc_inv svc s \<and> fmlookup (topics s) arn' = Some t') (svc_inv svc)" for arn arn' topic m d
    by (rule triple_UpdateTopic [OF keep]) (auto intro: ok)
  then have fifo: "triple (\<lambda>s. svc_inv svc s \<and> fmlookup (topics s) arn = Some topic)
      (Store_UpdateTopic arn' (fifo_update svc input m d)) ?S (svc_inv svc)" for arn arn' topic m d
    by (rule triple_conseq) (auto simp: topic_stored_def dest: svc_invD(2))
  have plain: "triple (\<lambda>s. svc_inv svc s \<and> fmlookup (topics s) arn = Some topic) (returnM (topic, m, q, b)) ?S (svc_inv svc)"
    for arn topic m q b
    by (rule triple_return) (auto simp: topic_stored_def dest: svc_invD(2))
  have deliver: "triple (?S p) (case p of (topic, messageID, seq, deduplicated) \<Rightarrow>
      bindM (if \<not> deduplicated then dispatchPublish svc topic input messageID d seq else returnM ()) (\<lambda>_.
      returnM \<lparr>PO_MessageID = messageID, PO_SequenceNumber = seq, PO_Deduplicated = deduplicated\<rparr>))
      (\<lambda>_. svc_inv svc) (svc_inv svc)" for p d
    by (cases p) (auto intro!: triple_bind [OF dispatchPublish_inv] triple_intros simp: topic_stored_def)
  show ?thesis unfolding Publish_def Let_def
    by (rule triple_bind [OF triple_authorizedTopic], rule triple_bind [OF triple_pure], simp, blast,
        rule triple_bind [OF triple_pure], simp, blast, rule triple_bind [OF triple_if [OF fifo plain] deliver])
qed

lemma PublishBatch_inv:
  "triple (svc_inv svc) (PublishBatch svc identity arn entries) (\<lambda>_. svc_inv svc) (svc_inv svc)"
proof -
  have loop: "triple (svc_inv svc) (batch_loop svc identity arn entries) (\<lambda>_. svc_inv svc) (svc_inv svc)" for entries
  proof (induction entries)
    case (Cons entry entries)
    show ?case unfolding batch_loop.simps
      by (rule triple_try [OF Publish_inv]; (rule triple_bind [OF Cons])?)
        (auto intro: triple_intros split: prod.split)
  qed (auto intro: triple_intros)
  show ?thesis unfolding PublishBatch_def
    by (rule triple_bind [OF triple_conseq [OF triple_authorizedTopic [where svc = svc], where Q' = "\<lambda>_. svc_inv svc"]], simp, simp,
        rule triple_bind [OF triple_pure], simp, simp, rule triple_bind [OF triple_pure], simp, simp,
        rule triple_bind [OF triple_pure], simp, simp, rule triple_bind [OF triple_pure], simp, simp, rule loop)
qed

subsection \<open>The worker\<close>

lemma replace_job_inv:
  assumes I: "svc_inv svc s" and j: "fmlookup (deliveryJobs s) i = Some j" and j': "Job_ID j' = i" "Job_Payload j' = Job_Payload j"
  shows "svc_inv svc (s\<lparr>deliveryJobs := fmupd i j' (deliveryJobs s)\<rparr>)"
  using inv_enqueue [OF I, of j'] svc_invD(5) [OF I j] j' by (simp add: tx_EnqueueDeliveryJob_def queued_ok_def)

lemma reschedule_inv:
  "triple (svc_inv svc) (rescheduleDeliveryJob svc' job delay e) (\<lambda>_. svc_inv svc) (svc_inv svc)"
proof -
  have "triple (svc_inv svc) (Store_UpdateDeliveryJob (Job_ID job) (reschedule_update svc' delay e)) (\<lambda>_. svc_inv svc) (svc_inv svc)"
    unfolding Store_UpdateDeliveryJob_def
  proof (rule triple_Tx, rule tripleI)
    fix s w a s' w'
    assume I: "svc_inv svc s"
      and run: "(case fmlookup (deliveryJobs s) (Job_ID job) of None \<Rightarrow> (Inl ErrNotFound, s, w)
         | Some current \<Rightarrow> case reschedule_update svc' delay e current w of (Inl e, w') \<Rightarrow> (Inl e, s, w')
              | (Inr (copyJob, r), w') \<Rightarrow>
                  (Inr (copyJob, r), s\<lparr>deliveryJobs := fmupd (Job_ID job) copyJob (deliveryJobs s)\<rparr>, w')) = (Inr a, s', w')"
    then obtain j where j: "fmlookup (deliveryJobs s) (Job_ID job) = Some j" by (auto split: option.splits)
    have "Job_ID j = Job_ID job" using j I wf_job_keyed by (auto simp: svc_inv_def)
    then show "svc_inv svc s'"
      using run j by (auto simp: reschedule_update_def split: prod.splits intro!: replace_job_inv [OF I j])
  qed auto
  then show ?thesis unfolding rescheduleDeliveryJob_def by (rule triple_try) (auto intro: triple_intros)
qed

lemma processDeliveryJob_inv: "triple (svc_inv svc) (processDeliveryJob svc job) (\<lambda>_. svc_inv svc) (svc_inv svc)"
proof -
  have deliver: "pure_op (deliverM a att p r)" for a att p r by (simp add: pure_op_def deliverM_def split: prod.split)
  have delete: "triple (svc_inv svc) (deleteJobM i) (\<lambda>_. svc_inv svc) (svc_inv svc)" for i
    by (rule tripleI) (auto simp: deleteJobM_def intro: inv_delete_job)
  have redrive: "triple (svc_inv svc) (redrivePayload svc p rp) (\<lambda>_. svc_inv svc) (svc_inv svc)" for p rp
    by (rule triple_pure [OF pure_redrive]) auto
  show ?thesis unfolding processDeliveryJob_def Let_def
    by (auto intro!: reschedule_inv triple_bind [OF triple_pure [OF deliver]] triple_bind [OF delete] delete redrive triple_intros
        split: option.split)
qed

lemma poll_inv: "triple (svc_inv svc) (processReadyDeliveryJobs svc limit) (\<lambda>_. svc_inv svc) (svc_inv svc)"
proof -
  have "triple (svc_inv svc) (processDeliveryJobs svc jobs) (\<lambda>_. svc_inv svc) (svc_inv svc)" for jobs
    by (induction jobs) (auto intro: triple_intros triple_bind [OF processDeliveryJob_inv])
  then show ?thesis unfolding processReadyDeliveryJobs_def
    by (auto intro!: triple_bind [OF triple_pure])
qed

end
