(* ===== verification/Emulator.thy ===== *)
theory Emulator
  imports Service_Safety
begin

text \<open>
  The emulator as a transition system.  A step is one API request handled to its end, whether it succeeds
  or fails, one poll of the delivery worker, or the signing material being stored at start-up; the clock, the random
  source, the queues and the endpoints
  behave as they like in between.  Every state reached from the empty store satisfies the invariant, and the
  properties of the service that follow are stated for reachable states.
\<close>

subsection \<open>Requests\<close>

datatype request =
    CreateTopicReq string "string ranged" "(string, string) fmap"
  | DeleteTopicReq string
  | GetTopicReq string
  | SetTopicAttributeReq string string string
  | ListTopicsReq string
  | TagTopicReq string "(string, string) fmap"
  | UntagTopicReq string "string list"
  | AddPermissionReq string string "string list" "string list"
  | RemovePermissionReq string string
  | SubscribeReq string string string "string ranged" bool
  | ConfirmSubscriptionReq string string bool
  | UnsubscribeReq string
  | GetSubscriptionReq string
  | SetSubscriptionAttributeReq string string string
  | ListSubscriptionsReq string
  | ListSubscriptionsByTopicReq string string
  | PublishReq PublishInput
  | PublishBatchReq string "PublishBatchEntry list"
  | PollReq int

text \<open>What a request does to the store, with its reply dropped.\<close>

definition dropM :: "'a M \<Rightarrow> unit M" where
  "dropM m = bindM m (\<lambda>_. returnM ())"

primrec perform :: "Service \<Rightarrow> Identity \<Rightarrow> request \<Rightarrow> unit M" where
  "perform svc who (CreateTopicReq name attrs tags) = dropM (CreateTopic svc who name attrs tags)"
| "perform svc who (DeleteTopicReq arn) = DeleteTopic who arn"
| "perform svc who (GetTopicReq arn) = dropM (GetTopic who arn)"
| "perform svc who (SetTopicAttributeReq arn name v) = dropM (SetTopicAttribute svc who arn name v)"
| "perform svc who (ListTopicsReq token) = dropM (ListTopics svc who token)"
| "perform svc who (TagTopicReq arn tags) = TagTopic who arn tags"
| "perform svc who (UntagTopicReq arn keys) = UntagTopic who arn keys"
| "perform svc who (AddPermissionReq arn label accounts actions) = Service_AddPermission who arn label accounts actions"
| "perform svc who (RemovePermissionReq arn label) = Service_RemovePermission who arn label"
| "perform svc who (SubscribeReq arn protocol endpoint attrs returnARN) =
     dropM (Subscribe svc who arn protocol endpoint attrs returnARN)"
| "perform svc who (ConfirmSubscriptionReq arn token auth) = dropM (ConfirmSubscription svc who arn token auth)"
| "perform svc who (UnsubscribeReq arn) = Unsubscribe svc who arn"
| "perform svc who (GetSubscriptionReq arn) = dropM (GetSubscription who arn)"
| "perform svc who (SetSubscriptionAttributeReq arn name v) = dropM (SetSubscriptionAttribute who arn name v)"
| "perform svc who (ListSubscriptionsReq token) = dropM (ListSubscriptions svc who token)"
| "perform svc who (ListSubscriptionsByTopicReq arn token) = dropM (ListSubscriptionsByTopic svc who arn token)"
| "perform svc who (PublishReq input) = dropM (Publish svc who input)"
| "perform svc who (PublishBatchReq arn entries) = dropM (PublishBatch svc who arn entries)"
| "perform svc who (PollReq limit) = processReadyDeliveryJobs svc limit"

text \<open>The attributes of a request come from a Go map: each name at most once.\<close>

fun request_ok :: "request \<Rightarrow> bool" where
  "request_ok (CreateTopicReq name attrs tags) = distinct (map fst attrs)"
| "request_ok req = True"

inductive reachable :: "Service \<Rightarrow> mstate \<Rightarrow> bool" for svc :: Service where
  start: "reachable svc NewStore"
| persist: "reachable svc s \<Longrightarrow> reachable svc (SaveSigningMaterial material s)"
| step: "reachable svc s \<Longrightarrow> request_ok req \<Longrightarrow> perform svc who req s w = (r, s', w') \<Longrightarrow> reachable svc s'"

lemma triple_drop: "triple P m (\<lambda>_. Q) E \<Longrightarrow> triple P (dropM m) (\<lambda>_. Q) E"
  unfolding dropM_def by (erule triple_bind) (auto intro: triple_intros)

lemma triple_pure_drop: "pure_op m \<Longrightarrow> triple P (dropM m) (\<lambda>_. P) P"
  by (rule triple_drop, erule triple_pure) simp

lemma tripleD:
  assumes "triple P m Q E" "P s" "m s w = (r, s', w')"
  shows "case r of Inr a \<Rightarrow> Q a s' | Inl e \<Rightarrow> E s'"
proof -
  have "case m s w of (Inr a, s', w') \<Rightarrow> Q a s' | (Inl e, s', w') \<Rightarrow> E s'" using assms(1,2) by (simp add: triple_def)
  then show ?thesis by (cases r) (simp_all add: assms(3))
qed

lemma triple_keeps: "triple P m (\<lambda>_. P) P \<Longrightarrow> P s \<Longrightarrow> m s w = (r, s', w') \<Longrightarrow> P s'"
  using tripleD [of P m "\<lambda>_. P" P s w r s' w'] by (cases r) auto

lemma pure_reads [simp]:
  "pure_op (topicM arn)" "pure_op (subscriptionM arn)" "pure_op (authorizedTopic who arn action)"
  "pure_op (ListTopics svc who token)" "pure_op (GetSubscription who arn)" "pure_op (GetTopic who arn)"
  "pure_op (ListSubscriptions svc who token)" "pure_op (ListSubscriptionsByTopic svc who arn token)"
  by (auto simp: topicM_def subscriptionM_def authorizedTopic_def ListTopics_def GetSubscription_def GetTopic_def
      ListSubscriptions_def ListSubscriptionsByTopic_def intro!: pure_bind pure_mapErr)

lemmas operation_invs =
  CreateTopic_inv DeleteTopic_inv SetTopicAttribute_inv TagTopic_inv UntagTopic_inv AddPermission_inv
  RemovePermission_inv Subscribe_inv ConfirmSubscription_inv Unsubscribe_inv SetSubscriptionAttribute_inv
  Publish_inv PublishBatch_inv poll_inv

lemma perform_inv: "request_ok req \<Longrightarrow> triple (svc_inv svc) (perform svc who req) (\<lambda>_. svc_inv svc) (svc_inv svc)"
  by (cases req) (auto intro: operation_invs triple_drop triple_pure_drop)

lemma reachable_inv: "reachable svc s \<Longrightarrow> svc_inv svc s"
proof (induction rule: reachable.induct)
  case (step s req who w r s' w')
  show ?case by (rule triple_keeps [OF perform_inv]) (fact step)+
next
  case (persist s material)
  then show ?case
    by (simp add: svc_inv_def wf_store_def SaveSigningMaterial_def mem_inv_def topicSubs_def mem_abs_def)
qed (rule svc_inv_NewStore)


subsection \<open>The invariant of reachable states\<close>

text \<open>C4: In every state that requests and polls can reach from the empty store, whatever they are, whoever sends
  them and whether they succeed or fail: the store is well-formed (its indexes agree, subscriptions, tokens
  and jobs refer to topics it has); a topic has the ARN of its name in the configured region and account, a
  valid name which ends in .fifo exactly for FIFO topics, and at most 50 tags; a subscription to a FIFO topic
  is an SQS subscription; a subscription is pending exactly as long as it is not confirmed, an SQS
  subscription is confirmed from the start; every stored filter policy and redrive policy is one
  that parses; and the delivery queue holds only HTTP and HTTPS jobs.\<close>

theorem reachable_invariant:
  assumes "reachable svc s"
  shows "wf_store s \<and>
    (\<forall>arn t. fmlookup (topics s) arn = Some t \<longrightarrow>
      arn = FormatARN ''sns'' (Region (cfg svc)) (AccountID (cfg svc)) (Topic_Name t) \<and>
      ValidateTopicName (Topic_Name t) (TA_FifoTopic (Topic_Attributes t)) = Inr () \<and>
      (TA_FifoTopic (Topic_Attributes t) \<longleftrightarrow> HasSuffix arn ''.fifo'') \<and> size (fmdom (Topic_Tags t)) \<le> 50) \<and>
    (\<forall>arn u. fmlookup (subscriptions s) arn = Some u \<longrightarrow>
      (\<exists>t. fmlookup (topics s) (Sub_TopicARN u) = Some t \<and>
           (TA_FifoTopic (Topic_Attributes t) \<longrightarrow> Sub_Protocol u = ProtocolSQS)) \<and>
      Sub_Protocol u \<in> {ProtocolSQS, ProtocolHTTP, ProtocolHTTPS} \<and>
      (Sub_PendingConfirmation u \<longleftrightarrow> \<not> Sub_Confirmed u) \<and> (Sub_Protocol u = ProtocolSQS \<longrightarrow> Sub_Confirmed u) \<and>
      \<not> is_err (Validate (SA_FilterPolicy (Sub_Attributes u))) \<and>
      \<not> is_err (ParseRedrivePolicy (SA_RedrivePolicy (Sub_Attributes u)))) \<and>
    (\<forall>i j. fmlookup (deliveryJobs s) i = Some j \<longrightarrow> Pay_Protocol (Job_Payload j) \<in> {ProtocolHTTP, ProtocolHTTPS})"
    (is "_ \<and> ?topics \<and> ?subs \<and> ?jobs")
proof (intro conjI)
  note inv = svc_invD [OF reachable_inv [OF assms]]
  show "wf_store s" by (rule inv(1))
  show t: ?topics
  proof (intro allI impI)
    fix arn t
    assume "fmlookup (topics s) arn = Some t"
    from inv(2) [OF this] topic_fifo_arn [of svc t]
    show "arn = FormatARN ''sns'' (Region (cfg svc)) (AccountID (cfg svc)) (Topic_Name t) \<and>
      ValidateTopicName (Topic_Name t) (TA_FifoTopic (Topic_Attributes t)) = Inr () \<and>
      (TA_FifoTopic (Topic_Attributes t) \<longleftrightarrow> HasSuffix arn ''.fifo'') \<and> size (fmdom (Topic_Tags t)) \<le> 50"
      by (auto simp: topic_ok_def fifo_arn_def)
  qed
  show ?subs using inv(3) t by (fastforce simp: sub_ok_def fifo_arn_def)
  show ?jobs using inv(5) by (fastforce simp: queued_ok_def Protocols_def)
qed

subsection \<open>Access control\<close>

text \<open>The topic a request acts on and the action its caller needs on it.  The requests with none are not
  checked against a policy by the service.\<close>

fun request_action :: "request \<Rightarrow> (string \<times> string) option" where
  "request_action (GetTopicReq arn) = Some (arn, ''SNS:GetTopicAttributes'')"
| "request_action (SetTopicAttributeReq arn name v) = Some (arn, ''SNS:SetTopicAttributes'')"
| "request_action (TagTopicReq arn tags) = Some (arn, ''SNS:TagResource'')"
| "request_action (UntagTopicReq arn keys) = Some (arn, ''SNS:UntagResource'')"
| "request_action (AddPermissionReq arn label accounts actions) = Some (arn, ''SNS:AddPermission'')"
| "request_action (RemovePermissionReq arn label) = Some (arn, ''SNS:RemovePermission'')"
| "request_action (SubscribeReq arn protocol endpoint attrs returnARN) = Some (arn, ''SNS:Subscribe'')"
| "request_action (PublishReq input) = Some (PI_TopicARN input, ''SNS:Publish'')"
| "request_action (PublishBatchReq arn entries) = Some (arn, ''SNS:Publish'')"
| "request_action req = None"

lemma denied_authorized:
  assumes "fmlookup (topics s) arn = Some topic" "authorizeTopic who topic action = Inl e"
  shows "authorizedTopic who arn action s w = (Inl e, s, w)"
  using assms
  by (simp add: authorizedTopic_def topicM_def bindM_def mapErr_def tryM_def readM_def getTopic_def returnM_def resM_def)


subsection \<open>Deduplication on FIFO topics\<close>

text \<open>Dispatching a message adds delivery jobs and touches no topic.\<close>

lemma dispatch_subs_topics:
  "triple (\<lambda>s. topics s = T) (dispatch_subs svc topic input messageID dedupID seq selected subs)
     (\<lambda>_ s. topics s = T) (\<lambda>_. True)"
proof (induction subs)
  case (Cons entry subs)
  have job: "triple (\<lambda>s. topics s = T) (enqueueM job) (\<lambda>_ s. topics s = T) (\<lambda>_. True)" for job
    by (rule tripleI) (auto simp: enqueueM_def tx_EnqueueDeliveryJob_def)
  have "triple (\<lambda>s. topics s = T)
      (case p of (attempt, effectiveJSON) \<Rightarrow>
         bindM (worldM (prepareDeliveryJob svc k attempt effectiveJSON raw rp)) (\<lambda>job. bindM (enqueueM job) (\<lambda>_.
         dispatch_subs svc topic input messageID dedupID seq selected subs))) (\<lambda>_ s. topics s = T) (\<lambda>_. True)" for p k raw rp
    by (cases p) (auto intro!: triple_bind [OF triple_pure] triple_bind [OF job] Cons)
  then have http: "triple (\<lambda>s. topics s = T) (bindM (attemptM f)
      (\<lambda>(attempt, effectiveJSON).
         bindM (worldM (prepareDeliveryJob svc k attempt effectiveJSON raw rp)) (\<lambda>job. bindM (enqueueM job) (\<lambda>_.
         dispatch_subs svc topic input messageID dedupID seq selected subs)))) (\<lambda>_ s. topics s = T) (\<lambda>_. True)" for f k raw rp
    by (intro triple_bind [OF triple_pure]) auto
  show ?case
    by (cases entry) (auto simp: Let_def intro: http Cons triple_bind [OF Cons] triple_intros)
qed (auto intro: triple_intros)

lemma dispatchPublish_topics:
  "triple (\<lambda>s. topics s = T) (dispatchPublish svc topic input messageID dedupID seq) (\<lambda>_ s. topics s = T) (\<lambda>s. topics s = T)"
proof -
  have loop: "triple (\<lambda>s. topics s = T)
      (case p of (subs, _) \<Rightarrow> dispatch_subs svc topic input messageID dedupID seq selected subs)
      (\<lambda>_ s. topics s = T) (\<lambda>_. True)" for p :: "Subscription option list \<times> string" and selected :: "(string \<times> string) list"
    by (cases p) (auto intro: dispatch_subs_topics)
  show ?thesis unfolding dispatchPublish_def
    by (rule triple_bind [OF triple_pure], simp, simp,
        rule triple_bind [OF triple_Tx [OF triple_bind [OF triple_pure loop]]], simp, simp, simp,
        rule triple_pure [OF pure_deliver_all])
qed

lemma bind_run: "m s w = (Inr a, s', w') \<Longrightarrow> bindM m k s w = k a s' w'"
  by (simp add: bindM_def)

definition publish_reply :: "string \<Rightarrow> string \<Rightarrow> bool \<Rightarrow> PublishOutput" where
  "publish_reply messageID seq dup = \<lparr>PO_MessageID = messageID, PO_SequenceNumber = seq, PO_Deduplicated = dup\<rparr>"

lemma fifo_update_ok: "\<exists>t' m q d w'. fifo_update svc input messageID dedupID topic w = (Inr (t', m, q, d), w')"
  unfolding fifo_update_def Let_def by (auto split: prod.splits option.splits)

lemma Publish_fifo:
  assumes "fmlookup (topics s) arn = Some topic" "Topic_ARN topic = arn" "TA_FifoTopic (Topic_Attributes topic)"
    "PI_TopicARN input = arn" "authorizeTopic who topic ''SNS:Publish'' = Inr ()" "validatePublishInput topic input = Inr ()"
    "newUUID svc w = (fresh, w1)"
    "fifo_update svc input fresh (publish_dedup_id topic input) topic w1 = (Inr (topic', messageID, seq, dup), w2)"
  shows "Publish svc who input s w =
    bindM (if \<not> dup then dispatchPublish svc topic' input messageID (publish_dedup_id topic input) seq else returnM ())
      (\<lambda>_. returnM (publish_reply messageID seq dup)) (s\<lparr>topics := fmupd arn topic' (topics s)\<rparr>) w2"
proof -
  have auth: "authorizedTopic who arn ''SNS:Publish'' s w = (Inr topic, s, w)"
    using assms(1,5)
    by (simp add: authorizedTopic_def topicM_def bindM_def mapErr_def tryM_def readM_def getTopic_def returnM_def resM_def)
  have upd: "Store_UpdateTopic arn (fifo_update svc input fresh (publish_dedup_id topic input)) s w1 =
      (Inr (topic', messageID, seq, dup), s\<lparr>topics := fmupd arn topic' (topics s)\<rparr>, w2)"
    using assms(1,8) by (simp add: Store_UpdateTopic_def Tx_def tx_UpdateTopic_def cloneState_def)
  have fresh: "worldM (newUUID svc) s w = (Inr fresh, s, w1)" by (simp add: worldM_def assms(7))
  show ?thesis unfolding Publish_def Let_def assms(4)
    by (subst bind_run, rule auth, subst bind_run, subst resM_def, simp only: assms(6), subst bind_run, rule fresh,
        simp only: assms(2,3) if_True, subst bind_run, rule upd, simp add: publish_reply_def)
qed

lemma dedup_record_kept:
  assumes "fifo_update svc input messageID dedupID topic w = (Inr (topic', m, q, dup), w')" "mono (Clock_Now svc)"
  obtains rec where "fmlookup (Topic_DedupRecords topic') (dedup_scope topic input @ '':'' @ dedupID) = Some rec"
    "Dedup_MessageID rec = m" "Dedup_SequenceNumber rec = q"
    "\<not> dup \<Longrightarrow> Clock_Now svc (W_ticks w) + 5 * Minute \<le> Dedup_ExpiresAt rec"
proof -
  have "Clock_Now svc (W_ticks w) \<le> Clock_Now svc (Suc (W_ticks w))" using assms(2) by (simp add: mono_def)
  with assms(1) that show thesis
    by (auto simp: fifo_update_def Let_def now_def nextSequence_def split: option.splits prod.splits if_splits)
qed

lemma fifo_update_duplicate:
  assumes "fmlookup (Topic_DedupRecords topic) (dedup_scope topic input @ '':'' @ dedupID) = Some rec"
    "Clock_Now svc (W_ticks w) < Dedup_ExpiresAt rec"
  shows "fifo_update svc input messageID dedupID topic w =
    (Inr (topic, Dedup_MessageID rec, Dedup_SequenceNumber rec, True), w\<lparr>W_ticks := Suc (W_ticks w)\<rparr>)"
  using assms by (simp add: fifo_update_def now_def)

text \<open>What \<^verbatim>\<open>Publish\<close> needs of a topic is not changed by an update of its sequences and records.\<close>

lemma fifo_update_neutral [simp]:
  "authorizeTopic who (t\<lparr>Topic_GroupSequences := g, Topic_DedupRecords := d\<rparr>) action = authorizeTopic who t action"
  "validatePublishInput (t\<lparr>Topic_GroupSequences := g, Topic_DedupRecords := d\<rparr>) input = validatePublishInput t input"
  "publish_dedup_id (t\<lparr>Topic_GroupSequences := g, Topic_DedupRecords := d\<rparr>) input = publish_dedup_id t input"
  "dedup_scope (t\<lparr>Topic_GroupSequences := g, Topic_DedupRecords := d\<rparr>) input = dedup_scope t input"
  by (simp_all add: authorizeTopic_def validatePublishInput_def validateGroup_def publish_dedup_id_def dedup_scope_def)

lemma publish_files_record:
  assumes "fmlookup (topics s) arn = Some topic" "Topic_ARN topic = arn" "TA_FifoTopic (Topic_Attributes topic)"
    "PI_TopicARN input = arn" "authorizeTopic who topic ''SNS:Publish'' = Inr ()" "validatePublishInput topic input = Inr ()"
    "mono (Clock_Now svc)" "Publish svc who input s w = (r, s1, w1)"
  obtains g d rec where "fmlookup (topics s1) arn = Some (topic\<lparr>Topic_GroupSequences := g, Topic_DedupRecords := d\<rparr>)"
    "fmlookup d (dedup_scope topic input @ '':'' @ publish_dedup_id topic input) = Some rec"
    "\<And>out. r = Inr out \<Longrightarrow> PO_MessageID out = Dedup_MessageID rec \<and> PO_SequenceNumber out = Dedup_SequenceNumber rec"
    "(\<And>out. r = Inr out \<Longrightarrow> \<not> PO_Deduplicated out) \<Longrightarrow> Clock_Now svc (W_ticks w) + 5 * Minute \<le> Dedup_ExpiresAt rec"
proof -
  obtain fresh w2 where u: "newUUID svc w = (fresh, w2)" by fastforce
  then have ticks: "W_ticks w2 = W_ticks w" by (auto simp: newUUID_def)
  obtain topic' m q dup w3 where f: "fifo_update svc input fresh (publish_dedup_id topic input) topic w2 = (Inr (topic', m, q, dup), w3)"
    using fifo_update_ok by blast
  note run = Publish_fifo [OF assms(1-6) u f, unfolded assms(8)]
  obtain rec where rec: "fmlookup (Topic_DedupRecords topic') (dedup_scope topic input @ '':'' @ publish_dedup_id topic input) = Some rec"
    "Dedup_MessageID rec = m" "Dedup_SequenceNumber rec = q"
    "\<not> dup \<Longrightarrow> Clock_Now svc (W_ticks w) + 5 * Minute \<le> Dedup_ExpiresAt rec"
    using dedup_record_kept [OF f assms(7), unfolded ticks] by blast
  obtain g d where t': "topic' = topic\<lparr>Topic_GroupSequences := g, Topic_DedupRecords := d\<rparr>"
    using fifo_update_topic [OF f] by blast
  let ?T = "fmupd arn topic' (topics s)"
  have "triple (\<lambda>s. topics s = ?T)
     (bindM (if \<not> dup then dispatchPublish svc topic' input m (publish_dedup_id topic input) q else returnM ())
      (\<lambda>_. returnM (publish_reply m q dup))) (\<lambda>out s. topics s = ?T \<and> out = publish_reply m q dup) (\<lambda>s. topics s = ?T)"
    by (rule triple_bind [OF triple_if [OF dispatchPublish_topics]]) (auto intro: triple_intros)
  from tripleD [OF this _ run [symmetric]]
  have "topics s1 = ?T \<and> (\<forall>out. r = Inr out \<longrightarrow> out = publish_reply m q dup)" by (auto split: sum.splits)
  moreover have "dup \<Longrightarrow> r = Inr (publish_reply m q dup)" using run by (simp add: returnM_def)
  ultimately have out: "topics s1 = ?T" "r = Inr out \<Longrightarrow> out = publish_reply m q dup" "dup \<Longrightarrow> \<exists>out. r = Inr out" for out by blast+
  show thesis
  proof (rule that [of d g rec])
    show "fmlookup (topics s1) arn = Some (topic\<lparr>Topic_GroupSequences := g, Topic_DedupRecords := d\<rparr>)"
      by (simp add: out(1) t')
    show "fmlookup d (dedup_scope topic input @ '':'' @ publish_dedup_id topic input) = Some rec"
      using rec(1) unfolding t' by simp
    show "PO_MessageID out = Dedup_MessageID rec \<and> PO_SequenceNumber out = Dedup_SequenceNumber rec" if "r = Inr out" for out
      using out(2) [OF that] rec(2,3) by (simp add: publish_reply_def)
    assume fresh: "\<And>out. r = Inr out \<Longrightarrow> \<not> PO_Deduplicated out"
    have "\<not> dup" using fresh out(2,3) by (fastforce simp: publish_reply_def)
    then show "Clock_Now svc (W_ticks w) + 5 * Minute \<le> Dedup_ExpiresAt rec" by (rule rec(4))
  qed
qed

text \<open>The second of two publishes that a FIFO topic takes for the same message.\<close>

lemma publish_duplicate:
  assumes "fmlookup (topics s) arn = Some topic" "Topic_ARN topic = arn" "TA_FifoTopic (Topic_Attributes topic)"
    "PI_TopicARN input = arn" "authorizeTopic who topic ''SNS:Publish'' = Inr ()" "validatePublishInput topic input = Inr ()"
    "fmlookup (Topic_DedupRecords topic) (dedup_scope topic input @ '':'' @ publish_dedup_id topic input) = Some rec"
    "Clock_Now svc (W_ticks w) < Dedup_ExpiresAt rec"
  shows "\<exists>w'. Publish svc who input s w =
      (Inr (publish_reply (Dedup_MessageID rec) (Dedup_SequenceNumber rec) True), s, w') \<and>
    W_sqs w' = W_sqs w \<and> W_http w' = W_http w"
proof -
  obtain fresh w1 where u: "newUUID svc w = (fresh, w1)" by fastforce
  then have w1: "W_ticks w1 = W_ticks w" "W_sqs w1 = W_sqs w" "W_http w1 = W_http w" by (auto simp: newUUID_def)
  have f: "fifo_update svc input fresh (publish_dedup_id topic input) topic w1 =
      (Inr (topic, Dedup_MessageID rec, Dedup_SequenceNumber rec, True), w1\<lparr>W_ticks := Suc (W_ticks w1)\<rparr>)"
    by (rule fifo_update_duplicate [OF assms(7)]) (simp add: assms(8) w1)
  have "fmupd arn topic (topics s) = topics s" by (rule fmap_ext) (auto simp: assms(1))
  then show ?thesis using Publish_fifo [OF assms(1-6) u f] by (simp add: returnM_def w1)
qed

text \<open>C6: A FIFO topic delivers a message once.  After a publish that was accepted, a publish to the same topic and message
  group with the same deduplication identifier (given, or the hash of the content) within five minutes
  is answered with the message identifier and the sequence number of the first, changes nothing in the
  store, and sends nothing to any queue or endpoint.\<close>

theorem fifo_deduplication:
  assumes "reachable svc s" "fmlookup (topics s) arn = Some topic" "TA_FifoTopic (Topic_Attributes topic)"
    "Publish svc who input s w = (Inr out, s1, w1)" "\<not> PO_Deduplicated out" "PI_TopicARN input = arn" "PI_TopicARN input' = arn"
    "authorizeTopic who topic ''SNS:Publish'' = Inr ()" "validatePublishInput topic input = Inr ()"
    "authorizeTopic who' topic ''SNS:Publish'' = Inr ()" "validatePublishInput topic input' = Inr ()"
    "PI_MessageGroupID input' = PI_MessageGroupID input" "publish_dedup_id topic input' = publish_dedup_id topic input"
    "mono (Clock_Now svc)" "Clock_Now svc (W_ticks w2) < Clock_Now svc (W_ticks w) + 5 * Minute"
  shows "\<exists>w3. Publish svc who' input' s1 w2 = (Inr (out\<lparr>PO_Deduplicated := True\<rparr>), s1, w3) \<and>
    W_sqs w3 = W_sqs w2 \<and> W_http w3 = W_http w2"
proof -
  have arn: "Topic_ARN topic = arn" using svc_invD(2) [OF reachable_inv [OF assms(1)] assms(2)] by simp
  obtain g d rec where r: "fmlookup (topics s1) arn = Some (topic\<lparr>Topic_GroupSequences := g, Topic_DedupRecords := d\<rparr>)"
    "fmlookup d (dedup_scope topic input @ '':'' @ publish_dedup_id topic input) = Some rec"
    "PO_MessageID out = Dedup_MessageID rec \<and> PO_SequenceNumber out = Dedup_SequenceNumber rec"
    "Clock_Now svc (W_ticks w) + 5 * Minute \<le> Dedup_ExpiresAt rec"
    using publish_files_record [OF assms(2) arn assms(3,6,8,9,14,4)] assms(5) by (metis sum.inject(2))
  have scope: "dedup_scope topic input' = dedup_scope topic input" by (simp add: dedup_scope_def assms(12))
  have "out\<lparr>PO_Deduplicated := True\<rparr> = publish_reply (Dedup_MessageID rec) (Dedup_SequenceNumber rec) True"
    using r(3) by (simp add: publish_reply_def)
  with publish_duplicate [OF r(1), of input' who' rec svc w2] show ?thesis
    using r(2,4) assms by (simp add: arn scope)
qed

text \<open>C37: The record is filed before the message is dispatched, and stays when dispatching fails.  A publish that the
  topic accepts but that ends in an error, such as a JSON message without a default member, makes a
  second attempt with the same deduplication identifier within five minutes succeed without delivering
  anything, whatever its message.\<close>

theorem failed_publish_swallows_retry:
  assumes "reachable svc s" "fmlookup (topics s) arn = Some topic" "TA_FifoTopic (Topic_Attributes topic)"
    "Publish svc who input s w = (Inl e, s1, w1)" "PI_TopicARN input = arn" "PI_TopicARN input' = arn"
    "authorizeTopic who topic ''SNS:Publish'' = Inr ()" "validatePublishInput topic input = Inr ()"
    "validatePublishInput topic input' = Inr ()"
    "PI_MessageGroupID input' = PI_MessageGroupID input" "publish_dedup_id topic input' = publish_dedup_id topic input"
    "mono (Clock_Now svc)" "Clock_Now svc (W_ticks w2) < Clock_Now svc (W_ticks w) + 5 * Minute"
  shows "\<exists>out w3. Publish svc who input' s1 w2 = (Inr out, s1, w3) \<and> PO_Deduplicated out \<and>
    W_sqs w3 = W_sqs w2 \<and> W_http w3 = W_http w2"
proof -
  have arn: "Topic_ARN topic = arn" using svc_invD(2) [OF reachable_inv [OF assms(1)] assms(2)] by simp
  obtain g d rec where r: "fmlookup (topics s1) arn = Some (topic\<lparr>Topic_GroupSequences := g, Topic_DedupRecords := d\<rparr>)"
    "fmlookup d (dedup_scope topic input @ '':'' @ publish_dedup_id topic input) = Some rec"
    "Clock_Now svc (W_ticks w) + 5 * Minute \<le> Dedup_ExpiresAt rec"
    using publish_files_record [OF assms(2) arn assms(3,5,7,8,12,4)] by (metis sum.distinct(1))
  have scope: "dedup_scope topic input' = dedup_scope topic input" by (simp add: dedup_scope_def assms(10))
  show ?thesis using publish_duplicate [OF r(1), of input' who rec svc w2] r(2,3) assms
    by (auto simp: arn scope publish_reply_def)
qed

subsection \<open>Concrete instances\<close>

definition sample_owner :: Identity where
  "sample_owner = \<lparr>Id_AccountID = ''1'', Id_Principal = []\<rparr>"

definition sample_fifo :: Topic where
  "sample_fifo = (new_topic (sample_service None None) ''t.fifo'' True fmempty 0)\<lparr>Topic_UpdatedAt := 1000000000\<rparr>"

definition sample_fifo_store :: mstate where
  "sample_fifo_store = snd (mem_create_topic sample_fifo NewStore)"

definition sample_input :: "string \<Rightarrow> string \<Rightarrow> PublishInput" where
  "sample_input structure message =
     \<lparr>PI_TopicARN = Topic_ARN sample_fifo, PI_Message = message, PI_Subject = [], PI_MessageStructure = structure,
      PI_MessageAttributes = [], PI_MessageGroupID = ''g'', PI_MessageDeduplicationID = ''d''\<rparr>"

lemma sample_fifo_run:
  "CreateTopic (sample_service None None) sample_owner ''t.fifo'' [(''FifoTopic'', ''true'')] fmempty NewStore start_world =
     (Inr (Some sample_fifo, False), sample_fifo_store, start_world\<lparr>W_ticks := 2\<rparr>)"
proof -
  let ?svc = "sample_service None None"
  have 1: "EqualFold (attribute_lookup [(''FifoTopic'', ''true'')] ''FifoTopic'') ''true''" by code_simp
  have 2: "wrap_invalid (ValidateTopicName ''t.fifo'' True) = Inr ()" by code_simp
  have "applyTopicAttributeList True [(''FifoTopic'', ''true'')] a = Inr a" if "TA_FifoTopic a" for a
    using that by (simp add: applyTopicAttribute_def go_eval)
  then have 3: "attemptM (applyTopicAttributes ?svc (new_topic ?svc ''t.fifo'' True fmempty 0) [(''FifoTopic'', ''true'')] True)
      NewStore (start_world\<lparr>W_ticks := Suc 0\<rparr>) = (Inr sample_fifo, NewStore, start_world\<lparr>W_ticks := 2\<rparr>)"
    by (simp add: attemptM_def applyTopicAttributes_def now_def sample_fifo_def new_topic_def) (simp add: sample_service_def start_world_def)
  have 4: "worldM (now ?svc) NewStore start_world = (Inr 0, NewStore, start_world\<lparr>W_ticks := Suc 0\<rparr>)"
    by (simp add: worldM_def now_def start_world_def sample_service_def)
  have 5: "Store_CreateTopic sample_fifo NewStore w = (Inr (), sample_fifo_store, w)" for w :: world
    by (simp add: Store_CreateTopic_def mem_create_topic_def tx_CreateTopic_def sample_fifo_store_def NewStore_def Tx_def cloneState_def)
  have 6: "Topic_Tags sample_fifo = fmempty" by (simp add: sample_fifo_def new_topic_def)
  have 7: "findTopicByName NewStore n = Inl ErrNotFound" for n by (simp add: findTopicByName_def NewStore_def)
  show ?thesis unfolding CreateTopic_def Let_def
    by (simp add: 1 2 bindM_def resM_def tryM_def readM_def 3 4 5 6 7 guardM_def returnM_def)
qed


lemma sample_fifo_reachable: "reachable (sample_service None None) sample_fifo_store"
proof (rule reachable.step [OF reachable.start])
  show "perform (sample_service None None) sample_owner (CreateTopicReq ''t.fifo'' [(''FifoTopic'', ''true'')] fmempty)
      NewStore start_world = (Inr (), sample_fifo_store, start_world\<lparr>W_ticks := 2\<rparr>)"
    by (simp add: dropM_def bindM_def sample_fifo_run returnM_def)
qed simp

lemma sample_fifo_stored: "fmlookup (topics sample_fifo_store) (Topic_ARN sample_fifo) = Some sample_fifo"
  by (simp add: sample_fifo_store_def mem_create_topic_def tx_CreateTopic_def NewStore_def)

lemma sample_fifo_subs: "subsByTopic sample_fifo_store = fmempty"
  by (simp add: sample_fifo_store_def mem_create_topic_def tx_CreateTopic_def NewStore_def)

lemma sample_policy:
  "Evaluate (TA_Policy (Topic_Attributes sample_fifo)) req owner =
    Inr (Req_Principal req = owner \<or>
         (matchesAny default_actions (Req_Action req) \<and> matchesAny [Topic_ARN sample_fifo] (Req_Resource req) \<and>
          matchesAny [''1''] (lookup_context (Req_Context req) ''AWS:SourceOwner'')))"
proof -
  have "valid_utf8 ''1''" "valid_utf8 (FormatARN ''sns'' ''us-east-1'' ''1'' ''t.fifo'')"
    by (rule valid_utf8_ascii, simp add: byte_value_def FormatARN_def)+
  then show ?thesis unfolding sample_fifo_def new_topic_def DefaultTopicPolicy_def
    by (simp add: sample_service_def Evaluate_Marshal plain_default_document evaluate_loop_iff default_statement_matches)
qed

lemma sample_authorized: "authorizeTopic sample_owner sample_fifo ''SNS:Publish'' = Inr ()"
proof -
  have "Topic_Owner sample_fifo = ''1''" by (simp add: sample_fifo_def new_topic_def sample_service_def)
  then show ?thesis unfolding authorizeTopic_def sample_policy by (simp add: sample_owner_def)
qed

lemma sample_denied:
  "authorizeTopic \<lparr>Id_AccountID = ''2'', Id_Principal = []\<rparr> sample_fifo ''SNS:Publish'' = Inl (NewAuthorization ''Access denied'')"
proof -
  have "Topic_Owner sample_fifo = ''1''" by (simp add: sample_fifo_def new_topic_def sample_service_def)
  moreover have "\<not> matchesAny [''1''] ''2''" by code_simp
  ultimately show ?thesis unfolding authorizeTopic_def sample_policy by (simp add: lookup_context_def)
qed

lemma sample_input_valid:
  assumes "m \<noteq> []" "length m < 100" "st \<in> {[], ''json''}"
  shows "validatePublishInput sample_fifo (sample_input st m) = Inr ()"
proof -
  have "TA_FifoTopic (Topic_Attributes sample_fifo)" "\<not> TA_ContentBasedDeduplication (Topic_Attributes sample_fifo)"
    by (simp_all add: sample_fifo_def new_topic_def)
  with assms show ?thesis
    by (auto simp: validatePublishInput_def validateGroup_def ValidateFIFOIdentifier_def wrap_invalid_def sample_input_def)
qed

lemma sample_dedup_id: "publish_dedup_id t (sample_input st m) = ''d''"
  by (simp add: publish_dedup_id_def sample_input_def)

lemma sample_update:
  "fifo_update (sample_service None None) (sample_input st m) fresh ''d'' sample_fifo w =
   (case nextSequence (sample_service None None) zeroSequence w of ((nxt, seq), w1) \<Rightarrow>
     (Inr (sample_fifo\<lparr>Topic_GroupSequences := fmupd ''g'' nxt fmempty,
        Topic_DedupRecords := fmupd (dedup_scope sample_fifo (sample_input st m) @ '':'' @ ''d'')
          \<lparr>Dedup_MessageID = fresh, Dedup_SequenceNumber = seq, Dedup_ExpiresAt = 1000000000 * int (W_ticks w1) + 5 * Minute\<rparr> fmempty\<rparr>,
        fresh, seq, False), w1\<lparr>W_ticks := Suc (W_ticks w1)\<rparr>))"
proof -
  have "Topic_DedupRecords sample_fifo = fmempty" "Topic_GroupSequences sample_fifo = fmempty"
    by (simp_all add: sample_fifo_def new_topic_def)
  moreover have "Clock_Now (sample_service None None) i = 1000000000 * int i" for i by (simp add: sample_service_def)
  ultimately show ?thesis
    by (simp add: fifo_update_def now_def sample_input_def split: prod.split)
qed

text \<open>What a publish to the sample topic does: there is no one to dispatch to.\<close>

lemma sample_publish:
  assumes "m \<noteq> []" "length m < 100" "st \<in> {[], ''json''}"
  obtains t' q w' where "Publish (sample_service None None) sample_owner (sample_input st m) sample_fifo_store start_world =
    bindM (dispatchPublish (sample_service None None) t' (sample_input st m) (UUID (replicate 16 (byte_of 0))) ''d'' q)
     (\<lambda>_. returnM (publish_reply (UUID (replicate 16 (byte_of 0))) q False))
     (sample_fifo_store\<lparr>topics := fmupd (Topic_ARN sample_fifo) t' (topics sample_fifo_store)\<rparr>) w'"
    "W_ticks w' = 1"
proof -
  let ?svc = "sample_service None None" and ?u = "UUID (replicate 16 (byte_of 0))"
  have u: "newUUID ?svc start_world = (?u, start_world\<lparr>W_draws := Suc 0\<rparr>)"
    by (simp add: newUUID_def start_world_def sample_service_def)
  let ?w = "start_world\<lparr>W_draws := Suc 0\<rparr>"
  obtain nxt q w1 where n: "nextSequence ?svc zeroSequence ?w = ((nxt, q), w1)" by (metis surj_pair)
  then have "W_ticks w1 = 0" by (auto simp: nextSequence_def start_world_def split: if_splits)
  then obtain t' w' where f: "fifo_update ?svc (sample_input st m) ?u ''d'' sample_fifo ?w = (Inr (t', ?u, q, False), w')"
    "W_ticks w' = 1" by (simp add: sample_update n)
  have "TA_FifoTopic (Topic_Attributes sample_fifo)" by (simp add: sample_fifo_def new_topic_def)
  from Publish_fifo [OF sample_fifo_stored refl this _ sample_authorized sample_input_valid [OF assms] u, unfolded sample_dedup_id, OF _ f(1)]
  show thesis using f(2) by (intro that) (auto simp: sample_input_def)
qed

lemma sample_dispatch:
  "dispatchPublish svc t (sample_input [] m) i d q
    (sample_fifo_store\<lparr>topics := T\<rparr>) w = (Inr (), sample_fifo_store\<lparr>topics := T\<rparr>, w)"
proof -
  have "page_keys ([] :: string list) [] 10000 = Inr ([], [])" by code_simp
  then have "listSubscriptionsByTopic (sample_fifo_store\<lparr>topics := T\<rparr>) arn [] 10000 = Inr ([], [])" for arn
    by (simp add: listSubscriptionsByTopic_def topicSubs_def sample_fifo_subs page_of_def sorted_list_of_fset.rep_eq)
  then show ?thesis
    by (simp add: dispatchPublish_def bindM_def resM_def readM_def Tx_def cloneState_def returnM_def
        resolveProtocolMessages_def sample_input_def)
qed

lemma sample_clock: "mono (Clock_Now (sample_service None None))"
  by (simp add: mono_def sample_service_def)


theorem reachable_invariant_witness:
  "fmlookup (topics sample_fifo_store) (Topic_ARN sample_fifo) = Some sample_fifo \<and>
   HasSuffix (Topic_ARN sample_fifo) ''.fifo'' \<and> size (fmdom (Topic_Tags sample_fifo)) \<le> 50"
proof -
  have "TA_FifoTopic (Topic_Attributes sample_fifo)" by (simp add: sample_fifo_def new_topic_def)
  with reachable_invariant [OF sample_fifo_reachable] sample_fifo_stored show ?thesis by blast
qed


theorem fifo_deduplication_witness:
  "\<exists>out s1 w1 w3. Publish (sample_service None None) sample_owner (sample_input [] ''hi'') sample_fifo_store start_world = (Inr out, s1, w1) \<and>
     Publish (sample_service None None) sample_owner (sample_input [] ''ho'') s1 w1 = (Inr (out\<lparr>PO_Deduplicated := True\<rparr>), s1, w3)"
proof -
  let ?svc = "sample_service None None"
  obtain t' q w' where p: "Publish ?svc sample_owner (sample_input [] ''hi'') sample_fifo_store start_world =
    bindM (dispatchPublish ?svc t' (sample_input [] ''hi'') (UUID (replicate 16 (byte_of 0))) ''d'' q)
     (\<lambda>_. returnM (publish_reply (UUID (replicate 16 (byte_of 0))) q False))
     (sample_fifo_store\<lparr>topics := fmupd (Topic_ARN sample_fifo) t' (topics sample_fifo_store)\<rparr>) w'" "W_ticks w' = 1"
    by (rule sample_publish [of "''hi''" "[]"]) auto
  let ?s = "sample_fifo_store\<lparr>topics := fmupd (Topic_ARN sample_fifo) t' (topics sample_fifo_store)\<rparr>"
  let ?out = "publish_reply (UUID (replicate 16 (byte_of 0))) q False"
  have run: "Publish ?svc sample_owner (sample_input [] ''hi'') sample_fifo_store start_world = (Inr ?out, ?s, w')"
    unfolding p(1) by (simp add: bindM_def sample_dispatch returnM_def)
  have "\<exists>w3. Publish ?svc sample_owner (sample_input [] ''ho'') ?s w' = (Inr (?out\<lparr>PO_Deduplicated := True\<rparr>), ?s, w3) \<and>
    W_sqs w3 = W_sqs w' \<and> W_http w3 = W_http w'"
    by (rule fifo_deduplication [OF sample_fifo_reachable sample_fifo_stored _ run _ _ _ sample_authorized sample_input_valid
          sample_authorized sample_input_valid _ _ sample_clock])
      (simp_all add: sample_dedup_id sample_input_def publish_reply_def p(2) Minute_def sample_fifo_def new_topic_def,
       simp_all add: sample_service_def start_world_def publish_dedup_id_def)
  with run show ?thesis by blast
qed

theorem failed_publish_swallows_retry_witness:
  "\<exists>e s1 w1 out w3. Publish (sample_service None None) sample_owner (sample_input ''json'' ''x'') sample_fifo_store start_world = (Inl e, s1, w1) \<and>
     Publish (sample_service None None) sample_owner (sample_input [] ''ho'') s1 w1 = (Inr out, s1, w3) \<and> PO_Deduplicated out"
proof -
  let ?svc = "sample_service None None"
  obtain t' q w' where p: "Publish ?svc sample_owner (sample_input ''json'' ''x'') sample_fifo_store start_world =
    bindM (dispatchPublish ?svc t' (sample_input ''json'' ''x'') (UUID (replicate 16 (byte_of 0))) ''d'' q)
     (\<lambda>_. returnM (publish_reply (UUID (replicate 16 (byte_of 0))) q False))
     (sample_fifo_store\<lparr>topics := fmupd (Topic_ARN sample_fifo) t' (topics sample_fifo_store)\<rparr>) w'" "W_ticks w' = 1"
    by (rule sample_publish [of "''x''" "''json''"]) auto
  let ?s = "sample_fifo_store\<lparr>topics := fmupd (Topic_ARN sample_fifo) t' (topics sample_fifo_store)\<rparr>"
  have "is_err (resolveProtocolMessages ''x'' ''json'')" by code_simp
  then obtain e where "resolveProtocolMessages ''x'' ''json'' = Inl e" by (cases "resolveProtocolMessages ''x'' ''json''") auto
  then have run: "Publish ?svc sample_owner (sample_input ''json'' ''x'') sample_fifo_store start_world =
      (Inl (NewInvalidParameter (error_text e)), ?s, w')"
    unfolding p(1) by (simp add: bindM_def dispatchPublish_def sample_input_def resM_def)
  have "\<exists>out w3. Publish ?svc sample_owner (sample_input [] ''ho'') ?s w' = (Inr out, ?s, w3) \<and> PO_Deduplicated out \<and>
    W_sqs w3 = W_sqs w' \<and> W_http w3 = W_http w'"
    by (rule failed_publish_swallows_retry [OF sample_fifo_reachable sample_fifo_stored _ run _ _ sample_authorized sample_input_valid
          sample_input_valid _ _ sample_clock])
      (simp_all add: sample_dedup_id sample_input_def p(2) Minute_def sample_fifo_def new_topic_def,
       simp_all add: sample_service_def start_world_def publish_dedup_id_def)
  with run show ?thesis by blast
qed

end
