(* ===== verification/API_Server.thy ===== *)
theory API_Server
  imports Go_XML Go_HTTP API_Parse Emulator
begin

text \<open>
  The API server (\<^verbatim>\<open>internal/api/server.go\<close>): a request is parsed, verified, dispatched on its action to
  one operation of the service and answered in XML.

  \<open>Srv_range k\<close> are the orders in which the loops over maps run while the request is handled during which the
  clock is read for the \<open>k\<close>-th time; every request reads the clock at least once.  The verifier and the request
  identifiers read \<^verbatim>\<open>time.Now\<close>.  A response is what the handler has written when it returns; writing
  to a connection that has gone is an error that the handlers drop.  A panic of a handler (\<^verbatim>\<open>net/http\<close>
  recovers it and closes the connection) is the outcome \<^verbatim>\<open>Panic\<close>.

  \<^verbatim>\<open>ServeMux\<close> redirects a request whose path is not clean before any handler sees it; \<open>Routes\<close> is the
  choice of the handler for the clean paths.
\<close>

subsection \<open>Responses\<close>

record Server =
  Srv_service :: Service
  Srv_verifier :: Verifier
  Srv_CertPEM :: string
  Srv_range :: "nat \<Rightarrow> nat \<Rightarrow> string list \<Rightarrow> string list"

record Response =
  Resp_Status :: int
  Resp_ContentType :: string
  Resp_Body :: string

definition xmlNS :: string where
  "xmlNS = ''https://sns.amazonaws.com/doc/2010-03-31/''"

definition xml_Header :: string where
  "xml_Header = ''<?xml version='' @ [dquote] @ ''1.0'' @ [dquote] @ '' encoding='' @ [dquote] @ ''UTF-8'' @ [dquote] @ ''?>'' @ [CHR 0x0A]"

definition xml_type :: string where
  "xml_type = ''text/xml; charset=utf-8''"

definition FormatInt :: "int \<Rightarrow> nat \<Rightarrow> string" where
  "FormatInt i base = (if i < 0 then CHR ''-'' # digits_of base (nat (- i)) else digits_of base (nat i))"

definition timeNow :: "Server \<Rightarrow> int M" where
  "timeNow srv = worldM (\<lambda>w. (time_Now (Srv_service srv) (W_nanos w), w\<lparr>W_nanos := Suc (W_nanos w)\<rparr>))"

definition encodeID :: "Server \<Rightarrow> string \<Rightarrow> string M" where
  "encodeID srv pre = bindM (timeNow srv) (\<lambda>t. returnM (pre @ ''-'' @ FormatInt t 36))"

definition ternary :: "bool \<Rightarrow> string \<Rightarrow> string \<Rightarrow> string" where
  "ternary ok yes no = (if ok then yes else no)"

text \<open>A result is the name of its Go type, which \<^verbatim>\<open>xml.Marshal\<close> makes the root element, with its fields.\<close>

type_synonym result = "string \<times> xml list"

definition marshalResult :: "result \<Rightarrow> string" where
  "marshalResult res = print_xml (Elem (fst res) (snd res))"

definition start_tag :: "string \<Rightarrow> string" where
  "start_tag tag = ''<'' @ tag @ '' xmlns='' @ [dquote] @ xmlNS @ [dquote] @ ''>''"

definition success_body :: "string \<Rightarrow> string \<Rightarrow> result option \<Rightarrow> string \<Rightarrow> string" where
  "success_body responseName resultName res requestID =
     xml_Header @ start_tag responseName @
     (if resultName = [] then []
      else ''<'' @ resultName @ ''>'' @ (case res of None \<Rightarrow> [] | Some r \<Rightarrow> stripXMLRoot (marshalResult r)) @
           ''</'' @ resultName @ ''>'') @
     print_xml (Elem ''ResponseMetadata'' [text_elem ''RequestId'' requestID]) @ ''</'' @ responseName @ ''>''"

definition writeSuccess :: "Server \<Rightarrow> string \<Rightarrow> string \<Rightarrow> result option \<Rightarrow> Response M" where
  "writeSuccess srv responseName resultName res =
     bindM (encodeID srv ''request'') (\<lambda>requestID.
     returnM \<lparr>Resp_Status = 200, Resp_ContentType = xml_type,
              Resp_Body = success_body responseName resultName res requestID\<rparr>)"

definition error_body :: "APIError \<Rightarrow> string \<Rightarrow> string" where
  "error_body e requestID =
     xml_Header @ start_tag ''ErrorResponse'' @
     print_xml (Elem ''Error'' [text_elem ''Type'' (ternary (Err_Sender e) ''Sender'' ''Receiver''),
       text_elem ''Code'' (Err_Code e), text_elem ''Message'' (Err_Message e)]) @
     print_xml (text_elem ''RequestId'' requestID) @ ''</ErrorResponse>''"

text \<open>\<^verbatim>\<open>WriteHeader\<close> panics on a status that does not have three digits.\<close>

definition writeError :: "Server \<Rightarrow> APIError \<Rightarrow> Response M" where
  "writeError srv e =
     bindM (encodeID srv ''request'') (\<lambda>requestID.
     bindM (guardM (100 \<le> Err_HTTPStatus e \<and> Err_HTTPStatus e \<le> 999) (Panic ''invalid WriteHeader code'')) (\<lambda>_.
     returnM \<lparr>Resp_Status = Err_HTTPStatus e, Resp_ContentType = xml_type, Resp_Body = error_body e requestID\<rparr>))"

subsection \<open>Results\<close>

definition topicArnResult :: "string \<Rightarrow> result" where
  "topicArnResult arn = (''topicArnResult'', [text_elem ''TopicArn'' arn])"

definition subscriptionArnResult :: "string \<Rightarrow> result" where
  "subscriptionArnResult arn = (''subscriptionArnResult'', [text_elem ''SubscriptionArn'' arn])"

definition emptyResult :: result where
  "emptyResult = (''emptyResult'', [])"

definition attributeEntry :: "string \<times> string \<Rightarrow> xml" where
  "attributeEntry e = Elem ''entry'' [text_elem ''key'' (fst e), text_elem ''value'' (snd e)]"

definition newAttributeMap :: "(string, string) fmap \<Rightarrow> xml" where
  "newAttributeMap m = Elem ''Attributes'' (map attributeEntry (range_map (\<lambda>ks. ks) m))"

definition publishResult :: "PublishOutput \<Rightarrow> result" where
  "publishResult out =
     (''publishResult'', text_elem ''MessageId'' (PO_MessageID out) # opt_elem ''SequenceNumber'' (PO_SequenceNumber out))"

definition batchSuccessEntry :: "BatchDeliveryResult \<Rightarrow> xml list" where
  "batchSuccessEntry item =
     [text_elem ''Id'' (BR_ID item), text_elem ''MessageId'' (BR_MessageID item)] @
     opt_elem ''SequenceNumber'' (BR_SequenceNumber item)"

definition batchFailureEntry :: "PublishBatchFailure \<Rightarrow> xml list" where
  "batchFailureEntry item =
     [text_elem ''Id'' (BF_ID item), text_elem ''Code'' (BF_Code item), text_elem ''Message'' (BF_Message item),
      text_elem ''SenderFault'' (boolString (BF_SenderFault item))]"

definition publishBatchResult :: "BatchDeliveryResult list \<Rightarrow> PublishBatchFailure list \<Rightarrow> result" where
  "publishBatchResult success failed =
     (''publishBatchResult'',
      [member_list ''Successful'' (map batchSuccessEntry success), member_list ''Failed'' (map batchFailureEntry failed)])"

definition tagMember :: "string \<times> string \<Rightarrow> xml list" where
  "tagMember e = text_elem ''Key'' (fst e) # opt_elem ''Value'' (snd e)"

definition subscriptionMember :: "Subscription \<Rightarrow> xml list" where
  "subscriptionMember sub =
     [text_elem ''SubscriptionArn'' (if Sub_PendingConfirmation sub then ''PendingConfirmation'' else Sub_ARN sub),
      text_elem ''Owner'' (Sub_Owner sub), text_elem ''Protocol'' (Sub_Protocol sub),
      text_elem ''Endpoint'' (Sub_Endpoint sub), text_elem ''TopicArn'' (Sub_TopicARN sub)]"

text \<open>The items of a page are pointers.\<close>

fun deref :: "'a option list \<Rightarrow> 'a list res" where
  "deref [] = Inr []"
| "deref (None # xs) = Inl nil_panic"
| "deref (Some x # xs) = (case deref xs of Inl e \<Rightarrow> Inl e | Inr ys \<Rightarrow> Inr (x # ys))"

definition derefM :: "'a option list \<Rightarrow> 'a list M" where
  "derefM xs = resM (deref xs)"

definition writeSubscriptionList :: "Server \<Rightarrow> string \<Rightarrow> string \<Rightarrow> Subscription option list \<Rightarrow> string \<Rightarrow> Response M" where
  "writeSubscriptionList srv responseName resultName items nextToken =
     bindM (derefM items) (\<lambda>subs.
     writeSuccess srv responseName resultName
       (Some (''subscriptionListResult'',
          member_list ''Subscriptions'' (map subscriptionMember subs) # opt_elem ''NextToken'' nextToken)))"

subsection \<open>Handlers\<close>

type_synonym order = "nat \<Rightarrow> string list \<Rightarrow> string list"
type_synonym handler = "Server \<Rightarrow> order \<Rightarrow> url_values \<Rightarrow> Identity \<Rightarrow> Response M"

definition api_createTopic :: handler where
  "api_createTopic srv ord form who =
     bindM (CreateTopic (Srv_service srv) who (Values_Get form ''Name'') (range_map (ord 2) (parseAttributes ord form))
              (parseTags (\<lambda>n. ord (n + 3)) form)) (\<lambda>(topic, _).
     case topic of
       None \<Rightarrow> throwM nil_panic
     | Some t \<Rightarrow> writeSuccess srv ''CreateTopicResponse'' ''CreateTopicResult'' (Some (topicArnResult (Topic_ARN t))))"

definition api_deleteTopic :: handler where
  "api_deleteTopic srv ord form who =
     bindM (DeleteTopic who (Values_Get form ''TopicArn'')) (\<lambda>_. writeSuccess srv ''DeleteTopicResponse'' [] None)"

definition topic_attributes :: "Topic \<Rightarrow> Subscription list \<Rightarrow> (string, string) fmap" where
  "topic_attributes topic subs =
     (let pending = length (filter Sub_PendingConfirmation subs);
          attrs = fold (\<lambda>(k, v). fmupd k v)
            [(''Owner'', Topic_Owner topic), (''TopicArn'', Topic_ARN topic),
             (''SubscriptionsConfirmed'', Itoa (int (length subs - pending))), (''SubscriptionsPending'', Itoa (int pending)),
             (''SubscriptionsDeleted'', ''0'')] (TopicAttributeMap (Topic_Attributes topic))
      in case EffectivePolicy (TA_DeliveryPolicy (Topic_Attributes topic)) [] of
           Inl _ \<Rightarrow> attrs
         | Inr (_, effective) \<Rightarrow> fmupd ''EffectiveDeliveryPolicy'' effective attrs)"

text \<open>Only the first page of the subscriptions is counted, and none when listing them fails.\<close>

definition api_getTopicAttributes :: handler where
  "api_getTopicAttributes srv ord form who =
     bindM (GetTopic who (Values_Get form ''TopicArn'')) (\<lambda>topic.
     tryM (ListSubscriptionsByTopic (Srv_service srv) who (Topic_ARN topic) []) (\<lambda>r.
     bindM (derefM (case r of Inl _ \<Rightarrow> [] | Inr (subs, _) \<Rightarrow> subs)) (\<lambda>subs.
     writeSuccess srv ''GetTopicAttributesResponse'' ''GetTopicAttributesResult''
       (Some (''getTopicAttributesResult'', [newAttributeMap (topic_attributes topic subs)])))))"

definition api_setTopicAttributes :: handler where
  "api_setTopicAttributes srv ord form who =
     bindM (SetTopicAttribute (Srv_service srv) who (Values_Get form ''TopicArn'') (Values_Get form ''AttributeName'')
              (Values_Get form ''AttributeValue'')) (\<lambda>_.
     writeSuccess srv ''SetTopicAttributesResponse'' [] None)"

definition api_listTopics :: handler where
  "api_listTopics srv ord form who =
     bindM (ListTopics (Srv_service srv) who (Values_Get form ''NextToken'')) (\<lambda>(items, nextToken).
     bindM (derefM items) (\<lambda>topics.
     writeSuccess srv ''ListTopicsResponse'' ''ListTopicsResult''
       (Some (''listTopicsResult'',
          member_list ''Topics'' (map (\<lambda>t. [text_elem ''TopicArn'' (Topic_ARN t)]) topics) # opt_elem ''NextToken'' nextToken))))"

definition api_subscribe :: handler where
  "api_subscribe srv ord form who =
     bindM (Subscribe (Srv_service srv) who (Values_Get form ''TopicArn'') (Values_Get form ''Protocol'')
              (Values_Get form ''Endpoint'') (range_map (ord 2) (parseAttributes ord form))
              (EqualFold (Values_Get form ''ReturnSubscriptionArn'') ''true'')) (\<lambda>subArn.
     writeSuccess srv ''SubscribeResponse'' ''SubscribeResult'' (Some (subscriptionArnResult subArn)))"

definition api_confirmSubscription :: handler where
  "api_confirmSubscription srv ord form who =
     bindM (ConfirmSubscription (Srv_service srv) who (Values_Get form ''TopicArn'') (Values_Get form ''Token'')
              (EqualFold (Values_Get form ''AuthenticateOnUnsubscribe'') ''true'')) (\<lambda>subArn.
     writeSuccess srv ''ConfirmSubscriptionResponse'' ''ConfirmSubscriptionResult'' (Some (subscriptionArnResult subArn)))"

definition api_unsubscribe :: handler where
  "api_unsubscribe srv ord form who =
     bindM (Unsubscribe (Srv_service srv) who (Values_Get form ''SubscriptionArn'')) (\<lambda>_.
     writeSuccess srv ''UnsubscribeResponse'' [] None)"

definition api_getSubscriptionAttributes :: handler where
  "api_getSubscriptionAttributes srv ord form who =
     bindM (GetSubscription who (Values_Get form ''SubscriptionArn'')) (\<lambda>(sub, _).
     writeSuccess srv ''GetSubscriptionAttributesResponse'' ''GetSubscriptionAttributesResult''
       (Some (''getSubscriptionAttributesResult'', [newAttributeMap (SubscriptionAttributeMap (Sub_Attributes sub) sub)])))"

definition api_setSubscriptionAttributes :: handler where
  "api_setSubscriptionAttributes srv ord form who =
     bindM (SetSubscriptionAttribute who (Values_Get form ''SubscriptionArn'') (Values_Get form ''AttributeName'')
              (Values_Get form ''AttributeValue'')) (\<lambda>_.
     writeSuccess srv ''SetSubscriptionAttributesResponse'' [] None)"

definition api_listSubscriptions :: handler where
  "api_listSubscriptions srv ord form who =
     bindM (ListSubscriptions (Srv_service srv) who (Values_Get form ''NextToken'')) (\<lambda>(items, nextToken).
     writeSubscriptionList srv ''ListSubscriptionsResponse'' ''ListSubscriptionsResult'' items nextToken)"

definition api_listSubscriptionsByTopic :: handler where
  "api_listSubscriptionsByTopic srv ord form who =
     bindM (ListSubscriptionsByTopic (Srv_service srv) who (Values_Get form ''TopicArn'') (Values_Get form ''NextToken'')) (\<lambda>(items, nextToken).
     writeSubscriptionList srv ''ListSubscriptionsByTopicResponse'' ''ListSubscriptionsByTopicResult'' items nextToken)"

definition api_publish :: handler where
  "api_publish srv ord form who =
     bindM (Publish (Srv_service srv) who (parsePublishInput ord form)) (\<lambda>out.
     writeSuccess srv ''PublishResponse'' ''PublishResult'' (Some (publishResult out)))"

definition api_publishBatch :: handler where
  "api_publishBatch srv ord form who =
     bindM (resM (parseBatchEntries ord form)) (\<lambda>entries.
     bindM (PublishBatch (Srv_service srv) who (Values_Get form ''TopicArn'') entries) (\<lambda>(success, failed).
     writeSuccess srv ''PublishBatchResponse'' ''PublishBatchResult'' (Some (publishBatchResult success failed))))"

definition api_tagResource :: handler where
  "api_tagResource srv ord form who =
     bindM (TagTopic who (Values_Get form ''ResourceArn'') (parseTags ord form)) (\<lambda>_.
     writeSuccess srv ''TagResourceResponse'' ''TagResourceResult'' (Some emptyResult))"

definition api_untagResource :: handler where
  "api_untagResource srv ord form who =
     bindM (UntagTopic who (Values_Get form ''ResourceArn'') (parseStringMembers ord form ''TagKeys.member.'')) (\<lambda>_.
     writeSuccess srv ''UntagResourceResponse'' ''UntagResourceResult'' (Some emptyResult))"

definition api_listTags :: handler where
  "api_listTags srv ord form who =
     bindM (GetTopic who (Values_Get form ''ResourceArn'')) (\<lambda>topic.
     writeSuccess srv ''ListTagsForResourceResponse'' ''ListTagsForResourceResult''
       (Some (''listTagsResult'', [member_list ''Tags'' (map tagMember (SortedTags (Topic_Tags topic)))])))"

definition api_addPermission :: handler where
  "api_addPermission srv ord form who =
     bindM (Service_AddPermission who (Values_Get form ''TopicArn'') (Values_Get form ''Label'')
              (parseStringMembers ord form ''AWSAccountId.member.'')
              (parseStringMembers (\<lambda>n. ord (n + 1)) form ''ActionName.member.'')) (\<lambda>_.
     writeSuccess srv ''AddPermissionResponse'' [] None)"

definition api_removePermission :: handler where
  "api_removePermission srv ord form who =
     bindM (Service_RemovePermission who (Values_Get form ''TopicArn'') (Values_Get form ''Label'')) (\<lambda>_.
     writeSuccess srv ''RemovePermissionResponse'' [] None)"

subsection \<open>Dispatch\<close>

definition actions :: "(string \<times> handler) list" where
  "actions =
     [(''CreateTopic'', api_createTopic), (''DeleteTopic'', api_deleteTopic),
      (''GetTopicAttributes'', api_getTopicAttributes), (''SetTopicAttributes'', api_setTopicAttributes),
      (''ListTopics'', api_listTopics), (''Subscribe'', api_subscribe), (''ConfirmSubscription'', api_confirmSubscription),
      (''Unsubscribe'', api_unsubscribe), (''GetSubscriptionAttributes'', api_getSubscriptionAttributes),
      (''SetSubscriptionAttributes'', api_setSubscriptionAttributes), (''ListSubscriptions'', api_listSubscriptions),
      (''ListSubscriptionsByTopic'', api_listSubscriptionsByTopic), (''Publish'', api_publish),
      (''PublishBatch'', api_publishBatch), (''TagResource'', api_tagResource), (''UntagResource'', api_untagResource),
      (''ListTagsForResource'', api_listTags), (''AddPermission'', api_addPermission),
      (''RemovePermission'', api_removePermission)]"

definition dispatch :: "string \<Rightarrow> handler" where
  "dispatch action srv ord form who =
     (case map_of actions action of
        Some h \<Rightarrow> h srv ord form who
      | None \<Rightarrow> throwM (mkAPIError ''InvalidAction'' 400 ''Unknown Action''))"

text \<open>\<^verbatim>\<open>errorAs\<close>: the API error itself, or the fallback.\<close>

definition errorAs :: "go_error \<Rightarrow> APIError \<Rightarrow> APIError" where
  "errorAs err fallback = (case err of API e \<Rightarrow> e | _ \<Rightarrow> fallback)"

definition plain_error :: "string \<Rightarrow> string \<Rightarrow> int \<Rightarrow> bool \<Rightarrow> APIError" where
  "plain_error code message status sender =
     \<lparr>Err_Code = code, Err_Message = message, Err_HTTPStatus = status, Err_Sender = sender\<rparr>"

definition unparsable :: APIError where
  "unparsable = plain_error ''InvalidParameter'' ''Unable to parse request'' 400 True"

text \<open>The action of a request, and whether it may come unsigned.\<close>

definition request_name :: "url_values \<Rightarrow> string" where
  "request_name form = TrimSpace (Values_Get form ''Action'')"

definition allowAnonymous :: "url_values \<Rightarrow> bool" where
  "allowAnonymous form \<longleftrightarrow>
     request_name form = ''ConfirmSubscription'' \<and> \<not> EqualFold (Values_Get form ''AuthenticateOnUnsubscribe'') ''true''"

definition verifier_at :: "Server \<Rightarrow> nat \<Rightarrow> Verifier" where
  "verifier_at srv n = (Srv_verifier srv)\<lparr>V_Now := time_Now (Srv_service srv) n\<rparr>"

definition handle_verified :: "Server \<Rightarrow> order \<Rightarrow> url_values \<Rightarrow> Identity \<Rightarrow> Response M" where
  "handle_verified srv ord form who =
     tryM (dispatch (request_name form) srv ord form who) (\<lambda>r.
       case r of
         Inr resp \<Rightarrow> returnM resp
       | Inl e \<Rightarrow> writeError srv (errorAs e (plain_error ''InternalError'' (error_text e) 500 False)))"

definition verifyM :: "Server \<Rightarrow> ServerRequest \<Rightarrow> string \<Rightarrow> bool \<Rightarrow> (nat \<times> Identity) M" where
  "verifyM srv r body anonymous s w =
     ((case Verify (verifier_at srv (W_nanos w)) r body anonymous of Inl e \<Rightarrow> Inl e | Inr who \<Rightarrow> Inr (W_nanos w, who)),
      s, w\<lparr>W_nanos := Suc (W_nanos w)\<rparr>)"

definition handleRoot :: "Server \<Rightarrow> ServerRequest \<Rightarrow> string res \<Rightarrow> Response M" where
  "handleRoot srv r body =
     (case body of
        Inl _ \<Rightarrow> writeError srv unparsable
      | Inr raw \<Rightarrow>
          (case ParseForm r raw of
             (form, Some _) \<Rightarrow> writeError srv unparsable
           | (form, None) \<Rightarrow>
               if request_name form = [] then writeError srv (plain_error ''InvalidParameter'' ''Missing Action'' 400 True)
               else
                 tryM (verifyM srv r raw (allowAnonymous form)) (\<lambda>v.
                   case v of
                     Inl e \<Rightarrow> writeError srv (errorAs e (plain_error ''InvalidSecurity'' (error_text e) 403 True))
                   | Inr (n, who) \<Rightarrow> handle_verified srv (Srv_range srv n) form who)))"

subsection \<open>The other endpoints\<close>

definition handleCert :: "Server \<Rightarrow> Response M" where
  "handleCert srv =
     returnM \<lparr>Resp_Status = 200, Resp_ContentType = ''application/x-pem-file'', Resp_Body = Srv_CertPEM srv\<rparr>"

definition handleHealth :: "Response M" where
  "handleHealth = returnM \<lparr>Resp_Status = 200, Resp_ContentType = [], Resp_Body = ''ok''\<rparr>"

text \<open>\<^verbatim>\<open>Health\<close> of the memory store returns nil.\<close>

definition Health :: "unit M" where
  "Health = returnM ()"

definition handleReady :: "Response M" where
  "handleReady =
     tryM Health (\<lambda>r. case r of
       Inl _ \<Rightarrow> returnM \<lparr>Resp_Status = 503, Resp_ContentType = ''text/plain; charset=utf-8'', Resp_Body = ''not ready'' @ [CHR 0x0A]\<rparr>
     | Inr _ \<Rightarrow> returnM \<lparr>Resp_Status = 200, Resp_ContentType = [], Resp_Body = ''ready''\<rparr>)"

definition Routes :: "Server \<Rightarrow> ServerRequest \<Rightarrow> string res \<Rightarrow> Response M" where
  "Routes srv r body =
     (if R_Path r = ''/__sns/certs/current.pem'' then handleCert srv
      else if R_Path r = ''/__health'' then handleHealth
      else if R_Path r = ''/__ready'' then handleReady
      else handleRoot srv r body)"

subsection \<open>Requests become operations\<close>

text \<open>The operation that the action of a form asks for, with its parameters: first the actions whose parameters can
  always be read.\<close>

definition requested_simple :: "order \<Rightarrow> url_values \<Rightarrow> request option" where
  "requested_simple ord form =
     (let get = Values_Get form; attrs = range_map (ord 2) (parseAttributes ord form) in
      map_of
       [(''CreateTopic'', CreateTopicReq (get ''Name'') attrs (parseTags (\<lambda>n. ord (n + 3)) form)),
        (''DeleteTopic'', DeleteTopicReq (get ''TopicArn'')),
        (''GetTopicAttributes'', GetTopicReq (get ''TopicArn'')),
        (''SetTopicAttributes'', SetTopicAttributeReq (get ''TopicArn'') (get ''AttributeName'') (get ''AttributeValue'')),
        (''ListTopics'', ListTopicsReq (get ''NextToken'')),
        (''Subscribe'', SubscribeReq (get ''TopicArn'') (get ''Protocol'') (get ''Endpoint'') attrs
           (EqualFold (get ''ReturnSubscriptionArn'') ''true'')),
        (''ConfirmSubscription'', ConfirmSubscriptionReq (get ''TopicArn'') (get ''Token'')
           (EqualFold (get ''AuthenticateOnUnsubscribe'') ''true'')),
        (''Unsubscribe'', UnsubscribeReq (get ''SubscriptionArn'')),
        (''GetSubscriptionAttributes'', GetSubscriptionReq (get ''SubscriptionArn'')),
        (''SetSubscriptionAttributes'', SetSubscriptionAttributeReq (get ''SubscriptionArn'') (get ''AttributeName'') (get ''AttributeValue'')),
        (''ListSubscriptions'', ListSubscriptionsReq (get ''NextToken'')),
        (''ListSubscriptionsByTopic'', ListSubscriptionsByTopicReq (get ''TopicArn'') (get ''NextToken'')),
        (''Publish'', PublishReq (parsePublishInput ord form)),
        (''TagResource'', TagTopicReq (get ''ResourceArn'') (parseTags ord form)),
        (''UntagResource'', UntagTopicReq (get ''ResourceArn'') (parseStringMembers ord form ''TagKeys.member.'')),
        (''ListTagsForResource'', GetTopicReq (get ''ResourceArn'')),
        (''AddPermission'', AddPermissionReq (get ''TopicArn'') (get ''Label'')
           (parseStringMembers ord form ''AWSAccountId.member.'') (parseStringMembers (\<lambda>n. ord (n + 1)) form ''ActionName.member.'')),
        (''RemovePermission'', RemovePermissionReq (get ''TopicArn'') (get ''Label''))]
       (request_name form))"

text \<open>\<open>None\<close> when the action is unknown or the entries of a batch cannot be read.\<close>

definition requested :: "order \<Rightarrow> url_values \<Rightarrow> request option" where
  "requested ord form =
     (if request_name form = ''PublishBatch''
      then (case parseBatchEntries ord form of
              Inl _ \<Rightarrow> None
            | Inr entries \<Rightarrow> Some (PublishBatchReq (Values_Get form ''TopicArn'') entries))
      else requested_simple ord form)"

text \<open>What the handler makes of an operation: an error is passed on, a result becomes a response with status 200.\<close>

definition replies :: "Response M \<Rightarrow> bool" where
  "replies k \<longleftrightarrow>
     (\<forall>s w. \<exists>res w'. k s w = (res, s, w') \<and> ((\<exists>p. res = Inl (Panic p)) \<or> (\<exists>resp. res = Inr resp \<and> Resp_Status resp = 200)))"

definition answers :: "unit M \<Rightarrow> Response M \<Rightarrow> bool" where
  "answers op h \<longleftrightarrow>
     (\<forall>s w r s1 w1. op s w = (r, s1, w1) \<longrightarrow>
        (\<exists>res w'. h s w = (res, s1, w') \<and>
           (case r of
              Inl e \<Rightarrow> res = Inl e
            | Inr _ \<Rightarrow> (\<exists>p. res = Inl (Panic p)) \<or> (\<exists>resp. res = Inr resp \<and> Resp_Status resp = 200))))"

named_theorems reply_intros \<open>rules for responses\<close>

lemma replies_success [reply_intros]: "replies (writeSuccess srv responseName resultName res)"
  by (simp add: replies_def writeSuccess_def encodeID_def timeNow_def worldM_def bindM_def returnM_def)

lemma replies_panic [reply_intros]: "replies (throwM nil_panic)"
  by (simp add: replies_def throwM_def nil_panic_def)

lemma deref_error: "deref xs = Inl e \<Longrightarrow> e = nil_panic"
  by (induction xs rule: deref.induct) (auto split: sum.splits)

lemma replies_deref [reply_intros]: "(\<And>a. replies (k a)) \<Longrightarrow> replies (bindM (derefM xs) k)"
  by (auto simp: replies_def derefM_def resM_def bindM_def nil_panic_def dest: deref_error split: sum.split)

lemma replies_try [reply_intros]:
  assumes "pure_op m" "\<And>r. replies (k r)"
  shows "replies (tryM m k)"
  unfolding replies_def
proof (intro allI)
  fix s w
  obtain r w1 where m: "m s w = (r, s, w1)" using pure_opD [OF assms(1)] by (metis prod_cases3)
  obtain res w' where "k r s w1 = (res, s, w')" "(\<exists>p. res = Inl (Panic p)) \<or> (\<exists>resp. res = Inr resp \<and> Resp_Status resp = 200)"
    using assms(2) [of r] unfolding replies_def by blast
  then show "\<exists>res w'. tryM m k s w = (res, s, w') \<and> ((\<exists>p. res = Inl (Panic p)) \<or> (\<exists>resp. res = Inr resp \<and> Resp_Status resp = 200))"
    by (cases r) (auto simp: tryM_def m split: go_error.split)
qed

lemma replies_case [reply_intros]:
  "(\<And>a b. replies (k a b)) \<Longrightarrow> replies (case p of (a, b) \<Rightarrow> k a b)"
  "replies j \<Longrightarrow> (\<And>x. replies (h x)) \<Longrightarrow> replies (case x of None \<Rightarrow> j | Some x \<Rightarrow> h x)"
  by (auto split: prod.split option.split)

lemma replies_list [reply_intros]: "replies (writeSubscriptionList srv responseName resultName items nextToken)"
  unfolding writeSubscriptionList_def by (intro reply_intros)

lemma drop_unit: "dropM (m :: unit M) = m"
  by (intro ext) (auto simp: dropM_def bindM_def returnM_def split: prod.split sum.split)

lemma answers_drop:
  assumes "\<And>a. replies (k a)"
  shows "answers (dropM m) (bindM m k)"
  unfolding answers_def
proof (intro allI impI)
  fix s w r s1 w1
  assume d: "dropM m s w = (r, s1, w1)"
  obtain r' s' w' where m: "m s w = (r', s', w')" by (metis prod_cases3)
  show "\<exists>res w'. bindM m k s w = (res, s1, w') \<and>
      (case r of Inl e \<Rightarrow> res = Inl e | Inr _ \<Rightarrow> (\<exists>p. res = Inl (Panic p)) \<or> (\<exists>resp. res = Inr resp \<and> Resp_Status resp = 200))"
  proof (cases r')
    case (Inl e)
    then show ?thesis using d m by (auto simp: dropM_def bindM_def)
  next
    case (Inr a)
    then show ?thesis using d m assms [of a] by (auto simp: dropM_def bindM_def returnM_def replies_def)
  qed
qed

lemma answers_unit: "(\<And>a. replies (k a)) \<Longrightarrow> answers m (bindM m k)"
  using answers_drop [of k m] by (simp add: drop_unit)

lemmas api_handlers =
  api_createTopic_def api_deleteTopic_def api_getTopicAttributes_def api_setTopicAttributes_def api_listTopics_def
  api_subscribe_def api_confirmSubscription_def api_unsubscribe_def api_getSubscriptionAttributes_def
  api_setSubscriptionAttributes_def api_listSubscriptions_def api_listSubscriptionsByTopic_def api_publish_def
  api_tagResource_def api_untagResource_def api_listTags_def api_addPermission_def api_removePermission_def

lemma simple_answers:
  assumes "requested_simple ord form = Some req"
  shows "answers (perform (Srv_service srv) who req) (dispatch (request_name form) srv ord form who)"
  using assms unfolding requested_simple_def Let_def
  by (simp split: if_splits)
    (auto simp: dispatch_def actions_def api_handlers intro!: answers_drop answers_unit reply_intros)

lemma handler_answers:
  assumes "requested ord form = Some req"
  shows "answers (perform (Srv_service srv) who req) (dispatch (request_name form) srv ord form who)"
proof (cases "request_name form = ''PublishBatch''")
  case True
  then obtain entries where e: "parseBatchEntries ord form = Inr entries" "req = PublishBatchReq (Values_Get form ''TopicArn'') entries"
    using assms by (auto simp: requested_def split: sum.splits)
  have "bindM (resM (Inr entries)) k = k entries" for k :: "_ \<Rightarrow> Response M"
    by (intro ext) (simp add: bindM_def resM_def)
  then show ?thesis using True e
    by (auto simp: dispatch_def actions_def api_publishBatch_def intro!: answers_drop reply_intros)
qed (use assms in \<open>auto simp: requested_def intro: simple_answers\<close>)

lemma no_request_no_effect:
  assumes "requested ord form = None"
  shows "\<exists>e. dispatch (request_name form) srv ord form who s w = (Inl e, s, w)"
proof (cases "request_name form = ''PublishBatch''")
  case True
  then obtain e where "parseBatchEntries ord form = Inl e" using assms by (auto simp: requested_def split: sum.splits)
  then show ?thesis using True by (simp add: dispatch_def actions_def api_publishBatch_def bindM_def resM_def)
next
  case False
  then have "map_of actions (request_name form) = None"
    using assms by (simp add: requested_def requested_simple_def Let_def actions_def split: if_splits)
  then show ?thesis by (simp add: dispatch_def throwM_def)
qed

lemma requested_ok: "(\<And>n. fair (ord n)) \<Longrightarrow> requested ord form = Some req \<Longrightarrow> request_ok req"
  by (auto simp: requested_def requested_simple_def Let_def distinct_range_map split: if_splits sum.splits)

lemma writeError_run:
  "writeError srv e s w =
     ((if 100 \<le> Err_HTTPStatus e \<and> Err_HTTPStatus e \<le> 999
       then Inr \<lparr>Resp_Status = Err_HTTPStatus e, Resp_ContentType = xml_type,
                 Resp_Body = error_body e (''request-'' @ FormatInt (time_Now (Srv_service srv) (W_nanos w)) 36)\<rparr>
       else Inl (Panic ''invalid WriteHeader code'')), s, w\<lparr>W_nanos := Suc (W_nanos w)\<rparr>)"
  by (simp add: writeError_def encodeID_def timeNow_def worldM_def bindM_def returnM_def guardM_def throwM_def)

text \<open>The response to an error of an operation.\<close>

definition refuses :: "go_error \<Rightarrow> Response res \<Rightarrow> bool" where
  "refuses err res \<longleftrightarrow>
     (case err of
        Panic p \<Rightarrow> res = Inl (Panic p)
      | _ \<Rightarrow> let e = errorAs err (plain_error ''InternalError'' (error_text err) 500 False) in
            if 100 \<le> Err_HTTPStatus e \<and> Err_HTTPStatus e \<le> 999
            then \<exists>requestID. res = Inr \<lparr>Resp_Status = Err_HTTPStatus e, Resp_ContentType = xml_type, Resp_Body = error_body e requestID\<rparr>
            else is_err res)"

lemma refuses_panic [simp]: "refuses (Panic p) res \<longleftrightarrow> res = Inl (Panic p)"
  by (simp add: refuses_def)

lemma verified_run:
  assumes "dispatch (request_name form) srv ord form who s w = (r, s1, w1)"
  shows "\<exists>res w'. handle_verified srv ord form who s w = (res, s1, w') \<and>
    (case r of Inl e \<Rightarrow> refuses e res | Inr resp \<Rightarrow> res = Inr resp)"
proof (cases r)
  case (Inl e)
  then show ?thesis using assms
    by (cases e) (auto simp: handle_verified_def tryM_def writeError_run refuses_def Let_def)
next
  case (Inr resp)
  then show ?thesis using assms by (simp add: handle_verified_def tryM_def returnM_def)
qed

lemma verified_refines:
  assumes "\<And>n. fair (ord n)" "handle_verified srv ord form who s w = (res, s', w')"
  shows "(case requested ord form of
      None \<Rightarrow> s' = s
    | Some req \<Rightarrow> \<exists>outcome w1. perform (Srv_service srv) who req s w = (outcome, s', w1) \<and>
        (case outcome of
           Inl e \<Rightarrow> refuses e res
         | Inr _ \<Rightarrow> (\<exists>p. res = Inl (Panic p)) \<or> (\<exists>resp. res = Inr resp \<and> Resp_Status resp = 200))) \<and>
    (reachable (Srv_service srv) s \<longrightarrow> reachable (Srv_service srv) s')"
proof -
  let ?svc = "Srv_service srv"
  obtain r0 s0 w0 where d: "dispatch (request_name form) srv ord form who s w = (r0, s0, w0)" by (metis prod_cases3)
  from verified_run [OF d] assms(2)
  have out: "s' = s0" "case r0 of Inl e \<Rightarrow> refuses e res | Inr resp \<Rightarrow> res = Inr resp" by auto
  show ?thesis
  proof (cases "requested ord form")
    case None
    then show ?thesis using no_request_no_effect [OF None, of srv who s w] d out(1) by auto
  next
    case (Some req)
    obtain outcome s1 w1 where p: "perform ?svc who req s w = (outcome, s1, w1)" by (metis prod_cases3)
    from handler_answers [OF Some, of srv who] p d
    have a: "s1 = s0" "case outcome of Inl e \<Rightarrow> r0 = Inl e
        | Inr _ \<Rightarrow> (\<exists>p. r0 = Inl (Panic p)) \<or> (\<exists>resp. r0 = Inr resp \<and> Resp_Status resp = 200)"
      unfolding answers_def by fastforce+
    have "case outcome of Inl e \<Rightarrow> refuses e res
        | Inr _ \<Rightarrow> (\<exists>p. res = Inl (Panic p)) \<or> (\<exists>resp. res = Inr resp \<and> Resp_Status resp = 200)"
      using a(2) out(2) by (auto split: sum.splits)
    moreover have "reachable ?svc s \<Longrightarrow> reachable ?svc s'"
      using reachable.step [OF _ requested_ok [OF assms(1) Some] p] a(1) out(1) by simp
    ultimately show ?thesis using Some p a(1) out(1) by auto
  qed
qed

lemma root_verified:
  assumes "ParseForm r raw = (form, None)" "request_name form \<noteq> []"
    "Verify (verifier_at srv (W_nanos w)) r raw (allowAnonymous form) = Inr who"
  shows "handleRoot srv r (Inr raw) s w =
    handle_verified srv (Srv_range srv (W_nanos w)) form who s (w\<lparr>W_nanos := Suc (W_nanos w)\<rparr>)"
  using assms by (simp add: handleRoot_def tryM_def verifyM_def)


subsection \<open>Requests that are not admitted\<close>

lemma verify_errors:
  assumes "Verify v r raw anonymous = Inl e"
  shows "\<exists>m. e = invalidSecurity m"
proof -
  have c: "check_signature v r raw strip names date scope cred sig = Inl e \<Longrightarrow> \<exists>m. e = invalidSecurity m" for strip names date scope cred sig
    by (auto simp: check_signature_def mismatch_def split: sum.splits if_splits)
  have k: "resolveCredential v raw' token = Inl e \<Longrightarrow> \<exists>m. e = invalidSecurity m" for raw' token
    by (auto simp: resolveCredential_def split: list.splits option.splits if_splits)
  have "verifyHeaderSignature v r raw = Inl e \<Longrightarrow> \<exists>m. e = invalidSecurity m"
    by (auto simp: verifyHeaderSignature_def Let_def split: option.splits sum.splits if_splits dest: c k)
  moreover have "verifyQuerySignature v r raw = Inl e \<Longrightarrow> \<exists>m. e = invalidSecurity m"
    by (auto simp: verifyQuerySignature_def Let_def split: option.splits sum.splits if_splits dest: c k)
  ultimately show ?thesis using assms by (auto simp: Verify_def split: if_splits sum.splits)
qed

text \<open>The server takes up a request when its form can be read, names an action and is verified.\<close>

definition admitted :: "Server \<Rightarrow> ServerRequest \<Rightarrow> string res \<Rightarrow> nat \<Rightarrow> bool" where
  "admitted srv r body n \<longleftrightarrow>
     (case body of
        Inl _ \<Rightarrow> False
      | Inr raw \<Rightarrow>
          (case ParseForm r raw of
             (form, Some _) \<Rightarrow> False
           | (form, None) \<Rightarrow> request_name form \<noteq> [] \<and> \<not> is_err (Verify (verifier_at srv n) r raw (allowAnonymous form))))"

lemma refused:
  assumes "m s w = writeError srv e s (w\<lparr>W_nanos := k\<rparr>)" "Err_HTTPStatus e \<in> {400, 403}" "Err_Sender e"
  shows "\<exists>e requestID n. m s w =
      (Inr \<lparr>Resp_Status = Err_HTTPStatus e, Resp_ContentType = xml_type, Resp_Body = error_body e requestID\<rparr>,
       s, w\<lparr>W_nanos := n\<rparr>) \<and> Err_HTTPStatus e \<in> {400, 403} \<and> Err_Sender e"
  using assms by (intro exI [of _ e]) (auto simp: writeError_run)

lemma unadmitted_run:
  assumes "\<not> admitted srv r body (W_nanos w)"
  shows "\<exists>e requestID n. handleRoot srv r body s w =
      (Inr \<lparr>Resp_Status = Err_HTTPStatus e, Resp_ContentType = xml_type, Resp_Body = error_body e requestID\<rparr>,
       s, w\<lparr>W_nanos := n\<rparr>) \<and>
    Err_HTTPStatus e \<in> {400, 403} \<and> Err_Sender e"
proof (cases body)
  case (Inl e)
  then show ?thesis
    by (intro refused [where e = unparsable and k = "W_nanos w"]) (simp_all add: handleRoot_def unparsable_def plain_error_def)
next
  case (Inr raw)
  obtain form err where f: "ParseForm r raw = (form, err)" by (cases "ParseForm r raw")
  consider e where "err = Some e" | "err = None" "request_name form = []"
    | e where "err = None" "request_name form \<noteq> []" "Verify (verifier_at srv (W_nanos w)) r raw (allowAnonymous form) = Inl e"
    using assms Inr f by (cases err) (auto simp: admitted_def is_err_iff)
  then show ?thesis
  proof cases
    case 1
    with Inr f show ?thesis
      by (intro refused [where e = unparsable and k = "W_nanos w"]) (simp_all add: handleRoot_def unparsable_def plain_error_def)
  next
    case 2
    with Inr f show ?thesis
      by (intro refused [where e = "plain_error ''InvalidParameter'' ''Missing Action'' 400 True" and k = "W_nanos w"])
        (simp_all add: handleRoot_def plain_error_def)
  next
    case (3 e)
    then obtain m where m: "e = invalidSecurity m" using verify_errors by blast
    with 3 f Inr show ?thesis
      by (intro refused [where e = "plain_error ''InvalidSecurity'' m 403 True" and k = "Suc (W_nanos w)"])
        (simp_all add: handleRoot_def tryM_def verifyM_def invalidSecurity_def mkAPIError_def errorAs_def plain_error_def)
  qed
qed

text \<open>C3: A request that cannot be read, names no action or does not carry a valid signature where one is due has no effect
  whatsoever: the store stays as it is, no queue or endpoint is contacted and no random bytes are drawn.  The
  client gets an error response with status 400 or 403 that blames the sender.\<close>

theorem unadmitted_requests_refused:
  assumes "\<not> admitted srv r body (W_nanos w)"
  shows "\<exists>e requestID n. handleRoot srv r body s w =
      (Inr \<lparr>Resp_Status = Err_HTTPStatus e, Resp_ContentType = xml_type, Resp_Body = error_body e requestID\<rparr>,
       s, w\<lparr>W_nanos := n\<rparr>) \<and>
    Err_HTTPStatus e \<in> {400, 403} \<and> Err_Sender e"
  by (rule unadmitted_run [OF assms])

text \<open>Whatever the request, the store stays in the reachable states.\<close>

lemma root_reachable:
  assumes "\<And>k n. fair (Srv_range srv k n)" "reachable (Srv_service srv) s" "handleRoot srv r body s w = (res, s', w')"
  shows "reachable (Srv_service srv) s'"
proof (cases "admitted srv r body (W_nanos w)")
  case True
  then obtain raw form who where "body = Inr raw" "ParseForm r raw = (form, None)" "request_name form \<noteq> []"
    "Verify (verifier_at srv (W_nanos w)) r raw (allowAnonymous form) = Inr who"
    by (auto simp: admitted_def split: sum.splits prod.splits option.splits) (metis is_err.elims(3))
  with assms(3) root_verified [of r raw form srv w who s]
  have "handle_verified srv (Srv_range srv (W_nanos w)) form who s (w\<lparr>W_nanos := Suc (W_nanos w)\<rparr>) = (res, s', w')" by simp
  from verified_refines [OF assms(1) this] assms(2) show ?thesis by blast
next
  case False
  from unadmitted_run [OF this, of s] assms(2,3) show ?thesis by auto
qed

lemma routes_reachable:
  assumes "\<And>k n. fair (Srv_range srv k n)" "reachable (Srv_service srv) s" "Routes srv r body s w = (res, s', w')"
  shows "reachable (Srv_service srv) s'"
proof (cases "handleRoot srv r body s w = (res, s', w')")
  case False
  then show ?thesis using assms(2,3)
    by (auto simp: Routes_def handleCert_def handleHealth_def handleReady_def Health_def tryM_def returnM_def split: if_splits)
qed (rule root_reachable [OF assms(1,2)])

subsection \<open>Examples\<close>

definition sample_server :: "string \<Rightarrow> Server" where
  "sample_server mode =
     \<lparr>Srv_service = sample_service None None,
      Srv_verifier = NewVerifier ''1'' ''us-east-1'' mode [] 0 (\<lambda>s. s), Srv_CertPEM = [], Srv_range = (\<lambda>_ _. rev)\<rparr>"

definition sample_request :: ServerRequest where
  "sample_request =
     \<lparr>R_Method = ''GET'', R_Host = ''localhost'', R_Path = ''/'', R_RawPath = [],
      R_RawQuery = ''Action=CreateTopic&Name=t'', R_Header = fmempty\<rparr>"

lemma sample_request_form:
  "ParseForm sample_request [] = (fmap_of_list [(''Action'', [''CreateTopic'']), (''Name'', [''t''])], None)"
  by code_simp


theorem unadmitted_requests_refused_witness:
  "\<exists>e requestID n. handleRoot (sample_server ModeStrict) sample_request (Inr []) NewStore start_world =
      (Inr \<lparr>Resp_Status = Err_HTTPStatus e, Resp_ContentType = xml_type, Resp_Body = error_body e requestID\<rparr>,
       NewStore, start_world\<lparr>W_nanos := n\<rparr>) \<and>
    Err_HTTPStatus e \<in> {400, 403} \<and> Err_Sender e"
proof (rule unadmitted_requests_refused)
  have "Verify (verifier_at (sample_server ModeStrict) 0) sample_request [] False =
      Inl (invalidSecurity ''Request must be signed with AWS Signature Version 4'')" by code_simp
  moreover have "allowAnonymous (fmap_of_list [(''Action'', [''CreateTopic'']), (''Name'', [''t''])]) = False" by code_simp
  ultimately show "\<not> admitted (sample_server ModeStrict) sample_request (Inr []) (W_nanos start_world)"
    by (simp add: admitted_def sample_request_form start_world_def)
qed

end
