(* ===== verification/Daemon.thy ===== *)
theory Daemon
  imports API_Server
begin

text \<open>
  Starting the emulator (\<^verbatim>\<open>cmd/snsd/main.go\<close>) and the life of the signing key
  (\<^verbatim>\<open>internal/signing/signer.go\<close>): the environment is read, the store opened, the signing material loaded or made
  and stored, and the parts are put together.

  What the program takes from elsewhere is a parameter: the environment, the RSA and X.509 primitives and the PEM
  encoding of keys, the HTTP transport, the clocks and the random source of the machine, and the contents with which
  the SQLite store opens (\<^verbatim>\<open>internal/store/sqlite\<close> is not modelled).
\<close>

subsection \<open>Signing keys\<close>

text \<open>\<open>K_generate n\<close>: the key, the certificate and the time of the \<open>n\<close>-th generation.\<close>

record 'k Keys =
  K_generate :: "('k \<times> string \<times> time) res"
  K_parse :: "string \<Rightarrow> 'k res"
  K_marshal :: "'k \<Rightarrow> string"
  K_now :: time
  K_sign :: "'k \<Rightarrow> hash \<Rightarrow> string \<Rightarrow> string res"
  K_cert_url :: "string \<Rightarrow> string \<Rightarrow> string"

record 'k KeyProvider =
  KP_key :: 'k
  KP_certPEM :: string
  KP_certPath :: string
  KP_createdAt :: time

definition generateProvider :: "'k Keys \<Rightarrow> string \<Rightarrow> 'k KeyProvider res" where
  "generateProvider ks certPath =
     (case K_generate ks of
        Inl e \<Rightarrow> Inl e
      | Inr (key, certPEM, t) \<Rightarrow>
          Inr \<lparr>KP_key = key, KP_certPEM = certPEM, KP_certPath = certPath, KP_createdAt = t\<rparr>)"

definition NewProviderFromMaterial :: "'k Keys \<Rightarrow> string \<Rightarrow> SigningMaterial \<Rightarrow> 'k KeyProvider res" where
  "NewProviderFromMaterial ks certPath material =
     (if Sig_PrivateKeyPEM material = [] \<or> Sig_CertPEM material = [] then generateProvider ks certPath
      else case K_parse ks (Sig_PrivateKeyPEM material) of
             Inl e \<Rightarrow> Inl e
           | Inr key \<Rightarrow>
               Inr \<lparr>KP_key = key, KP_certPEM = Sig_CertPEM material, KP_certPath = certPath,
                    KP_createdAt =
                      (if Sig_CreatedAt material = Sig_CreatedAt emptySigningMaterial then K_now ks
                       else Sig_CreatedAt material)\<rparr>)"

definition NewProvider :: "'k Keys \<Rightarrow> string \<Rightarrow> 'k KeyProvider res" where
  "NewProvider ks certPath = NewProviderFromMaterial ks certPath emptySigningMaterial"

definition Material :: "'k Keys \<Rightarrow> 'k KeyProvider \<Rightarrow> SigningMaterial" where
  "Material ks p =
     \<lparr>Sig_PrivateKeyPEM = K_marshal ks (KP_key p), Sig_CertPEM = KP_certPEM p, Sig_CreatedAt = KP_createdAt p\<rparr>"

text \<open>The provider as the service uses it.\<close>

definition provider_of :: "'k Keys \<Rightarrow> 'k KeyProvider \<Rightarrow> Provider" where
  "provider_of ks p =
     \<lparr>Prov_SignPKCS1v15 = K_sign ks (KP_key p), Prov_SigningCertURL = K_cert_url ks (KP_certPath p)\<rparr>"

subsection \<open>Start-up\<close>

record 'k Platform =
  P_Getenv :: "string \<Rightarrow> string"
  P_open_sqlite :: "string \<Rightarrow> mstate res"
  P_keys :: "'k Keys"
  P_service :: Service
  P_transport :: transport
  P_NewRequest :: "string \<Rightarrow> unit res"
  P_sqs_Do :: "nat \<Rightarrow> nat \<Rightarrow> string \<Rightarrow> string \<Rightarrow> (int \<times> string res) res"
  P_Quote :: "string \<Rightarrow> string"
  P_range :: "nat \<Rightarrow> nat \<Rightarrow> string list \<Rightarrow> string list"

definition env :: "'k Platform \<Rightarrow> string \<Rightarrow> string \<Rightarrow> string" where
  "env p name fallback = (let v = TrimSpace (P_Getenv p name) in if v \<noteq> [] then v else fallback)"

definition openStore :: "'k Platform \<Rightarrow> string \<Rightarrow> string \<Rightarrow> mstate res" where
  "openStore p kind sqlitePath =
     (let k = mime_lower (TrimSpace kind) in
      if k = [] \<or> k = ''memory'' then Inr NewStore
      else if k = ''sqlite'' then P_open_sqlite p sqlitePath
      else Inl (Plain (''unsupported SNS_STORE '' @ P_Quote p kind)))"

text \<open>A nil \<^verbatim>\<open>*HTTPClient\<close> is not a nil \<^verbatim>\<open>sqs.Client\<close>: its methods run until they
  dereference the pointer, which \<^verbatim>\<open>ResolveQueue\<close> does after parsing the ARN and the others by calling it.\<close>

definition nil_resolve :: "string \<Rightarrow> 'a res" where
  "nil_resolve queueARN = (case ParseARN queueARN of Inl e \<Rightarrow> Inl e | Inr _ \<Rightarrow> Inl nil_panic)"

definition nil_sqs_client :: SqsClient where
  "nil_sqs_client =
     \<lparr>ResolveQueue = (\<lambda>n arn. nil_resolve arn), SendMessage = (\<lambda>n req. nil_resolve (SR_QueueARN req)),
      QueueAllowsTopic = (\<lambda>n queueARN topicARN owner. nil_resolve queueARN)\<rparr>"

definition configured_sqs :: "'k Platform \<Rightarrow> SqsClient" where
  "configured_sqs p =
     (let endpoint = TrimSpace (P_Getenv p ''SQS_ENDPOINT'') in
      if endpoint \<noteq> [] then http_sqs_client (NewHTTPClient endpoint (P_NewRequest p) (P_sqs_Do p)) else nil_sqs_client)"

text \<open>\<^verbatim>\<open>strconv.Atoi\<close> with its error dropped: zero for a text that is no number, the nearest end of the range for one
  that is too long.\<close>

definition Atoi_clamped :: "string \<Rightarrow> int" where
  "Atoi_clamped s =
     (case Atoi s of
        Some n \<Rightarrow> n
      | None \<Rightarrow>
          (let (neg, ds) =
             (case s of [] \<Rightarrow> (False, [])
              | c # cs \<Rightarrow> if c = CHR ''-'' then (True, cs) else if c = CHR ''+'' then (False, cs) else (False, s))
           in if ds = [] \<or> digits_value 10 0 ds = None then 0 else if neg then - (2 ^ 63) else 2 ^ 63 - 1))"

definition configured_service :: "'k Platform \<Rightarrow> Provider \<Rightarrow> Service" where
  "configured_service p provider =
     (let addr = env p ''SNS_ADDR'' '':4100''; base = env p ''SNS_BASE_URL'' [] in
      (P_service p)
        \<lparr>cfg := \<lparr>Region = env p ''AWS_REGION'' ''us-east-1'', AccountID = env p ''AWS_ACCOUNT_ID'' ''123456789012'',
                 BaseURL = (if base = [] then ''http://127.0.0.1'' @ addr else base),
                 PageSize = Atoi_clamped (env p ''SNS_PAGE_SIZE'' ''100''), DeliveryPollInterval = 0\<rparr>,
         signer := provider, httpAdapter := Some (P_transport p), sqsClient := Some (configured_sqs p)\<rparr>)"

text \<open>\<^verbatim>\<open>main\<close> up to the point where the server listens: the server and the store, or the error it dies with.\<close>

definition main :: "'k Platform \<Rightarrow> (Server \<times> mstate) res" where
  "main p =
     (case openStore p (env p ''SNS_STORE'' ''memory'') (env p ''SNS_SQLITE_PATH'' ''/data/sns.sqlite'') of
        Inl e \<Rightarrow> Inl e
      | Inr store \<Rightarrow>
          (case LoadSigningMaterial store of
             Inl e \<Rightarrow> Inl e
           | Inr material \<Rightarrow>
               (case NewProviderFromMaterial (P_keys p) ''/__sns/certs/current.pem'' material of
                  Inl e \<Rightarrow> Inl e
                | Inr provider \<Rightarrow>
                    let store = (if Sig_CertPEM material = [] then SaveSigningMaterial (Material (P_keys p) provider) store else store)
                    in case ParseStaticCredentials (P_Quote p) (env p ''SNS_CREDENTIALS'' []) of
                         Inl e \<Rightarrow> Inl e
                       | Inr creds \<Rightarrow>
                           Inr (\<lparr>Srv_service = configured_service p (provider_of (P_keys p) provider),
                                 Srv_verifier =
                                   NewVerifier (env p ''AWS_ACCOUNT_ID'' ''123456789012'') (env p ''AWS_REGION'' ''us-east-1'')
                                     (env p ''SNS_AUTH_MODE'' ModeStrict) creds 0 (P_Quote p),
                                 Srv_CertPEM = KP_certPEM provider, Srv_range = P_range p\<rparr>, store))))"

subsection \<open>What a started emulator has\<close>

text \<open>The material that one run stores gives the next run the same key and certificate.  That marshalling a key and
  parsing it again yields the key is what \<^verbatim>\<open>crypto/x509\<close> and \<^verbatim>\<open>encoding/pem\<close> promise.\<close>

theorem signing_identity_survives_restart:
  assumes "K_parse ks (K_marshal ks (KP_key q)) = Inr (KP_key q)" "K_marshal ks (KP_key q) \<noteq> []" "KP_certPEM q \<noteq> []"
    "KP_createdAt q \<noteq> Sig_CreatedAt emptySigningMaterial" "LoadSigningMaterial (SaveSigningMaterial (Material ks q) s) = Inr material"
  shows "NewProviderFromMaterial ks (KP_certPath q) material = Inr q"
  using assms
  by (auto simp: NewProviderFromMaterial_def Material_def LoadSigningMaterial_def SaveSigningMaterial_def copySigningMaterial_def)

lemma started_reachable:
  assumes "main p = Inr (srv, s)" "mime_lower (TrimSpace (env p ''SNS_STORE'' ''memory'')) \<noteq> ''sqlite''"
  shows "reachable (Srv_service srv) s" "Srv_range srv = P_range p"
proof -
  let ?o = "openStore p (env p ''SNS_STORE'' ''memory'') (env p ''SNS_SQLITE_PATH'' ''/data/sns.sqlite'')"
  have store: "?o = Inr NewStore"
    using assms by (cases ?o) (auto simp: main_def openStore_def Let_def split: if_splits)
  have load: "LoadSigningMaterial NewStore = Inr emptySigningMaterial"
    by (simp add: LoadSigningMaterial_def NewStore_def copySigningMaterial_def emptySigningMaterial_def)
  have material: "Sig_CertPEM emptySigningMaterial = []" by (simp add: emptySigningMaterial_def)
  obtain q where q: "NewProviderFromMaterial (P_keys p) ''/__sns/certs/current.pem'' emptySigningMaterial = Inr q"
    using assms(1) unfolding main_def store by (auto simp: load split: sum.splits)
  have "s = SaveSigningMaterial (Material (P_keys p) q) NewStore" "Srv_range srv = P_range p"
    using assms(1) unfolding main_def store by (auto simp: load q Let_def material split: sum.splits)
  then show "reachable (Srv_service srv) s" "Srv_range srv = P_range p" by (auto intro: reachable.intros)
qed

text \<open>A run of the emulator: HTTP requests one after the other, with polls of the worker in between.\<close>

datatype event = Request ServerRequest "string res" | Poll int

fun event_run :: "Server \<Rightarrow> event \<Rightarrow> mstate \<times> world \<Rightarrow> mstate \<times> world" where
  "event_run srv (Request r body) c = snd (Routes srv r body (fst c) (snd c))"
| "event_run srv (Poll limit) c = snd (processReadyDeliveryJobs (Srv_service srv) limit (fst c) (snd c))"

lemma run_reachable:
  assumes "\<And>k n. fair (Srv_range srv k n)" "reachable (Srv_service srv) (fst c)"
  shows "reachable (Srv_service srv) (fst (fold (event_run srv) events c))"
  using assms(2)
proof (induction events arbitrary: c)
  case (Cons e events)
  have "reachable (Srv_service srv) (fst (event_run srv e c))"
  proof (cases e)
    case (Request r body)
    then show ?thesis using routes_reachable [OF assms(1) Cons.prems] by (metis event_run.simps(1) prod.collapse)
  next
    case (Poll limit)
    have "perform (Srv_service srv) who (PollReq limit) (fst c) (snd c) =
        (fst (processReadyDeliveryJobs (Srv_service srv) limit (fst c) (snd c)),
         fst (event_run srv e c), snd (event_run srv e c))" for who by (simp add: Poll)
    then show ?thesis using reachable.step [OF Cons.prems] by (metis request_ok.simps(19))
  qed
  then show ?case using Cons.IH by simp
qed simp

text \<open>Without \<^verbatim>\<open>SQS_ENDPOINT\<close> the service has a client that it cannot tell from a working one: a subscription of a
  queue ends in a nil pointer dereference, not in the error for a missing configuration.\<close>

theorem unset_sqs_endpoint_panics:
  assumes "main p = Inr (srv, s0)" "TrimSpace (P_Getenv p ''SQS_ENDPOINT'') = []" "ParseARN (Sub_Endpoint sub) = Inr arn"
  shows "fst (validateSQSSubscription (Srv_service srv) topic sub s w) = Inl nil_panic"
proof -
  have "sqsClient (Srv_service srv) = Some nil_sqs_client"
    using assms(1,2) unfolding main_def
    by (auto simp: Let_def configured_service_def configured_sqs_def split: sum.splits)
  then show ?thesis
    by (simp add: validateSQSSubscription_def nil_sqs_client_def nil_resolve_def assms(3) bindM_def mapErr_def tryM_def
        sqsCall_def attemptM_def nil_panic_def)
qed

subsection \<open>Examples\<close>

definition sample_platform :: "unit Platform" where
  "sample_platform =
     \<lparr>P_Getenv = (\<lambda>name. if name = ''SNS_STORE'' then ''Memory'' else []), P_open_sqlite = (\<lambda>_. Inl (Plain ''no file'')),
      P_keys = \<lparr>K_generate = Inr ((), ''cert'', 7), K_parse = (\<lambda>_. Inr ()), K_marshal = (\<lambda>_. ''key''), K_now = 9,
                K_sign = (\<lambda>_ _ d. Inr d), K_cert_url = (\<lambda>path url. url @ path)\<rparr>,
      P_service = sample_service None None, P_transport = \<lparr>NewRequest = (\<lambda>_. Inr ()), Do = (\<lambda>_ _. Inl (Plain ''refused''))\<rparr>,
      P_NewRequest = (\<lambda>_. Inr ()), P_sqs_Do = (\<lambda>_ _ _ _. Inl (Plain ''refused'')), P_Quote = (\<lambda>s. s), P_range = (\<lambda>_ _. rev)\<rparr>"

lemma sample_started:
  "\<exists>srv. main sample_platform = Inr (srv, SaveSigningMaterial \<lparr>Sig_PrivateKeyPEM = ''key'', Sig_CertPEM = ''cert'', Sig_CreatedAt = 7\<rparr> NewStore)"
proof -
  have e: "env sample_platform ''SNS_STORE'' ''memory'' = ''Memory''" "mime_lower (TrimSpace ''Memory'') = ''memory''"
    "ParseStaticCredentials (\<lambda>s. s) [] = Inr [\<lparr>AccessKeyID = ''test'', SecretAccessKey = ''test'', SessionToken = ''test''\<rparr>]"
    "env sample_platform ''SNS_CREDENTIALS'' [] = []"
    by code_simp+
  have k: "K_generate (P_keys sample_platform) = Inr ((), ''cert'', 7)" "K_marshal (P_keys sample_platform) = (\<lambda>_. ''key'')"
    "P_Quote sample_platform = (\<lambda>s. s)"
    by (simp_all add: sample_platform_def)
  show ?thesis
    by (simp add: main_def e k openStore_def LoadSigningMaterial_def NewProviderFromMaterial_def generateProvider_def
        NewStore_def copySigningMaterial_def emptySigningMaterial_def Material_def)
qed

end
