(* ===== verification/Lifecycle.thy ===== *)
theory Lifecycle
  imports Emulator "HOL-Library.Multiset"
begin

text \<open>
  What clients see of the service over several requests: topics are created once, confirmation tokens work
  once, an HTTP subscription that was removed can be restored, and a batch answers each of its entries once.
\<close>

subsection \<open>Creating a topic again\<close>

lemma created_topic_stored:
  assumes inv: "svc_inv svc s" and attrs: "distinct (map fst attrs)"
    and run: "CreateTopic svc who name attrs tags s w = (Inr (topic, existed), s1, w1)"
  obtains t where "topic = Some t" "findTopicByName s1 name = Inr (Some t)"
proof (cases "findTopicByName s name")
  case (Inr found)
  then have "topic = found" "s1 = s"
    using run by (auto simp: CreateTopic_def Let_def bindM_def tryM_def readM_def resM_def returnM_def split: sum.splits prod.splits)
  moreover obtain arn where arn: "fmlookup (topicsByName s) name = Some arn" "found = fmlookup (topics s) arn"
    using Inr by (auto simp: findTopicByName_def split: option.splits)
  moreover have "named (mem_abs s) name arn"
    using arn(1) inv mem_inv_name [of s name arn] by (simp add: svc_inv_def wf_store_def)
  ultimately show thesis using Inr that by (auto simp: named_iff)
next
  case (Inl e)
  then have nf: "findTopicByName s name = Inl ErrNotFound" and none: "fmlookup (topicsByName s) name = None"
    by (auto simp: findTopicByName_def split: option.splits)
  from run obtain t w2 w3 where t: "applyTopicAttributes svc
      (new_topic svc name (EqualFold (attribute_lookup attrs ''FifoTopic'') ''true'') tags (Clock_Now svc (W_ticks w))) attrs True w2 = (Inr t, w3)"
    "topic = Some t" "Store_CreateTopic t s w3 = (Inr (), s1, w1)"
    by (auto simp: CreateTopic_def Let_def bindM_Inr resM_def tryM_def readM_def nf worldM_def now_def guardM_def returnM_def
        throwM_def attemptM_def split: if_splits prod.splits)
  then have "Topic_Name t = name"
    by (auto simp: applyTopicAttributes_def new_topic_def now_def split: sum.splits)
  then have "findTopicByName s1 name = Inr (Some t)"
    using t(3) none by (auto simp: Store_CreateTopic_def Tx_def cloneState_def tx_CreateTopic_def findTopicByName_def)
  then show thesis using t(2) that by blast
qed

text \<open>C32: Creating a topic is idempotent: after a creation of a name has succeeded, in any reachable state, creating the same name
  again returns the topic that is stored and says it existed, whoever asks and whatever attributes and tags
  the second request gives, as long as its name and FIFO attribute agree; the store and the world stay as they are.\<close>

theorem create_topic_idempotent:
  assumes "reachable svc s" "distinct (map fst attrs)"
    "CreateTopic svc who name attrs tags s w = (Inr (topic, existed), s1, w1)"
    "ValidateTopicName name (EqualFold (attribute_lookup attrs' ''FifoTopic'') ''true'') = Inr ()"
  shows "topic \<noteq> None \<and> CreateTopic svc who' name attrs' tags' s1 w2 = (Inr (topic, True), s1, w2)"
proof -
  obtain t where t: "topic = Some t" "findTopicByName s1 name = Inr (Some t)"
    by (rule created_topic_stored [OF reachable_inv [OF assms(1)] assms(2,3)])
  with assms(4) show ?thesis
    by (simp add: CreateTopic_def Let_def wrap_invalid_def bindM_def tryM_def readM_def resM_def returnM_def)
qed


subsection \<open>Confirmation tokens\<close>

lemma delete_token_run:
  "Store_DeleteConfirmationToken c s w = (Inr (), s\<lparr>confirmation := fmdrop c (confirmation s)\<rparr>, w)"
  by (simp add: Store_DeleteConfirmationToken_def Tx_def cloneState_def tx_DeleteConfirmationToken_def)

lemma confirm_run:
  assumes "fmlookup (subscriptions s) arn = Some u"
  shows "mapErr g (Store_UpdateSubscription arn (plainUpdate (confirm auth))) s w =
    (Inr (confirm auth u, ()), s\<lparr>subscriptions := fmupd arn (confirm auth u) (subscriptions s)\<rparr>, w)"
  using assms
  by (simp add: mapErr_def tryM_def Store_UpdateSubscription_def Tx_def cloneState_def tx_UpdateSubscription_def plainUpdate_def returnM_def)

lemma create_sub_run: "Store_CreateSubscription u s w = (Inr (), snd (tx_CreateSubscription u s), w)"
  by (simp add: Store_CreateSubscription_def Tx_def cloneState_def tx_CreateSubscription_def)

definition confirmed_by :: "ConfirmationToken \<Rightarrow> bool \<Rightarrow> Subscription \<Rightarrow> Subscription" where
  "confirmed_by tok auth u =
     (if Tok_Kind tok = ''subscribe'' then confirm auth u
      else u\<lparr>Sub_PendingConfirmation := False, Sub_Confirmed := True,
             Sub_AuthenticateOnUnsubscribe := Tok_AuthenticateOnUnsubscribe tok\<rparr>)"

lemma confirmation_run:
  assumes "svc_inv svc s" "fmlookup (confirmation s) token = Some tok" "Clock_Now svc (W_ticks w) \<le> Tok_ExpiresAt tok"
  obtains s' w' u where "ConfirmSubscription svc who (Tok_TopicARN tok) token auth s w = (Inr (Tok_SubscriptionARN tok), s', w')"
    "fmlookup (subscriptions s') (Tok_SubscriptionARN tok) = Some (confirmed_by tok auth u)"
    "fmlookup (confirmation s') token = None"
    "Tok_Kind tok = ''subscribe'' \<longrightarrow> fmlookup (subscriptions s) (Tok_SubscriptionARN tok) = Some u"
    "Tok_Kind tok = ''unsubscribe'' \<longrightarrow> Tok_Restore tok = Some u"
proof -
  let ?w = "w\<lparr>W_ticks := Suc (W_ticks w)\<rparr>"
  have read: "mapErr g (readM (\<lambda>s. getConfirmationToken s token)) s w = (Inr tok, s, w)" for g
    using assms(2) by (simp add: mapErr_def tryM_def readM_def getConfirmationToken_def returnM_def)
  have clock: "worldM (now svc) s w = (Inr (Clock_Now svc (W_ticks w)), s, ?w)" by (simp add: worldM_def now_def)
  note start = ConfirmSubscription_def bindM_def [of "mapErr _ (readM _)"] bindM_def [of "worldM _"] read clock guardM_def
  consider "Tok_Kind tok = ''subscribe''" | "Tok_Kind tok = ''unsubscribe''"
    using svc_invD(4) [OF assms(1,2)] by (auto simp: token_ok_def)
  then show thesis
  proof cases
    case 1
    obtain u where u: "fmlookup (subscriptions s) (Tok_SubscriptionARN tok) = Some u"
      using token_subject(1) [OF assms(1,2) 1] by blast
    moreover have "Sub_ARN (confirm auth u) = Tok_SubscriptionARN tok" using svc_invD(3) [OF assms(1) u] by (simp add: confirm_def)
    ultimately show thesis using assms(3) 1
      by (intro that [of _ _ u]) (simp_all add: start, simp_all add: bindM_def confirm_run delete_token_run returnM_def confirmed_by_def, simp_all)
  next
    case 2
    obtain u where u: "Tok_Restore tok = Some u" "Sub_ARN u = Tok_SubscriptionARN tok"
      using token_subject(2) [OF assms(1,2) 2] by blast
    then show thesis using assms(3) 2
      by (intro that [of _ _ u])
        (simp_all add: start Let_def, simp_all add: bindM_def create_sub_run delete_token_run returnM_def confirmed_by_def tx_CreateSubscription_def,
         simp_all)
  qed
qed

text \<open>C30: In every reachable state each stored confirmation token works, and works once.  Until it expires, anyone who
  presents it with its topic gets the ARN of its subscription back, and the subscription is then stored, confirmed and
  no longer pending; the token is gone, and presenting it again, with whatever topic, is answered
  with not found and changes nothing.\<close>

theorem token_works_once:
  assumes "reachable svc s" "fmlookup (confirmation s) token = Some tok" "Clock_Now svc (W_ticks w) \<le> Tok_ExpiresAt tok"
  shows "\<exists>s' w' u. ConfirmSubscription svc who (Tok_TopicARN tok) token auth s w = (Inr (Tok_SubscriptionARN tok), s', w') \<and>
    fmlookup (subscriptions s') (Tok_SubscriptionARN tok) = Some u \<and> Sub_Confirmed u \<and> \<not> Sub_PendingConfirmation u \<and>
    ConfirmSubscription svc who' arn' token auth' s' w2 = (Inl (NewNotFound ''Token does not exist''), s', w2)"
proof -
  obtain s' w' u where run: "ConfirmSubscription svc who (Tok_TopicARN tok) token auth s w = (Inr (Tok_SubscriptionARN tok), s', w')"
    "fmlookup (subscriptions s') (Tok_SubscriptionARN tok) = Some (confirmed_by tok auth u)" "fmlookup (confirmation s') token = None"
    using confirmation_run [OF reachable_inv [OF assms(1)] assms(2,3)] by metis
  have "Sub_Confirmed (confirmed_by tok auth u) \<and> \<not> Sub_PendingConfirmation (confirmed_by tok auth u)"
    by (simp add: confirmed_by_def confirm_def)
  moreover have "ConfirmSubscription svc who' arn' token auth' s' w2 = (Inl (NewNotFound ''Token does not exist''), s', w2)"
    using run(3) by (simp add: ConfirmSubscription_def bindM_def mapErr_def tryM_def readM_def getConfirmationToken_def throwM_def)
  ultimately show ?thesis using run by blast
qed

subsection \<open>Removing and restoring an HTTP subscription\<close>

definition effective_ok :: "Topic \<Rightarrow> Subscription \<Rightarrow> bool" where
  "effective_ok topic sub \<longleftrightarrow>
     \<not> is_err (EffectivePolicy (TA_DeliveryPolicy (Topic_Attributes topic)) (SA_DeliveryPolicy (Sub_Attributes sub)))"

lemma confirmation_attempt_run:
  assumes "effective_ok topic sub"
  obtains attempt j where "attemptM (buildConfirmationAttempt svc topic sub token ty) s w =
    (Inr (attempt, j), s, w\<lparr>W_draws := Suc (W_draws w), W_ticks := Suc (W_ticks w)\<rparr>)"
  using assms that unfolding effective_ok_def
  by (cases "EffectivePolicy (TA_DeliveryPolicy (Topic_Attributes topic)) (SA_DeliveryPolicy (Sub_Attributes sub))")
    (auto simp: attemptM_def buildConfirmationAttempt_def newUUID_def now_def)

lemma prepare_job_run:
  obtains job where "worldM (prepareDeliveryJob svc kind attempt j raw rp) s w =
    (Inr job, s, w\<lparr>W_draws := Suc (W_draws w), W_ticks := Suc (W_ticks w)\<rparr>)"
  using that by (simp add: worldM_def prepareDeliveryJob_def Let_def now_def newUUID_def)

lemma retire_run:
  assumes "fmlookup (subscriptions s) arn = Some sub" "Sub_ARN sub = arn" "Tok_Token token = k"
  obtains s' where "Tx (bindM (mapErr g (stateM (tx_DeleteSubscription arn))) (\<lambda>_.
      bindM (stateM (\<lambda>s. (Inr (), tx_PutConfirmationToken token s))) (\<lambda>_. enqueueM job))) s w = (Inr (), s', w)"
    "fmlookup (subscriptions s') arn = None" "fmlookup (confirmation s') k = Some token"
  using assms that
  by (simp add: Tx_def cloneState_def bindM_def mapErr_def tryM_def stateM_def tx_DeleteSubscription_def returnM_def
      tx_PutConfirmationToken_def enqueueM_def tx_EnqueueDeliveryJob_def)

lemma http_protocol: "p = ProtocolHTTP \<or> p = ProtocolHTTPS \<Longrightarrow> p \<noteq> ProtocolSQS"
  by (auto simp: go_eval)

lemma unsubscribe_run:
  assumes inv: "svc_inv svc s" and u: "fmlookup (subscriptions s) arn = Some u"
    and topic: "fmlookup (topics s) (Sub_TopicARN u) = Some topic"
    and http: "Sub_Protocol u = ProtocolHTTP \<or> Sub_Protocol u = ProtocolHTTPS"
    and auth: "Sub_AuthenticateOnUnsubscribe u \<longrightarrow> Id_AccountID who = AccountID (cfg svc)" and eff: "effective_ok topic u"
  obtains s1 w1 token where "Unsubscribe svc who arn s w = (Inr (), s1, w1)" "fmlookup (subscriptions s1) arn = None"
    "fmlookup (confirmation s1) token = Some (confirmation_token u token (Clock_Now svc (W_ticks w) + 48 * Hour)
       (Sub_AuthenticateOnUnsubscribe u) ''unsubscribe'' (Some u))"
proof -
  have arn: "Sub_ARN u = arn" using svc_invD(3) [OF inv u] by simp
  define hex where "hex = fst (newRandomHex svc 160 w)"
  define w0 where "w0 = w\<lparr>W_draws := Suc (W_draws w)\<rparr>"
  have r: "worldM (newRandomHex svc 160) s w = (Inr hex, s, w0)"
    by (simp add: worldM_def newRandomHex_def hex_def w0_def)
  define w1 where "w1 = w0\<lparr>W_ticks := Suc (W_ticks w)\<rparr>"
  have n: "worldM (now svc) s w0 = (Inr (Clock_Now svc (W_ticks w)), s, w1)" by (simp add: worldM_def now_def w0_def w1_def)
  let ?token = "confirmation_token u hex (Clock_Now svc (W_ticks w) + 48 * Hour) (Sub_AuthenticateOnUnsubscribe u) ''unsubscribe'' (Some u)"
  obtain attempt j where a: "attemptM (buildConfirmationAttempt svc topic u ?token ''UnsubscribeConfirmation'') s w1 =
      (Inr (attempt, j), s, w1\<lparr>W_draws := Suc (W_draws w1), W_ticks := Suc (W_ticks w1)\<rparr>)"
    by (rule confirmation_attempt_run [OF eff])
  let ?w2 = "w1\<lparr>W_draws := Suc (W_draws w1), W_ticks := Suc (W_ticks w1)\<rparr>"
  obtain job where p: "worldM (prepareDeliveryJob svc ''unsubscribe_confirmation'' attempt j False []) s ?w2 =
      (Inr job, s, ?w2\<lparr>W_draws := Suc (W_draws ?w2), W_ticks := Suc (W_ticks ?w2)\<rparr>)" by (rule prepare_job_run)
  let ?w3 = "?w2\<lparr>W_draws := Suc (W_draws ?w2), W_ticks := Suc (W_ticks ?w2)\<rparr>"
  have tk: "Tok_Token ?token = hex" by (simp add: confirmation_token_def)
  obtain s' where t: "Tx (bindM (mapErr (\<lambda>_. NewNotFound ''Subscription does not exist'') (stateM (tx_DeleteSubscription arn))) (\<lambda>_.
      bindM (stateM (\<lambda>s. (Inr (), tx_PutConfirmationToken ?token s))) (\<lambda>_. enqueueM job))) s ?w3 = (Inr (), s', ?w3)"
    "fmlookup (subscriptions s') arn = None" "fmlookup (confirmation s') hex = Some ?token"
    by (rule retire_run [OF u arn tk])
  have sm: "subscriptionM arn s w = (Inr u, s, w)" and tm: "topicM (Sub_TopicARN u) s w = (Inr topic, s, w)"
    using u topic by (simp_all add: subscriptionM_def topicM_def mapErr_def tryM_def readM_def getSubscription_def getTopic_def returnM_def)
  have g: "guardM (\<not> (Sub_AuthenticateOnUnsubscribe u \<and> Id_AccountID who \<noteq> AccountID (cfg svc))) e = returnM ()" for e
    using auth by (simp add: guardM_def)
  have "Unsubscribe svc who arn s w = (Inr (), s', ?w3)"
    unfolding Unsubscribe_def
    by (subst bind_run, rule sm, simp only: g bind_return, subst bind_run, rule tm, simp only: http if_True, subst bind_run, rule r,
        subst bind_run, rule n, unfold Let_def, subst bind_run, rule a, unfold prod.case, subst bind_run, rule p, rule t(1))
  then show thesis using t(2,3) that by blast
qed

text \<open>C31: Unsubscribing an HTTP endpoint can be undone.  A request that may remove a subscription of a reachable state
  removes it and files a token; whoever presents that token with the topic within 48 hours gets the very same
  subscription back, attributes and all, confirmed.\<close>

theorem unsubscribe_restores:
  assumes "reachable svc s" "fmlookup (subscriptions s) arn = Some u" "fmlookup (topics s) (Sub_TopicARN u) = Some topic"
    "Sub_Protocol u = ProtocolHTTP \<or> Sub_Protocol u = ProtocolHTTPS"
    "Sub_AuthenticateOnUnsubscribe u \<longrightarrow> Id_AccountID who = AccountID (cfg svc)" "effective_ok topic u"
    "Clock_Now svc (W_ticks w2) \<le> Clock_Now svc (W_ticks w) + 48 * Hour"
  shows "\<exists>s1 w1 token s2 w3. Unsubscribe svc who arn s w = (Inr (), s1, w1) \<and> fmlookup (subscriptions s1) arn = None \<and>
    ConfirmSubscription svc who' (Sub_TopicARN u) token auth s1 w2 = (Inr arn, s2, w3) \<and>
    fmlookup (subscriptions s2) arn = Some (u\<lparr>Sub_PendingConfirmation := False, Sub_Confirmed := True\<rparr>)"
proof -
  note inv = reachable_inv [OF assms(1)]
  obtain s1 w1 token where run: "Unsubscribe svc who arn s w = (Inr (), s1, w1)" "fmlookup (subscriptions s1) arn = None"
    "fmlookup (confirmation s1) token = Some (confirmation_token u token (Clock_Now svc (W_ticks w) + 48 * Hour)
       (Sub_AuthenticateOnUnsubscribe u) ''unsubscribe'' (Some u))" (is "_ = Some ?tok")
    by (rule unsubscribe_run [OF inv assms(2-6)])
  have inv1: "svc_inv svc s1" by (rule triple_keeps [OF Unsubscribe_inv inv run(1)])
  have tok: "Tok_Kind ?tok = ''unsubscribe''" "Tok_Restore ?tok = Some u" "Tok_TopicARN ?tok = Sub_TopicARN u"
    "Tok_SubscriptionARN ?tok = arn" "Tok_AuthenticateOnUnsubscribe ?tok = Sub_AuthenticateOnUnsubscribe u"
    "Tok_ExpiresAt ?tok = Clock_Now svc (W_ticks w) + 48 * Hour"
    using svc_invD(3) [OF inv assms(2)] by (simp_all add: confirmation_token_def)
  have live: "Clock_Now svc (W_ticks w2) \<le> Tok_ExpiresAt ?tok" using assms(7) tok(6) by simp
  obtain s2 w3 u' where c: "ConfirmSubscription svc who' (Tok_TopicARN ?tok) token auth s1 w2 = (Inr (Tok_SubscriptionARN ?tok), s2, w3)"
    "fmlookup (subscriptions s2) (Tok_SubscriptionARN ?tok) = Some (confirmed_by ?tok auth u')" "u' = u"
    using confirmation_run [OF inv1 run(3) live, of who' auth] tok(1,2) by (metis option.inject)
  have "confirmed_by ?tok auth u = u\<lparr>Sub_PendingConfirmation := False, Sub_Confirmed := True\<rparr>"
    by (simp add: confirmed_by_def tok)
  with run c tok show ?thesis by metis
qed



subsection \<open>Batches\<close>

lemma batch_ids_distinct_iff:
  "batch_ids_distinct seen entries \<longleftrightarrow> distinct (map BE_ID entries) \<and> set seen \<inter> BE_ID ` set entries = {}"
  by (induction entries arbitrary: seen) auto

lemma tryM_Inr:
  "tryM m k s w = (Inr b, s', w') \<Longrightarrow> \<exists>r s1 w1. m s w = (r, s1, w1) \<and> k r s1 w1 = (Inr b, s', w')"
  by (auto simp: tryM_def split: prod.splits sum.splits go_error.splits)

lemma batch_loop_answers:
  "batch_loop svc who arn entries s w = (Inr (success, failed), s', w') \<Longrightarrow>
   mset (map BR_ID success) + mset (map BF_ID failed) = mset (map BE_ID entries)"
proof (induction entries arbitrary: s w success failed)
  case (Cons entry entries)
  have id: "BF_ID (batch_failure i e) = i" for i e by (simp add: batch_failure_def split: go_error.split)
  from Cons.prems obtain r s1 w1 success1 failed1 where
    "batch_loop svc who arn entries s1 w1 = (Inr (success1, failed1), s', w')"
    and r: "(case (r :: PublishOutput res) of Inl e \<Rightarrow> (success1, batch_failure (BE_ID entry) e # failed1)
      | Inr out \<Rightarrow> (\<lparr>BR_ID = BE_ID entry, BR_MessageID = PO_MessageID out, BR_SequenceNumber = PO_SequenceNumber out\<rparr> # success1, failed1)) =
      (success, failed)"
    by (auto simp: bindM_Inr returnM_def dest!: tryM_Inr)
  from Cons.IH [OF this(1)] r show ?case by (cases r) (auto simp: id)
qed (simp add: returnM_def)

lemma batch_loop_total:
  "batch_loop svc who arn entries s w = (Inl e, s', w') \<Longrightarrow> \<exists>p. e = Panic p"
  by (induction entries arbitrary: s w)
    (auto simp: tryM_def bindM_def returnM_def split: prod.splits sum.splits go_error.splits)

text \<open>C33: A batch is refused as a whole or answered entry by entry.  When it is answered it had between 1 and 10 entries
  with different identifiers and at most 256 KiB of messages, and every entry is reported exactly once, either
  as a success or as a failure.  When it is refused (without a panic), nothing at all has happened.\<close>

theorem batch_answers_each_entry:
  shows "(case PublishBatch svc who arn entries s w of
     (Inr (success, failed), s', w') \<Rightarrow>
       1 \<le> length entries \<and> length entries \<le> 10 \<and> totalBytes entries \<le> 262144 \<and>
       distinct (map BR_ID success @ map BF_ID failed) \<and>
       set (map BR_ID success @ map BF_ID failed) = set (map BE_ID entries) \<and>
       length success + length failed = length entries
   | (Inl e, s', w') \<Rightarrow> (\<exists>p. e = Panic p) \<or> s' = s \<and> w' = w)"
proof (cases "\<exists>topic. authorizedTopic who arn ''SNS:Publish'' s w = (Inr topic, s, w)")
  case False
  then obtain e where "authorizedTopic who arn ''SNS:Publish'' s w = (Inl e, s, w)"
    by (auto simp: authorizedTopic_def topicM_def bindM_def mapErr_def tryM_def readM_def resM_def returnM_def throwM_def getTopic_def
        split: option.splits sum.splits)
  then show ?thesis by (simp add: PublishBatch_def bindM_def)
next
  case True
  then obtain topic where a: "authorizedTopic who arn ''SNS:Publish'' s w = (Inr topic, s, w)" by blast
  show ?thesis
  proof (cases "length entries \<noteq> 0 \<and> \<not> length entries > 10 \<and> batch_ids_distinct [] entries \<and> \<not> totalBytes entries > 262144")
    case False
    then show ?thesis unfolding PublishBatch_def bindM_def [of "authorizedTopic _ _ _"] a
      by (auto simp: guardM_def throwM_def)
  next
    case True
    then have run: "PublishBatch svc who arn entries s w = batch_loop svc who arn entries s w"
      unfolding PublishBatch_def bindM_def [of "authorizedTopic _ _ _"] a by (simp add: guardM_def)
    obtain r s' w' where loop: "batch_loop svc who arn entries s w = (r, s', w')" by (metis surj_pair)
    show ?thesis
    proof (cases r)
      case (Inr p)
      obtain success failed where p: "p = (success, failed)" by fastforce
      have m: "mset (map BR_ID success @ map BF_ID failed) = mset (map BE_ID entries)"
        using batch_loop_answers [of svc who arn entries s w success failed s' w'] loop Inr p by simp
      have d: "distinct (map BE_ID entries)" using True batch_ids_distinct_iff by blast
      have "distinct (map BR_ID success @ map BF_ID failed)" using d mset_eq_imp_distinct_iff [OF m] by simp
      moreover have "set (map BR_ID success @ map BF_ID failed) = set (map BE_ID entries)" using mset_eq_setD [OF m] .
      moreover have "length success + length failed = length entries" using mset_eq_length [OF m] by simp
      ultimately show ?thesis using True unfolding run loop Inr p by (auto simp: Suc_le_eq)
    qed (use batch_loop_total loop run in fastforce)
  qed
qed



subsection \<open>Concrete instances\<close>

text \<open>A standard topic with one HTTP subscription, made by two requests.\<close>

definition sample_std :: Topic where
  "sample_std = (new_topic (sample_service None None) ''t'' False fmempty 0)\<lparr>Topic_UpdatedAt := 1000000000\<rparr>"

definition sample_std_store :: mstate where
  "sample_std_store = snd (mem_create_topic sample_std NewStore)"

lemma sample_std_run:
  "CreateTopic (sample_service None None) sample_owner ''t'' [] fmempty NewStore start_world =
     (Inr (Some sample_std, False), sample_std_store, start_world\<lparr>W_ticks := 2\<rparr>)"
proof -
  let ?svc = "sample_service None None"
  have 1: "\<not> EqualFold (attribute_lookup [] ''FifoTopic'') ''true''" by code_simp
  have 2: "wrap_invalid (ValidateTopicName ''t'' False) = Inr ()" by code_simp
  have 3: "attemptM (applyTopicAttributes ?svc (new_topic ?svc ''t'' False fmempty 0) [] True)
      NewStore (start_world\<lparr>W_ticks := Suc 0\<rparr>) = (Inr sample_std, NewStore, start_world\<lparr>W_ticks := 2\<rparr>)"
    by (simp add: attemptM_def applyTopicAttributes_def now_def sample_std_def new_topic_def) (simp add: sample_service_def start_world_def)
  have 4: "worldM (now ?svc) NewStore start_world = (Inr 0, NewStore, start_world\<lparr>W_ticks := Suc 0\<rparr>)"
    by (simp add: worldM_def now_def start_world_def sample_service_def)
  have 5: "Store_CreateTopic sample_std NewStore w = (Inr (), sample_std_store, w)" for w :: world
    by (simp add: Store_CreateTopic_def mem_create_topic_def tx_CreateTopic_def sample_std_store_def NewStore_def Tx_def cloneState_def)
  have 6: "Topic_Tags sample_std = fmempty" by (simp add: sample_std_def new_topic_def)
  have 7: "findTopicByName NewStore n = Inl ErrNotFound" for n by (simp add: findTopicByName_def NewStore_def)
  show ?thesis unfolding CreateTopic_def Let_def
    by (simp add: 1 2 bindM_def resM_def tryM_def readM_def 3 4 5 6 7 guardM_def returnM_def)
qed

lemma sample_std_reachable: "reachable (sample_service None None) sample_std_store"
proof (rule reachable.step [OF reachable.start])
  show "perform (sample_service None None) sample_owner (CreateTopicReq ''t'' [] fmempty)
      NewStore start_world = (Inr (), sample_std_store, start_world\<lparr>W_ticks := 2\<rparr>)"
    by (simp add: dropM_def bindM_def sample_std_run returnM_def)
qed simp

lemma sample_std_maps:
  "topics sample_std_store = fmupd (Topic_ARN sample_std) sample_std fmempty" "subsByTopic sample_std_store = fmempty"
  "subscriptions sample_std_store = fmempty"
  by (simp_all add: sample_std_store_def mem_create_topic_def tx_CreateTopic_def NewStore_def)

lemma sample_std_authorized: "authorizeTopic sample_owner sample_std ''SNS:Subscribe'' = Inr ()"
proof -
  have "valid_utf8 ''1''" "valid_utf8 (FormatARN ''sns'' ''us-east-1'' ''1'' ''t'')"
    by (rule valid_utf8_ascii, simp add: byte_value_def FormatARN_def)+
  then show ?thesis unfolding authorizeTopic_def sample_std_def new_topic_def DefaultTopicPolicy_def
    by (simp add: sample_service_def Evaluate_Marshal plain_default_document evaluate_loop_iff sample_owner_def)
qed

lemma no_policies: "\<not> is_err (EffectivePolicy [] [])"
  by code_simp

lemma register_run:
  assumes "p \<noteq> ProtocolSQS" "effective_ok topic sub"
  obtains s' w' token where "registerSubscription svc topic p t sub s w = (Inr (), s', w')"
    "fmlookup (subscriptions s') (Sub_ARN sub) = Some sub" "topics s' = topics s"
    "fmlookup (confirmation s') token = Some (confirmation_token sub token (t + 48 * Hour) False ''subscribe'' None)"
proof -
  define hex where "hex = fst (newRandomHex svc 160 w)"
  let ?token = "confirmation_token sub hex (t + 48 * Hour) False ''subscribe'' None"
  let ?w0 = "w\<lparr>W_draws := Suc (W_draws w)\<rparr>"
  have r: "worldM (newRandomHex svc 160) s w = (Inr hex, s, ?w0)" by (simp add: worldM_def newRandomHex_def hex_def)
  obtain attempt j w2 where a: "attemptM (buildConfirmationAttempt svc topic sub ?token ''SubscriptionConfirmation'') s ?w0 = (Inr (attempt, j), s, w2)"
    by (rule confirmation_attempt_run [OF assms(2)])
  obtain job w3 where p: "worldM (prepareDeliveryJob svc ''subscription_confirmation'' attempt j False []) s w2 = (Inr job, s, w3)"
    by (rule prepare_job_run)
  define s' where "s' = snd (tx_EnqueueDeliveryJob job (tx_PutConfirmationToken ?token (snd (tx_CreateSubscription sub s))))"
  have t: "Tx (bindM (stateM (tx_CreateSubscription sub)) (\<lambda>_. bindM (stateM (\<lambda>s. (Inr (), tx_PutConfirmationToken ?token s))) (\<lambda>_.
      enqueueM job))) s w3 = (Inr (), s', w3)"
    by (simp add: Tx_def cloneState_def bindM_def stateM_def tx_CreateSubscription_def enqueueM_def tx_EnqueueDeliveryJob_def s'_def)
  have "registerSubscription svc topic p t sub s w = (Inr (), s', w3)"
    unfolding registerSubscription_def if_P [OF assms(1)] Let_def
    by (subst bind_run, rule r, subst bind_run, rule a, unfold prod.case, subst bind_run, rule p, rule t)
  then show thesis
    by (rule that [of _ _ hex])
      (simp_all add: s'_def tx_EnqueueDeliveryJob_def tx_PutConfirmationToken_def tx_CreateSubscription_def confirmation_token_def)
qed

lemma sample_subscribed:
  obtains s1 w1 token u where "reachable (sample_service None None) s1"
    "fmlookup (topics s1) (Topic_ARN sample_std) = Some sample_std" "Sub_TopicARN u = Topic_ARN sample_std"
    "fmlookup (subscriptions s1) (Sub_ARN u) = Some u" "Sub_Protocol u = ProtocolHTTP" "SA_DeliveryPolicy (Sub_Attributes u) = []"
    "\<not> Sub_AuthenticateOnUnsubscribe u"
    "fmlookup (confirmation s1) token = Some (confirmation_token u token (2000000000 + 48 * Hour) False ''subscribe'' None)"
proof -
  let ?svc = "sample_service None None" and ?arn = "Topic_ARN sample_std" and ?s = sample_std_store
  define w where "w = start_world\<lparr>W_ticks := 2\<rparr>"
  let ?u = "(new_subscription ?svc ?arn ProtocolHTTP ''http://x'' 2000000000 (fst (newUUID ?svc (w\<lparr>W_ticks := 3\<rparr>))))"
  define u where "u = ?u\<lparr>Sub_Attributes := refreshEffectivePolicy sample_std (refreshEffectivePolicy sample_std (Sub_Attributes ?u))\<rparr>"
  have p: "ToLower ''http'' = ProtocolHTTP" "ProtocolHTTP \<noteq> ProtocolSQS" by code_simp+
  have top: "TA_DeliveryPolicy (Topic_Attributes sample_std) = []" "\<not> TA_FifoTopic (Topic_Attributes sample_std)"
    by (simp_all add: sample_std_def new_topic_def)
  have pol: "SA_DeliveryPolicy (refreshEffectivePolicy t a) = SA_DeliveryPolicy a" for t a
    by (simp add: refreshEffectivePolicy_def split: sum.split prod.split)
  have u: "Sub_TopicARN u = ?arn" "Sub_Protocol u = ProtocolHTTP" "SA_DeliveryPolicy (Sub_Attributes u) = []" "\<not> Sub_AuthenticateOnUnsubscribe u"
    by (simp_all add: u_def new_subscription_def pol)
  have eff: "effective_ok sample_std u" using no_policies by (simp add: effective_ok_def top u)
  obtain s1 w1 token where r: "registerSubscription ?svc sample_std ProtocolHTTP 2000000000 u ?s (w\<lparr>W_ticks := 3, W_draws := Suc 0\<rparr>) = (Inr (), s1, w1)"
    "fmlookup (subscriptions s1) (Sub_ARN u) = Some u" "topics s1 = topics ?s"
    "fmlookup (confirmation s1) token = Some (confirmation_token u token (2000000000 + 48 * Hour) False ''subscribe'' None)"
    by (rule register_run [OF p(2) eff])
  have "page_keys ([] :: string list) [] 10000 = Inr ([], [])" by code_simp
  then have none: "findExistingSubscription ?arn ProtocolHTTP ''http://x'' ?s w = (Inr None, ?s, w)"
    by (simp add: findExistingSubscription_def readM_def listSubscriptionsByTopic_def topicSubs_def sample_std_maps page_of_def
        sorted_list_of_fset.rep_eq)
  have auth: "authorizedTopic sample_owner ?arn ''SNS:Subscribe'' ?s w = (Inr sample_std, ?s, w)"
    by (simp add: authorizedTopic_def topicM_def bindM_def mapErr_def tryM_def readM_def getTopic_def returnM_def resM_def
        sample_std_maps sample_std_authorized)
  have n: "worldM (now ?svc) ?s w = (Inr 2000000000, ?s, w\<lparr>W_ticks := 3\<rparr>)"
    by (simp add: worldM_def now_def w_def sample_service_def)
  have d: "worldM (newUUID ?svc) ?s (w\<lparr>W_ticks := 3\<rparr>) = (Inr (fst (newUUID ?svc (w\<lparr>W_ticks := 3\<rparr>))), ?s, w\<lparr>W_ticks := 3, W_draws := Suc 0\<rparr>)"
    by (simp add: worldM_def newUUID_def w_def start_world_def)
  have adapter: "protocolAdapter ?svc ProtocolHTTP = None" by (simp add: protocolAdapter_def sample_service_def)
  have app: "applySubscriptionAttributes ?u sample_std [] =
      Inr (?u\<lparr>Sub_Attributes := refreshEffectivePolicy sample_std (Sub_Attributes ?u)\<rparr>)"
    by (simp add: applySubscriptionAttributes_def)
  have "createSubscription ?svc sample_std ?arn ProtocolHTTP ''http://x'' [] ?s w = (Inr u, s1, w1)"
    unfolding createSubscription_def
    by (subst bind_run, rule n, subst bind_run, rule d, simp add: app p(2) adapter bindM_def resM_def Let_def)
      (simp add: u_def [symmetric] r(1) returnM_def)
  then have "dropM (Subscribe ?svc sample_owner ?arn ''http'' ''http://x'' [] False) ?s w = (Inr (), s1, w1)"
    unfolding dropM_def Subscribe_def Let_def p(1)
    by (simp add: bindM_def auth guardM_def none top p(2) returnM_def)
  then have "reachable ?svc s1"
    by (intro reachable.step [OF sample_std_reachable, where req = "SubscribeReq ?arn ''http'' ''http://x'' [] False"]) auto
  moreover have "fmlookup (topics s1) ?arn = Some sample_std" by (simp add: r(3) sample_std_maps)
  ultimately show thesis using that r(2,4) u by blast
qed

theorem create_topic_idempotent_witness:
  "CreateTopic (sample_service None None) sample_owner ''t'' [(''DisplayName'', ''d'')] fmempty sample_std_store start_world =
     (Inr (Some sample_std, True), sample_std_store, start_world)"
proof -
  have "ValidateTopicName ''t'' (EqualFold (attribute_lookup [(''DisplayName'', ''d'')] ''FifoTopic'') ''true'') = Inr ()" by code_simp
  from create_topic_idempotent [OF reachable.start _ sample_std_run this] show ?thesis by simp
qed

theorem token_works_once_witness:
  "\<exists>s token arn s' w' u. reachable (sample_service None None) s \<and>
     ConfirmSubscription (sample_service None None) sample_owner (Topic_ARN sample_std) token False s start_world = (Inr arn, s', w') \<and>
     fmlookup (subscriptions s') arn = Some u \<and> Sub_Confirmed u \<and>
     ConfirmSubscription (sample_service None None) sample_owner (Topic_ARN sample_std) token False s' w' =
       (Inl (NewNotFound ''Token does not exist''), s', w')"
proof -
  obtain s1 w1 token u where s: "reachable (sample_service None None) s1" "Sub_TopicARN u = Topic_ARN sample_std"
    "fmlookup (confirmation s1) token = Some (confirmation_token u token (2000000000 + 48 * Hour) False ''subscribe'' None)"
    by (rule sample_subscribed)
  let ?tok = "confirmation_token u token (2000000000 + 48 * Hour) False ''subscribe'' None"
  have live: "Clock_Now (sample_service None None) (W_ticks start_world) \<le> Tok_ExpiresAt ?tok"
    by (simp add: confirmation_token_def sample_service_def start_world_def Hour_def)
  have topic: "Tok_TopicARN ?tok = Topic_ARN sample_std" by (simp add: confirmation_token_def s(2))
  obtain s' w' u' where "ConfirmSubscription (sample_service None None) sample_owner (Topic_ARN sample_std) token False s1 start_world =
      (Inr (Tok_SubscriptionARN ?tok), s', w')" "fmlookup (subscriptions s') (Tok_SubscriptionARN ?tok) = Some u'" "Sub_Confirmed u'"
    using token_works_once [OF s(1,3) live, unfolded topic, of sample_owner False] by blast
  with token_works_once [OF s(1,3) live, unfolded topic, of sample_owner False sample_owner "Topic_ARN sample_std" False w'] s(1)
  show ?thesis by (metis prod.inject)
qed

theorem unsubscribe_restores_witness:
  "\<exists>s arn u s1 w1 token s2 w2. fmlookup (subscriptions s) arn = Some u \<and>
     Unsubscribe (sample_service None None) sample_owner arn s start_world = (Inr (), s1, w1) \<and> fmlookup (subscriptions s1) arn = None \<and>
     ConfirmSubscription (sample_service None None) sample_owner (Topic_ARN sample_std) token False s1 start_world = (Inr arn, s2, w2) \<and>
     fmlookup (subscriptions s2) arn = Some (u\<lparr>Sub_PendingConfirmation := False, Sub_Confirmed := True\<rparr>)"
proof -
  obtain s1 u where s: "reachable (sample_service None None) s1" "fmlookup (topics s1) (Topic_ARN sample_std) = Some sample_std"
    "Sub_TopicARN u = Topic_ARN sample_std" "fmlookup (subscriptions s1) (Sub_ARN u) = Some u" "Sub_Protocol u = ProtocolHTTP"
    "SA_DeliveryPolicy (Sub_Attributes u) = []" "\<not> Sub_AuthenticateOnUnsubscribe u"
    by (rule sample_subscribed)
  have "TA_DeliveryPolicy (Topic_Attributes sample_std) = []" by (simp add: sample_std_def new_topic_def)
  then have "effective_ok sample_std u" using no_policies by (simp add: effective_ok_def s(6))
  then have "\<exists>sa wa token s2 w3. Unsubscribe (sample_service None None) sample_owner (Sub_ARN u) s1 start_world = (Inr (), sa, wa) \<and>
      fmlookup (subscriptions sa) (Sub_ARN u) = None \<and>
      ConfirmSubscription (sample_service None None) sample_owner (Sub_TopicARN u) token False sa start_world = (Inr (Sub_ARN u), s2, w3) \<and>
      fmlookup (subscriptions s2) (Sub_ARN u) = Some (u\<lparr>Sub_PendingConfirmation := False, Sub_Confirmed := True\<rparr>)"
    by (intro unsubscribe_restores [where topic = sample_std]) (simp_all add: s Hour_def)
  with s(3,4) show ?thesis by metis
qed

end
