(* ===== verification/Memory_Concurrency.thy ===== *)
theory Memory_Concurrency
  imports Memory_Store
begin

text \<open>
  Transactions of the memory store that overlap in time (\<^verbatim>\<open>Store.Tx\<close>).  The store's lock guards two
  moments of a transaction: the clone at its beginning and the installation of the clone at its end; the callback runs in
  between without the lock.  A schedule says whose turn it is.

  Whatever the schedule, the store is always a state that some transaction left behind, so what
  every transaction keeps is kept; transactions that do not overlap are \<open>Tx\<close> one after the other; of transactions
  that do overlap, the last one to finish undoes the others.
\<close>

datatype 'a txn =
    Waiting "mstate \<Rightarrow> 'a res \<times> mstate"
  | Working "'a res" mstate
  | Returned "'a res"

type_synonym 'a conf = "mstate \<times> 'a txn list"

text \<open>The next step of a transaction: clone the state and run the callback on the clone, then install the clone
  unless the callback failed.\<close>

definition txn_step :: "mstate \<Rightarrow> 'a txn \<Rightarrow> mstate \<times> 'a txn" where
  "txn_step s t =
     (case t of
        Waiting fn \<Rightarrow> (case fn (cloneState s) of (r, working) \<Rightarrow> (s, Working r working))
      | Working (Inl e) working \<Rightarrow> (s, Returned (Inl e))
      | Working (Inr a) working \<Rightarrow> (working, Returned (Inr a))
      | Returned r \<Rightarrow> (s, Returned r))"

definition tx_step :: "nat \<Rightarrow> 'a conf \<Rightarrow> 'a conf" where
  "tx_step i c =
     (if i < length (snd c)
      then (case txn_step (fst c) (snd c ! i) of (s, t) \<Rightarrow> (s, (snd c)[i := t]))
      else c)"

definition run_schedule :: "nat list \<Rightarrow> 'a conf \<Rightarrow> 'a conf" where
  "run_schedule sched c = fold tx_step sched c"

text \<open>A transaction alone: \<open>Tx\<close> without the rest of the world.\<close>

definition run_alone :: "(mstate \<Rightarrow> 'a res \<times> mstate) \<Rightarrow> mstate \<Rightarrow> 'a res \<times> mstate" where
  "run_alone fn s =
     (case Tx (\<lambda>s (w::unit). case fn s of (r, s') \<Rightarrow> (r, s', w)) s () of (r, s', _) \<Rightarrow> (r, s'))"

lemma run_alone_eq: "run_alone fn s = (case fn s of (Inl e, working) \<Rightarrow> (Inl e, s) | (Inr a, working) \<Rightarrow> (Inr a, working))"
  by (auto simp: run_alone_def Tx_def split: prod.split sum.split)

subsection \<open>What every schedule keeps\<close>

text \<open>A predicate that a transaction keeps when it succeeds.\<close>

definition keeps :: "(mstate \<Rightarrow> bool) \<Rightarrow> (mstate \<Rightarrow> 'a res \<times> mstate) \<Rightarrow> bool" where
  "keeps I fn \<longleftrightarrow> (\<forall>s a s'. I s \<longrightarrow> fn s = (Inr a, s') \<longrightarrow> I s')"

fun txn_ok :: "(mstate \<Rightarrow> bool) \<Rightarrow> 'a txn \<Rightarrow> bool" where
  "txn_ok I (Waiting fn) = keeps I fn"
| "txn_ok I (Working (Inl e) working) = True"
| "txn_ok I (Working (Inr a) working) = I working"
| "txn_ok I (Returned r) = True"

lemma txn_step_ok:
  assumes "I s" "txn_ok I t" "txn_step s t = (s', t')"
  shows "I s' \<and> txn_ok I t'"
proof (cases t)
  case (Waiting fn)
  obtain r working where r: "fn s = (r, working)" by (cases "fn s")
  with assms Waiting show ?thesis by (cases r) (auto simp: txn_step_def keeps_def)
next
  case (Working r working)
  with assms show ?thesis by (cases r) (auto simp: txn_step_def)
qed (use assms in \<open>auto simp: txn_step_def\<close>)

lemma tx_step_ok:
  assumes "I (fst c)" "\<forall>t \<in> set (snd c). txn_ok I t"
  shows "I (fst (tx_step i c)) \<and> (\<forall>t \<in> set (snd (tx_step i c)). txn_ok I t)"
proof (cases "i < length (snd c)")
  case True
  obtain s t where st: "txn_step (fst c) (snd c ! i) = (s, t)" by (metis prod.collapse)
  have "I s \<and> txn_ok I t" using txn_step_ok [of I "fst c" "snd c ! i" s t, OF assms(1) _ st] assms(2) True by simp
  then show ?thesis using assms(2) True st set_update_subset_insert [of "snd c" i t] by (auto simp: tx_step_def)
qed (use assms in \<open>simp add: tx_step_def\<close>)

text \<open>C40: However the transactions of concurrent clients overlap, at every moment the shared store satisfies each
  condition that it satisfies at the start and that every transaction, run alone, keeps: a client never sees the store halfway
  through a transaction, nor anything of a transaction that fails.\<close>

theorem schedules_keep_invariant:
  assumes "I s" "\<And>fn. fn \<in> set fns \<Longrightarrow> keeps I fn"
  shows "I (fst (run_schedule sched (s, map Waiting fns)))"
proof -
  have "I (fst (run_schedule sched c)) \<and> (\<forall>t \<in> set (snd (run_schedule sched c)). txn_ok I t)"
    if "I (fst c)" "\<forall>t \<in> set (snd c). txn_ok I t" for c
    using that
  proof (induction sched arbitrary: c)
    case (Cons i sched)
    have "run_schedule (i # sched) c = run_schedule sched (tx_step i c)" by (simp add: run_schedule_def)
    then show ?case using Cons.IH [of "tx_step i c"] tx_step_ok [of I c i] Cons.prems by presburger
  qed (simp add: run_schedule_def)
  from this [of "(s, map Waiting fns)"] assms show ?thesis by auto
qed

subsection \<open>Transactions one after the other\<close>

lemma two_turns:
  assumes "i < length ts" "ts ! i = Waiting fn"
  shows "run_schedule [i, i] (s, ts) = (snd (run_alone fn s), ts[i := Returned (fst (run_alone fn s))])"
proof -
  obtain r working where r: "fn s = (r, working)" by (cases "fn s")
  show ?thesis using assms r by (cases r) (simp_all add: run_schedule_def tx_step_def txn_step_def run_alone_eq)
qed

fun run_all :: "(mstate \<Rightarrow> 'a res \<times> mstate) list \<Rightarrow> mstate \<Rightarrow> 'a res list \<times> mstate" where
  "run_all [] s = ([], s)"
| "run_all (fn # fns) s =
     (case run_alone fn s of (r, s1) \<Rightarrow> case run_all fns s1 of (rs, s2) \<Rightarrow> (r # rs, s2))"

definition serial :: "nat \<Rightarrow> nat \<Rightarrow> nat list" where
  "serial i n = concat (map (\<lambda>j. [j, j]) [i..<n])"

text \<open>Transactions that do not overlap: each has the effect and the result of \<open>Tx\<close>.\<close>

theorem serial_schedule:
  "run_schedule (serial 0 (length fns)) (s, map Waiting fns) =
     (snd (run_all fns s), map Returned (fst (run_all fns s)))"
proof -
  have "run_schedule (serial (length fin) (length fin + length fns)) (s, fin @ map Waiting fns) =
      (snd (run_all fns s), fin @ map Returned (fst (run_all fns s)))" for fin :: "'a txn list"
  proof (induction fns arbitrary: s fin)
    case (Cons fn fns)
    obtain r s1 where r: "run_alone fn s = (r, s1)" by (cases "run_alone fn s")
    have "serial (length fin) (length fin + length (fn # fns)) =
        [length fin, length fin] @ serial (length (fin @ [Returned r])) (length (fin @ [Returned r]) + length fns)"
      by (simp add: serial_def upt_conv_Cons del: upt_Suc)
    moreover have "run_schedule [length fin, length fin] (s, fin @ map Waiting (fn # fns)) = (s1, (fin @ [Returned r]) @ map Waiting fns)"
      by (subst two_turns [where fn = fn]) (simp_all add: r nth_append list_update_append)
    ultimately show ?case
      using Cons [where s = s1 and fin = "fin @ [Returned r]"] by (simp add: run_schedule_def r case_prod_beta)
  qed (simp add: serial_def run_schedule_def)
  from this [of "[]"] show ?thesis by simp
qed

subsection \<open>Lost updates\<close>

definition create_txn :: "Topic \<Rightarrow> mstate \<Rightarrow> unit res \<times> mstate" where
  "create_txn topic s = (case tx_CreateTopic topic s of (r, _, s') \<Rightarrow> (r, s'))"

text \<open>Two clients create different topics at the same time: both are told that their topic exists, and one of the topics
  does not.\<close>

theorem concurrent_create_lost:
  assumes "Topic_Name a \<noteq> Topic_Name b" "Topic_ARN a \<noteq> Topic_ARN b"
  shows "run_schedule [0, 1, 0, 1] (NewStore, map Waiting [create_txn a, create_txn b]) =
      (snd (create_txn b NewStore), [Returned (Inr ()), Returned (Inr ())]) \<and>
    getTopic (snd (create_txn b NewStore)) (Topic_ARN a) = Inl ErrNotFound"
  using assms
  by (simp add: run_schedule_def tx_step_def txn_step_def create_txn_def tx_CreateTopic_def NewStore_def getTopic_def)

subsection \<open>Examples\<close>

definition delete_topic_txn :: "string \<Rightarrow> mstate \<Rightarrow> unit res \<times> mstate" where
  "delete_topic_txn arn s = (Inr (), snd (tx_DeleteTopic arn s))"

definition delete_sub_txn :: "string \<Rightarrow> mstate \<Rightarrow> unit res \<times> mstate" where
  "delete_sub_txn arn s = (case tx_DeleteSubscription arn s of (Inl e, s') \<Rightarrow> (Inl e, s') | (Inr _, s') \<Rightarrow> (Inr (), s'))"

lemma deletes_keep_wf: "keeps wf_store (delete_topic_txn arn)" "keeps wf_store (delete_sub_txn arn)"
  using mem.good_delete_topic mem.good_delete_sub
  by (auto simp: keeps_def delete_topic_txn_def delete_sub_txn_def wf_store_good split: prod.splits sum.splits)

theorem schedules_keep_invariant_witness:
  "wf_store (fst (run_schedule [0, 1, 0, 1]
     (sample_store, map Waiting [delete_topic_txn (Topic_ARN sample_topic), delete_sub_txn (Sub_ARN sample_sub)])))"
  by (rule schedules_keep_invariant [where I = wf_store]) (auto intro: wf_sample_store deletes_keep_wf)

end
