(* ===== verification/Domain_JSON.thy ===== *)
theory Domain_JSON
  imports Domain Go_Time Go_Crypto
begin

text \<open>
  How \<^verbatim>\<open>encoding/json\<close> writes and reads the structs of \<^verbatim>\<open>internal/domain/types.go\<close> that the SQLite store keeps
  as JSON text: topics, subscriptions, confirmation tokens and the payloads of delivery jobs.  A struct is the list of
  its fields, each with the encoder and the decoder of its type; the names are the Go names, as the structs carry no tags.
  A value whose strings are valid UTF-8 and whose times lie in the years 0 to 9999 is read back as it was.

  A nil map is written \<^verbatim>\<open>null\<close> and an empty one \<^verbatim>\<open>{}\<close>; both are the empty finite map here, and the copies
  that the store hands out turn both into empty maps.
\<close>

subsection \<open>Encoders and decoders of field types\<close>

definition enc_string :: "string \<Rightarrow> json option" where
  "enc_string s = Some (json_string s)"

definition enc_bool :: "bool \<Rightarrow> json option" where
  "enc_bool b = Some (JBool b)"

definition enc_int :: "int \<Rightarrow> json option" where
  "enc_int i = Some (json_int i)"

definition enc_uint64 :: "64 word \<Rightarrow> json option" where
  "enc_uint64 w = Some (json_int (uint w))"

definition decode_uint64 :: "json \<Rightarrow> 64 word \<Rightarrow> 64 word option" where
  "decode_uint64 j cur =
     (case j of
        JNum n \<Rightarrow>
          if list_all dec_digit n
          then (case digits_value 10 0 n of None \<Rightarrow> None | Some v \<Rightarrow> if v < 2 ^ 64 then Some (of_nat v) else None)
          else None
      | JNull \<Rightarrow> Some cur
      | _ \<Rightarrow> None)"

text \<open>\<^verbatim>\<open>Time.MarshalJSON\<close> fails beyond year 9999; \<^verbatim>\<open>UnmarshalJSON\<close> reads the literal as it stands, without
  undoing escapes.\<close>

definition enc_time :: "time \<Rightarrow> json option" where
  "enc_time t = (if year_in_range t then Some (json_string (format_rfc3339 t)) else None)"

definition decode_time :: "json \<Rightarrow> time \<Rightarrow> time option" where
  "decode_time j cur = (case j of JStr b \<Rightarrow> parse_rfc3339 True b | JNull \<Rightarrow> Some cur | _ \<Rightarrow> None)"

text \<open>A byte slice is base64 text; an array of small numbers is read as well.\<close>

definition enc_bytes :: "string option \<Rightarrow> json option" where
  "enc_bytes b = Some (case b of None \<Rightarrow> JNull | Some s \<Rightarrow> json_string (b64_std_encode s))"

definition decode_byte :: "json \<Rightarrow> char option" where
  "decode_byte j =
     (case j of
        JNum n \<Rightarrow> (case Atoi n of None \<Rightarrow> None | Some v \<Rightarrow> if 0 \<le> v \<and> v < 256 then Some (byte_of (nat v)) else None)
      | JNull \<Rightarrow> Some (byte_of 0)
      | _ \<Rightarrow> None)"

definition decode_bytes :: "json \<Rightarrow> string option \<Rightarrow> string option option" where
  "decode_bytes j cur =
     (case j of
        JNull \<Rightarrow> Some None
      | JStr b \<Rightarrow> map_option Some (b64_std_decode (unquote b))
      | JArr js \<Rightarrow> map_option Some (all_some (map decode_byte js))
      | _ \<Rightarrow> None)"

text \<open>Maps are written in the order of their keys, and read into the map that is there.\<close>

definition enc_entries :: "('v \<Rightarrow> json option) \<Rightarrow> (string \<times> 'v) list \<Rightarrow> json option" where
  "enc_entries enc kvs = map_option json_object (all_some (map (\<lambda>(k, v). map_option (Pair k) (enc v)) kvs))"

definition sorted_entries :: "(string, 'v) fmap \<Rightarrow> (string \<times> 'v) list" where
  "sorted_entries m = List.map_filter (\<lambda>k. map_option (Pair k) (fmlookup m k)) (sorted_keys m)"

definition enc_map :: "('v \<Rightarrow> json option) \<Rightarrow> (string, 'v) fmap \<Rightarrow> json option" where
  "enc_map enc m = enc_entries enc (sorted_entries m)"

fun decode_entries ::
    "(json \<Rightarrow> 'v \<Rightarrow> 'v option) \<Rightarrow> 'v \<Rightarrow> (string \<Rightarrow> 'v \<Rightarrow> 'm \<Rightarrow> 'm) \<Rightarrow> (string \<times> json) list \<Rightarrow> 'm \<Rightarrow> 'm option" where
  "decode_entries dec zero put [] m = Some m"
| "decode_entries dec zero put ((k, j) # ms) m =
     (case dec j zero of None \<Rightarrow> None | Some v \<Rightarrow> decode_entries dec zero put ms (put (unquote k) v m))"

definition decode_map ::
    "(json \<Rightarrow> 'v \<Rightarrow> 'v option) \<Rightarrow> 'v \<Rightarrow> json \<Rightarrow> (string, 'v) fmap \<Rightarrow> (string, 'v) fmap option" where
  "decode_map dec zero j cur =
     (case j of JNull \<Rightarrow> Some fmempty | JObj ms \<Rightarrow> decode_entries dec zero fmupd ms cur | _ \<Rightarrow> None)"

text \<open>A map whose iteration order matters is the list of its entries; the order after reading is open in Go, the model
  takes that of the text.\<close>

definition enc_ranged :: "('v \<Rightarrow> json option) \<Rightarrow> 'v ranged \<Rightarrow> json option" where
  "enc_ranged enc m = enc_entries enc (sort_key fst m)"

definition decode_ranged :: "(json \<Rightarrow> 'v \<Rightarrow> 'v option) \<Rightarrow> 'v \<Rightarrow> json \<Rightarrow> 'v ranged \<Rightarrow> 'v ranged option" where
  "decode_ranged dec zero j cur =
     (case j of JNull \<Rightarrow> Some [] | JObj ms \<Rightarrow> decode_entries dec zero upsert ms cur | _ \<Rightarrow> None)"

text \<open>\<^verbatim>\<open>map[string]struct{}\<close>.\<close>

definition enc_set :: "string fset \<Rightarrow> json option" where
  "enc_set A = enc_entries (\<lambda>_. Some (json_object [])) (map (\<lambda>k. (k, ())) (sorted_list_of_fset A))"

definition decode_set :: "json \<Rightarrow> string fset \<Rightarrow> string fset option" where
  "decode_set j cur =
     (case j of
        JNull \<Rightarrow> Some {||}
      | JObj ms \<Rightarrow> decode_entries (\<lambda>j u. case j of JObj _ \<Rightarrow> Some u | JNull \<Rightarrow> Some u | _ \<Rightarrow> None) () (\<lambda>k _. finsert k) ms cur
      | _ \<Rightarrow> None)"

definition enc_pointer :: "('v \<Rightarrow> json option) \<Rightarrow> 'v option \<Rightarrow> json option" where
  "enc_pointer enc p = (case p of None \<Rightarrow> Some JNull | Some v \<Rightarrow> enc v)"

definition decode_pointer :: "(json \<Rightarrow> 'v \<Rightarrow> 'v option) \<Rightarrow> 'v \<Rightarrow> json \<Rightarrow> 'v option \<Rightarrow> 'v option option" where
  "decode_pointer dec zero j cur =
     (case j of
        JNull \<Rightarrow> Some None
      | _ \<Rightarrow> map_option Some (dec j (case cur of None \<Rightarrow> zero | Some v \<Rightarrow> v)))"

subsection \<open>Structs\<close>

type_synonym 'a struct_field = "string \<times> ('a \<Rightarrow> json option) \<times> (json \<Rightarrow> 'a \<Rightarrow> 'a option)"

definition field ::
    "string \<Rightarrow> ('v \<Rightarrow> json option) \<Rightarrow> (json \<Rightarrow> 'v \<Rightarrow> 'v option) \<Rightarrow> ('a \<Rightarrow> 'v) \<Rightarrow> (('v \<Rightarrow> 'v) \<Rightarrow> 'a \<Rightarrow> 'a) \<Rightarrow> 'a struct_field" where
  "field name enc dec get upd = (name, \<lambda>s. enc (get s), \<lambda>j s. map_option (\<lambda>v. upd (\<lambda>_. v) s) (dec j (get s)))"

definition enc_struct :: "'a struct_field list \<Rightarrow> 'a \<Rightarrow> json option" where
  "enc_struct fs s = enc_entries (\<lambda>e. e s) (map (\<lambda>(name, e, _). (name, e)) fs)"

definition decode_fields :: "'a struct_field list \<Rightarrow> json \<Rightarrow> 'a \<Rightarrow> 'a option" where
  "decode_fields fs =
     decode_struct (map fst fs) (\<lambda>name j s. case map_of fs name of None \<Rightarrow> None | Some (_, dec) \<Rightarrow> dec j s)"

definition attribute_fields_ta :: "TopicAttributes struct_field list" where
  "attribute_fields_ta =
     [field ''DeliveryPolicy'' enc_string decode_string TA_DeliveryPolicy TA_DeliveryPolicy_update,
      field ''Policy'' enc_string decode_string TA_Policy TA_Policy_update,
      field ''DisplayName'' enc_string decode_string TA_DisplayName TA_DisplayName_update,
      field ''SignatureVersion'' enc_string decode_string TA_SignatureVersion TA_SignatureVersion_update,
      field ''TracingConfig'' enc_string decode_string TA_TracingConfig TA_TracingConfig_update,
      field ''ArchivePolicy'' enc_string decode_string TA_ArchivePolicy TA_ArchivePolicy_update,
      field ''FifoTopic'' enc_bool decode_bool TA_FifoTopic TA_FifoTopic_update,
      field ''ContentBasedDeduplication'' enc_bool decode_bool TA_ContentBasedDeduplication TA_ContentBasedDeduplication_update,
      field ''FifoThroughputScope'' enc_string decode_string TA_FifoThroughputScope TA_FifoThroughputScope_update,
      field ''Unsupported'' (enc_map enc_string) (decode_map decode_string []) TA_Unsupported TA_Unsupported_update]"

definition sequence_fields :: "SequenceState struct_field list" where
  "sequence_fields =
     [field ''Prefix'' enc_string decode_string Seq_Prefix Seq_Prefix_update,
      field ''Counter'' enc_uint64 decode_uint64 Seq_Counter Seq_Counter_update]"

definition dedup_fields :: "DedupRecord struct_field list" where
  "dedup_fields =
     [field ''MessageID'' enc_string decode_string Dedup_MessageID Dedup_MessageID_update,
      field ''SequenceNumber'' enc_string decode_string Dedup_SequenceNumber Dedup_SequenceNumber_update,
      field ''ExpiresAt'' enc_time decode_time Dedup_ExpiresAt Dedup_ExpiresAt_update]"

text \<open>The zero \<^verbatim>\<open>time.Time\<close> is the first instant of year 1.\<close>

definition zeroTime :: time where
  "zeroTime = - 62135596800000000000"

definition zeroSequenceState :: SequenceState where
  "zeroSequenceState = \<lparr>Seq_Prefix = [], Seq_Counter = 0\<rparr>"

definition zeroDedupRecord :: DedupRecord where
  "zeroDedupRecord = \<lparr>Dedup_MessageID = [], Dedup_SequenceNumber = [], Dedup_ExpiresAt = zeroTime\<rparr>"

definition zeroTopic :: Topic where
  "zeroTopic =
     \<lparr>Topic_ARN = [], Topic_Name = [], Topic_Owner = [], Topic_Region = [], Topic_CreatedAt = zeroTime, Topic_UpdatedAt = zeroTime,
      Topic_Attributes =
        \<lparr>TA_DeliveryPolicy = [], TA_Policy = [], TA_DisplayName = [], TA_SignatureVersion = [], TA_TracingConfig = [],
         TA_ArchivePolicy = [], TA_FifoTopic = False, TA_ContentBasedDeduplication = False, TA_FifoThroughputScope = [],
         TA_Unsupported = fmempty\<rparr>,
      Topic_Tags = fmempty, Topic_Subscriptions = {||}, Topic_GroupSequences = fmempty, Topic_DedupRecords = fmempty,
      Topic_ConfirmedCount = 0, Topic_DeletedCount = 0, Topic_PendingCount = 0\<rparr>"

definition topic_fields :: "Topic struct_field list" where
  "topic_fields =
     [field ''ARN'' enc_string decode_string Topic_ARN Topic_ARN_update,
      field ''Name'' enc_string decode_string Topic_Name Topic_Name_update,
      field ''Owner'' enc_string decode_string Topic_Owner Topic_Owner_update,
      field ''Region'' enc_string decode_string Topic_Region Topic_Region_update,
      field ''CreatedAt'' enc_time decode_time Topic_CreatedAt Topic_CreatedAt_update,
      field ''UpdatedAt'' enc_time decode_time Topic_UpdatedAt Topic_UpdatedAt_update,
      field ''Attributes'' (enc_struct attribute_fields_ta) (decode_fields attribute_fields_ta) Topic_Attributes Topic_Attributes_update,
      field ''Tags'' (enc_map enc_string) (decode_map decode_string []) Topic_Tags Topic_Tags_update,
      field ''Subscriptions'' enc_set decode_set Topic_Subscriptions Topic_Subscriptions_update,
      field ''GroupSequences'' (enc_map (enc_struct sequence_fields)) (decode_map (decode_fields sequence_fields) zeroSequenceState)
        Topic_GroupSequences Topic_GroupSequences_update,
      field ''DedupRecords'' (enc_map (enc_struct dedup_fields)) (decode_map (decode_fields dedup_fields) zeroDedupRecord)
        Topic_DedupRecords Topic_DedupRecords_update,
      field ''ConfirmedCount'' enc_int decode_int Topic_ConfirmedCount Topic_ConfirmedCount_update,
      field ''DeletedCount'' enc_int decode_int Topic_DeletedCount Topic_DeletedCount_update,
      field ''PendingCount'' enc_int decode_int Topic_PendingCount Topic_PendingCount_update]"

definition attribute_fields_sa :: "SubscriptionAttributes struct_field list" where
  "attribute_fields_sa =
     [field ''DeliveryPolicy'' enc_string decode_string SA_DeliveryPolicy SA_DeliveryPolicy_update,
      field ''FilterPolicy'' enc_string decode_string SA_FilterPolicy SA_FilterPolicy_update,
      field ''FilterPolicyScope'' enc_string decode_string SA_FilterPolicyScope SA_FilterPolicyScope_update,
      field ''RawMessageDelivery'' enc_bool decode_bool SA_RawMessageDelivery SA_RawMessageDelivery_update,
      field ''RedrivePolicy'' enc_string decode_string SA_RedrivePolicy SA_RedrivePolicy_update,
      field ''EffectiveDeliveryPolicy'' enc_string decode_string SA_EffectiveDeliveryPolicy SA_EffectiveDeliveryPolicy_update]"

definition zeroSubscription :: Subscription where
  "zeroSubscription =
     \<lparr>Sub_ARN = [], Sub_TopicARN = [], Sub_Owner = [], Sub_Protocol = [], Sub_Endpoint = [], Sub_CreatedAt = zeroTime,
      Sub_UpdatedAt = zeroTime, Sub_Confirmed = False, Sub_PendingConfirmation = False, Sub_ConfirmationWasAuthenticated = False,
      Sub_AuthenticateOnUnsubscribe = False,
      Sub_Attributes =
        \<lparr>SA_DeliveryPolicy = [], SA_FilterPolicy = [], SA_FilterPolicyScope = [], SA_RawMessageDelivery = False,
         SA_RedrivePolicy = [], SA_EffectiveDeliveryPolicy = []\<rparr>\<rparr>"

definition subscription_fields :: "Subscription struct_field list" where
  "subscription_fields =
     [field ''ARN'' enc_string decode_string Sub_ARN Sub_ARN_update,
      field ''TopicARN'' enc_string decode_string Sub_TopicARN Sub_TopicARN_update,
      field ''Owner'' enc_string decode_string Sub_Owner Sub_Owner_update,
      field ''Protocol'' enc_string decode_string Sub_Protocol Sub_Protocol_update,
      field ''Endpoint'' enc_string decode_string Sub_Endpoint Sub_Endpoint_update,
      field ''CreatedAt'' enc_time decode_time Sub_CreatedAt Sub_CreatedAt_update,
      field ''UpdatedAt'' enc_time decode_time Sub_UpdatedAt Sub_UpdatedAt_update,
      field ''Confirmed'' enc_bool decode_bool Sub_Confirmed Sub_Confirmed_update,
      field ''PendingConfirmation'' enc_bool decode_bool Sub_PendingConfirmation Sub_PendingConfirmation_update,
      field ''ConfirmationWasAuthenticated'' enc_bool decode_bool Sub_ConfirmationWasAuthenticated
        Sub_ConfirmationWasAuthenticated_update,
      field ''AuthenticateOnUnsubscribe'' enc_bool decode_bool Sub_AuthenticateOnUnsubscribe Sub_AuthenticateOnUnsubscribe_update,
      field ''Attributes'' (enc_struct attribute_fields_sa) (decode_fields attribute_fields_sa) Sub_Attributes Sub_Attributes_update]"

definition zeroToken :: ConfirmationToken where
  "zeroToken =
     \<lparr>Tok_Token = [], Tok_SubscriptionARN = [], Tok_TopicARN = [], Tok_Endpoint = [], Tok_Protocol = [], Tok_ExpiresAt = zeroTime,
      Tok_AuthenticateOnUnsubscribe = False, Tok_Kind = [], Tok_Restore = None\<rparr>"

definition token_fields :: "ConfirmationToken struct_field list" where
  "token_fields =
     [field ''Token'' enc_string decode_string Tok_Token Tok_Token_update,
      field ''SubscriptionARN'' enc_string decode_string Tok_SubscriptionARN Tok_SubscriptionARN_update,
      field ''TopicARN'' enc_string decode_string Tok_TopicARN Tok_TopicARN_update,
      field ''Endpoint'' enc_string decode_string Tok_Endpoint Tok_Endpoint_update,
      field ''Protocol'' enc_string decode_string Tok_Protocol Tok_Protocol_update,
      field ''ExpiresAt'' enc_time decode_time Tok_ExpiresAt Tok_ExpiresAt_update,
      field ''AuthenticateOnUnsubscribe'' enc_bool decode_bool Tok_AuthenticateOnUnsubscribe Tok_AuthenticateOnUnsubscribe_update,
      field ''Kind'' enc_string decode_string Tok_Kind Tok_Kind_update,
      field ''Restore'' (enc_pointer (enc_struct subscription_fields)) (decode_pointer (decode_fields subscription_fields) zeroSubscription)
        Tok_Restore Tok_Restore_update]"

definition attribute_value_fields :: "MessageAttributeValue struct_field list" where
  "attribute_value_fields =
     [field ''DataType'' enc_string decode_string MA_DataType MA_DataType_update,
      field ''StringValue'' enc_string decode_string MA_StringValue MA_StringValue_update,
      field ''BinaryValue'' enc_bytes decode_bytes MA_BinaryValue MA_BinaryValue_update]"

definition zeroAttributeValue :: MessageAttributeValue where
  "zeroAttributeValue = \<lparr>MA_DataType = [], MA_StringValue = [], MA_BinaryValue = None\<rparr>"

definition zeroPayload :: DeliveryJobPayload where
  "zeroPayload =
     \<lparr>Pay_Type = [], Pay_TopicARN = [], Pay_TopicOwner = [], Pay_SubscriptionARN = [], Pay_Protocol = [], Pay_Endpoint = [],
      Pay_MessageID = [], Pay_Subject = [], Pay_Message = [], Pay_ProtocolMessage = [], Pay_Timestamp = zeroTime, Pay_Token = [],
      Pay_SubscribeURL = [], Pay_UnsubscribeURL = [], Pay_SignatureVersion = [], Pay_Signature = [], Pay_SigningCertURL = [],
      Pay_MessageAttributes = [], Pay_GroupID = [], Pay_DeduplicationID = [], Pay_SequenceNumber = [], Pay_Headers = fmempty\<rparr>"

definition payload_fields :: "DeliveryJobPayload struct_field list" where
  "payload_fields =
     [field ''Type'' enc_string decode_string Pay_Type Pay_Type_update,
      field ''TopicARN'' enc_string decode_string Pay_TopicARN Pay_TopicARN_update,
      field ''TopicOwner'' enc_string decode_string Pay_TopicOwner Pay_TopicOwner_update,
      field ''SubscriptionARN'' enc_string decode_string Pay_SubscriptionARN Pay_SubscriptionARN_update,
      field ''Protocol'' enc_string decode_string Pay_Protocol Pay_Protocol_update,
      field ''Endpoint'' enc_string decode_string Pay_Endpoint Pay_Endpoint_update,
      field ''MessageID'' enc_string decode_string Pay_MessageID Pay_MessageID_update,
      field ''Subject'' enc_string decode_string Pay_Subject Pay_Subject_update,
      field ''Message'' enc_string decode_string Pay_Message Pay_Message_update,
      field ''ProtocolMessage'' enc_string decode_string Pay_ProtocolMessage Pay_ProtocolMessage_update,
      field ''Timestamp'' enc_time decode_time Pay_Timestamp Pay_Timestamp_update,
      field ''Token'' enc_string decode_string Pay_Token Pay_Token_update,
      field ''SubscribeURL'' enc_string decode_string Pay_SubscribeURL Pay_SubscribeURL_update,
      field ''UnsubscribeURL'' enc_string decode_string Pay_UnsubscribeURL Pay_UnsubscribeURL_update,
      field ''SignatureVersion'' enc_string decode_string Pay_SignatureVersion Pay_SignatureVersion_update,
      field ''Signature'' enc_string decode_string Pay_Signature Pay_Signature_update,
      field ''SigningCertURL'' enc_string decode_string Pay_SigningCertURL Pay_SigningCertURL_update,
      field ''MessageAttributes'' (enc_ranged (enc_struct attribute_value_fields))
        (decode_ranged (decode_fields attribute_value_fields) zeroAttributeValue) Pay_MessageAttributes Pay_MessageAttributes_update,
      field ''GroupID'' enc_string decode_string Pay_GroupID Pay_GroupID_update,
      field ''DeduplicationID'' enc_string decode_string Pay_DeduplicationID Pay_DeduplicationID_update,
      field ''SequenceNumber'' enc_string decode_string Pay_SequenceNumber Pay_SequenceNumber_update,
      field ''Headers'' (enc_map enc_string) (decode_map decode_string []) Pay_Headers Pay_Headers_update]"

text \<open>\<^verbatim>\<open>mustJSON\<close>: the text, empty when the value cannot be written.\<close>

definition mustJSON :: "'a struct_field list \<Rightarrow> 'a \<Rightarrow> string" where
  "mustJSON fs v = (case enc_struct fs v of None \<Rightarrow> [] | Some j \<Rightarrow> print_json j)"

definition fromJSON :: "'a struct_field list \<Rightarrow> 'a \<Rightarrow> string \<Rightarrow> 'a res" where
  "fromJSON fs zero raw = unmarshal (decode_fields fs) raw zero"

subsection \<open>Writing and reading back\<close>

definition recode :: "('v \<Rightarrow> json option) \<Rightarrow> (json \<Rightarrow> 'v \<Rightarrow> 'v option) \<Rightarrow> 'v \<Rightarrow> 'v \<Rightarrow> 'v option" where
  "recode enc dec v cur = Option.bind (enc v) (\<lambda>j. dec j cur)"

text \<open>An encoder whose trees can be nested \<open>n\<close> deep.\<close>

definition well_formed :: "nat \<Rightarrow> ('v \<Rightarrow> json option) \<Rightarrow> bool" where
  "well_formed n enc \<longleftrightarrow> (\<forall>v j. enc v = Some j \<longrightarrow> wf_json n j)"

lemma all_some_entries:
  "all_some (map (\<lambda>(k, v). map_option (Pair k) (enc v)) kvs) = Some ms \<longleftrightarrow>
     map fst kvs = map fst ms \<and> list_all2 (\<lambda>kv m. enc (snd kv) = Some (snd m)) kvs ms"
proof (induction kvs arbitrary: ms)
  case (Cons kv kvs)
  show ?case by (cases kv; cases ms) (auto simp: Cons split: option.splits)
qed auto

lemma well_formed_entries:
  assumes "\<And>k v j. (k, v) \<in> set kvs \<Longrightarrow> enc v = Some j \<Longrightarrow> wf_json (Suc n) j" "n < maxNestingDepth" "enc_entries enc kvs = Some j"
  shows "wf_json n j"
proof -
  obtain ms where ms: "all_some (map (\<lambda>(k, v). map_option (Pair k) (enc v)) kvs) = Some ms" "j = json_object ms"
    using assms(3) by (auto simp: enc_entries_def)
  then have a: "list_all2 (\<lambda>kv m. enc (snd kv) = Some (snd m)) kvs ms" using all_some_entries by blast
  have "wf_json (Suc n) (snd m)" if m: "m \<in> set ms" for m
  proof -
    obtain i where i: "i < length ms" "m = ms ! i" using m by (auto simp: in_set_conv_nth)
    have "length kvs = length ms" "enc (snd (kvs ! i)) = Some (snd m)" using a i by (auto simp: list_all2_conv_all_nth)
    with i assms(1) [of "fst (kvs ! i)" "snd (kvs ! i)" "snd m"] show ?thesis by (simp add: nth_mem)
  qed
  with ms(2) assms(2) show ?thesis by (auto simp: case_prod_beta)
qed

lemma well_formed_basic:
  "well_formed n enc_string" "well_formed n enc_bool" "well_formed n enc_int" "well_formed n enc_uint64" "well_formed n enc_time"
  "well_formed n enc_bytes"
  by (auto simp: well_formed_def enc_string_def enc_bool_def enc_int_def enc_uint64_def enc_time_def enc_bytes_def split: if_splits option.splits)

lemma well_formed_containers:
  assumes "well_formed (Suc n) enc" "n < maxNestingDepth"
  shows "well_formed n (enc_map enc)" "well_formed n (enc_ranged enc)"
proof -
  have "wf_json n j" if "enc_entries enc kvs = Some j" for kvs j
    using assms(1) by (intro well_formed_entries [OF _ assms(2) that]) (simp add: well_formed_def)
  then show "well_formed n (enc_map enc)" "well_formed n (enc_ranged enc)"
    by (simp_all add: well_formed_def enc_map_def enc_ranged_def)
qed

lemma well_formed_set:
  assumes "Suc n < maxNestingDepth"
  shows "well_formed n enc_set"
proof -
  have "wf_json n j" if "enc_set A = Some j" for A j
    using that [unfolded enc_set_def] by (rule well_formed_entries [rotated 2]) (use assms in auto)
  then show ?thesis by (simp add: well_formed_def)
qed

lemma well_formed_pointer: "well_formed n enc \<Longrightarrow> well_formed n (enc_pointer enc)"
  by (auto simp: well_formed_def enc_pointer_def split: option.splits)

lemma well_formed_struct:
  assumes "n < maxNestingDepth" "\<forall>f \<in> set fs. well_formed (Suc n) (fst (snd f))"
  shows "well_formed n (enc_struct fs)"
proof -
  have "wf_json n j" if "enc_struct fs s = Some j" for s j
    using that [unfolded enc_struct_def] by (rule well_formed_entries [rotated 2]) (use assms in \<open>auto simp: well_formed_def\<close>)
  then show ?thesis by (simp add: well_formed_def)
qed

lemma well_formed_field: "well_formed n enc \<Longrightarrow> well_formed n (fst (snd (field name enc dec get upd)))"
  by (simp add: well_formed_def field_def)

text \<open>The members of a struct are read one after the other.\<close>

fun read_fields :: "'a struct_field list \<Rightarrow> 'a \<Rightarrow> 'a \<Rightarrow> 'a option" where
  "read_fields [] s cur = Some cur"
| "read_fields (f # fs) s cur = Option.bind (fst (snd f) s) (\<lambda>j. Option.bind (snd (snd f) j cur) (read_fields fs s))"

lemma read_field [simp]:
  "read_fields (field name enc dec get upd # fs) s cur =
     Option.bind (recode enc dec (get s) (get cur)) (\<lambda>v. read_fields fs s (upd (\<lambda>_. v) cur))"
  by (cases "enc (get s)") (auto simp: field_def recode_def bind_map_option comp_def split: option.splits)

definition plain_names :: "'a struct_field list \<Rightarrow> bool" where
  "plain_names fs \<longleftrightarrow> distinct (map fst fs) \<and> (\<forall>f \<in> set fs. \<forall>c \<in> set (fst f). byte_value c < 128)"

lemma recode_struct:
  assumes "plain_names fs"
  shows "recode (enc_struct fs) (decode_fields fs) s cur = read_fields fs s cur"
proof -
  let ?dec = "\<lambda>name j s. case map_of fs name of None \<Rightarrow> None | Some (_, dec) \<Rightarrow> dec j s"
  have step: "Option.bind (all_some (map (\<lambda>(k, v). map_option (Pair k) (v s)) (map (\<lambda>(name, e, _). (name, e)) gs)))
      (\<lambda>ms. decode_members (map fst fs) ?dec (map (\<lambda>(k, v). (quote k, v)) ms) cur) = read_fields gs s cur"
    if "set gs \<subseteq> set fs" for gs cur
    using that
  proof (induction gs arbitrary: cur)
    case (Cons g gs)
    obtain name e d where g: "g = (name, e, d)" by (cases g)
    with Cons.prems assms have "map_of fs name = Some (e, d)" by (simp add: plain_names_def)
    moreover have "name \<in> set (map fst fs)" "\<forall>c \<in> set name. byte_value c < 128"
      using Cons.prems assms g by (force simp: plain_names_def)+
    ultimately have m: "decode_members (map fst fs) ?dec ((quote name, j) # ms) cur =
        Option.bind (d j cur) (decode_members (map fst fs) ?dec ms)" for j ms
      by (subst decode_members_quote) (auto split: option.split)
    have IH: "Option.bind (all_some (map (\<lambda>(k, v). map_option (Pair k) (v s)) (map (\<lambda>(name, e, _). (name, e)) gs)))
      (\<lambda>ms. decode_members (map fst fs) ?dec (map (\<lambda>(k, v). (quote k, v)) ms) cur') = read_fields gs s cur'" for cur'
      using Cons by simp
    show ?case
    proof (cases "e s")
      case (Some j)
      show ?thesis
        by (cases "d j cur"; cases "all_some (map (\<lambda>(k, v). map_option (Pair k) (v s)) (map (\<lambda>(name, e, _). (name, e)) gs))")
          (use IH Some in \<open>auto simp: g m simp del: decode_members.simps simp flip: IH\<close>)
    qed (simp add: g)
  qed simp
  from step [of fs cur] show ?thesis
    by (cases "all_some (map (\<lambda>(k, v). map_option (Pair k) (v s)) (map (\<lambda>(name, e, _). (name, e)) fs))")
      (auto simp: recode_def enc_struct_def enc_entries_def decode_fields_def decode_struct_object)
qed

declare read_fields.simps(2) [simp del]

subsection \<open>Values of field types are read back\<close>

lemma quote_plain:
  "\<forall>c \<in> set s. byte_value c < 128 \<and> quote_ascii c = [c] \<Longrightarrow> quote s = s"
  by (induction s) (simp_all add: quote.simps)

lemma quote_dec_digit: "dec_digit c \<Longrightarrow> byte_value c < 128 \<and> quote_ascii c = [c]"
proof -
  assume "dec_digit c"
  then have "\<exists>d < 10. c = digit_char d"
    by (intro exI [of _ "byte_value c - 48"]) (auto simp: dec_digit_def digit_char_byte simp flip: byte_value_inject)
  moreover have "\<forall>d < 10. byte_value (digit_char d) < 128 \<and> quote_ascii (digit_char d) = [digit_char d]" by code_simp
  ultimately show ?thesis by blast
qed

lemma recode_basic [simp]:
  "valid_utf8 s \<Longrightarrow> recode enc_string decode_string s cur = Some s"
  "recode enc_bool decode_bool b bcur = Some b"
  "in_int64 i \<Longrightarrow> recode enc_int decode_int i icur = Some i"
  by (simp_all add: recode_def enc_string_def enc_bool_def enc_int_def decode_bool_def)

lemma recode_uint64 [simp]: "recode enc_uint64 decode_uint64 w cur = Some w"
proof -
  have i: "Itoa (uint w) = digits_of 10 (unat w)" by (simp add: Itoa_def)
  have "unat w < 2 ^ LENGTH(64)" by (rule unsigned_less)
  then show ?thesis
    using digits_of_decimal [of "unat w"] digits_value_digits_of [of 10 "unat w"]
    by (simp add: recode_def enc_uint64_def json_int_def decode_uint64_def i)
qed

lemma recode_bytes [simp]: "recode enc_bytes decode_bytes b cur = Some b"
proof (cases b)
  case (Some s)
  have "byte_value c < 128" if "c \<in> set (b64_std_encode s)" for c
  proof -
    have "\<forall>c \<in> set b64_alphabet. byte_value c < 128" by (simp add: b64_alphabet_def byte_value_def)
    then have "\<forall>d < 64. byte_value (b64_std_char d) < 128" by (auto simp: b64_std_char_def b64_char_def byte_value_def)
    moreover have "(\<exists>d \<in> set (b64_sextets s). c = b64_std_char d) \<or> c = CHR ''=''" using that by (auto simp: b64_std_encode_def)
    ultimately show ?thesis using b64_sextets_bound by (auto simp: byte_value_def)
  qed
  then show ?thesis
    by (simp add: Some recode_def enc_bytes_def decode_bytes_def json_string_def unquote_quote_ascii_str b64_std_decode_encode)
qed (simp add: recode_def enc_bytes_def decode_bytes_def)

lemma recode_time [simp]:
  assumes "year_in_range t"
  shows "recode enc_time decode_time t cur = Some t"
proof -
  obtain y m d where c: "civil_of_days (t div 1000000000 div 86400) = (y, m, d)" by (metis prod_cases3)
  have digits: "list_all dec_digit (pad_int w n)" if "0 \<le> n" for w n
    using digits_of_decimal [of "nat n"] that
    by (auto simp: pad_int_def pad_left_def Itoa_def list_all_iff dec_digit_def byte_value_def)
  let ?plain = "\<lambda>c. dec_digit c \<or> c \<in> set ''-T:.Z''"
  have pad: "list_all ?plain (pad_int w n)" if "0 \<le> n" for w n
    using digits [OF that] by (rule list.pred_mono_strong) simp
  have frac: "list_all ?plain (fraction_text n)" if "0 \<le> n" for n
    using digits [OF that, of 9] by (auto simp: fraction_text_def list_all_iff dest: set_dropWhileD)
  have "0 \<le> y" "0 \<le> m" "0 \<le> d" using assms c civil_days [OF c] by (simp_all add: year_in_range_def)
  then have "list_all ?plain (format_rfc3339 t)"
    unfolding format_rfc3339_def Let_def c prod.case list_all_append by (intro conjI pad frac) simp_all
  then have "quote (format_rfc3339 t) = format_rfc3339 t"
    using quote_dec_digit by (intro quote_plain) (auto simp: list_all_iff quote_ascii_def byte_value_def)
  with assms show ?thesis by (simp add: recode_def enc_time_def json_string_def decode_time_def parse_format_rfc3339)
qed

lemma recode_pointer [simp]:
  "recode (enc_pointer enc) (decode_pointer dec zero) None None = Some None"
  by (simp add: recode_def enc_pointer_def decode_pointer_def)

lemma recode_entries:
  assumes "\<forall>(k, v) \<in> set kvs. valid_utf8 k \<and> recode enc dec v zero = Some v"
  shows "Option.bind (all_some (map (\<lambda>(k, v). map_option (Pair k) (enc v)) kvs))
      (\<lambda>ms. decode_entries dec zero put (map (\<lambda>(k, v). (quote k, v)) ms) m) = Some (fold (\<lambda>(k, v). put k v) kvs m)"
  using assms
proof (induction kvs arbitrary: m)
  case (Cons kv kvs)
  obtain k v where kv: "kv = (k, v)" by (cases kv)
  with Cons.prems obtain j where "enc v = Some j" "dec j zero = Some v" "valid_utf8 k"
    by (auto simp: recode_def bind_eq_Some_conv)
  moreover have "\<forall>(k, v) \<in> set kvs. valid_utf8 k \<and> recode enc dec v zero = Some v" using Cons.prems by simp
  ultimately show ?case
    using Cons.IH [of "put k v m"]
    by (cases "all_some (map (\<lambda>(k, v). map_option (Pair k) (enc v)) kvs)") (simp_all add: kv unquote_quote)
qed simp

lemma sorted_entries_keys: "map fst (sorted_entries m) = sorted_keys m" "(k, v) \<in> set (sorted_entries m) \<longleftrightarrow> fmlookup m k = Some v"
proof -
  have "sorted_entries m = map (\<lambda>k. (k, the (fmlookup m k))) (sorted_keys m)"
  proof -
    have "filter (\<lambda>k. \<exists>y. fmlookup m k = Some y) (sorted_keys m) = sorted_keys m"
      by (intro filter_True) (auto simp: fmlookup_dom_iff)
    moreover have "the (map_option (Pair k) (fmlookup m k)) = (k, the (fmlookup m k))" if "k \<in> set (sorted_keys m)" for k
      using that by (auto simp: fmlookup_dom_iff)
    ultimately show ?thesis unfolding sorted_entries_def List.map_filter_def by simp
  qed
  then show "map fst (sorted_entries m) = sorted_keys m" "(k, v) \<in> set (sorted_entries m) \<longleftrightarrow> fmlookup m k = Some v"
    by (auto simp: comp_def image_iff fmlookup_dom_iff)
qed

lemma fold_fmupd: "distinct (map fst kvs) \<Longrightarrow> fmlookup (fold (\<lambda>(k, v). fmupd k v) kvs m) k = (case map_of kvs k of None \<Rightarrow> fmlookup m k | Some v \<Rightarrow> Some v)"
proof (induction kvs arbitrary: m)
  case (Cons kv kvs)
  obtain k' v where kv: "kv = (k', v)" by (cases kv)
  with Cons.prems have "map_of kvs k' = None" by (simp add: map_of_eq_None_iff)
  with Cons kv show ?case by (auto split: option.split)
qed simp

lemma recode_map:
  assumes "\<forall>k v. fmlookup m k = Some v \<longrightarrow> valid_utf8 k \<and> recode enc dec v zero = Some v"
  shows "recode (enc_map enc) (decode_map dec zero) m fmempty = Some m"
proof -
  have "fold (\<lambda>(k, v). fmupd k v) (sorted_entries m) fmempty = m"
  proof (rule fmap_ext)
    fix k
    have d: "distinct (map fst (sorted_entries m))" by (simp add: sorted_entries_keys)
    then have "map_of (sorted_entries m) k = fmlookup m k"
      by (metis map_of_eq_Some_iff not_None_eq sorted_entries_keys(2))
    with d show "fmlookup (fold (\<lambda>(k, v). fmupd k v) (sorted_entries m) fmempty) k = fmlookup m k"
      by (simp add: fold_fmupd split: option.split)
  qed
  moreover have "\<forall>(k, v) \<in> set (sorted_entries m). valid_utf8 k \<and> recode enc dec v zero = Some v"
    using assms by (auto simp: sorted_entries_keys)
  ultimately show ?thesis
    using recode_entries [of "sorted_entries m" enc dec zero fmupd fmempty]
    by (cases "all_some (map (\<lambda>(k, v). map_option (Pair k) (enc v)) (sorted_entries m))")
      (simp_all add: recode_def enc_map_def enc_entries_def decode_map_def json_object_def)
qed

lemma recode_ranged:
  assumes "\<forall>(k, v) \<in> set m. valid_utf8 k \<and> recode enc dec v zero = Some v" "distinct (map fst m)"
  shows "recode (enc_ranged enc) (decode_ranged dec zero) m [] = Some (sort_key fst m)"
proof -
  have "distinct (map fst (sort_key fst m))" using assms(2) by (simp add: distinct_map)
  then have "fold (\<lambda>(k, v). upsert k v) (sort_key fst m) [] = sort_key fst m" using fold_upsert_distinct [of "[]"] by simp
  with assms(1) show ?thesis
    using recode_entries [of "sort_key fst m" enc dec zero upsert "[]"]
    by (cases "all_some (map (\<lambda>(k, v). map_option (Pair k) (enc v)) (sort_key fst m))")
      (simp_all add: recode_def enc_ranged_def enc_entries_def decode_ranged_def json_object_def)
qed

lemma recode_set:
  assumes "\<forall>k |\<in>| A. valid_utf8 k"
  shows "recode enc_set decode_set A {||} = Some A"
proof -
  let ?enc = "\<lambda>_ :: unit. Some (json_object [])"
  let ?dec = "\<lambda>j u :: unit. case j of JObj _ \<Rightarrow> Some u | JNull \<Rightarrow> Some u | _ \<Rightarrow> None"
  let ?kvs = "map (\<lambda>k. (k, ())) (sorted_list_of_fset A)"
  have f: "fold (\<lambda>(k, _). finsert k) (map (\<lambda>k. (k, ())) ks) B = fset_of_list ks |\<union>| B" for ks B
    by (induction ks arbitrary: B) auto
  have k: "\<forall>(k, v) \<in> set ?kvs. valid_utf8 k \<and> recode ?enc ?dec v () = Some v"
    using assms by (auto simp: recode_def json_object_def sorted_list_of_fset.rep_eq)
  have "fset_of_list (sorted_list_of_fset A) = A" by (simp add: fset_inverse fset_of_list.rep_eq flip: fset_inject add: sorted_list_of_fset.rep_eq)
  then show ?thesis
    using recode_entries [OF k, of "\<lambda>k _. finsert k" "{||}"] f [of "sorted_list_of_fset A" "{||}"]
    by (cases "all_some (map (\<lambda>(k, v). map_option (Pair k) (?enc v)) ?kvs)")
      (simp_all add: recode_def enc_set_def enc_entries_def decode_set_def json_object_def)
qed

subsection \<open>Structs are read back\<close>

lemmas struct_fields =
  attribute_fields_ta_def sequence_fields_def dedup_fields_def topic_fields_def attribute_fields_sa_def subscription_fields_def
  token_fields_def attribute_value_fields_def payload_fields_def

lemma field_name [simp]: "fst (field name enc dec get upd) = name"
  by (simp add: field_def)

lemma plain_struct_names:
  "plain_names attribute_fields_ta" "plain_names sequence_fields" "plain_names dedup_fields" "plain_names topic_fields"
  "plain_names attribute_fields_sa" "plain_names subscription_fields" "plain_names token_fields" "plain_names attribute_value_fields"
  "plain_names payload_fields"
  by (simp_all add: plain_names_def struct_fields byte_value_def)

lemma maxNesting_big: "0 < maxNestingDepth" "Suc 0 < maxNestingDepth" "Suc (Suc 0) < maxNestingDepth" "Suc (Suc (Suc 0)) < maxNestingDepth"
  by (simp_all add: maxNestingDepth_def)

lemmas well_formed_intros =
  well_formed_basic well_formed_containers well_formed_set well_formed_pointer well_formed_struct well_formed_field maxNesting_big

lemma well_formed_leaves:
  assumes "Suc n < maxNestingDepth"
  shows "well_formed n (enc_struct attribute_fields_ta)" "well_formed n (enc_struct sequence_fields)" "well_formed n (enc_struct dedup_fields)"
    "well_formed n (enc_struct attribute_fields_sa)" "well_formed n (enc_struct attribute_value_fields)"
proof -
  have n: "n < maxNestingDepth" using assms by simp
  note w = well_formed_field well_formed_basic well_formed_containers(1) [OF well_formed_basic(1) assms]
  show "well_formed n (enc_struct attribute_fields_ta)" "well_formed n (enc_struct sequence_fields)" "well_formed n (enc_struct dedup_fields)"
    "well_formed n (enc_struct attribute_fields_sa)" "well_formed n (enc_struct attribute_value_fields)"
    by (rule well_formed_struct [OF n], simp add: struct_fields, intro conjI w)+
qed

lemma well_formed_structs:
  "well_formed 0 (enc_struct topic_fields)" "well_formed (Suc 0) (enc_struct subscription_fields)" "well_formed 0 (enc_struct subscription_fields)"
  "well_formed 0 (enc_struct token_fields)" "well_formed 0 (enc_struct payload_fields)"
proof -
  note w = well_formed_field well_formed_basic well_formed_containers well_formed_set well_formed_leaves maxNesting_big
  show "well_formed 0 (enc_struct topic_fields)" "well_formed 0 (enc_struct subscription_fields)" "well_formed 0 (enc_struct payload_fields)"
    by (rule well_formed_struct [OF maxNesting_big(1)], simp add: topic_fields_def subscription_fields_def payload_fields_def, intro conjI w)+
  show s: "well_formed (Suc 0) (enc_struct subscription_fields)"
    by (rule well_formed_struct [OF maxNesting_big(2)], simp add: subscription_fields_def, intro conjI w)
  show "well_formed 0 (enc_struct token_fields)"
    by (rule well_formed_struct [OF maxNesting_big(1)], simp add: token_fields_def, intro conjI w well_formed_pointer s)
qed

text \<open>Texts that are valid UTF-8 and times that can be written.\<close>

definition texts_ok :: "(string, string) fmap \<Rightarrow> bool" where
  "texts_ok m \<longleftrightarrow> (\<forall>k v. fmlookup m k = Some v \<longrightarrow> valid_utf8 k \<and> valid_utf8 v)"

definition topic_storable :: "Topic \<Rightarrow> bool" where
  "topic_storable t \<longleftrightarrow>
     (let a = Topic_Attributes t in
      list_all valid_utf8
        [Topic_ARN t, Topic_Name t, Topic_Owner t, Topic_Region t, TA_DeliveryPolicy a, TA_Policy a, TA_DisplayName a,
         TA_SignatureVersion a, TA_TracingConfig a, TA_ArchivePolicy a, TA_FifoThroughputScope a] \<and>
      list_all year_in_range [Topic_CreatedAt t, Topic_UpdatedAt t] \<and>
      list_all in_int64 [Topic_ConfirmedCount t, Topic_DeletedCount t, Topic_PendingCount t] \<and>
      texts_ok (TA_Unsupported a) \<and> texts_ok (Topic_Tags t) \<and> (\<forall>k |\<in>| Topic_Subscriptions t. valid_utf8 k) \<and>
      (\<forall>k s. fmlookup (Topic_GroupSequences t) k = Some s \<longrightarrow> valid_utf8 k \<and> valid_utf8 (Seq_Prefix s)) \<and>
      (\<forall>k r. fmlookup (Topic_DedupRecords t) k = Some r \<longrightarrow>
         valid_utf8 k \<and> valid_utf8 (Dedup_MessageID r) \<and> valid_utf8 (Dedup_SequenceNumber r) \<and> year_in_range (Dedup_ExpiresAt r)))"

definition sub_storable :: "Subscription \<Rightarrow> bool" where
  "sub_storable s \<longleftrightarrow>
     (let a = Sub_Attributes s in
      list_all valid_utf8
        [Sub_ARN s, Sub_TopicARN s, Sub_Owner s, Sub_Protocol s, Sub_Endpoint s, SA_DeliveryPolicy a, SA_FilterPolicy a,
         SA_FilterPolicyScope a, SA_RedrivePolicy a, SA_EffectiveDeliveryPolicy a] \<and>
      list_all year_in_range [Sub_CreatedAt s, Sub_UpdatedAt s])"

definition token_storable :: "ConfirmationToken \<Rightarrow> bool" where
  "token_storable c \<longleftrightarrow>
     list_all valid_utf8 [Tok_Token c, Tok_SubscriptionARN c, Tok_TopicARN c, Tok_Endpoint c, Tok_Protocol c, Tok_Kind c] \<and>
     year_in_range (Tok_ExpiresAt c) \<and> (case Tok_Restore c of None \<Rightarrow> True | Some s \<Rightarrow> sub_storable s)"

definition payload_storable :: "DeliveryJobPayload \<Rightarrow> bool" where
  "payload_storable p \<longleftrightarrow>
     list_all valid_utf8
       [Pay_Type p, Pay_TopicARN p, Pay_TopicOwner p, Pay_SubscriptionARN p, Pay_Protocol p, Pay_Endpoint p, Pay_MessageID p,
        Pay_Subject p, Pay_Message p, Pay_ProtocolMessage p, Pay_Token p, Pay_SubscribeURL p, Pay_UnsubscribeURL p,
        Pay_SignatureVersion p, Pay_Signature p, Pay_SigningCertURL p, Pay_GroupID p, Pay_DeduplicationID p, Pay_SequenceNumber p] \<and>
     year_in_range (Pay_Timestamp p) \<and> texts_ok (Pay_Headers p) \<and> distinct (map fst (Pay_MessageAttributes p)) \<and>
     (\<forall>(k, v) \<in> set (Pay_MessageAttributes p). valid_utf8 k \<and> valid_utf8 (MA_DataType v) \<and> valid_utf8 (MA_StringValue v))"

lemma recode_texts: "texts_ok m \<Longrightarrow> recode (enc_map enc_string) (decode_map decode_string []) m fmempty = Some m"
  by (intro recode_map) (simp add: texts_ok_def)

lemmas recode_structs = plain_struct_names [THEN recode_struct]

lemma recode_sequence:
  "valid_utf8 (Seq_Prefix s) \<Longrightarrow> recode (enc_struct sequence_fields) (decode_fields sequence_fields) s zeroSequenceState = Some s"
  unfolding recode_structs by (simp add: sequence_fields_def zeroSequenceState_def)

lemma recode_dedup:
  "valid_utf8 (Dedup_MessageID r) \<Longrightarrow> valid_utf8 (Dedup_SequenceNumber r) \<Longrightarrow> year_in_range (Dedup_ExpiresAt r) \<Longrightarrow>
   recode (enc_struct dedup_fields) (decode_fields dedup_fields) r zeroDedupRecord = Some r"
  unfolding recode_structs by (simp add: dedup_fields_def zeroDedupRecord_def)

lemma recode_attribute_value:
  "valid_utf8 (MA_DataType v) \<Longrightarrow> valid_utf8 (MA_StringValue v) \<Longrightarrow>
   recode (enc_struct attribute_value_fields) (decode_fields attribute_value_fields) v zeroAttributeValue = Some v"
  unfolding recode_structs by (simp add: attribute_value_fields_def zeroAttributeValue_def)

lemma recode_sub_attributes:
  assumes "list_all valid_utf8 [SA_DeliveryPolicy a, SA_FilterPolicy a, SA_FilterPolicyScope a, SA_RedrivePolicy a, SA_EffectiveDeliveryPolicy a]"
  shows "recode (enc_struct attribute_fields_sa) (decode_fields attribute_fields_sa) a cur = Some a"
  using assms unfolding recode_structs by (simp add: attribute_fields_sa_def)

lemma recode_topic_attributes:
  assumes "list_all valid_utf8 [TA_DeliveryPolicy a, TA_Policy a, TA_DisplayName a, TA_SignatureVersion a, TA_TracingConfig a, TA_ArchivePolicy a,
      TA_FifoThroughputScope a]" "texts_ok (TA_Unsupported a)" "TA_Unsupported cur = fmempty"
  shows "recode (enc_struct attribute_fields_ta) (decode_fields attribute_fields_ta) a cur = Some a"
  using assms unfolding recode_structs by (simp add: attribute_fields_ta_def recode_texts)

lemma recode_subscription:
  assumes "sub_storable s"
  shows "recode (enc_struct subscription_fields) (decode_fields subscription_fields) s zeroSubscription = Some s"
proof -
  have "recode (enc_struct attribute_fields_sa) (decode_fields attribute_fields_sa) (Sub_Attributes s) cur = Some (Sub_Attributes s)" for cur
    using assms by (intro recode_sub_attributes) (simp add: sub_storable_def Let_def)
  with assms show ?thesis
    unfolding plain_struct_names(6) [THEN recode_struct] by (simp add: subscription_fields_def zeroSubscription_def sub_storable_def Let_def)
qed

lemma recode_topic:
  assumes "topic_storable t"
  shows "recode (enc_struct topic_fields) (decode_fields topic_fields) t zeroTopic = Some t"
proof -
  have "recode (enc_map (enc_struct sequence_fields)) (decode_map (decode_fields sequence_fields) zeroSequenceState)
      (Topic_GroupSequences t) fmempty = Some (Topic_GroupSequences t)"
    using assms by (intro recode_map) (simp add: topic_storable_def Let_def recode_sequence)
  moreover have "recode (enc_map (enc_struct dedup_fields)) (decode_map (decode_fields dedup_fields) zeroDedupRecord)
      (Topic_DedupRecords t) fmempty = Some (Topic_DedupRecords t)"
    using assms by (intro recode_map) (simp add: topic_storable_def Let_def recode_dedup)
  moreover have "recode enc_set decode_set (Topic_Subscriptions t) {||} = Some (Topic_Subscriptions t)"
    using assms by (intro recode_set) (simp add: topic_storable_def Let_def)
  moreover have "recode (enc_struct attribute_fields_ta) (decode_fields attribute_fields_ta) (Topic_Attributes t) cur = Some (Topic_Attributes t)"
    if "TA_Unsupported cur = fmempty" for cur
    using assms that by (intro recode_topic_attributes) (simp_all add: topic_storable_def Let_def)
  ultimately show ?thesis
    using assms unfolding plain_struct_names(4) [THEN recode_struct]
    by (simp add: topic_fields_def zeroTopic_def topic_storable_def Let_def recode_texts)
qed

lemma recode_token:
  assumes "token_storable c"
  shows "recode (enc_struct token_fields) (decode_fields token_fields) c zeroToken = Some c"
proof -
  have "recode (enc_pointer (enc_struct subscription_fields)) (decode_pointer (decode_fields subscription_fields) zeroSubscription)
      (Tok_Restore c) None = Some (Tok_Restore c)"
  proof (cases "Tok_Restore c")
    case (Some s)
    with assms have "recode (enc_struct subscription_fields) (decode_fields subscription_fields) s zeroSubscription = Some s"
      by (intro recode_subscription) (simp add: token_storable_def)
    then obtain j where "enc_struct subscription_fields s = Some j" "decode_fields subscription_fields j zeroSubscription = Some s"
      by (auto simp: recode_def bind_eq_Some_conv)
    moreover from this(1) obtain ms where "j = JObj ms" by (auto simp: enc_struct_def enc_entries_def json_object_def)
    ultimately show ?thesis by (simp add: Some recode_def enc_pointer_def decode_pointer_def)
  qed simp
  with assms show ?thesis
    unfolding plain_struct_names(7) [THEN recode_struct] by (simp add: token_fields_def zeroToken_def token_storable_def)
qed

lemma recode_payload:
  assumes "payload_storable p"
  shows "recode (enc_struct payload_fields) (decode_fields payload_fields) p zeroPayload =
    Some (p\<lparr>Pay_MessageAttributes := sort_key fst (Pay_MessageAttributes p)\<rparr>)"
proof -
  have "recode (enc_ranged (enc_struct attribute_value_fields)) (decode_ranged (decode_fields attribute_value_fields) zeroAttributeValue)
      (Pay_MessageAttributes p) [] = Some (sort_key fst (Pay_MessageAttributes p))"
    using assms by (intro recode_ranged) (auto simp: payload_storable_def intro!: recode_attribute_value)
  with assms show ?thesis
    unfolding plain_struct_names(9) [THEN recode_struct] by (simp add: payload_fields_def zeroPayload_def payload_storable_def recode_texts)
qed

lemma fromJSON_mustJSON:
  assumes "well_formed 0 (enc_struct fs)" "recode (enc_struct fs) (decode_fields fs) v zero = Some v'"
  shows "fromJSON fs zero (mustJSON fs v) = Inr v'"
proof -
  obtain j where "enc_struct fs v = Some j" "decode_fields fs j zero = Some v'"
    using assms(2) by (auto simp: recode_def bind_eq_Some_conv)
  with assms(1) show ?thesis by (simp add: mustJSON_def fromJSON_def unmarshal_def parse_print well_formed_def)
qed

lemma stored_structs_read:
  "topic_storable t \<Longrightarrow> fromJSON topic_fields zeroTopic (mustJSON topic_fields t) = Inr t"
  "sub_storable s \<Longrightarrow> fromJSON subscription_fields zeroSubscription (mustJSON subscription_fields s) = Inr s"
  "token_storable c \<Longrightarrow> fromJSON token_fields zeroToken (mustJSON token_fields c) = Inr c"
  "payload_storable p \<Longrightarrow> fromJSON payload_fields zeroPayload (mustJSON payload_fields p) =
     Inr (p\<lparr>Pay_MessageAttributes := sort_key fst (Pay_MessageAttributes p)\<rparr>)"
  by (simp_all add: fromJSON_mustJSON well_formed_structs recode_topic recode_subscription recode_token recode_payload)

end
