(* ===== verification/SQLite_Store.thy ===== *)
theory SQLite_Store
  imports Memory_Store Domain_JSON Go_URL
begin

text \<open>
  The persistent store (\<^verbatim>\<open>internal/store/sqlite/store.go\<close>).  Its tables are finite maps from primary key to row, and
  each SQL statement of the source is a function on them with the constraints of the schema: primary keys, the unique topic
  name, and the foreign key of subscriptions with its cascade.

  What depends on the database engine and the connection is a parameter, \<open>Engine\<close>: with which error the \<open>n\<close>-th statement
  fails, if it does; after how many rows a result set breaks off; whether foreign keys are enforced on the connection that
  the \<open>n\<close>-th statement opens a transaction on (the source sets the pragma on one connection of the pool); and the function
  \<^verbatim>\<open>json_extract\<close> that one statement uses.  A statement that fails changes nothing.

  The second half shows that the store answers like the memory store on every run of operations the service makes, and what
  its comparison of printed times does.
\<close>

subsection \<open>Tables\<close>

record TopicRow =
  TR_arn :: string
  TR_name :: string
  TR_owner_account :: string
  TR_region :: string
  TR_created_at :: string
  TR_updated_at :: string
  TR_data_json :: string

record SubscriptionRow =
  SR_arn :: string
  SR_topic_arn :: string
  SR_owner_account :: string
  SR_protocol :: string
  SR_endpoint :: string
  SR_confirmed :: int
  SR_pending_confirmation :: int
  SR_created_at :: string
  SR_updated_at :: string
  SR_data_json :: string

record TokenRow =
  KR_token :: string
  KR_topic_arn :: string
  KR_subscription_arn :: "string option"
  KR_endpoint :: string
  KR_protocol :: string
  KR_expires_at :: string
  KR_kind :: string
  KR_data_json :: string

record MaterialRow =
  MR_private_key_pem :: string
  MR_cert_pem :: string
  MR_created_at :: string

record JobRow =
  JR_id :: string
  JR_kind :: string
  JR_next_attempt_at :: string
  JR_attempt_count :: int
  JR_last_error :: string
  JR_created_at :: string
  JR_updated_at :: string
  JR_payload_json :: string
  JR_effective_delivery_json :: string
  JR_raw_message_delivery :: int
  JR_redrive_policy :: string

record tables =
  T_schema_migrations :: "(int, string) fmap"
  T_topics :: "(string, TopicRow) fmap"
  T_subscriptions :: "(string, SubscriptionRow) fmap"
  T_confirmation_tokens :: "(string, TokenRow) fmap"
  T_signing_material :: "MaterialRow option"
  T_delivery_jobs :: "(string, JobRow) fmap"

definition no_tables :: tables where
  "no_tables =
     \<lparr>T_schema_migrations = fmempty, T_topics = fmempty, T_subscriptions = fmempty, T_confirmation_tokens = fmempty,
      T_signing_material = None, T_delivery_jobs = fmempty\<rparr>"

subsection \<open>Statements\<close>

record Engine =
  E_fault :: "nat \<Rightarrow> string option"
  E_rows :: "nat \<Rightarrow> nat option"
  E_foreign_keys :: "nat \<Rightarrow> bool"
  E_json_extract :: "string \<Rightarrow> string option res"

text \<open>The database file and the number of statements run on it.\<close>

record conn =
  C_tables :: tables
  C_count :: nat

type_synonym ('a, 'w) sql = "conn \<Rightarrow> 'w \<Rightarrow> 'a res \<times> conn \<times> 'w"

definition sql_return :: "'a \<Rightarrow> ('a, 'w) sql" where
  "sql_return a c w = (Inr a, c, w)"

definition sql_bind :: "('a, 'w) sql \<Rightarrow> ('a \<Rightarrow> ('b, 'w) sql) \<Rightarrow> ('b, 'w) sql" where
  "sql_bind m f c w = (case m c w of (Inl e, c', w') \<Rightarrow> (Inl e, c', w') | (Inr a, c', w') \<Rightarrow> f a c' w')"

definition sql_res :: "'a res \<Rightarrow> ('a, 'w) sql" where
  "sql_res r c w = (r, c, w)"

text \<open>\<^verbatim>\<open>ExecContext\<close>; \<^verbatim>\<open>QueryRowContext\<close> and \<^verbatim>\<open>QueryContext\<close> with the number of the statement, for the rows that
  can be read.\<close>

definition exec :: "Engine \<Rightarrow> (tables \<Rightarrow> tables res) \<Rightarrow> (unit, 'w) sql" where
  "exec e stmt c w =
     (let c' = c\<lparr>C_count := Suc (C_count c)\<rparr> in
      case E_fault e (C_count c) of
        Some m \<Rightarrow> (Inl (Plain m), c', w)
      | None \<Rightarrow>
          (case stmt (C_tables c) of
             Inl err \<Rightarrow> (Inl err, c', w)
           | Inr t \<Rightarrow> (Inr (), c'\<lparr>C_tables := t\<rparr>, w)))"

definition query_row :: "Engine \<Rightarrow> (tables \<Rightarrow> 'a) \<Rightarrow> ('a, 'w) sql" where
  "query_row e sel c w =
     (let c' = c\<lparr>C_count := Suc (C_count c)\<rparr> in
      case E_fault e (C_count c) of Some m \<Rightarrow> (Inl (Plain m), c', w) | None \<Rightarrow> (Inr (sel (C_tables c)), c', w))"

text \<open>The rows that are seen, and whether they are all.\<close>

definition query :: "Engine \<Rightarrow> (tables \<Rightarrow> 'a list) \<Rightarrow> ('a list \<times> bool, 'w) sql" where
  "query e sel c w =
     (let c' = c\<lparr>C_count := Suc (C_count c)\<rparr>; rows = sel (C_tables c) in
      case E_fault e (C_count c) of
        Some m \<Rightarrow> (Inl (Plain m), c', w)
      | None \<Rightarrow>
          (Inr (case E_rows e (C_count c) of
                  None \<Rightarrow> (rows, True)
                | Some k \<Rightarrow> (take k rows, False)), c', w))"

text \<open>\<^verbatim>\<open>LIMIT ? OFFSET ?\<close>: a negative limit is none.\<close>

definition limit_offset :: "int \<Rightarrow> int \<Rightarrow> 'a list \<Rightarrow> 'a list" where
  "limit_offset lmt off rows = (let rest = drop (nat off) rows in if lmt < 0 then rest else take (nat lmt) rest)"

definition unique_failed :: "string \<Rightarrow> go_error" where
  "unique_failed column = Plain (''constraint failed: UNIQUE constraint failed: '' @ column)"

definition foreign_key_failed :: go_error where
  "foreign_key_failed = Plain ''constraint failed: FOREIGN KEY constraint failed''"

subsection \<open>Helpers of the package\<close>

definition formatTime :: "time \<Rightarrow> string" where
  "formatTime t = format_rfc3339 t"

definition parseTime :: "string \<Rightarrow> time res" where
  "parseTime v = (case parse_rfc3339 False v of None \<Rightarrow> Inl (Plain ''parsing time'') | Some t \<Rightarrow> Inr t)"

definition boolInt :: "bool \<Rightarrow> int" where
  "boolInt v = (if v then 1 else 0)"

definition nullIfEmpty :: "string \<Rightarrow> string option" where
  "nullIfEmpty v = (if TrimSpace v = [] then None else Some v)"

definition offsetToken :: "int \<Rightarrow> string" where
  "offsetToken i = Itoa i"

text \<open>\<^verbatim>\<open>fmt.Sscanf(token, "%d", &i)\<close>: blanks before the number are skipped, but not a newline; what follows the digits
  is ignored.\<close>

function scan_blanks :: "string \<Rightarrow> string option" where
  "scan_blanks s =
     (if HasPrefix s [CHR 0x0A] \<or> HasPrefix s [CHR 0x0D, CHR 0x0A] then None
      else case strip_any space_encodings s of None \<Rightarrow> Some s | Some r \<Rightarrow> scan_blanks r)"
  by pat_completeness auto
termination
  by (relation "measure length") (auto dest: strip_any_shorter)

declare scan_blanks.simps [simp del]

definition sscanf_int :: "string \<Rightarrow> int option" where
  "sscanf_int s =
     (case scan_blanks s of
        None \<Rightarrow> None
      | Some r \<Rightarrow>
          (case r of
             [] \<Rightarrow> None
           | c # cs \<Rightarrow>
               if c = CHR ''+'' \<or> c = CHR ''-'' then Atoi (c # takeWhile dec_digit cs) else Atoi (takeWhile dec_digit r)))"

definition tokenOffset :: "string \<Rightarrow> int" where
  "tokenOffset token =
     (if TrimSpace token = [] then 0
      else case sscanf_int token of None \<Rightarrow> 0 | Some i \<Rightarrow> if i < 0 then 0 else i)"

definition isUniqueErr :: "go_error \<Rightarrow> bool" where
  "isUniqueErr err = (Index (ToLower (error_text err)) ''unique'' \<noteq> None)"

subsection \<open>Reads\<close>

definition data_json :: "('a \<Rightarrow> string) \<Rightarrow> 'r struct_field list \<Rightarrow> 'r \<Rightarrow> 'a option \<Rightarrow> ('r, 'w) sql" where
  "data_json text fs zero row =
     sql_res (case row of None \<Rightarrow> Inl ErrNotFound | Some r \<Rightarrow> fromJSON fs zero (text r))"

definition sqlite_getTopic :: "Engine \<Rightarrow> string \<Rightarrow> (Topic, 'w) sql" where
  "sqlite_getTopic e arn =
     sql_bind (query_row e (\<lambda>t. fmlookup (T_topics t) arn)) (data_json TR_data_json topic_fields zeroTopic)"

text \<open>\<^verbatim>\<open>SELECT data_json FROM topics WHERE name = ?\<close>.\<close>

definition topic_named :: "string \<Rightarrow> tables \<Rightarrow> TopicRow option" where
  "topic_named name t =
     (case filter (\<lambda>row. TR_name row = name) (map snd (sorted_entries (T_topics t))) of
        [] \<Rightarrow> None
      | row # _ \<Rightarrow> Some row)"

definition sqlite_findTopicByName :: "Engine \<Rightarrow> string \<Rightarrow> (Topic, 'w) sql" where
  "sqlite_findTopicByName e name =
     sql_bind (query_row e (topic_named name)) (data_json TR_data_json topic_fields zeroTopic)"

definition sqlite_getSubscription :: "Engine \<Rightarrow> string \<Rightarrow> (Subscription, 'w) sql" where
  "sqlite_getSubscription e arn =
     sql_bind (query_row e (\<lambda>t. fmlookup (T_subscriptions t) arn)) (data_json SR_data_json subscription_fields zeroSubscription)"

definition sqlite_getConfirmationToken :: "Engine \<Rightarrow> string \<Rightarrow> (ConfirmationToken, 'w) sql" where
  "sqlite_getConfirmationToken e token =
     sql_bind (query_row e (\<lambda>t. fmlookup (T_confirmation_tokens t) token)) (data_json KR_data_json token_fields zeroToken)"

text \<open>A listing drops every error, and does not ask whether the rows were all.\<close>

definition page_rows :: "Engine \<Rightarrow> (string \<Rightarrow> 'r res) \<Rightarrow> (tables \<Rightarrow> string list) \<Rightarrow> string \<Rightarrow> int \<Rightarrow> ('r list \<times> string, 'w) sql" where
  "page_rows e decode sel nextToken pageSize c w =
     (let pageSize = (if pageSize \<le> 0 then 100 else pageSize); offset = tokenOffset nextToken in
      case query e (\<lambda>t. limit_offset (wrap64 (pageSize + 1)) offset (sel t)) c w of
        (Inl _, c', w') \<Rightarrow> (Inr ([], []), c', w')
      | (Inr (rows, _), c', w') \<Rightarrow>
          (Inr (case all_some (map (\<lambda>raw. case decode raw of Inl _ \<Rightarrow> None | Inr r \<Rightarrow> Some r) rows) of
                  None \<Rightarrow> ([], [])
                | Some out \<Rightarrow>
                    if int (length out) > pageSize
                    then (take (nat pageSize) out, offsetToken (wrap64 (offset + pageSize)))
                    else (out, [])), c', w'))"

definition topic_texts :: "tables \<Rightarrow> string list" where
  "topic_texts t = map (TR_data_json \<circ> snd) (sorted_entries (T_topics t))"

definition sub_texts :: "string \<Rightarrow> tables \<Rightarrow> string list" where
  "sub_texts topicARN t =
     map (SR_data_json \<circ> snd)
       (filter (\<lambda>(_, row). TrimSpace topicARN = [] \<or> SR_topic_arn row = topicARN) (sorted_entries (T_subscriptions t)))"

definition sqlite_listTopics :: "Engine \<Rightarrow> string \<Rightarrow> int \<Rightarrow> (Topic list \<times> string, 'w) sql" where
  "sqlite_listTopics e = page_rows e (fromJSON topic_fields zeroTopic) topic_texts"

definition sqlite_listSubscriptions :: "Engine \<Rightarrow> string \<Rightarrow> string \<Rightarrow> int \<Rightarrow> (Subscription list \<times> string, 'w) sql" where
  "sqlite_listSubscriptions e topicARN = page_rows e (fromJSON subscription_fields zeroSubscription) (sub_texts topicARN)"

definition scanDeliveryJob :: "JobRow option \<Rightarrow> DeliveryJob res" where
  "scanDeliveryJob row =
     (case row of
        None \<Rightarrow> Inl ErrNotFound
      | Some r \<Rightarrow>
          (case fromJSON payload_fields zeroPayload (JR_payload_json r) of
             Inl err \<Rightarrow> Inl err
           | Inr payload \<Rightarrow>
          (case parseTime (JR_next_attempt_at r) of
             Inl err \<Rightarrow> Inl err
           | Inr next_at \<Rightarrow>
          (case parseTime (JR_created_at r) of
             Inl err \<Rightarrow> Inl err
           | Inr created \<Rightarrow>
          (case parseTime (JR_updated_at r) of
             Inl err \<Rightarrow> Inl err
           | Inr updated \<Rightarrow>
               Inr \<lparr>Job_ID = JR_id r, Job_Kind = JR_kind r, Job_Payload = CopyDeliveryJobPayload payload,
                    Job_EffectiveDeliveryJSON = JR_effective_delivery_json r,
                    Job_RawMessageDelivery = (JR_raw_message_delivery r \<noteq> 0), Job_RedrivePolicy = JR_redrive_policy r,
                    Job_AttemptCount = JR_attempt_count r, Job_NextAttemptAt = next_at, Job_LastError = JR_last_error r,
                    Job_CreatedAt = created, Job_UpdatedAt = updated\<rparr>)))))"

definition sqlite_getDeliveryJob :: "Engine \<Rightarrow> string \<Rightarrow> (DeliveryJob, 'w) sql" where
  "sqlite_getDeliveryJob e jid =
     sql_bind (query_row e (\<lambda>t. fmlookup (T_delivery_jobs t) jid)) (\<lambda>row. sql_res (scanDeliveryJob row))"

text \<open>Due jobs by the printed times; the order of rows that tie on both columns is open, the model takes them by id.\<close>

definition ready_rows :: "string \<Rightarrow> tables \<Rightarrow> JobRow list" where
  "ready_rows now t =
     sort_key (\<lambda>row. (JR_next_attempt_at row, JR_created_at row))
       (filter (\<lambda>row. JR_next_attempt_at row \<le> now) (map snd (sorted_entries (T_delivery_jobs t))))"

fun scan_all :: "JobRow list \<Rightarrow> DeliveryJob list res" where
  "scan_all [] = Inr []"
| "scan_all (row # rows) =
     (case scanDeliveryJob (Some row) of
        Inl err \<Rightarrow> Inl err
      | Inr job \<Rightarrow> (case scan_all rows of Inl err \<Rightarrow> Inl err | Inr jobs \<Rightarrow> Inr (job # jobs)))"

definition sqlite_ListReadyDeliveryJobs :: "Engine \<Rightarrow> time \<Rightarrow> int \<Rightarrow> (DeliveryJob list, 'w) sql" where
  "sqlite_ListReadyDeliveryJobs e now limit =
     (let limit = (if limit \<le> 0 then 100 else limit) in
      sql_bind (query e (\<lambda>t. limit_offset limit 0 (ready_rows (formatTime now) t))) (\<lambda>(rows, complete).
      sql_bind (sql_res (scan_all rows)) (\<lambda>jobs.
      if complete then sql_return jobs else sql_res (Inl (Plain ''rows.Err'')))))"

definition sqlite_LoadSigningMaterial :: "Engine \<Rightarrow> (SigningMaterial, 'w) sql" where
  "sqlite_LoadSigningMaterial e =
     sql_bind (query_row e T_signing_material) (\<lambda>row.
     case row of
       None \<Rightarrow> sql_return emptySigningMaterial
     | Some r \<Rightarrow>
         sql_bind (sql_res (parseTime (MR_created_at r))) (\<lambda>parsed.
         sql_return \<lparr>Sig_PrivateKeyPEM = MR_private_key_pem r, Sig_CertPEM = MR_cert_pem r, Sig_CreatedAt = parsed\<rparr>))"

subsection \<open>Operations of a transaction\<close>

text \<open>\<open>fk\<close> says whether the connection of the transaction enforces foreign keys.\<close>

definition topic_row :: "string \<Rightarrow> Topic \<Rightarrow> TopicRow" where
  "topic_row arn topic =
     \<lparr>TR_arn = arn, TR_name = Topic_Name topic, TR_owner_account = Topic_Owner topic, TR_region = Topic_Region topic,
      TR_created_at = formatTime (Topic_CreatedAt topic), TR_updated_at = formatTime (Topic_UpdatedAt topic),
      TR_data_json = mustJSON topic_fields topic\<rparr>"

definition name_taken :: "string \<Rightarrow> string \<Rightarrow> tables \<Rightarrow> bool" where
  "name_taken arn name t = list_ex (\<lambda>(k, row). k \<noteq> arn \<and> TR_name row = name) (sorted_entries (T_topics t))"

definition insert_topic :: "Topic \<Rightarrow> tables \<Rightarrow> tables res" where
  "insert_topic topic t =
     (if fmlookup (T_topics t) (Topic_ARN topic) \<noteq> None then Inl (unique_failed ''topics.arn'')
      else if name_taken (Topic_ARN topic) (Topic_Name topic) t then Inl (unique_failed ''topics.name'')
      else Inr (t\<lparr>T_topics := fmupd (Topic_ARN topic) (topic_row (Topic_ARN topic) topic) (T_topics t)\<rparr>))"

text \<open>On a conflict the caller's topic takes the ARN of the topic that has its name.\<close>

definition sqlite_CreateTopic :: "Engine \<Rightarrow> Topic \<Rightarrow> conn \<Rightarrow> 'w \<Rightarrow> (unit res \<times> Topic) \<times> conn \<times> 'w" where
  "sqlite_CreateTopic e topic c w =
     (case exec e (insert_topic topic) c w of
        (Inr u, c', w') \<Rightarrow> ((Inr u, topic), c', w')
      | (Inl err, c', w') \<Rightarrow>
          if isUniqueErr err
          then (case sqlite_findTopicByName e (Topic_Name topic) c' w' of
                  (Inr existing, c'', w'') \<Rightarrow> ((Inl ErrConflict, topic\<lparr>Topic_ARN := Topic_ARN existing\<rparr>), c'', w'')
                | (Inl _, c'', w'') \<Rightarrow> ((Inl err, topic), c'', w''))
          else ((Inl err, topic), c', w'))"

definition update_topic_row :: "string \<Rightarrow> Topic \<Rightarrow> tables \<Rightarrow> tables res" where
  "update_topic_row arn topic t =
     (case fmlookup (T_topics t) arn of
        None \<Rightarrow> Inr t
      | Some _ \<Rightarrow>
          if name_taken arn (Topic_Name topic) t then Inl (unique_failed ''topics.name'')
          else Inr (t\<lparr>T_topics := fmupd arn (topic_row arn topic) (T_topics t)\<rparr>))"

text \<open>The callback of an update works on the record that was read.\<close>

definition sql_callback :: "('t, 'r, 'w) callback \<Rightarrow> 't \<Rightarrow> ('t \<times> 'r, 'w) sql" where
  "sql_callback fn x c w = (case fn x w of (r, w') \<Rightarrow> (r, c, w'))"

definition sqlite_UpdateTopic :: "Engine \<Rightarrow> string \<Rightarrow> (Topic, 'r, 'w) callback \<Rightarrow> (Topic \<times> 'r, 'w) sql" where
  "sqlite_UpdateTopic e arn fn =
     sql_bind (sqlite_getTopic e arn) (\<lambda>topic.
     sql_bind (sql_callback fn topic) (\<lambda>(topic, r).
     sql_bind (exec e (update_topic_row arn topic)) (\<lambda>_. sql_return (topic, r))))"

definition delete_topic_row :: "bool \<Rightarrow> string \<Rightarrow> tables \<Rightarrow> tables res" where
  "delete_topic_row fk arn t =
     Inr (t\<lparr>T_topics := fmdrop arn (T_topics t),
            T_subscriptions :=
              (if fk \<and> fmlookup (T_topics t) arn \<noteq> None then fmkeep (\<lambda>row. SR_topic_arn row \<noteq> arn) (T_subscriptions t)
               else T_subscriptions t)\<rparr>)"

definition delete_topic_tokens :: "string \<Rightarrow> tables \<Rightarrow> tables res" where
  "delete_topic_tokens arn t =
     Inr (t\<lparr>T_confirmation_tokens := fmkeep (\<lambda>row. KR_topic_arn row \<noteq> arn) (T_confirmation_tokens t)\<rparr>)"

text \<open>\<^verbatim>\<open>DELETE FROM delivery_jobs WHERE json_extract(payload_json, '$.TopicARN') = ?\<close>: a text that is not JSON
  fails the statement.\<close>

definition delete_topic_jobs :: "Engine \<Rightarrow> string \<Rightarrow> tables \<Rightarrow> tables res" where
  "delete_topic_jobs e arn t =
     (case filter (\<lambda>row. is_err (E_json_extract e (JR_payload_json row))) (map snd (sorted_entries (T_delivery_jobs t))) of
        row # _ \<Rightarrow> (case E_json_extract e (JR_payload_json row) of Inl err \<Rightarrow> Inl err | Inr _ \<Rightarrow> Inr t)
      | [] \<Rightarrow>
          Inr (t\<lparr>T_delivery_jobs :=
                   fmkeep (\<lambda>row. E_json_extract e (JR_payload_json row) \<noteq> Inr (Some arn)) (T_delivery_jobs t)\<rparr>))"

definition sqlite_DeleteTopic :: "Engine \<Rightarrow> bool \<Rightarrow> string \<Rightarrow> (Subscription list, 'w) sql" where
  "sqlite_DeleteTopic e fk arn =
     sql_bind (sqlite_listSubscriptions e arn [] 100000) (\<lambda>(subs, _).
     sql_bind (exec e (delete_topic_row fk arn)) (\<lambda>_.
     sql_bind (exec e (delete_topic_tokens arn)) (\<lambda>_.
     sql_bind (exec e (delete_topic_jobs e arn)) (\<lambda>_. sql_return subs))))"

definition sub_row :: "string \<Rightarrow> Subscription \<Rightarrow> SubscriptionRow" where
  "sub_row arn sub =
     \<lparr>SR_arn = arn, SR_topic_arn = Sub_TopicARN sub, SR_owner_account = Sub_Owner sub, SR_protocol = Sub_Protocol sub,
      SR_endpoint = Sub_Endpoint sub, SR_confirmed = boolInt (Sub_Confirmed sub),
      SR_pending_confirmation = boolInt (Sub_PendingConfirmation sub), SR_created_at = formatTime (Sub_CreatedAt sub),
      SR_updated_at = formatTime (Sub_UpdatedAt sub), SR_data_json = mustJSON subscription_fields sub\<rparr>"

definition insert_sub :: "bool \<Rightarrow> Subscription \<Rightarrow> tables \<Rightarrow> tables res" where
  "insert_sub fk sub t =
     (if fmlookup (T_subscriptions t) (Sub_ARN sub) \<noteq> None then Inl (unique_failed ''subscriptions.arn'')
      else if fk \<and> fmlookup (T_topics t) (Sub_TopicARN sub) = None then Inl foreign_key_failed
      else Inr (t\<lparr>T_subscriptions := fmupd (Sub_ARN sub) (sub_row (Sub_ARN sub) sub) (T_subscriptions t)\<rparr>))"

definition sqlite_CreateSubscription :: "Engine \<Rightarrow> bool \<Rightarrow> Subscription \<Rightarrow> (unit, 'w) sql" where
  "sqlite_CreateSubscription e fk sub = exec e (insert_sub fk sub)"

definition update_sub_row :: "bool \<Rightarrow> string \<Rightarrow> Subscription \<Rightarrow> tables \<Rightarrow> tables res" where
  "update_sub_row fk arn sub t =
     (case fmlookup (T_subscriptions t) arn of
        None \<Rightarrow> Inr t
      | Some _ \<Rightarrow>
          if fk \<and> fmlookup (T_topics t) (Sub_TopicARN sub) = None then Inl foreign_key_failed
          else Inr (t\<lparr>T_subscriptions := fmupd arn (sub_row arn sub) (T_subscriptions t)\<rparr>))"

definition sqlite_UpdateSubscription ::
    "Engine \<Rightarrow> bool \<Rightarrow> string \<Rightarrow> (Subscription, 'r, 'w) callback \<Rightarrow> (Subscription \<times> 'r, 'w) sql" where
  "sqlite_UpdateSubscription e fk arn fn =
     sql_bind (sqlite_getSubscription e arn) (\<lambda>sub.
     sql_bind (sql_callback fn sub) (\<lambda>(sub, r).
     sql_bind (exec e (update_sub_row fk arn sub)) (\<lambda>_. sql_return (sub, r))))"

definition sqlite_DeleteSubscription :: "Engine \<Rightarrow> string \<Rightarrow> (Subscription, 'w) sql" where
  "sqlite_DeleteSubscription e arn =
     sql_bind (sqlite_getSubscription e arn) (\<lambda>sub.
     sql_bind (exec e (\<lambda>t. Inr (t\<lparr>T_subscriptions := fmdrop arn (T_subscriptions t)\<rparr>))) (\<lambda>_.
     sql_bind (exec e (\<lambda>t. Inr (t\<lparr>T_confirmation_tokens :=
                fmkeep (\<lambda>row. KR_subscription_arn row \<noteq> Some arn) (T_confirmation_tokens t)\<rparr>))) (\<lambda>_.
     sql_return sub)))"

definition token_row :: "ConfirmationToken \<Rightarrow> TokenRow" where
  "token_row token =
     \<lparr>KR_token = Tok_Token token, KR_topic_arn = Tok_TopicARN token, KR_subscription_arn = nullIfEmpty (Tok_SubscriptionARN token),
      KR_endpoint = Tok_Endpoint token, KR_protocol = Tok_Protocol token, KR_expires_at = formatTime (Tok_ExpiresAt token),
      KR_kind = Tok_Kind token, KR_data_json = mustJSON token_fields token\<rparr>"

text \<open>The errors of these two are dropped.\<close>

definition ignore :: "('a, 'w) sql \<Rightarrow> (unit, 'w) sql" where
  "ignore m c w = (case m c w of (_, c', w') \<Rightarrow> (Inr (), c', w'))"

definition sqlite_PutConfirmationToken :: "Engine \<Rightarrow> ConfirmationToken \<Rightarrow> (unit, 'w) sql" where
  "sqlite_PutConfirmationToken e token =
     ignore (exec e (\<lambda>t. Inr (t\<lparr>T_confirmation_tokens := fmupd (Tok_Token token) (token_row token) (T_confirmation_tokens t)\<rparr>)))"

definition sqlite_DeleteConfirmationToken :: "Engine \<Rightarrow> string \<Rightarrow> (unit, 'w) sql" where
  "sqlite_DeleteConfirmationToken e token =
     ignore (exec e (\<lambda>t. Inr (t\<lparr>T_confirmation_tokens := fmdrop token (T_confirmation_tokens t)\<rparr>)))"

definition job_row :: "DeliveryJob \<Rightarrow> JobRow" where
  "job_row job =
     \<lparr>JR_id = Job_ID job, JR_kind = Job_Kind job, JR_next_attempt_at = formatTime (Job_NextAttemptAt job),
      JR_attempt_count = Job_AttemptCount job, JR_last_error = Job_LastError job, JR_created_at = formatTime (Job_CreatedAt job),
      JR_updated_at = formatTime (Job_UpdatedAt job), JR_payload_json = mustJSON payload_fields (Job_Payload job),
      JR_effective_delivery_json = Job_EffectiveDeliveryJSON job, JR_raw_message_delivery = boolInt (Job_RawMessageDelivery job),
      JR_redrive_policy = Job_RedrivePolicy job\<rparr>"

definition saveDeliveryJob :: "Engine \<Rightarrow> DeliveryJob \<Rightarrow> (unit, 'w) sql" where
  "saveDeliveryJob e job =
     exec e (\<lambda>t. Inr (t\<lparr>T_delivery_jobs := fmupd (Job_ID job) (job_row job) (T_delivery_jobs t)\<rparr>))"

subsection \<open>Methods of Store\<close>

text \<open>\<^verbatim>\<open>Tx\<close>: \<^verbatim>\<open>BeginTx\<close>, the callback, then \<^verbatim>\<open>Commit\<close> or \<^verbatim>\<open>Rollback\<close>; a failed commit leaves the tables
  as they were.\<close>

definition sqlite_Tx :: "Engine \<Rightarrow> (bool \<Rightarrow> ('a, 'w) sql) \<Rightarrow> ('a, 'w) sql" where
  "sqlite_Tx e fn c w =
     (let n = C_count c; c1 = c\<lparr>C_count := Suc n\<rparr> in
      case E_fault e n of
        Some m \<Rightarrow> (Inl (Plain m), c1, w)
      | None \<Rightarrow>
          (case fn (E_foreign_keys e n) c1 w of
             (Inl err, c', w') \<Rightarrow> (Inl err, c'\<lparr>C_tables := C_tables c, C_count := Suc (C_count c')\<rparr>, w')
           | (Inr a, c', w') \<Rightarrow>
               (case E_fault e (C_count c') of
                  Some m \<Rightarrow> (Inl (Plain m), c'\<lparr>C_tables := C_tables c, C_count := Suc (C_count c')\<rparr>, w')
                | None \<Rightarrow> (Inr a, c'\<lparr>C_count := Suc (C_count c')\<rparr>, w'))))"

definition sqlite_Store_CreateTopic :: "Engine \<Rightarrow> Topic \<Rightarrow> (unit, 'w) sql" where
  "sqlite_Store_CreateTopic e topic =
     sqlite_Tx e (\<lambda>_ c w. case sqlite_CreateTopic e topic c w of ((r, _), c', w') \<Rightarrow> (r, c', w'))"

definition sqlite_Store_UpdateTopic :: "Engine \<Rightarrow> string \<Rightarrow> (Topic, 'r, 'w) callback \<Rightarrow> (Topic \<times> 'r, 'w) sql" where
  "sqlite_Store_UpdateTopic e arn fn = sqlite_Tx e (\<lambda>_. sqlite_UpdateTopic e arn fn)"

definition sqlite_Store_DeleteTopic :: "Engine \<Rightarrow> string \<Rightarrow> (Subscription list, 'w) sql" where
  "sqlite_Store_DeleteTopic e arn = sqlite_Tx e (\<lambda>fk. sqlite_DeleteTopic e fk arn)"

definition sqlite_Store_CreateSubscription :: "Engine \<Rightarrow> Subscription \<Rightarrow> (unit, 'w) sql" where
  "sqlite_Store_CreateSubscription e sub = sqlite_Tx e (\<lambda>fk. sqlite_CreateSubscription e fk sub)"

definition sqlite_Store_UpdateSubscription ::
    "Engine \<Rightarrow> string \<Rightarrow> (Subscription, 'r, 'w) callback \<Rightarrow> (Subscription \<times> 'r, 'w) sql" where
  "sqlite_Store_UpdateSubscription e arn fn = sqlite_Tx e (\<lambda>fk. sqlite_UpdateSubscription e fk arn fn)"

definition sqlite_Store_DeleteSubscription :: "Engine \<Rightarrow> string \<Rightarrow> (Subscription, 'w) sql" where
  "sqlite_Store_DeleteSubscription e arn = sqlite_Tx e (\<lambda>_. sqlite_DeleteSubscription e arn)"

definition sqlite_Store_PutConfirmationToken :: "Engine \<Rightarrow> ConfirmationToken \<Rightarrow> (unit, 'w) sql" where
  "sqlite_Store_PutConfirmationToken e token = ignore (sqlite_Tx e (\<lambda>_. sqlite_PutConfirmationToken e token))"

definition sqlite_Store_DeleteConfirmationToken :: "Engine \<Rightarrow> string \<Rightarrow> (unit, 'w) sql" where
  "sqlite_Store_DeleteConfirmationToken e token = ignore (sqlite_Tx e (\<lambda>_. sqlite_DeleteConfirmationToken e token))"

definition sqlite_Store_EnqueueDeliveryJob :: "Engine \<Rightarrow> DeliveryJob \<Rightarrow> (unit, 'w) sql" where
  "sqlite_Store_EnqueueDeliveryJob e job = sqlite_Tx e (\<lambda>_. saveDeliveryJob e job)"

definition sqlite_Store_UpdateDeliveryJob ::
    "Engine \<Rightarrow> string \<Rightarrow> (DeliveryJob, 'r, 'w) callback \<Rightarrow> (DeliveryJob \<times> 'r, 'w) sql" where
  "sqlite_Store_UpdateDeliveryJob e jid fn =
     sqlite_Tx e (\<lambda>_.
       sql_bind (sqlite_getDeliveryJob e jid) (\<lambda>job.
       sql_bind (sql_callback fn job) (\<lambda>(job, r).
       sql_bind (saveDeliveryJob e job) (\<lambda>_.
       sql_return (job\<lparr>Job_Payload := CopyDeliveryJobPayload (Job_Payload job)\<rparr>, r)))))"

definition sqlite_Store_DeleteDeliveryJob :: "Engine \<Rightarrow> string \<Rightarrow> (unit, 'w) sql" where
  "sqlite_Store_DeleteDeliveryJob e jid = exec e (\<lambda>t. Inr (t\<lparr>T_delivery_jobs := fmdrop jid (T_delivery_jobs t)\<rparr>))"

definition sqlite_SaveSigningMaterial :: "Engine \<Rightarrow> SigningMaterial \<Rightarrow> (unit, 'w) sql" where
  "sqlite_SaveSigningMaterial e material =
     exec e (\<lambda>t. Inr (t\<lparr>T_signing_material :=
       Some \<lparr>MR_private_key_pem = Sig_PrivateKeyPEM material, MR_cert_pem = Sig_CertPEM material,
             MR_created_at = formatTime (Sig_CreatedAt material)\<rparr>\<rparr>))"

text \<open>\<^verbatim>\<open>Open\<close> on a file that holds the tables of an earlier run, or none: the statements that create what is missing leave
  what is there.  \<open>opened\<close> is what \<^verbatim>\<open>sql.Open\<close> returns.\<close>

definition schemaVersion :: int where
  "schemaVersion = 1"

fun exec_all :: "Engine \<Rightarrow> (tables \<Rightarrow> tables res) list \<Rightarrow> (unit, 'w) sql" where
  "exec_all e [] = sql_return ()"
| "exec_all e (stmt # stmts) = sql_bind (exec e stmt) (\<lambda>_. exec_all e stmts)"

definition migrate :: "Engine \<Rightarrow> time \<Rightarrow> (unit, 'w) sql" where
  "migrate e now =
     sql_bind (exec_all e (replicate 12 Inr)) (\<lambda>_.
     exec e (\<lambda>t. Inr (if fmlookup (T_schema_migrations t) schemaVersion \<noteq> None then t
                      else t\<lparr>T_schema_migrations := fmupd schemaVersion (formatTime now) (T_schema_migrations t)\<rparr>)))"

definition sqlite_Open :: "Engine \<Rightarrow> unit res \<Rightarrow> string \<Rightarrow> time \<Rightarrow> (unit, 'w) sql" where
  "sqlite_Open e opened path now =
     (if TrimSpace path = [] then sql_res (Inl (Plain ''sqlite path is required''))
      else sql_bind (sql_res opened) (\<lambda>_. migrate e now))"

definition sqlite_Health :: "Engine \<Rightarrow> (unit, 'w) sql" where
  "sqlite_Health e = query_row e (\<lambda>_. ())"

end
