(* ===== verification/Store_Agreement.thy ===== *)
theory Store_Agreement
  imports SQLite_Store
begin

text \<open>
  The two stores behind the interface of \<^verbatim>\<open>internal/store/store.go\<close> answer alike.  An operation of the interface is a
  value of \<open>store_op\<close>; \<open>spec_run\<close> says what it means on the abstract state of \<^verbatim>\<open>Store_Spec\<close>, \<open>memory_run\<close> and \<open>sqlite_run\<close>
  run it on the two stores.  Both refine the abstract meaning as long as the operations are those a client of the interface
  makes (\<open>admissible\<close>), so a client cannot tell the stores apart by their answers.  The listing of due jobs is apart: it
  compares printed times, and \<open>whole_second_jobs_wait\<close> shows where that differs from the order of time.
\<close>

subsection \<open>Operations and their meaning\<close>

datatype store_op =
    OpCreateTopic Topic
  | OpUpdateTopic string "Topic \<Rightarrow> Topic res"
  | OpDeleteTopic string
  | OpCreateSubscription Subscription
  | OpUpdateSubscription string "Subscription \<Rightarrow> Subscription res"
  | OpDeleteSubscription string
  | OpPutConfirmationToken ConfirmationToken
  | OpDeleteConfirmationToken string
  | OpEnqueueDeliveryJob DeliveryJob
  | OpUpdateDeliveryJob string "DeliveryJob \<Rightarrow> DeliveryJob res"
  | OpDeleteDeliveryJob string
  | OpGetTopic string
  | OpFindTopicByName string
  | OpGetSubscription string
  | OpGetConfirmationToken string

datatype answer =
    Done "unit res"
  | ATopic "Topic res"
  | ASubscription "Subscription res"
  | AToken "ConfirmationToken res"
  | AJob "DeliveryJob res"
  | ASubscriptions "Subscription list res"

text \<open>A callback that touches nothing but the record; the world of such an operation is empty.\<close>

definition pure_callback :: "('t \<Rightarrow> 't res) \<Rightarrow> ('t, unit, unit) callback" where
  "pure_callback f x w = (case f x of Inl e \<Rightarrow> (Inl e, w) | Inr y \<Rightarrow> (Inr (y, ()), w))"

definition first_of :: "('t \<times> unit) res \<Rightarrow> 't res" where
  "first_of r = (case r of Inl e \<Rightarrow> Inl e | Inr (x, _) \<Rightarrow> Inr x)"

text \<open>A listed topic that the index names but the map lacks is nil; the memory store never has one.\<close>

definition the_topic :: "Topic option res \<Rightarrow> Topic res" where
  "the_topic r = (case r of Inl e \<Rightarrow> Inl e | Inr None \<Rightarrow> Inl ErrNotFound | Inr (Some t) \<Rightarrow> Inr t)"

definition spec_subs :: "astore \<Rightarrow> string \<Rightarrow> Subscription list" where
  "spec_subs a arn = List.map_filter (fmlookup (A_subs a)) (topic_sub_keys a arn)"

fun spec_run :: "store_op \<Rightarrow> astore \<Rightarrow> answer \<times> astore" where
  "spec_run (OpCreateTopic t) a = (case spec_CreateTopic t a of (r, a') \<Rightarrow> (Done r, a'))"
| "spec_run (OpUpdateTopic arn f) a =
     (case spec_UpdateTopic arn (pure_callback f) a () of (r, a', _) \<Rightarrow> (ATopic (first_of r), a'))"
| "spec_run (OpDeleteTopic arn) a = (ASubscriptions (Inr (spec_subs a arn)), spec_DeleteTopic arn a)"
| "spec_run (OpCreateSubscription s) a = (Done (Inr ()), spec_CreateSubscription s a)"
| "spec_run (OpUpdateSubscription arn f) a =
     (case spec_UpdateSubscription arn (pure_callback f) a () of (r, a', _) \<Rightarrow> (ASubscription (first_of r), a'))"
| "spec_run (OpDeleteSubscription arn) a = (case spec_DeleteSubscription arn a of (r, a') \<Rightarrow> (ASubscription r, a'))"
| "spec_run (OpPutConfirmationToken c) a = (Done (Inr ()), spec_PutConfirmationToken c a)"
| "spec_run (OpDeleteConfirmationToken k) a = (Done (Inr ()), spec_DeleteConfirmationToken k a)"
| "spec_run (OpEnqueueDeliveryJob j) a = (Done (Inr ()), spec_EnqueueDeliveryJob j a)"
| "spec_run (OpUpdateDeliveryJob jid f) a =
     (case fmlookup (A_jobs a) jid of
        None \<Rightarrow> (AJob (Inl ErrNotFound), a)
      | Some j \<Rightarrow>
          (case f j of
             Inl e \<Rightarrow> (AJob (Inl e), a)
           | Inr j' \<Rightarrow> (AJob (Inr j'), a\<lparr>A_jobs := fmupd jid j' (A_jobs a)\<rparr>)))"
| "spec_run (OpDeleteDeliveryJob jid) a = (Done (Inr ()), spec_DeleteDeliveryJob jid a)"
| "spec_run (OpGetTopic arn) a = (ATopic (spec_GetTopic a arn), a)"
| "spec_run (OpFindTopicByName name) a = (ATopic (the_topic (spec_FindTopicByName a name)), a)"
| "spec_run (OpGetSubscription arn) a = (ASubscription (spec_GetSubscription a arn), a)"
| "spec_run (OpGetConfirmationToken k) a = (AToken (spec_GetConfirmationToken a k), a)"

definition memory_answer :: "('a res \<Rightarrow> answer) \<Rightarrow> 'a res \<times> mstate \<times> unit \<Rightarrow> answer \<times> mstate" where
  "memory_answer wrap x = (case x of (r, s, _) \<Rightarrow> (wrap r, s))"

fun memory_run :: "store_op \<Rightarrow> mstate \<Rightarrow> answer \<times> mstate" where
  "memory_run (OpCreateTopic t) s = memory_answer Done (Store_CreateTopic t s ())"
| "memory_run (OpUpdateTopic arn f) s =
     memory_answer (ATopic \<circ> first_of) (Store_UpdateTopic arn (pure_callback f) s ())"
| "memory_run (OpDeleteTopic arn) s = memory_answer ASubscriptions (Store_DeleteTopic arn s ())"
| "memory_run (OpCreateSubscription u) s = memory_answer Done (Store_CreateSubscription u s ())"
| "memory_run (OpUpdateSubscription arn f) s =
     memory_answer (ASubscription \<circ> first_of) (Store_UpdateSubscription arn (pure_callback f) s ())"
| "memory_run (OpDeleteSubscription arn) s = memory_answer ASubscription (Store_DeleteSubscription arn s ())"
| "memory_run (OpPutConfirmationToken c) s = memory_answer Done (Store_PutConfirmationToken c s ())"
| "memory_run (OpDeleteConfirmationToken k) s = memory_answer Done (Store_DeleteConfirmationToken k s ())"
| "memory_run (OpEnqueueDeliveryJob j) s = memory_answer Done (Store_EnqueueDeliveryJob j s ())"
| "memory_run (OpUpdateDeliveryJob jid f) s =
     memory_answer (AJob \<circ> first_of) (Store_UpdateDeliveryJob jid (pure_callback f) s ())"
| "memory_run (OpDeleteDeliveryJob jid) s = (Done (Inr ()), Store_DeleteDeliveryJob jid s)"
| "memory_run (OpGetTopic arn) s = (ATopic (getTopic s arn), s)"
| "memory_run (OpFindTopicByName name) s = (ATopic (the_topic (findTopicByName s name)), s)"
| "memory_run (OpGetSubscription arn) s = (ASubscription (getSubscription s arn), s)"
| "memory_run (OpGetConfirmationToken k) s = (AToken (getConfirmationToken s k), s)"

definition sqlite_answer :: "('a res \<Rightarrow> answer) \<Rightarrow> 'a res \<times> conn \<times> unit \<Rightarrow> answer \<times> conn" where
  "sqlite_answer wrap x = (case x of (r, c, _) \<Rightarrow> (wrap r, c))"

fun sqlite_run :: "Engine \<Rightarrow> store_op \<Rightarrow> conn \<Rightarrow> answer \<times> conn" where
  "sqlite_run e (OpCreateTopic t) c = sqlite_answer Done (sqlite_Store_CreateTopic e t c ())"
| "sqlite_run e (OpUpdateTopic arn f) c =
     sqlite_answer (ATopic \<circ> first_of) (sqlite_Store_UpdateTopic e arn (pure_callback f) c ())"
| "sqlite_run e (OpDeleteTopic arn) c = sqlite_answer ASubscriptions (sqlite_Store_DeleteTopic e arn c ())"
| "sqlite_run e (OpCreateSubscription u) c = sqlite_answer Done (sqlite_Store_CreateSubscription e u c ())"
| "sqlite_run e (OpUpdateSubscription arn f) c =
     sqlite_answer (ASubscription \<circ> first_of) (sqlite_Store_UpdateSubscription e arn (pure_callback f) c ())"
| "sqlite_run e (OpDeleteSubscription arn) c = sqlite_answer ASubscription (sqlite_Store_DeleteSubscription e arn c ())"
| "sqlite_run e (OpPutConfirmationToken k) c = sqlite_answer Done (sqlite_Store_PutConfirmationToken e k c ())"
| "sqlite_run e (OpDeleteConfirmationToken k) c = sqlite_answer Done (sqlite_Store_DeleteConfirmationToken e k c ())"
| "sqlite_run e (OpEnqueueDeliveryJob j) c = sqlite_answer Done (sqlite_Store_EnqueueDeliveryJob e j c ())"
| "sqlite_run e (OpUpdateDeliveryJob jid f) c =
     sqlite_answer (AJob \<circ> first_of) (sqlite_Store_UpdateDeliveryJob e jid (pure_callback f) c ())"
| "sqlite_run e (OpDeleteDeliveryJob jid) c = sqlite_answer Done (sqlite_Store_DeleteDeliveryJob e jid c ())"
| "sqlite_run e (OpGetTopic arn) c = sqlite_answer ATopic (sqlite_getTopic e arn c ())"
| "sqlite_run e (OpFindTopicByName name) c = sqlite_answer ATopic (sqlite_findTopicByName e name c ())"
| "sqlite_run e (OpGetSubscription arn) c = sqlite_answer ASubscription (sqlite_getSubscription e arn c ())"
| "sqlite_run e (OpGetConfirmationToken k) c = sqlite_answer AToken (sqlite_getConfirmationToken e k c ())"

subsection \<open>Which operations are made\<close>

text \<open>A job whose attributes are listed by name, the order in which they are read back.\<close>

definition job_storable :: "DeliveryJob \<Rightarrow> bool" where
  "job_storable j \<longleftrightarrow>
     payload_storable (Job_Payload j) \<and> year_in_range (Job_NextAttemptAt j) \<and> year_in_range (Job_CreatedAt j) \<and>
     year_in_range (Job_UpdatedAt j) \<and> sorted (map fst (Pay_MessageAttributes (Job_Payload j))) \<and>
     cloneMessageAttributes (Pay_MessageAttributes (Job_Payload j)) = Pay_MessageAttributes (Job_Payload j)"

definition storable :: "astore \<Rightarrow> bool" where
  "storable a \<longleftrightarrow>
     (\<forall>k t. fmlookup (A_topics a) k = Some t \<longrightarrow> topic_storable t) \<and>
     (\<forall>k s. fmlookup (A_subs a) k = Some s \<longrightarrow> sub_storable s) \<and>
     (\<forall>k c. fmlookup (A_tokens a) k = Some c \<longrightarrow> token_storable c) \<and>
     (\<forall>k j. fmlookup (A_jobs a) k = Some j \<longrightarrow> job_storable j)"

definition has_topic_in :: "astore \<Rightarrow> string \<Rightarrow> bool" where
  "has_topic_in a arn \<longleftrightarrow> fmlookup (A_topics a) arn \<noteq> None"

fun admissible :: "store_op \<Rightarrow> astore \<Rightarrow> bool" where
  "admissible (OpCreateTopic t) a \<longleftrightarrow>
     topic_storable t \<and> (\<forall>u. fmlookup (A_topics a) (Topic_ARN t) = Some u \<longrightarrow> Topic_Name u = Topic_Name t)"
| "admissible (OpUpdateTopic arn f) a \<longleftrightarrow>
     (\<forall>t t'. f t = Inr t' \<longrightarrow> topic_storable t \<longrightarrow> topic_storable t') \<and>
     (\<forall>t t'. f t = Inr t' \<longrightarrow> Topic_ARN t' = Topic_ARN t \<and> Topic_Name t' = Topic_Name t)"
| "admissible (OpDeleteTopic arn) a \<longleftrightarrow> TrimSpace arn \<noteq> [] \<and> length (topic_sub_keys a arn) \<le> 100000"
| "admissible (OpCreateSubscription s) a \<longleftrightarrow>
     sub_storable s \<and> has_topic_in a (Sub_TopicARN s) \<and> fmlookup (A_subs a) (Sub_ARN s) = None"
| "admissible (OpUpdateSubscription arn f) a \<longleftrightarrow>
     (\<forall>s s'. f s = Inr s' \<longrightarrow> sub_storable s \<longrightarrow> sub_storable s') \<and>
     (\<forall>s s'. f s = Inr s' \<longrightarrow> Sub_ARN s' = Sub_ARN s \<and> Sub_TopicARN s' = Sub_TopicARN s)"
| "admissible (OpDeleteSubscription arn) a \<longleftrightarrow> TrimSpace arn \<noteq> []"
| "admissible (OpPutConfirmationToken c) a \<longleftrightarrow>
     token_storable c \<and> has_topic_in a (Tok_TopicARN c) \<and>
     (Tok_Kind c = ''subscribe'' \<longrightarrow>
        (\<exists>s. fmlookup (A_subs a) (Tok_SubscriptionARN c) = Some s \<and> Sub_TopicARN s = Tok_TopicARN c)) \<and>
     (Tok_Kind c = ''unsubscribe'' \<longrightarrow>
        (\<exists>s. Tok_Restore c = Some s \<and> Sub_ARN s = Tok_SubscriptionARN c \<and> Sub_TopicARN s = Tok_TopicARN c))"
| "admissible (OpEnqueueDeliveryJob j) a \<longleftrightarrow> job_storable j \<and> has_topic_in a (Pay_TopicARN (Job_Payload j))"
| "admissible (OpUpdateDeliveryJob jid f) a \<longleftrightarrow>
     (\<forall>j j'. f j = Inr j' \<longrightarrow> job_storable j \<longrightarrow> job_storable j') \<and>
     (\<forall>j j'. f j = Inr j' \<longrightarrow> Job_ID j' = Job_ID j \<and> Pay_TopicARN (Job_Payload j') = Pay_TopicARN (Job_Payload j))"
| "admissible _ a \<longleftrightarrow> True"

fun admissible_run :: "store_op list \<Rightarrow> astore \<Rightarrow> bool" where
  "admissible_run [] a \<longleftrightarrow> True"
| "admissible_run (op # ops) a \<longleftrightarrow> admissible op a \<and> admissible_run ops (snd (spec_run op a))"

fun answers_of :: "(store_op \<Rightarrow> 's \<Rightarrow> answer \<times> 's) \<Rightarrow> store_op list \<Rightarrow> 's \<Rightarrow> answer list" where
  "answers_of run [] s = []"
| "answers_of run (op # ops) s = (case run op s of (r, s') \<Rightarrow> r # answers_of run ops s')"

text \<open>A store that never fails: every statement succeeds, foreign keys are enforced, and \<^verbatim>\<open>json_extract\<close> finds the topic of
  a payload.\<close>

definition steady :: "Engine \<Rightarrow> bool" where
  "steady e \<longleftrightarrow>
     (\<forall>n. E_fault e n = None \<and> E_rows e n = None \<and> E_foreign_keys e n) \<and>
     (\<forall>p. payload_storable p \<longrightarrow> E_json_extract e (mustJSON payload_fields p) = Inr (Some (Pay_TopicARN p)))"

subsection \<open>The memory store\<close>

lemma pure_callback_keeps:
  "\<forall>t t'. f t = Inr t' \<longrightarrow> Topic_ARN t' = Topic_ARN t \<and> Topic_Name t' = Topic_Name t \<Longrightarrow> keeps_topic (pure_callback f)"
  "\<forall>s s'. g s = Inr s' \<longrightarrow> Sub_ARN s' = Sub_ARN s \<and> Sub_TopicARN s' = Sub_TopicARN s \<Longrightarrow> keeps_sub (pure_callback g)"
  by (auto simp: keeps_topic_def keeps_sub_def pure_callback_def split: sum.splits)

lemma integrity_put_job:
  assumes "integrity a" "fmlookup (A_jobs a) jid = Some j" "Job_ID j' = Job_ID j" "Pay_TopicARN (Job_Payload j') = Pay_TopicARN (Job_Payload j)"
  shows "integrity (a\<lparr>A_jobs := fmupd jid j' (A_jobs a)\<rparr>)"
  using assms unfolding integrity_defs by (auto split: if_splits)

lemma spec_run_integrity:
  assumes "integrity a" "admissible op a"
  shows "integrity (snd (spec_run op a))"
proof (cases op)
  case (OpCreateTopic t)
  show ?thesis
  proof (cases "fmlookup (A_topics a) (Topic_ARN t)")
    case None
    then show ?thesis using integrity_CreateTopic [OF assms(1) None] by (cases "spec_CreateTopic t a") (simp add: OpCreateTopic)
  next
    case (Some u)
    with assms(2) have "named a (Topic_Name t) (Topic_ARN t)" by (simp add: OpCreateTopic named_iff)
    with Some have "\<exists>arn \<in> set (sorted_keys (A_topics a)). named a (Topic_Name t) arn" by (auto simp: fmlookup_dom_iff)
    then show ?thesis using assms(1) by (simp add: OpCreateTopic spec_CreateTopic_def)
  qed
next
  case (OpUpdateTopic arn f)
  obtain r a' w where "spec_UpdateTopic arn (pure_callback f) a () = (r, a', w)" by (metis prod_cases3)
  with integrity_UpdateTopic [OF assms(1) pure_callback_keeps(1) this] assms(2) show ?thesis by (simp add: OpUpdateTopic)
next
  case (OpUpdateSubscription arn f)
  obtain r a' w where "spec_UpdateSubscription arn (pure_callback f) a () = (r, a', w)" by (metis prod_cases3)
  with integrity_UpdateSubscription [OF assms(1) pure_callback_keeps(2) this] assms(2) show ?thesis by (simp add: OpUpdateSubscription)
next
  case (OpDeleteTopic arn)
  with integrity_DeleteTopic [OF assms(1)] show ?thesis by simp
next
  case (OpCreateSubscription s)
  with assms integrity_CreateSubscription [of a s] show ?thesis by (simp add: has_topic_in_def)
next
  case (OpDeleteSubscription arn)
  with integrity_DeleteSubscription [OF assms(1), of arn] show ?thesis by (cases "spec_DeleteSubscription arn a") simp
next
  case (OpPutConfirmationToken c)
  with assms integrity_PutConfirmationToken [of a c] show ?thesis by (simp add: has_topic_in_def)
next
  case (OpEnqueueDeliveryJob j)
  with assms integrity_EnqueueDeliveryJob [of a j] show ?thesis by (simp add: has_topic_in_def)
next
  case (OpUpdateDeliveryJob jid f)
  with assms show ?thesis by (auto split: option.split sum.split intro!: integrity_put_job)
qed (use assms in \<open>simp_all add: integrity_DeleteConfirmationToken integrity_DeleteDeliveryJob\<close>)

lemma memory_refines:
  assumes "mem_inv s" "integrity (mem_abs s)" "admissible op (mem_abs s)"
  shows "fst (memory_run op s) = fst (spec_run op (mem_abs s)) \<and> mem_inv (snd (memory_run op s)) \<and>
    mem_abs (snd (memory_run op s)) = snd (spec_run op (mem_abs s))"
proof (cases op)
  case (OpCreateTopic t)
  obtain r s' where m: "mem_create_topic t s = (r, s')" by (cases "mem_create_topic t s")
  then have sp: "spec_CreateTopic t (mem_abs s) = (r, mem_abs s')" using mem.create_topic [OF assms(1), of t] by simp
  have st: "Store_CreateTopic t s () = (case r of Inl e \<Rightarrow> (Inl e, s, ()) | Inr u \<Rightarrow> (Inr u, s', ()))"
    using m by (auto simp: Store_CreateTopic_def Tx_cases mem_create_topic_def split: prod.splits sum.splits)
  show ?thesis
  proof (cases r)
    case (Inl e)
    with sp have "mem_abs s' = mem_abs s" by (auto simp: spec_CreateTopic_def split: if_splits)
    with assms Inl sp st show ?thesis by (simp add: OpCreateTopic memory_answer_def)
  next
    case (Inr u)
    have "fmlookup (topics s) (Topic_ARN t) = None"
    proof (rule ccontr)
      assume "fmlookup (topics s) (Topic_ARN t) \<noteq> None"
      then obtain u where u: "fmlookup (topics s) (Topic_ARN t) = Some u" by blast
      with assms(3) have "named (mem_abs s) (Topic_Name t) (Topic_ARN t)" by (simp add: OpCreateTopic named_iff)
      moreover have "Topic_ARN t \<in> set (sorted_keys (A_topics (mem_abs s)))" using u by (simp add: fmlookup_dom_iff)
      ultimately show False using sp Inr by (auto simp: spec_CreateTopic_def split: if_splits)
    qed
    then have "mem_inv s'" using mem_create_topic_inv [OF assms(1), of t] m by simp
    with Inr sp st show ?thesis by (simp add: OpCreateTopic memory_answer_def)
  qed
next
  case (OpUpdateTopic arn f)
  obtain r s' w where m: "tx_UpdateTopic arn (pure_callback f) s () = (r, s', w)" by (metis prod_cases3)
  have k: "keeps_topic (pure_callback f)" using assms(3) by (intro pure_callback_keeps) (simp add: OpUpdateTopic)
  from m have "spec_UpdateTopic arn (pure_callback f) (mem_abs s) () = (r, mem_abs s', w)" "mem_inv s'"
    using mem.update_topic [of arn "pure_callback f" s "()"] mem.update_topic_inv [OF assms(1) k, of arn "()"] by simp_all
  moreover have "r = Inl e \<Longrightarrow> s' = s" for e
    using m by (auto simp: tx_UpdateTopic_def split: option.splits prod.splits sum.splits)
  ultimately show ?thesis
    using m by (cases r) (auto simp: OpUpdateTopic memory_answer_def Store_UpdateTopic_def Tx_cases)
next
  case (OpUpdateSubscription arn f)
  obtain r s' w where m: "tx_UpdateSubscription arn (pure_callback f) s () = (r, s', w)" by (metis prod_cases3)
  have k: "keeps_sub (pure_callback f)" using assms(3) by (intro pure_callback_keeps) (simp add: OpUpdateSubscription)
  from m have "spec_UpdateSubscription arn (pure_callback f) (mem_abs s) () = (r, mem_abs s', w)" "mem_inv s'"
    using mem.update_sub [of arn "pure_callback f" s "()"] mem.update_sub_inv [OF assms(1) k, of arn "()"] by simp_all
  moreover have "r = Inl e \<Longrightarrow> s' = s" for e
    using m by (auto simp: tx_UpdateSubscription_def split: option.splits prod.splits sum.splits)
  ultimately show ?thesis
    using m by (cases r) (auto simp: OpUpdateSubscription memory_answer_def Store_UpdateSubscription_def Tx_cases)
next
  case (OpDeleteTopic arn)
  have "fst (tx_DeleteTopic arn s) = Inr (spec_subs (mem_abs s) arn)"
  proof (cases "fmlookup (topics s) arn")
    case None
    then have "\<not> in_topic (mem_abs s) arn k" for k
      using assms(2) unfolding integrity_def refs_ok_def in_topic_iff by fastforce
    then show ?thesis using None by (simp add: tx_DeleteTopic_def spec_subs_def topic_sub_keys_def List.map_filter_def)
  next
    case (Some t)
    then show ?thesis
      by (simp add: tx_DeleteTopic_def Let_def spec_subs_def topic_sub_keys_refines [OF assms(1)])
  qed
  moreover have "\<exists>l. fst (tx_DeleteTopic arn s) = Inr l" by (simp add: tx_DeleteTopic_def Let_def split: option.split)
  ultimately show ?thesis
    using mem.delete_topic [OF assms(1), of arn] mem.delete_topic_inv [OF assms(1), of arn]
    by (cases "tx_DeleteTopic arn s") (auto simp: OpDeleteTopic memory_answer_def Store_DeleteTopic_def Tx_cases)
next
  case (OpCreateSubscription u)
  have "mem_inv (snd (tx_CreateSubscription u s))" using assms by (intro mem.create_sub_inv) (simp_all add: OpCreateSubscription)
  then show ?thesis
    using mem.create_sub [of u s]
    by (simp add: OpCreateSubscription memory_answer_def Store_CreateSubscription_def Tx_cases tx_CreateSubscription_def)
next
  case (OpDeleteSubscription arn)
  obtain r s' where m: "tx_DeleteSubscription arn s = (r, s')" by (cases "tx_DeleteSubscription arn s")
  then have "spec_DeleteSubscription arn (mem_abs s) = (r, mem_abs s')" "mem_inv s'"
    using mem.delete_sub [of arn s] mem.delete_sub_inv [OF assms(1), of arn] by simp_all
  moreover have "r = Inl e \<Longrightarrow> s' = s" for e using m by (auto simp: tx_DeleteSubscription_def split: option.splits)
  ultimately show ?thesis
    using m by (cases r) (auto simp: OpDeleteSubscription memory_answer_def Store_DeleteSubscription_def Tx_cases)
next
  case (OpPutConfirmationToken c)
  then show ?thesis using mem.put_token [of c s] mem.put_token_inv [OF assms(1), of c]
    by (simp add: memory_answer_def Store_PutConfirmationToken_def Tx_cases)
next
  case (OpDeleteConfirmationToken k)
  then show ?thesis using mem.delete_token [of k s] mem.delete_token_inv [OF assms(1), of k]
    by (simp add: memory_answer_def Store_DeleteConfirmationToken_def Tx_cases)
next
  case (OpEnqueueDeliveryJob j)
  then show ?thesis using mem.enqueue [of j s] mem.enqueue_inv [OF assms(1), of j]
    by (simp add: memory_answer_def Store_EnqueueDeliveryJob_def Tx_cases tx_EnqueueDeliveryJob_def)
next
  case (OpUpdateDeliveryJob jid f)
  have "mem_inv (s\<lparr>deliveryJobs := x\<rparr>) = mem_inv s" for x by (simp add: mem_inv_def topicSubs_def)
  then show ?thesis using assms(1)
    by (auto simp: OpUpdateDeliveryJob memory_answer_def Store_UpdateDeliveryJob_def Tx_cases pure_callback_def first_of_def mem_abs_def
        split: option.split sum.split)
next
  case (OpDeleteDeliveryJob jid)
  then show ?thesis using mem.delete_job [of jid s] mem.delete_job_inv [OF assms(1), of jid] by simp
qed (use assms mem.get_topic mem.find_topic mem.get_sub mem.get_token in simp_all)

subsection \<open>The SQLite store\<close>

definition holds_store :: "tables \<Rightarrow> astore \<Rightarrow> bool" where
  "holds_store t a \<longleftrightarrow>
     T_topics t = fmmap_keys topic_row (A_topics a) \<and> T_subscriptions t = fmmap_keys sub_row (A_subs a) \<and>
     T_confirmation_tokens t = fmmap_keys (\<lambda>_. token_row) (A_tokens a) \<and> T_delivery_jobs t = fmmap_keys (\<lambda>_. job_row) (A_jobs a)"

lemma fmmap_keys_fmupd: "fmmap_keys f (fmupd k v m) = fmupd k (f k v) (fmmap_keys f m)"
  by (rule fmap_ext) simp

lemma fmkeep_fmmap_keys: "fmkeep P (fmmap_keys f m) = fmmap_keys f (fmfilter (\<lambda>k. case fmlookup m k of None \<Rightarrow> False | Some v \<Rightarrow> P (f k v)) m)"
  by (rule fmap_ext) (auto split: option.split)

lemma steady_statements:
  assumes "steady e"
  shows "exec e stmt c w =
      (case stmt (C_tables c) of
         Inl err \<Rightarrow> (Inl err, c\<lparr>C_count := Suc (C_count c)\<rparr>, w)
       | Inr t \<Rightarrow> (Inr (), c\<lparr>C_count := Suc (C_count c), C_tables := t\<rparr>, w))"
    "query_row e sel c w = (Inr (sel (C_tables c)), c\<lparr>C_count := Suc (C_count c)\<rparr>, w)"
    "query e rows c w = (Inr (rows (C_tables c), True), c\<lparr>C_count := Suc (C_count c)\<rparr>, w)"
    "sqlite_Tx e fn c w =
      (case fn True (c\<lparr>C_count := Suc (C_count c)\<rparr>) w of
         (Inl err, c', w') \<Rightarrow> (Inl err, c'\<lparr>C_tables := C_tables c, C_count := Suc (C_count c')\<rparr>, w')
       | (Inr a, c', w') \<Rightarrow> (Inr a, c'\<lparr>C_count := Suc (C_count c')\<rparr>, w'))"
  using assms by (simp_all add: exec_def query_row_def query_def sqlite_Tx_def steady_def Let_def split: sum.split prod.split)

lemma entries_fmmap_keys: "sorted_entries (fmmap_keys f m) = map (\<lambda>(k, v). (k, f k v)) (sorted_entries m)"
proof -
  have "sorted_keys (fmmap_keys f m) = sorted_keys m" by (simp add: sorted_keys_def)
  moreover have "List.map_filter (\<lambda>k. map_option (Pair k) (map_option (f k) (fmlookup m k))) ks =
      map (\<lambda>(k, v). (k, f k v)) (List.map_filter (\<lambda>k. map_option (Pair k) (fmlookup m k)) ks)" for ks
    by (induction ks) (auto simp: List.map_filter_simps split: option.split)
  ultimately show ?thesis by (simp add: sorted_entries_def)
qed

text \<open>A row that is read gives the record it was written from.\<close>

lemma rows_read:
  "topic_storable t \<Longrightarrow> fromJSON topic_fields zeroTopic (TR_data_json (topic_row k t)) = Inr t"
  "sub_storable s \<Longrightarrow> fromJSON subscription_fields zeroSubscription (SR_data_json (sub_row k s)) = Inr s"
  "token_storable c \<Longrightarrow> fromJSON token_fields zeroToken (KR_data_json (token_row c)) = Inr c"
  by (simp_all add: topic_row_def sub_row_def token_row_def stored_structs_read)

lemma job_row_read:
  assumes "job_storable j"
  shows "scanDeliveryJob (Some (job_row j)) = Inr j"
proof -
  have "sort_key fst (Pay_MessageAttributes (Job_Payload j)) = Pay_MessageAttributes (Job_Payload j)"
    using assms by (intro sort_key_id_if_sorted) (simp add: job_storable_def)
  then have "fromJSON payload_fields zeroPayload (mustJSON payload_fields (Job_Payload j)) = Inr (Job_Payload j)"
    using assms by (simp add: job_storable_def stored_structs_read)
  moreover have "CopyDeliveryJobPayload (Job_Payload j) = Job_Payload j"
    using assms by (simp add: job_storable_def CopyDeliveryJobPayload_def)
  moreover have "parseTime (formatTime x) = Inr x" if "year_in_range x" for x
    using that by (simp add: parseTime_def formatTime_def parse_format_rfc3339)
  ultimately show ?thesis using assms by (simp add: scanDeliveryJob_def job_row_def job_storable_def boolInt_def)
qed

lemma getters_read:
  assumes "steady e" "holds_store (C_tables c) a" "storable a"
  shows "sqlite_getTopic e arn c w = (spec_GetTopic a arn, c\<lparr>C_count := Suc (C_count c)\<rparr>, w)"
    "sqlite_getSubscription e arn c w = (spec_GetSubscription a arn, c\<lparr>C_count := Suc (C_count c)\<rparr>, w)"
    "sqlite_getConfirmationToken e k c w = (spec_GetConfirmationToken a k, c\<lparr>C_count := Suc (C_count c)\<rparr>, w)"
    "sqlite_getDeliveryJob e jid c w = (of_option ErrNotFound (fmlookup (A_jobs a) jid), c\<lparr>C_count := Suc (C_count c)\<rparr>, w)"
  using assms
  by (auto simp: sqlite_getTopic_def sqlite_getSubscription_def sqlite_getConfirmationToken_def sqlite_getDeliveryJob_def sql_bind_def
      steady_statements data_json_def sql_res_def holds_store_def storable_def rows_read job_row_read of_option_def spec_GetTopic_def
      spec_GetSubscription_def spec_GetConfirmationToken_def scanDeliveryJob_def [of None] split: option.split)

lemma topic_named_row:
  assumes "holds_store t a"
  shows "topic_named name t =
    (case filter (named a name) (sorted_keys (A_topics a)) of [] \<Rightarrow> None | k # _ \<Rightarrow> map_option (topic_row k) (fmlookup (A_topics a) k))"
proof -
  have f: "filter (\<lambda>row. TR_name row = name) (map (snd \<circ> (\<lambda>(k, v). (k, topic_row k v))) kvs) =
      map (\<lambda>(k, v). topic_row k v) (filter (\<lambda>(k, v). Topic_Name v = name) kvs)" for kvs
    by (induction kvs) (auto simp: topic_row_def)
  have "filter (named a name) (sorted_keys (A_topics a)) = map fst (filter (\<lambda>(k, v). Topic_Name v = name) (sorted_entries (A_topics a)))"
  proof -
    have "filter (named a name) (map fst kvs) = map fst (filter (\<lambda>(k, v). Topic_Name v = name) kvs)"
      if "\<forall>(k, v) \<in> set kvs. fmlookup (A_topics a) k = Some v" for kvs
      using that by (induction kvs) (auto simp: named_def)
    moreover have "\<forall>(k, v) \<in> set (sorted_entries (A_topics a)). fmlookup (A_topics a) k = Some v" by (auto simp: sorted_entries_keys)
    ultimately have "filter (named a name) (map fst (sorted_entries (A_topics a))) =
        map fst (filter (\<lambda>(k, v). Topic_Name v = name) (sorted_entries (A_topics a)))" by blast
    then show ?thesis by (simp only: sorted_entries_keys)
  qed
  moreover have "fmlookup (A_topics a) k = Some v" if "filter (\<lambda>(k, v). Topic_Name v = name) (sorted_entries (A_topics a)) = (k, v) # rest" for k v rest
  proof -
    have "(k, v) \<in> set (filter (\<lambda>(k, v). Topic_Name v = name) (sorted_entries (A_topics a)))" unfolding that by simp
    then show ?thesis by (simp add: sorted_entries_keys)
  qed
  ultimately show ?thesis
    using assms by (cases "filter (\<lambda>(k, v). Topic_Name v = name) (sorted_entries (A_topics a))")
      (auto simp: topic_named_def holds_store_def entries_fmmap_keys f)
qed

lemma find_read:
  assumes "steady e" "holds_store (C_tables c) a" "storable a"
  shows "sqlite_findTopicByName e name c w = (the_topic (spec_FindTopicByName a name), c\<lparr>C_count := Suc (C_count c)\<rparr>, w)"
proof (cases "filter (named a name) (sorted_keys (A_topics a))")
  case Nil
  then show ?thesis using assms(1) topic_named_row [OF assms(2), of name]
    by (simp add: sqlite_findTopicByName_def sql_bind_def steady_statements data_json_def sql_res_def spec_FindTopicByName_def the_topic_def)
next
  case (Cons k ks)
  then have "k \<in> set (filter (named a name) (sorted_keys (A_topics a)))" by simp
  then obtain t where "fmlookup (A_topics a) k = Some t" by (auto simp: named_iff)
  with Cons assms(1,3) show ?thesis using topic_named_row [OF assms(2), of name]
    by (simp add: sqlite_findTopicByName_def sql_bind_def steady_statements data_json_def sql_res_def spec_FindTopicByName_def the_topic_def
        rows_read storable_def)
qed

lemma name_taken_iff:
  assumes "holds_store t a"
  shows "name_taken arn name t \<longleftrightarrow> (\<exists>k u. k \<noteq> arn \<and> fmlookup (A_topics a) k = Some u \<and> Topic_Name u = name)"
proof -
  have "list_ex (\<lambda>(k, row). k \<noteq> arn \<and> TR_name row = name) (map (\<lambda>(k, v). (k, topic_row k v)) kvs) \<longleftrightarrow>
      (\<exists>(k, u) \<in> set kvs. k \<noteq> arn \<and> Topic_Name u = name)" for kvs
    by (induction kvs) (auto simp: topic_row_def)
  with assms show ?thesis by (auto simp: name_taken_def holds_store_def entries_fmmap_keys sorted_entries_keys Bex_def)
qed

lemma unique_errors: "isUniqueErr (unique_failed ''topics.arn'')" "isUniqueErr (unique_failed ''topics.name'')"
  by (code_simp, code_simp)

lemma name_conflict:
  "(\<exists>arn \<in> set (sorted_keys (A_topics a)). named a name arn) \<longleftrightarrow> (\<exists>k u. fmlookup (A_topics a) k = Some u \<and> Topic_Name u = name)"
  by (auto simp: named_iff fmlookup_dom_iff)

lemma create_topic_refines:
  assumes "steady e" "holds_store (C_tables c) a" "storable a" "admissible (OpCreateTopic t) a"
  shows "fst (sqlite_run e (OpCreateTopic t) c) = fst (spec_run (OpCreateTopic t) a) \<and>
    holds_store (C_tables (snd (sqlite_run e (OpCreateTopic t) c))) (snd (spec_run (OpCreateTopic t) a))"
proof (cases "\<exists>k u. fmlookup (A_topics a) k = Some u \<and> Topic_Name u = Topic_Name t")
  case True
  then have sp: "spec_CreateTopic t a = (Inl ErrConflict, a)" using name_conflict by (simp add: spec_CreateTopic_def)
  have "fmlookup (T_topics (C_tables c)) (Topic_ARN t) \<noteq> None \<or> name_taken (Topic_ARN t) (Topic_Name t) (C_tables c)"
  proof -
    obtain k u where "fmlookup (A_topics a) k = Some u" "Topic_Name u = Topic_Name t" using True by blast
    then show ?thesis
      using name_taken_iff [OF assms(2), of "Topic_ARN t" "Topic_Name t"] assms(2) by (cases "k = Topic_ARN t") (auto simp: holds_store_def)
  qed
  then obtain err where ins: "insert_topic t (C_tables c) = Inl err" "isUniqueErr err"
    using unique_errors unfolding insert_topic_def by (cases "fmlookup (T_topics (C_tables c)) (Topic_ARN t) \<noteq> None") metis+
  have "filter (named a (Topic_Name t)) (sorted_keys (A_topics a)) \<noteq> []"
    using True by (auto simp: filter_empty_conv named_iff fmlookup_dom_iff)
  then obtain k ks where ks: "filter (named a (Topic_Name t)) (sorted_keys (A_topics a)) = k # ks" by (meson neq_Nil_conv)
  then have "k \<in> set (filter (named a (Topic_Name t)) (sorted_keys (A_topics a)))" by simp
  then obtain u where u: "fmlookup (A_topics a) k = Some u" by (auto simp: named_iff)
  have found: "sqlite_findTopicByName e (Topic_Name t) c' w = (Inr u, c'\<lparr>C_count := Suc (C_count c')\<rparr>, w)" if "C_tables c' = C_tables c" for c' and w :: unit
    using find_read [OF assms(1), of c' a "Topic_Name t" w] assms(2,3) that ks u by (simp add: spec_FindTopicByName_def the_topic_def)
  show ?thesis
    using sp ins found assms(1,2)
    by (simp add: sqlite_Store_CreateTopic_def sqlite_answer_def steady_statements sqlite_CreateTopic_def)
next
  case False
  then have sp: "spec_CreateTopic t a = (Inr (), a\<lparr>A_topics := fmupd (Topic_ARN t) t (A_topics a)\<rparr>)"
    using name_conflict by (simp add: spec_CreateTopic_def)
  have "fmlookup (A_topics a) (Topic_ARN t) = None" using assms(4) False by (cases "fmlookup (A_topics a) (Topic_ARN t)") auto
  then have ins: "insert_topic t (C_tables c) =
      Inr (C_tables c\<lparr>T_topics := fmupd (Topic_ARN t) (topic_row (Topic_ARN t) t) (T_topics (C_tables c))\<rparr>)"
    using name_taken_iff [OF assms(2)] assms(2) False by (auto simp: insert_topic_def holds_store_def)
  then show ?thesis
    using sp assms(1,2)
    by (simp add: sqlite_Store_CreateTopic_def sqlite_answer_def steady_statements sqlite_CreateTopic_def holds_store_def fmmap_keys_fmupd)
qed

lemma update_topic_refines:
  assumes "steady e" "holds_store (C_tables c) a" "storable a" "integrity a" "admissible (OpUpdateTopic arn f) a"
  shows "fst (sqlite_run e (OpUpdateTopic arn f) c) = fst (spec_run (OpUpdateTopic arn f) a) \<and>
    holds_store (C_tables (snd (sqlite_run e (OpUpdateTopic arn f) c))) (snd (spec_run (OpUpdateTopic arn f) a))"
proof (cases "fmlookup (A_topics a) arn")
  case None
  then show ?thesis using assms(1-3)
    by (simp add: sqlite_Store_UpdateTopic_def sqlite_UpdateTopic_def steady_statements sql_bind_def getters_read sqlite_answer_def
        spec_UpdateTopic_def run_update_def spec_GetTopic_def)
next
  case (Some t)
  have upd: "update_topic_row arn t' (C_tables c) = Inr (C_tables c\<lparr>T_topics := fmupd arn (topic_row arn t') (T_topics (C_tables c))\<rparr>)"
    if "f t = Inr t'" for t'
  proof -
    have "Topic_Name t' = Topic_Name t" using assms(5) that by simp
    moreover have "k = arn" if "fmlookup (A_topics a) k = Some u" "Topic_Name u = Topic_Name t" for k u
      using assms(4) Some that unfolding integrity_def names_unique_def by blast
    ultimately have "\<not> name_taken arn (Topic_Name t') (C_tables c)" using name_taken_iff [OF assms(2)] by metis
    with Some assms(2) show ?thesis by (simp add: update_topic_row_def holds_store_def)
  qed
  show ?thesis
    using assms(1-3) Some upd
    by (cases "f t") (simp_all add: sqlite_Store_UpdateTopic_def sqlite_UpdateTopic_def steady_statements sql_bind_def getters_read
        sqlite_answer_def spec_UpdateTopic_def run_update_def spec_GetTopic_def sql_callback_def pure_callback_def sql_return_def
        first_of_def holds_store_def fmmap_keys_fmupd)
qed

text \<open>The subscriptions that a deletion lists.\<close>

lemma listed_subs:
  assumes "steady e" "holds_store (C_tables c) a" "storable a" "TrimSpace arn \<noteq> []" "length (topic_sub_keys a arn) \<le> 100000"
  shows "sqlite_listSubscriptions e arn [] 100000 c w = (Inr (spec_subs a arn, []), c\<lparr>C_count := Suc (C_count c)\<rparr>, w)"
proof -
  let ?kvs = "filter (\<lambda>(k, s). Sub_TopicARN s = arn) (sorted_entries (A_subs a))"
  have "sub_texts arn (C_tables c) = map (\<lambda>(k, s). SR_data_json (sub_row k s)) ?kvs"
  proof -
    have "map (SR_data_json \<circ> snd) (filter (\<lambda>(_, row). SR_topic_arn row = arn) (map (\<lambda>(k, v). (k, sub_row k v)) kvs)) =
        map (\<lambda>(k, s). SR_data_json (sub_row k s)) (filter (\<lambda>(k, s). Sub_TopicARN s = arn) kvs)" for kvs
      by (induction kvs) (auto simp: sub_row_def)
    then show ?thesis using assms(2,4) by (simp add: sub_texts_def holds_store_def entries_fmmap_keys)
  qed
  moreover have "all_some (map (\<lambda>raw. case fromJSON subscription_fields zeroSubscription raw of Inl _ \<Rightarrow> None | Inr r \<Rightarrow> Some r)
      (map (\<lambda>(k, s). SR_data_json (sub_row k s)) kvs)) = Some (map snd kvs)" if "\<forall>(k, s) \<in> set kvs. sub_storable s" for kvs
    using that by (induction kvs) (auto simp: rows_read)
  moreover have "\<forall>(k, s) \<in> set ?kvs. sub_storable s" using assms(3) by (auto simp: sorted_entries_keys storable_def)
  moreover have keys: "topic_sub_keys a arn = map fst ?kvs" "spec_subs a arn = map snd ?kvs"
  proof -
    have mem: "\<forall>(k, s) \<in> set (sorted_entries (A_subs a)). fmlookup (A_subs a) k = Some s" by (auto simp: sorted_entries_keys)
    have "filter (in_topic a arn) (map fst kvs) = map fst (filter (\<lambda>(k, s). Sub_TopicARN s = arn) kvs) \<and>
        List.map_filter (fmlookup (A_subs a)) (map fst kvs) = map snd kvs"
      if "\<forall>(k, s) \<in> set kvs. fmlookup (A_subs a) k = Some s" for kvs
      using that by (induction kvs) (auto simp: in_topic_def List.map_filter_simps)
    from this [OF mem] this [of ?kvs] mem show "topic_sub_keys a arn = map fst ?kvs" "spec_subs a arn = map snd ?kvs"
      by (auto simp: topic_sub_keys_def spec_subs_def sorted_entries_keys(1) simp del: map_filter_map_filter)
  qed
  moreover have "wrap64 100001 = 100001" by (simp add: wrap64_def)
  moreover have "tokenOffset [] = 0" by (simp add: tokenOffset_def)
  ultimately show ?thesis
    using assms(1,5)
    by (simp add: sqlite_listSubscriptions_def page_rows_def Let_def steady_statements limit_offset_def)
qed

lemma delete_topic_refines:
  assumes "steady e" "holds_store (C_tables c) a" "storable a" "integrity a" "admissible (OpDeleteTopic arn) a"
  shows "fst (sqlite_run e (OpDeleteTopic arn) c) = fst (spec_run (OpDeleteTopic arn) a) \<and>
    holds_store (C_tables (snd (sqlite_run e (OpDeleteTopic arn) c))) (snd (spec_run (OpDeleteTopic arn) a))"
proof -
  let ?t = "C_tables c"
  have list: "sqlite_listSubscriptions e arn [] 100000 c' w = (Inr (spec_subs a arn, []), c'\<lparr>C_count := Suc (C_count c')\<rparr>, w)"
    if "C_tables c' = ?t" for c' and w :: unit
    using assms that by (intro listed_subs) simp_all
  have found: "E_json_extract e (JR_payload_json (job_row j)) = Inr (Some (Pay_TopicARN (Job_Payload j)))"
    if "fmlookup (A_jobs a) k = Some j" for k j
    using assms(1,3) that by (simp add: steady_def storable_def job_storable_def job_row_def)
  have jobs: "delete_topic_jobs e arn t =
      Inr (t\<lparr>T_delivery_jobs := fmmap_keys (\<lambda>_. job_row) (fmkeep (\<lambda>j. Pay_TopicARN (Job_Payload j) \<noteq> arn) (A_jobs a))\<rparr>)"
    if "T_delivery_jobs t = fmmap_keys (\<lambda>_. job_row) (A_jobs a)" for t
  proof -
    have "filter (\<lambda>row. is_err (E_json_extract e (JR_payload_json row))) (map snd (sorted_entries (T_delivery_jobs t))) = []"
      using found by (auto simp: that entries_fmmap_keys filter_empty_conv sorted_entries_keys)
    moreover have "fmkeep (\<lambda>row. E_json_extract e (JR_payload_json row) \<noteq> Inr (Some arn)) (T_delivery_jobs t) =
        fmmap_keys (\<lambda>_. job_row) (fmkeep (\<lambda>j. Pay_TopicARN (Job_Payload j) \<noteq> arn) (A_jobs a))"
      using found unfolding that by (intro fmap_ext) (auto split: option.split)
    ultimately show ?thesis by (simp add: delete_topic_jobs_def)
  qed
  have tokens: "fmkeep (\<lambda>row. KR_topic_arn row \<noteq> arn) (fmmap_keys (\<lambda>_. token_row) (A_tokens a)) =
      fmmap_keys (\<lambda>_. token_row) (fmkeep (\<lambda>k. Tok_TopicARN k \<noteq> arn) (A_tokens a))"
    by (intro fmap_ext) (auto simp: token_row_def split: option.split)
  have subs: "fmkeep (\<lambda>row. SR_topic_arn row \<noteq> arn) (fmmap_keys sub_row (A_subs a)) =
      fmmap_keys sub_row (fmkeep (\<lambda>s. Sub_TopicARN s \<noteq> arn) (A_subs a))"
    by (intro fmap_ext) (auto simp: sub_row_def split: option.split)
  have spec: "spec_DeleteTopic arn a =
      a\<lparr>A_topics := fmdrop arn (A_topics a), A_subs := fmkeep (\<lambda>s. Sub_TopicARN s \<noteq> arn) (A_subs a),
        A_tokens := fmkeep (\<lambda>k. Tok_TopicARN k \<noteq> arn) (A_tokens a),
        A_jobs := fmkeep (\<lambda>j. Pay_TopicARN (Job_Payload j) \<noteq> arn) (A_jobs a)\<rparr>"
    and gone: "fmlookup (A_topics a) arn = None \<Longrightarrow> fmkeep (\<lambda>s. Sub_TopicARN s \<noteq> arn) (A_subs a) = A_subs a"
  proof -
    have refs: "refs_ok a" using assms(4) by (simp add: integrity_def)
    have none: "fmdrop arn (A_topics a) = A_topics a \<and> fmkeep (\<lambda>s. Sub_TopicARN s \<noteq> arn) (A_subs a) = A_subs a \<and>
        fmkeep (\<lambda>k. Tok_TopicARN k \<noteq> arn) (A_tokens a) = A_tokens a \<and>
        fmkeep (\<lambda>j. Pay_TopicARN (Job_Payload j) \<noteq> arn) (A_jobs a) = A_jobs a" if n: "fmlookup (A_topics a) arn = None"
      using refs n unfolding refs_ok_def by (intro conjI; intro fmap_ext; fastforce split: option.split)
    then show "fmlookup (A_topics a) arn = None \<Longrightarrow> fmkeep (\<lambda>s. Sub_TopicARN s \<noteq> arn) (A_subs a) = A_subs a" by blast
    show "spec_DeleteTopic arn a =
        a\<lparr>A_topics := fmdrop arn (A_topics a), A_subs := fmkeep (\<lambda>s. Sub_TopicARN s \<noteq> arn) (A_subs a),
          A_tokens := fmkeep (\<lambda>k. Tok_TopicARN k \<noteq> arn) (A_tokens a),
          A_jobs := fmkeep (\<lambda>j. Pay_TopicARN (Job_Payload j) \<noteq> arn) (A_jobs a)\<rparr>"
      using none by (cases "fmlookup (A_topics a) arn") (simp_all add: spec_DeleteTopic_def)
  qed
  have row: "(if fmlookup (T_topics ?t) arn \<noteq> None then fmkeep (\<lambda>row. SR_topic_arn row \<noteq> arn) (T_subscriptions ?t) else T_subscriptions ?t) =
      fmmap_keys sub_row (fmkeep (\<lambda>s. Sub_TopicARN s \<noteq> arn) (A_subs a))"
    using assms(2) gone subs by (cases "fmlookup (A_topics a) arn") (simp_all add: holds_store_def)
  show ?thesis
    using assms(1,2) list jobs tokens row spec
    by (simp add: sqlite_Store_DeleteTopic_def sqlite_DeleteTopic_def steady_statements sql_bind_def sql_return_def sqlite_answer_def
        delete_topic_row_def delete_topic_tokens_def holds_store_def)
qed

lemma subscription_refines:
  assumes "steady e" "holds_store (C_tables c) a" "storable a" "integrity a" "admissible op a"
    "op = OpCreateSubscription s \<or> op = OpUpdateSubscription arn f \<or> op = OpDeleteSubscription arn"
  shows "fst (sqlite_run e op c) = fst (spec_run op a) \<and> holds_store (C_tables (snd (sqlite_run e op c))) (snd (spec_run op a))"
  using assms(6)
proof (elim disjE)
  assume op: "op = OpCreateSubscription s"
  with assms(2,5) have "insert_sub True s (C_tables c) =
      Inr (C_tables c\<lparr>T_subscriptions := fmupd (Sub_ARN s) (sub_row (Sub_ARN s) s) (T_subscriptions (C_tables c))\<rparr>)"
    by (auto simp: insert_sub_def holds_store_def has_topic_in_def)
  with assms(1,2) op show ?thesis
    by (simp add: sqlite_Store_CreateSubscription_def sqlite_CreateSubscription_def steady_statements sqlite_answer_def holds_store_def
        spec_CreateSubscription_def fmmap_keys_fmupd)
next
  assume op: "op = OpUpdateSubscription arn f"
  show ?thesis
  proof (cases "fmlookup (A_subs a) arn")
    case None
    then show ?thesis using assms(1-3)
      by (simp add: op sqlite_Store_UpdateSubscription_def sqlite_UpdateSubscription_def steady_statements sql_bind_def getters_read
          sqlite_answer_def spec_UpdateSubscription_def run_update_def spec_GetSubscription_def)
  next
    case (Some u)
    have upd: "update_sub_row True arn u' (C_tables c) =
        Inr (C_tables c\<lparr>T_subscriptions := fmupd arn (sub_row arn u') (T_subscriptions (C_tables c))\<rparr>)" if "f u = Inr u'" for u'
    proof -
      have "Sub_TopicARN u' = Sub_TopicARN u" using assms(5) op that by simp
      moreover have "fmlookup (A_topics a) (Sub_TopicARN u) \<noteq> None" using assms(4) Some unfolding integrity_def refs_ok_def by blast
      ultimately show ?thesis using Some assms(2) by (simp add: update_sub_row_def holds_store_def)
    qed
    show ?thesis
      using assms(1-3) Some upd
      by (cases "f u") (simp_all add: op sqlite_Store_UpdateSubscription_def sqlite_UpdateSubscription_def steady_statements sql_bind_def
          getters_read sqlite_answer_def spec_UpdateSubscription_def run_update_def spec_GetSubscription_def sql_callback_def
          pure_callback_def sql_return_def first_of_def holds_store_def fmmap_keys_fmupd)
  qed
next
  assume op: "op = OpDeleteSubscription arn"
  have "fmkeep (\<lambda>row. KR_subscription_arn row \<noteq> Some arn) (fmmap_keys (\<lambda>_. token_row) (A_tokens a)) =
      fmmap_keys (\<lambda>_. token_row) (fmkeep (\<lambda>k. Tok_SubscriptionARN k \<noteq> arn) (A_tokens a))"
    using assms(5) op by (intro fmap_ext) (auto simp: token_row_def nullIfEmpty_def split: option.split)
  then show ?thesis
    using assms(1-3)
    by (cases "fmlookup (A_subs a) arn") (simp_all add: op sqlite_Store_DeleteSubscription_def sqlite_DeleteSubscription_def
        steady_statements sql_bind_def sql_return_def getters_read sqlite_answer_def spec_GetSubscription_def spec_DeleteSubscription_def
        holds_store_def)
qed

lemma sqlite_refines:
  assumes "steady e" "holds_store (C_tables c) a" "storable a" "integrity a" "admissible op a"
  shows "fst (sqlite_run e op c) = fst (spec_run op a) \<and> holds_store (C_tables (snd (sqlite_run e op c))) (snd (spec_run op a))"
proof (cases op)
  case (OpCreateTopic t)
  with create_topic_refines [OF assms(1-3)] assms(5) show ?thesis by blast
next
  case (OpUpdateTopic arn f)
  with update_topic_refines [OF assms(1-4)] assms(5) show ?thesis by blast
next
  case (OpDeleteTopic arn)
  with delete_topic_refines [OF assms(1-4)] assms(5) show ?thesis by blast
next
  case (OpUpdateDeliveryJob jid f)
  show ?thesis
  proof (cases "fmlookup (A_jobs a) jid")
    case None
    then show ?thesis using assms(1-3)
      by (simp add: OpUpdateDeliveryJob sqlite_Store_UpdateDeliveryJob_def steady_statements sql_bind_def getters_read sqlite_answer_def first_of_def)
  next
    case (Some j)
    have k: "Job_ID j' = jid \<and> CopyDeliveryJobPayload (Job_Payload j') = Job_Payload j'" if "f j = Inr j'" for j'
    proof -
      have "Job_ID j = jid" using assms(4) Some unfolding integrity_def keyed_def by blast
      moreover have "job_storable j'" "Job_ID j' = Job_ID j" using assms(3,5) OpUpdateDeliveryJob Some that by (auto simp: storable_def)
      ultimately show ?thesis by (simp add: job_storable_def CopyDeliveryJobPayload_def)
    qed
    show ?thesis
      using assms(1-3) Some k
      by (cases "f j") (simp_all add: OpUpdateDeliveryJob sqlite_Store_UpdateDeliveryJob_def steady_statements sql_bind_def getters_read
          sqlite_answer_def first_of_def sql_callback_def pure_callback_def sql_return_def saveDeliveryJob_def holds_store_def fmmap_keys_fmupd)
  qed
qed (use assms subscription_refines [OF assms] in
  \<open>simp_all add: getters_read find_read steady_statements sqlite_answer_def holds_store_def fmmap_keys_fmupd ignore_def
    sqlite_Store_PutConfirmationToken_def sqlite_PutConfirmationToken_def spec_PutConfirmationToken_def
    sqlite_Store_DeleteConfirmationToken_def sqlite_DeleteConfirmationToken_def spec_DeleteConfirmationToken_def
    sqlite_Store_EnqueueDeliveryJob_def saveDeliveryJob_def spec_EnqueueDeliveryJob_def sqlite_Store_DeleteDeliveryJob_def
    spec_DeleteDeliveryJob_def\<close>)

subsection \<open>The stores agree\<close>

lemma spec_run_storable:
  assumes "storable a" "admissible op a"
  shows "storable (snd (spec_run op a))"
proof (cases op)
  case (OpUpdateTopic arn f)
  with assms show ?thesis
    by (cases "fmlookup (A_topics a) arn"; cases "f (the (fmlookup (A_topics a) arn))")
      (auto simp: storable_def spec_UpdateTopic_def run_update_def pure_callback_def)
next
  case (OpUpdateSubscription arn f)
  with assms show ?thesis
    by (cases "fmlookup (A_subs a) arn"; cases "f (the (fmlookup (A_subs a) arn))")
      (auto simp: storable_def spec_UpdateSubscription_def run_update_def pure_callback_def)
next
  case (OpDeleteTopic arn)
  with assms(1) show ?thesis by (auto simp: storable_def spec_DeleteTopic_def fmkeep_Some split: option.split if_splits)
next
  case (OpDeleteSubscription arn)
  with assms(1) show ?thesis by (auto simp: storable_def spec_DeleteSubscription_def fmkeep_Some split: option.split if_splits)
next
  case (OpUpdateDeliveryJob jid f)
  with assms show ?thesis
    by (cases "fmlookup (A_jobs a) jid"; cases "f (the (fmlookup (A_jobs a) jid))") (auto simp: storable_def)
qed (use assms in \<open>auto simp: storable_def spec_defs split: if_splits\<close>)

fun final_of :: "(store_op \<Rightarrow> 's \<Rightarrow> answer \<times> 's) \<Rightarrow> store_op list \<Rightarrow> 's \<Rightarrow> 's" where
  "final_of run [] s = s"
| "final_of run (op # ops) s = final_of run ops (snd (run op s))"

lemma answers_append: "answers_of run (xs @ ys) s = answers_of run xs s @ answers_of run ys (final_of run xs s)"
  by (induction xs arbitrary: s) (auto split: prod.split)

lemma admissible_append:
  "admissible_run (xs @ ys) a \<longleftrightarrow> admissible_run xs a \<and> admissible_run ys (final_of spec_run xs a)"
  by (induction xs arbitrary: a) simp_all

text \<open>Both stores hold the same records.\<close>

definition same_records :: "Engine \<Rightarrow> conn \<Rightarrow> mstate \<Rightarrow> bool" where
  "same_records e c s \<longleftrightarrow>
     mem_inv s \<and> integrity (mem_abs s) \<and> storable (mem_abs s) \<and> holds_store (C_tables c) (mem_abs s)"

lemma run_agrees:
  assumes "steady e" "same_records e c s" "admissible_run ops (mem_abs s)"
  shows "answers_of (sqlite_run e) ops c = answers_of memory_run ops s \<and>
    same_records e (final_of (sqlite_run e) ops c) (final_of memory_run ops s) \<and>
    mem_abs (final_of memory_run ops s) = final_of spec_run ops (mem_abs s)"
  using assms(2,3)
proof (induction ops arbitrary: c s)
  case (Cons op ops)
  have inv: "mem_inv s" "integrity (mem_abs s)" "storable (mem_abs s)" "holds_store (C_tables c) (mem_abs s)"
    using Cons.prems(1) by (simp_all add: same_records_def)
  have ok: "admissible op (mem_abs s)" "admissible_run ops (snd (spec_run op (mem_abs s)))" using Cons.prems(2) by simp_all
  note m = memory_refines [OF inv(1,2) ok(1)]
  note q = sqlite_refines [OF assms(1) inv(4,3,2) ok(1)]
  have "same_records e (snd (sqlite_run e op c)) (snd (memory_run op s))"
    using m q spec_run_integrity [OF inv(2) ok(1)] spec_run_storable [OF inv(3) ok(1)] by (simp add: same_records_def)
  from Cons.IH [OF this] ok(2) m q show ?case by (simp add: case_prod_beta)
qed simp

lemma open_keeps:
  assumes "steady e" "TrimSpace path \<noteq> []" "sqlite_Open e (Inr ()) path now c w = (r, c', w')"
  shows "holds_store (C_tables c') a = holds_store (C_tables c) a"
proof -
  have all: "exec_all e (replicate n Inr) c w = (Inr (), c\<lparr>C_count := C_count c + n\<rparr>, w)" for n c and w :: 'a
    using assms(1) by (induction n arbitrary: c) (simp_all add: sql_return_def sql_bind_def steady_statements)
  show ?thesis
    using assms unfolding sqlite_Open_def migrate_def
    by (auto simp: sql_bind_def sql_res_def all steady_statements holds_store_def split: if_splits)
qed

lemma same_records_empty: "C_tables c = no_tables \<Longrightarrow> same_records e c NewStore"
  by (simp add: same_records_def holds_store_def mem_abs_def NewStore_def no_tables_def mem_inv_def topicSubs_def integrity_defs
      storable_def fmap_ext)

text \<open>C9: A client cannot tell the persistent store from the one in memory.  Take any run of operations of the store interface,
  made on a new database and continued after the process was restarted on its file, and the same run on the memory store: every
  operation gets the same answer, records, errors and all, provided the operations are admissible (in particular, ARNs are not
  reused, texts are UTF-8 and times have years of four digits), no statement fails and foreign keys are enforced.\<close>

theorem stores_agree:
  assumes "steady e" "TrimSpace path \<noteq> []"
    and "sqlite_Open e (Inr ()) path now \<lparr>C_tables = no_tables, C_count = 0\<rparr> () = (r, c, u)"
    and "sqlite_Open e (Inr ()) path later (final_of (sqlite_run e) before c) () = (r', c', u')"
    and "admissible_run (before @ after) (mem_abs NewStore)"
  shows "answers_of (sqlite_run e) before c @ answers_of (sqlite_run e) after c' = answers_of memory_run (before @ after) NewStore"
proof -
  have ok: "admissible_run before (mem_abs NewStore)" "admissible_run after (final_of spec_run before (mem_abs NewStore))"
    using assms(5) by (simp_all add: admissible_append)
  have "same_records e c NewStore"
    using same_records_empty [of "\<lparr>C_tables = no_tables, C_count = 0\<rparr>" e] open_keeps [OF assms(1-3)] by (simp add: same_records_def)
  from run_agrees [OF assms(1) this ok(1)] have b: "answers_of (sqlite_run e) before c = answers_of memory_run before NewStore"
    "same_records e (final_of (sqlite_run e) before c) (final_of memory_run before NewStore)"
    "mem_abs (final_of memory_run before NewStore) = final_of spec_run before (mem_abs NewStore)" by blast+
  have "same_records e c' (final_of memory_run before NewStore)"
    using b(2) open_keeps [OF assms(1,2,4)] by (simp add: same_records_def)
  from run_agrees [OF assms(1) this] ok(2) b(3) have "answers_of (sqlite_run e) after c' = answers_of memory_run after (final_of memory_run before NewStore)"
    by simp
  with b(1) show ?thesis by (simp add: answers_append)
qed

subsection \<open>Printed times\<close>

text \<open>A fraction of zero is not printed, and the letter that ends the text comes after the period: an instant on a full second is
  greater, as text, than every later one within that second.\<close>

lemma append_le_iff: "(p @ x \<le> p @ y) = ((x :: string) \<le> y)"
  by (induction p) simp_all

lemma full_second_order:
  assumes "t mod 1000000000 = 0" "0 < f" "f < 1000000000"
  shows "formatTime (t + f) < formatTime t"
proof -
  define q where "q = t div 1000000000"
  have q: "t = 1000000000 * q" using div_mult_mod_eq [of t 1000000000] assms(1) by (simp add: q_def)
  have d: "t div 1000000000 = q" "(t + f) div 1000000000 = q" "(t + f) mod 1000000000 = f" using assms(2,3) by (simp_all add: q)
  obtain y m dd where c: "civil_of_days (q div 86400) = (y, m, dd)" by (metis prod_cases3)
  define p where "p = pad_int 4 y @ ''-'' @ pad_int 2 m @ ''-'' @ pad_int 2 dd @ ''T'' @ pad_int 2 (q mod 86400 div 3600) @ '':'' @
    pad_int 2 (q mod 86400 div 60 mod 60) @ '':'' @ pad_int 2 (q mod 86400 mod 60)"
  have "formatTime t = p @ ''Z''"
    by (simp only: formatTime_def format_rfc3339_def Let_def d c prod.case p_def assms(1) fraction_text_def append.assoc append.simps if_True simp_thms)
  moreover obtain r where "formatTime (t + f) = p @ CHR ''.'' # r"
    using assms(2) by (simp add: formatTime_def format_rfc3339_def Let_def d c p_def fraction_text_def del: One_nat_def)
  moreover have "\<not> ''Z'' \<le> CHR ''.'' # r" for r by (simp add: less_char_def)
  ultimately show ?thesis by (metis append_le_iff linorder_not_le)
qed

text \<open>So a job that falls due on a full second is not listed by the SQLite store during that second, though it is due and the
  memory store lists it.\<close>

lemma whole_second_jobs_wait:
  assumes "steady e" "same_records e c s" "fmlookup (deliveryJobs s) jid = Some j"
    and "Job_NextAttemptAt j mod 1000000000 = 0" "0 < f" "f < 1000000000" "now = Job_NextAttemptAt j + f"
    and "sqlite_ListReadyDeliveryJobs e now n c w = (Inr jobs, c', w')"
  shows "j \<notin> set jobs \<and> j \<in> set (ListReadyDeliveryJobs s now 0)"
proof
  have holds: "T_delivery_jobs (C_tables c) = fmmap_keys (\<lambda>_. job_row) (deliveryJobs s)" "storable (mem_abs s)"
    using assms(2) by (simp_all add: same_records_def holds_store_def)
  have rows: "row \<in> set (ready_rows (formatTime now) t) \<Longrightarrow>
      \<exists>k j'. fmlookup (deliveryJobs s) k = Some j' \<and> row = job_row j' \<and> formatTime (Job_NextAttemptAt j') \<le> formatTime now"
    if "T_delivery_jobs t = fmmap_keys (\<lambda>_. job_row) (deliveryJobs s)" for row t
  proof -
    have n: "JR_next_attempt_at (job_row j') = formatTime (Job_NextAttemptAt j')" for j' by (simp add: job_row_def)
    show "row \<in> set (ready_rows (formatTime now) t) \<Longrightarrow> ?thesis" by (auto simp: ready_rows_def that entries_fmmap_keys sorted_entries_keys n) blast
  qed
  have scan: "j' \<in> set js \<Longrightarrow> scan_all rs = Inr js \<Longrightarrow> \<exists>row \<in> set rs. scanDeliveryJob (Some row) = Inr j'" for j' js rs
    by (induction rs arbitrary: js) (fastforce split: sum.splits)+
  show "j \<notin> set jobs"
  proof
    assume "j \<in> set jobs"
    moreover have "scan_all (limit_offset (if n \<le> 0 then 100 else n) 0 (ready_rows (formatTime now) (C_tables c))) = Inr jobs"
      using assms(1,8)
      by (auto simp: sqlite_ListReadyDeliveryJobs_def sql_bind_def steady_statements sql_res_def sql_return_def Let_def split: sum.splits)
    ultimately obtain row where row: "row \<in> set (limit_offset (if n \<le> 0 then 100 else n) 0 (ready_rows (formatTime now) (C_tables c)))"
      "scanDeliveryJob (Some row) = Inr j" using scan by blast
    then have "row \<in> set (ready_rows (formatTime now) (C_tables c))"
      by (auto simp: limit_offset_def Let_def split: if_splits dest: in_set_takeD)
    then obtain k j' where j': "fmlookup (deliveryJobs s) k = Some j'" "row = job_row j'" "formatTime (Job_NextAttemptAt j') \<le> formatTime now"
      using rows [OF holds(1)] by blast
    then have "j' = j" using row(2) job_row_read [of j'] holds(2) by (simp add: storable_def)
    with j'(3) full_second_order [OF assms(4-6)] assms(7) show False by simp
  qed
  have "jid \<in> set (sorted_keys (deliveryJobs s))" using assms(3) by (simp add: fmlookup_dom_iff)
  with assms(3,5,7) show "j \<in> set (ListReadyDeliveryJobs s now 0)"
    by (force simp: ListReadyDeliveryJobs_def Let_def List.map_filter_def)
qed

subsection \<open>Pages of the SQLite store\<close>

definition rows_page :: "'k list \<Rightarrow> nat \<Rightarrow> string \<Rightarrow> ('k list \<times> string) res" where
  "rows_page keys sz t =
     (let out = limit_offset (wrap64 (int sz + 1)) (tokenOffset t) keys in
      Inr (if length out > sz then (take sz out, offsetToken (wrap64 (tokenOffset t + int sz))) else (out, [])))"

lemma tokenOffset_nonneg [simp]: "0 \<le> tokenOffset t"
  by (auto simp: tokenOffset_def split: option.split)

lemma tokenOffset_token:
  assumes "0 \<le> i" "in_int64 i"
  shows "tokenOffset (offsetToken i) = i"
proof -
  have ds: "Itoa i = digits_of 10 (nat i)" using assms(1) by (simp add: Itoa_def)
  have dig: "list_all dec_digit (Itoa i)" using digits_of_decimal by (simp add: ds)
  have plain: "plain_char c" if "dec_digit c" for c using that by (simp add: plain_char_def dec_digit_def)
  obtain c cs where c: "Itoa i = c # cs" by (cases "Itoa i") (simp_all add: ds)
  with dig have dc: "dec_digit c" by simp
  have "TrimSpace (Itoa i) = Itoa i"
  proof (rule TrimSpace_plain)
    show "Itoa i \<noteq> []" by (simp add: c)
    show "plain_char (hd (Itoa i))" "plain_char (last (Itoa i))"
      using dig plain by (auto simp: list_all_iff c)
  qed
  moreover have "scan_blanks (Itoa i) = Some (Itoa i)"
    using dc plain [OF dc]
    by (subst scan_blanks.simps) (auto simp: c HasPrefix_def dec_digit_def byte_value_def strip_any_head space_encodings_heads)
  moreover have "takeWhile dec_digit (Itoa i) = Itoa i" using dig by (simp add: list_all_iff takeWhile_eq_all_conv)
  moreover have "c \<noteq> CHR ''+''" "c \<noteq> CHR ''-''" using dc by (auto simp: dec_digit_def byte_value_def)
  ultimately show ?thesis using assms Atoi_Itoa [OF assms(2)] by (simp add: tokenOffset_def offsetToken_def sscanf_int_def c)
qed

interpretation sqlite_pages: paged_listing rows_page "\<lambda>t. nat (tokenOffset t)" page_fits
proof (unfold_locales, goal_cases)
  case (1 keys sz)
  then show ?case by (simp add: page_fits_def)
next
  case 2
  show ?case by (simp add: tokenOffset_def)
next
  case (3 keys sz t)
  define d where "d = nat (tokenOffset t)"
  then have d: "tokenOffset t = int d" by simp
  have sz: "length keys + sz < 2 ^ 63" "0 < sz" using 3 by (simp_all add: page_fits_def)
  have "in_int64 (int sz + 1) \<or> length keys = 0"
  proof (cases "length keys = 0")
    case False
    with sz(1) have "sz + 1 < 2 ^ 63" by linarith
    then have "in_int64 (int (sz + 1))" by (rule in_int64_of_nat)
    then show ?thesis by (simp add: add.commute)
  qed simp
  then have lmt: "limit_offset (wrap64 (int sz + 1)) (int d) keys = take (Suc sz) (drop d keys)"
    by (auto simp: limit_offset_def Let_def nat_add_distrib)
  show ?case
  proof (cases "d + sz < length keys")
    case True
    with sz have "d + sz < 2 ^ 63" by linarith
    then have "in_int64 (int (d + sz))" by (rule in_int64_of_nat)
    then have "in_int64 (int d + int sz)" by simp
    then have "tokenOffset (offsetToken (int d + int sz)) = int d + int sz" "wrap64 (int d + int sz) = int d + int sz"
      by (simp_all add: tokenOffset_token)
    moreover have "offsetToken x \<noteq> []" for x by (simp add: offsetToken_def)
    ultimately show ?thesis using True by (auto simp: rows_page_def d lmt Let_def min_def nat_add_distrib)
  next
    case False
    then show ?thesis by (auto simp: rows_page_def d lmt Let_def)
  qed
qed

lemma limit_offset_map: "limit_offset m n (map g xs) = map g (limit_offset m n xs)"
  by (simp add: limit_offset_def Let_def take_map drop_map)

lemma page_rows_page:
  assumes "steady e" "0 < sz" "\<forall>(raw, r) \<in> set kvs. decode raw = Inr r" "sel (C_tables c) = map fst kvs"
  shows "fst (page_rows e decode sel t (int sz) c w) = rows_page (map snd kvs) sz t"
proof -
  have decoded: "all_some (map (\<lambda>raw. case decode raw of Inl _ \<Rightarrow> None | Inr r \<Rightarrow> Some r) (map fst xs)) = Some (map snd xs)"
    if "\<forall>(raw, r) \<in> set xs. decode raw = Inr r" for xs
    using that by (induction xs) auto
  let ?rows = "limit_offset (wrap64 (int sz + 1)) (tokenOffset t) kvs"
  have "set ?rows \<subseteq> set kvs" by (auto simp: limit_offset_def Let_def split: if_splits dest: in_set_takeD in_set_dropD)
  then have "\<forall>(raw, r) \<in> set ?rows. decode raw = Inr r" using assms(3) by blast
  then have "all_some (map (\<lambda>raw. case decode raw of Inl _ \<Rightarrow> None | Inr r \<Rightarrow> Some r) (map fst ?rows)) = Some (map snd ?rows)"
    by (rule decoded)
  with assms show ?thesis
    by (simp add: page_rows_def Let_def steady_statements rows_page_def limit_offset_map take_map)
qed

text \<open>A client that follows the page tokens of the SQLite store gets every topic once, by ARN.\<close>

lemma sqlite_topics_listed:
  assumes "steady e" "holds_store (C_tables c) a" "storable a" "0 < sz" "size (fmdom (A_topics a)) + sz < 2 ^ 63"
  shows "walk (\<lambda>t. fst (sqlite_listTopics e t (int sz) c w)) (Suc (size (fmdom (A_topics a)))) [] = Some (map snd (sorted_entries (A_topics a)))"
proof -
  let ?kvs = "map (\<lambda>(k, t). (TR_data_json (topic_row k t), t)) (sorted_entries (A_topics a))"
  have dec: "\<forall>(raw, r) \<in> set ?kvs. fromJSON topic_fields zeroTopic raw = Inr r"
    using assms(3) by (auto simp: sorted_entries_keys storable_def rows_read)
  have texts: "topic_texts (C_tables c) = map fst ?kvs"
    using assms(2) by (auto simp: topic_texts_def holds_store_def entries_fmmap_keys)
  have page: "(\<lambda>t. fst (sqlite_listTopics e t (int sz) c w)) = rows_page (map snd ?kvs) sz"
    unfolding sqlite_listTopics_def by (rule ext) (rule page_rows_page [OF assms(1,4) dec, of topic_texts c, OF texts])
  have kv: "map snd ?kvs = map snd (sorted_entries (A_topics a))" by auto
  have len: "length (sorted_entries (A_topics a)) = size (fmdom (A_topics a))"
  proof -
    have "length (sorted_entries (A_topics a)) = length (sorted_keys (A_topics a))" by (metis length_map sorted_entries_keys(1))
    then show ?thesis by (simp add: sorted_keys_def sorted_list_of_fset.rep_eq)
  qed
  show ?thesis unfolding page kv by (rule sqlite_pages.walk_all) (use assms(4,5) len in \<open>simp_all add: page_fits_def\<close>)
qed

subsection \<open>Concrete instances\<close>

definition sample_engine :: Engine where
  "sample_engine =
     \<lparr>E_fault = (\<lambda>_. None), E_rows = (\<lambda>_. None), E_foreign_keys = (\<lambda>_. True),
      E_json_extract = (\<lambda>raw. case fromJSON payload_fields zeroPayload raw of Inl e \<Rightarrow> Inl e | Inr p \<Rightarrow> Inr (Some (Pay_TopicARN p)))\<rparr>"

lemma sample_engine_steady: "steady sample_engine"
  by (simp add: steady_def sample_engine_def stored_structs_read)

lemma sample_topic_storable: "topic_storable sample_topic"
proof -
  have "list_all valid_utf8 [''arn:aws:sns:us-east-1:1:t'', ''t'', ''1'', ''us-east-1'', [], ''PassThrough'', ''Topic'']"
    by (simp only: list.pred_inject) (intro conjI TrueI valid_utf8_ascii; simp add: byte_value_def)
  moreover have "year_in_range 0" by code_simp
  ultimately show ?thesis
    by (simp add: topic_storable_def sample_topic_def texts_ok_def FifoThroughputTopic_def in_int64_def)
qed

theorem stores_agree_witness:
  "let create = [OpCreateTopic sample_topic]; read = [OpGetTopic (Topic_ARN sample_topic)];
       c = fst (snd (sqlite_Open sample_engine (Inr ()) ''sns.db'' 0 \<lparr>C_tables = no_tables, C_count = 0\<rparr> ()));
       c' = fst (snd (sqlite_Open sample_engine (Inr ()) ''sns.db'' 1 (final_of (sqlite_run sample_engine) create c) ()))
   in answers_of (sqlite_run sample_engine) create c @ answers_of (sqlite_run sample_engine) read c' =
      [Done (Inr ()), ATopic (Inr sample_topic)]"
proof -
  let ?c = "fst (snd (sqlite_Open sample_engine (Inr ()) ''sns.db'' 0 \<lparr>C_tables = no_tables, C_count = 0\<rparr> ()))"
  let ?c' = "fst (snd (sqlite_Open sample_engine (Inr ()) ''sns.db'' 1 (final_of (sqlite_run sample_engine) [OpCreateTopic sample_topic] ?c) ()))"
  have "TrimSpace ''sns.db'' \<noteq> []" by code_simp
  moreover have "admissible_run ([OpCreateTopic sample_topic] @ [OpGetTopic (Topic_ARN sample_topic)]) (mem_abs NewStore)"
    using sample_topic_storable by (simp add: NewStore_def mem_abs_def)
  ultimately have "answers_of (sqlite_run sample_engine) [OpCreateTopic sample_topic] ?c @
      answers_of (sqlite_run sample_engine) [OpGetTopic (Topic_ARN sample_topic)] ?c' =
      answers_of memory_run ([OpCreateTopic sample_topic] @ [OpGetTopic (Topic_ARN sample_topic)]) NewStore"
    by (intro stores_agree [OF sample_engine_steady, of "''sns.db''" 0 _ ?c _ 1 _ _ ?c']) (auto simp: prod_eq_iff)
  then show ?thesis
    by (simp add: Let_def memory_answer_def Store_CreateTopic_def Tx_cases tx_CreateTopic_def NewStore_def getTopic_def)
qed

end
