(* ===== verification/Spec2Isabelle.thy ===== *)
theory Spec2Isabelle
  imports Daemon Lifecycle Memory_Concurrency Store_Agreement
begin

text \<open>
  A verification library of the SNS emulator (\<^verbatim>\<open>src/\<close>, Go): an HTTP server that speaks the query protocol of
  Amazon SNS, keeps topics, subscriptions, confirmation tokens and delivery jobs in a store, and delivers
  published messages to SQS queues and HTTP endpoints.

  \<^bold>\<open>The program and its parts.\<close>  A request enters \<^verbatim>\<open>internal/api/server.go\<close>, which parses its form, has
  \<^verbatim>\<open>internal/auth/sigv4.go\<close> verify its signature and calls one operation of \<^verbatim>\<open>internal/service/service.go\<close>.
  The operation checks the policy of the topic (\<^verbatim>\<open>internal/policy\<close>), reads and writes the store through transactions
  (\<^verbatim>\<open>internal/store/memory\<close> or \<^verbatim>\<open>internal/store/sqlite\<close>), filters subscriptions (\<^verbatim>\<open>internal/filter\<close>), signs messages
  (\<^verbatim>\<open>internal/signing\<close>), sends to queues at once (\<^verbatim>\<open>internal/protocol/sqs\<close>) and files jobs for HTTP endpoints.
  The worker (\<^verbatim>\<open>internal/service/worker.go\<close>) polls the due jobs, delivers them through
  \<^verbatim>\<open>internal/protocol/http\<close> and retries as \<^verbatim>\<open>internal/delivery\<close> prescribes.  \<^verbatim>\<open>cmd/snsd/main.go\<close> puts the parts together.

  \<^bold>\<open>How the code is modelled.\<close>  A struct is a record, with the names of its fields behind a prefix; a string is its bytes;
  \<^verbatim>\<open>int\<close> is an integer with the wrap-around of 64 bits written out where it can occur; a map is a finite map, or the
  list of its entries in the order \<^verbatim>\<open>range\<close> visits them where that order can be observed; a pointer that may be nil is an
  option; an error is a value of \<^verbatim>\<open>go_error\<close>, a run-time panic among them.  An operation of the service runs on the
  store and a world (\<^verbatim>\<open>Service_Base\<close>): the number of readings of the clocks and of the random source, and the calls made to
  queues and endpoints.  Clocks, random bytes, network, the faults of the SQL engine, RSA and X.509 and the order of map iteration are parameters,
  so every behaviour of theirs is covered.  Of Go's library the development models what the program uses:
  strings, numbers, float64 rounding, JSON, time, SHA-1 and SHA-256, HMAC, base64, URLs and forms, media types, XML
  escaping, IP prefixes and the regular expressions of wildcards.

  \<^bold>\<open>Theories.\<close>
  \<^item> Ground: \<^verbatim>\<open>Prelude\<close> (errors, integers, finite maps), \<^verbatim>\<open>Go_Strings\<close> (with the locale \<^verbatim>\<open>codec\<close> of
    round trips), \<^verbatim>\<open>Go_Number\<close>, \<^verbatim>\<open>Go_Float\<close>, \<^verbatim>\<open>Go_JSON\<close>, \<^verbatim>\<open>Go_Time\<close>, \<^verbatim>\<open>Go_Crypto\<close>, \<^verbatim>\<open>Go_NetIP\<close>, \<^verbatim>\<open>Go_URL\<close>, \<^verbatim>\<open>Go_HTTP\<close>, \<^verbatim>\<open>Go_XML\<close>.
  \<^item> \<^verbatim>\<open>Util\<close>, \<^verbatim>\<open>Domain\<close>: \<^verbatim>\<open>internal/util\<close> and \<^verbatim>\<open>internal/domain/types.go\<close>; ARNs are read back, FIFO sequence numbers
    increase.
  \<^item> \<^verbatim>\<open>Paging\<close>, \<^verbatim>\<open>Store_Spec\<close>, \<^verbatim>\<open>Memory_Store\<close>: page tokens; what a store promises, as abstract operations and the locale
    \<^verbatim>\<open>sns_store\<close> whose lemmas show that every operation keeps referential integrity; the memory store with its
    indexes, an interpretation of the locale.  Deletion is complete, listings page through everything once, due jobs come in
    order.
  \<^item> \<^verbatim>\<open>Memory_Concurrency\<close>: transactions of the memory store that overlap in time; what each keeps is kept by all,
    transactions one after the other are serial, and overlapping ones lose updates.
  \<^item> \<^verbatim>\<open>Domain_JSON\<close>, \<^verbatim>\<open>SQLite_Store\<close>, \<^verbatim>\<open>Store_Agreement\<close>: the JSON texts of the stored structs, which are read back as they
    were written; the persistent store, statement by statement on its tables; both stores as refinements of the abstract
    operations, so that they answer alike, also across a restart, and where the listing of due jobs differs.  The service and
    the start-up run on the memory store; what they rely on holds of the other by this agreement.
  \<^item> \<^verbatim>\<open>Delivery\<close>, \<^verbatim>\<open>Policy\<close>, \<^verbatim>\<open>Filter_Policy\<close>, \<^verbatim>\<open>Signing\<close>, \<^verbatim>\<open>HTTP_Adapter\<close>: the packages of the same names; bounds of
    the retry delays, the decision of a policy, the meaning of a filter, injectivity of the signed text, what an
    endpoint receives and what its answers mean.
  \<^item> \<^verbatim>\<open>Service_Base\<close>, \<^verbatim>\<open>Service\<close>, \<^verbatim>\<open>Service_Ops\<close>, \<^verbatim>\<open>Worker\<close>: sequencing of effects with a logic of triples, the
    helpers and the operations of the service, the worker; a job's outcome on every branch, a bound on the
    attempts, and that the worker empties its queue.
  \<^item> \<^verbatim>\<open>Service_Inv\<close>, \<^verbatim>\<open>Service_Safety\<close>, \<^verbatim>\<open>Emulator\<close>, \<^verbatim>\<open>Lifecycle\<close>: the invariant of the service, kept by every operation
    whether it succeeds or fails; the emulator as a transition system with its reachable states; access
    control, deduplication, confirmation tokens, batches.
  \<^item> \<^verbatim>\<open>SQS_Adapter\<close>, \<^verbatim>\<open>Sigv4\<close>: the SQS client over HTTP and the verification of signatures, both against what the other
    side reads and writes.
  \<^item> \<^verbatim>\<open>API_Parse\<close>, \<^verbatim>\<open>API_Server\<close>: reading the parameters of a request in whatever order Go ranges over the form; the handlers
    as a refinement of the service operations, the refusal of requests that are not admitted.
  \<^item> \<^verbatim>\<open>Daemon\<close>: start-up from the environment and the life of the signing key.  This theory adds the property that spans
    them all.

  \<^bold>\<open>Loops.\<close>  Recursion follows the data or has a measure.  The JSON parser and the walk over pages
  take fuel: the length of the text and one more than the number of keys are shown to suffice.  The worker's endless loop is
  modelled by its first \<open>n\<close> polls, for every \<open>n\<close>.

  \<^bold>\<open>Not modelled.\<close>
  \<^item> The SQL engine under \<^verbatim>\<open>internal/store/sqlite/store.go\<close>: which statements fail, where a result set breaks off, on which
    connection foreign keys hold and the function \<^verbatim>\<open>json_extract\<close> are parameters; transactions of this store that overlap are
    left to the engine's isolation.
  \<^item> \<^verbatim>\<open>internal/testsupport/harness.go\<close>: fake queues and endpoints for the tests, no part of the program.
  \<^item> RSA, the certificate template of \<^verbatim>\<open>generateProvider\<close> and the URL arithmetic of \<^verbatim>\<open>SigningCertURL\<close> are parameters
    of the provider.
  \<^item> Goroutines: requests and polls are steps that run to their end.  Overlapping transactions of the store are modelled
    on their own; overlapping requests on top of them are not.
  \<^item> Copies of structs (\<^verbatim>\<open>CopyTopic\<close> and its siblings) are the identity on values; logging and \<^verbatim>\<open>DebugString\<close> have no effect.
\<close>


subsection \<open>The emulator from its start\<close>

text \<open>C1: An emulator started on the memory store keeps its invariant through every sequence of HTTP requests, whoever sends
  them and whatever they contain, with polls of the delivery worker at any point between them: the store is
  well-formed and every topic, subscription, confirmation token and delivery job in it is valid.  This joins every
  part: the reading of forms, the verification of signatures, the dispatch of actions, the operations of the
  service, the worker and the store.\<close>

theorem started_emulator_invariant:
  assumes "main p = Inr (srv, s)" "mime_lower (TrimSpace (env p ''SNS_STORE'' ''memory'')) \<noteq> ''sqlite''"
    "\<And>k n. fair (P_range p k n)"
  shows "svc_inv (Srv_service srv) (fst (fold (event_run srv) events (s, w)))"
proof (rule reachable_inv, rule run_reachable)
  show "fair (Srv_range srv k n)" for k n using started_reachable(2) [OF assms(1,2)] assms(3) by simp
  show "reachable (Srv_service srv) (fst (s, w))" using started_reachable(1) [OF assms(1,2)] by simp
qed

theorem started_emulator_invariant_witness:
  "\<exists>srv s. main sample_platform = Inr (srv, s) \<and>
     svc_inv (Srv_service srv) (fst (fold (event_run srv) [Request sample_request (Inr []), Poll 10] (s, start_world)))"
proof -
  obtain srv s where m: "main sample_platform = Inr (srv, s)" using sample_started by blast
  have "mime_lower (TrimSpace (env sample_platform ''SNS_STORE'' ''memory'')) \<noteq> ''sqlite''" by code_simp
  with m show ?thesis
    using started_emulator_invariant [OF m, of "[Request sample_request (Inr []), Poll 10]" start_world]
    by (simp add: sample_platform_def)
qed

end
